(* ===== verification/BB_Prelude.thy ===== *)
theory BB_Prelude
  imports Main "HOL-Library.State_Monad" "HOL-Library.Word" "HOL-Library.Multiset"
    "HOL-Library.Sublist"
begin

text \<open>
  Shared vocabulary of the development. A Go function that talks to the outside world is a
  program in the state monad of the library theory \<open>State_Monad\<close>, over a type
  variable \<open>'w\<close> for the state of everything outside the repository (Redis, MongoDB,
  PostgreSQL, Kafka, the clock). A Go function that returns \<open>(T, error)\<close> returns a
  sum with the error on the left, one that returns \<open>error\<close> returns an option. A run
  that panics is a value of \<open>'a outcome\<close>.

  The theory holds the type synonyms, the loops the services share (\<open>for_each\<close>,
  \<open>for_try\<close>), the string functions of Go's package \<open>strings\<close> that the code uses,
  and the \<open>codec\<close> contract that every pair of mapping functions (entity to message
  and back) has to meet.
\<close>

named_theorems bb_run \<open>equations for running a program of the model in a state\<close>
named_theorems bb_law \<open>laws of an external system, unfolded\<close>

section \<open>Machine types of the source\<close>

type_synonym u64 = "64 word"
  \<comment> \<open>Go's \<open>uint64\<close>, and \<open>uint\<close> on the 64-bit targets of the images\<close>
type_synonym bytes = string
  \<comment> \<open>Go's \<open>[]byte\<close>; a \<open>char\<close> is a byte\<close>
type_synonym duration = int
  \<comment> \<open>Go's \<open>time.Duration\<close>: nanoseconds\<close>
type_synonym gotime = int
  \<comment> \<open>Go's \<open>time.Time\<close>: nanoseconds since the Unix epoch\<close>

abbreviation nanosecond_per_second :: int where
  "nanosecond_per_second \<equiv> 1000000000"

text \<open>Two's complement wrap-around of a 64-bit signed value, as \<open>time.Duration\<close> has it.\<close>

definition wrap64 :: "int \<Rightarrow> int" where
  "wrap64 x = (x + 2 ^ 63) mod 2 ^ 64 - 2 ^ 63"

lemma wrap64_id: "- (2 ^ 63) \<le> x \<Longrightarrow> x < 2 ^ 63 \<Longrightarrow> wrap64 x = x"
  by (simp add: wrap64_def)

lemma wrap64_bounds: "- (2 ^ 63) \<le> wrap64 x" "wrap64 x < 2 ^ 63"
proof -
  have "0 \<le> (x + 2 ^ 63) mod 2 ^ 64" "(x + 2 ^ 63) mod 2 ^ 64 < (2 ^ 64 :: int)"
    by simp_all
  then show "- (2 ^ 63) \<le> wrap64 x" "wrap64 x < 2 ^ 63"
    by (simp_all add: wrap64_def)
qed

lemma wrap64_add_left [simp]: "wrap64 (wrap64 x + y) = wrap64 (x + y)"
proof -
  have "(wrap64 x + y + 2 ^ 63) mod 2 ^ 64 = ((x + 2 ^ 63) mod 2 ^ 64 + y) mod 2 ^ 64"
    by (simp add: wrap64_def)
  also have "\<dots> = (x + y + 2 ^ 63) mod 2 ^ 64"
    by (simp add: mod_simps algebra_simps)
  finally show ?thesis by (simp add: wrap64_def)
qed

lemma wrap64_add_right [simp]: "wrap64 (x + wrap64 y) = wrap64 (x + y)"
  using wrap64_add_left [of y x] by (simp add: add.commute)

text \<open>Go's integer division truncates towards zero.\<close>

definition go_div :: "int \<Rightarrow> int \<Rightarrow> int" where
  "go_div a b = sgn a * sgn b * (\<bar>a\<bar> div \<bar>b\<bar>)"

lemma go_div_nonneg: "0 \<le> a \<Longrightarrow> 0 < b \<Longrightarrow> go_div a b = a div b"
  by (cases "a = 0") (simp_all add: go_div_def)

section \<open>Panics\<close>

datatype panic =
    NilDereference
  | IndexOutOfRange
  | SliceOutOfRange
  | TypeAssertion
  | ErrorPanic

datatype 'a outcome = Returned 'a | Panicked panic

primrec is_returned :: "'a outcome \<Rightarrow> bool" where
  "is_returned (Returned _) = True"
| "is_returned (Panicked _) = False"

section \<open>Running programs\<close>

abbreviation ret :: "'a \<Rightarrow> ('w, 'a) state" where
  "ret \<equiv> State_Monad.return"

lemmas [bb_run] = State_Monad.run_state_bind State_Monad.run_state_return

text \<open>\<open>for _, x := range xs \<open>{ f(x) }\<close>\<close> for a body without an early return.\<close>

primrec for_each :: "'a list \<Rightarrow> ('a \<Rightarrow> ('w, unit) state) \<Rightarrow> ('w, unit) state" where
  "for_each [] f = ret ()"
| "for_each (x # xs) f = do { f x; for_each xs f }"

text \<open>The same loop with a body that may return an error, which ends the function.\<close>

primrec for_try :: "'a list \<Rightarrow> ('a \<Rightarrow> ('w, 'e option) state) \<Rightarrow> ('w, 'e option) state" where
  "for_try [] f = ret None"
| "for_try (x # xs) f = do {
     r \<leftarrow> f x;
     case r of Some e \<Rightarrow> ret (Some e) | None \<Rightarrow> for_try xs f }"

text \<open>A loop that appends the results of its body to a list.\<close>

primrec for_collect :: "'a list \<Rightarrow> ('a \<Rightarrow> ('w, 'b list) state) \<Rightarrow> ('w, 'b list) state" where
  "for_collect [] f = ret []"
| "for_collect (x # xs) f = do { ys \<leftarrow> f x; zs \<leftarrow> for_collect xs f; ret (ys @ zs) }"

text \<open>An invariant of the body is an invariant of the loop.\<close>

lemma for_each_invariant:
  assumes "\<And>x w. x \<in> set xs \<Longrightarrow> I w \<Longrightarrow> I (snd (run_state (f x) w))" and "I w"
  shows "I (snd (run_state (for_each xs f) w))"
  using assms by (induction xs arbitrary: w) (auto simp: case_prod_beta)

lemma for_each_append:
  "run_state (for_each (xs @ ys) f) w =
   run_state (for_each ys f) (snd (run_state (for_each xs f) w))"
  by (induction xs arbitrary: w) (auto simp: case_prod_beta)

text \<open>A body that extends an observable log extends it once per element, in order.\<close>

lemma for_each_log:
  assumes "\<And>x w. x \<in> set xs \<Longrightarrow> log (snd (run_state (f x) w)) = log w @ g x"
  shows "log (snd (run_state (for_each xs f) w)) = log w @ concat (map g xs)"
  using assms by (induction xs arbitrary: w) (auto simp: case_prod_beta)

lemma for_try_invariant:
  assumes "\<And>x w. x \<in> set xs \<Longrightarrow> I w \<Longrightarrow> I (snd (run_state (f x) w))" and "I w"
  shows "I (snd (run_state (for_try xs f) w))"
  using assms by (induction xs arbitrary: w) (auto simp: case_prod_beta split: option.splits)

text \<open>A program that leaves a view of the outside world as it was.\<close>

definition keeps :: "('w \<Rightarrow> 'v) \<Rightarrow> ('w, 'a) state \<Rightarrow> bool" where
  "keeps view m \<longleftrightarrow> (\<forall>w. view (snd (run_state m w)) = view w)"

lemma keepsD: "keeps view m \<Longrightarrow> view (snd (run_state m w)) = view w"
  by (simp add: keeps_def)

lemma keeps_ret [simp]: "keeps view (ret x)"
  by (simp add: keeps_def)

lemma keeps_bind: "keeps view m \<Longrightarrow> (\<And>x. keeps view (f x)) \<Longrightarrow> keeps view (m \<bind> f)"
  by (simp add: keeps_def case_prod_beta)

lemma keeps_for_each: "(\<And>x. x \<in> set xs \<Longrightarrow> keeps view (f x)) \<Longrightarrow> keeps view (for_each xs f)"
  by (induction xs) (auto intro!: keeps_bind)

lemma keeps_for_collect:
  "(\<And>x. x \<in> set xs \<Longrightarrow> keeps view (f x)) \<Longrightarrow> keeps view (for_collect xs f)"
  by (induction xs) (auto intro!: keeps_bind)

section \<open>Order of first occurrence\<close>

definition first_occurrences :: "'a list \<Rightarrow> 'a list" where
  "first_occurrences xs = rev (remdups (rev xs))"

lemma first_occurrences_Nil [simp]: "first_occurrences [] = []"
  by (simp add: first_occurrences_def)

lemma first_occurrences_snoc [simp]:
  "first_occurrences (xs @ [x]) =
     (if x \<in> set xs then first_occurrences xs else first_occurrences xs @ [x])"
  by (simp add: first_occurrences_def)

lemma set_first_occurrences [simp]: "set (first_occurrences xs) = set xs"
  by (simp add: first_occurrences_def)

lemma distinct_first_occurrences [simp]: "distinct (first_occurrences xs)"
  by (simp add: first_occurrences_def)

section \<open>Sorting a slice\<close>

text \<open>
  \<open>sort.Slice(x, less)\<close> permutes \<open>x\<close> so that no element is followed by a smaller one; the
  documentation promises no stability, and the algorithm depends on the length. It is an
  argument of the definitions that sort, with this contract. Up to twelve elements the
  library sorts by insertion, which is the instance below.
\<close>

locale slice_sort =
  fixes lt :: "'a \<Rightarrow> 'a \<Rightarrow> bool" and srt :: "('a \<Rightarrow> 'a \<Rightarrow> bool) \<Rightarrow> 'a list \<Rightarrow> 'a list"
  assumes srt_mset: "mset (srt lt xs) = mset xs"
    and srt_sorted: "sorted_wrt (\<lambda>x y. \<not> lt y x) (srt lt xs)"
begin

lemma srt_set [simp]: "set (srt lt xs) = set xs"
  by (metis srt_mset set_mset_mset)

lemma srt_length [simp]: "length (srt lt xs) = length xs"
  by (metis srt_mset size_mset)

lemma srt_distinct_map: "distinct (map f (srt lt xs)) = distinct (map f xs)"
  by (metis srt_mset mset_map mset_eq_imp_distinct_iff)

lemma srt_Nil [simp]: "srt lt [] = []"
  by (metis srt_length length_0_conv)

end

primrec insert_slice :: "('a \<Rightarrow> 'a \<Rightarrow> bool) \<Rightarrow> 'a \<Rightarrow> 'a list \<Rightarrow> 'a list" where
  "insert_slice lt x [] = [x]"
| "insert_slice lt x (y # ys) = (if lt y x then y # insert_slice lt x ys else x # y # ys)"

definition insertion_sort :: "('a \<Rightarrow> 'a \<Rightarrow> bool) \<Rightarrow> 'a list \<Rightarrow> 'a list" where
  "insertion_sort lt xs = foldr (insert_slice lt) xs []"

lemma mset_insert_slice [simp]: "mset (insert_slice lt x xs) = add_mset x (mset xs)"
  by (induction xs) auto

lemma set_insert_slice [simp]: "set (insert_slice lt x xs) = insert x (set xs)"
  by (induction xs) auto

text \<open>The comparisons of the code compare an integer that belongs to each element.\<close>

lemma sorted_insert_slice:
  assumes "\<And>x y. lt x y \<longleftrightarrow> key x < (key y :: int)"
  shows "sorted_wrt (\<lambda>x y. \<not> lt y x) xs \<Longrightarrow> sorted_wrt (\<lambda>x y. \<not> lt y x) (insert_slice lt x xs)"
  by (induction xs) (auto simp: assms)

lemma insertion_sort_slice_sort:
  assumes "\<And>x y. lt x y \<longleftrightarrow> key x < (key y :: int)"
  shows "slice_sort lt insertion_sort"
proof
  fix xs :: "'a list"
  show "mset (insertion_sort lt xs) = mset xs"
    by (induction xs) (auto simp: insertion_sort_def)
  show "sorted_wrt (\<lambda>x y. \<not> lt y x) (insertion_sort lt xs)"
    by (induction xs) (auto simp: insertion_sort_def intro: sorted_insert_slice [OF assms])
qed

section \<open>Strings\<close>

text \<open>\<open>strings.Split(s, sep)\<close> for a separator of one byte: never empty.\<close>

fun Split :: "string \<Rightarrow> char \<Rightarrow> string list" where
  "Split [] c = [[]]"
| "Split (x # xs) c =
     (if x = c then [] # Split xs c
      else case Split xs c of [] \<Rightarrow> [[x]] | y # ys \<Rightarrow> (x # y) # ys)"

text \<open>\<open>strings.Contains(s, sub)\<close>.\<close>

definition Contains :: "string \<Rightarrow> string \<Rightarrow> bool" where
  "Contains s sub \<longleftrightarrow> list_ex (prefix sub) (suffixes s)"

lemma Contains_iff: "Contains s sub \<longleftrightarrow> (\<exists>u v. s = u @ sub @ v)"
proof
  assume "Contains s sub"
  then obtain t where "suffix t s" "prefix sub t"
    by (auto simp: Contains_def list_ex_iff)
  then show "\<exists>u v. s = u @ sub @ v" by (auto elim!: prefixE suffixE)
next
  assume "\<exists>u v. s = u @ sub @ v"
  then obtain u v where "s = u @ sub @ v" by blast
  then have "suffix (sub @ v) s" "prefix sub (sub @ v)" by (auto simp: suffix_def)
  then show "Contains s sub"
    by (auto simp: Contains_def list_ex_iff intro!: bexI [of _ "sub @ v"])
qed

lemma Contains_appendI [intro]: "Contains (u @ sub @ v) sub"
  by (auto simp: Contains_iff)

lemma Contains_char: "Contains s [c] \<longleftrightarrow> c \<in> set s"
  by (auto simp: Contains_iff in_set_conv_decomp)

lemma Split_not_Nil [simp]: "Split s c \<noteq> []"
  by (cases s) (auto split: list.splits)

lemma Split_no_sep: "c \<notin> set s \<Longrightarrow> Split s c = [s]"
  by (induction s) auto

lemma Split_append: "c \<notin> set u \<Longrightarrow> Split (u @ c # v) c = u # Split v c"
  by (induction u) auto

lemma Split_length: "length (Split s c) = Suc (count_list s c)"
proof (induction s)
  case (Cons x s)
  then show ?case by (cases "Split s c") auto
qed simp

lemma Split_parts_no_sep: "t \<in> set (Split s c) \<Longrightarrow> c \<notin> set t"
proof (induction s arbitrary: t)
  case (Cons x s)
  then show ?case by (cases "Split s c") (auto split: if_splits)
qed simp

text \<open>The first part is what stands before the first separator.\<close>

lemma hd_Split: "hd (Split s c) = takeWhile (\<lambda>x. x \<noteq> c) s"
proof (induction s)
  case (Cons x s)
  then show ?case by (cases "Split s c") auto
qed simp

lemma Split_two_iff:
  "Split s c = [u, v] \<longleftrightarrow> s = u @ c # v \<and> c \<notin> set u \<and> c \<notin> set v"
proof
  assume L: "Split s c = [u, v]"
  have "c \<in> set s"
    using L Split_no_sep [of c s] by (metis list.distinct(1) list.inject)
  then obtain a b where s: "s = a @ c # b" and "c \<notin> set a"
    by (meson split_list_first)
  then have "Split s c = a # Split b c" by (simp add: Split_append)
  with L have a: "a = u" and b: "Split b c = [v]" by auto
  have "c \<notin> set b"
  proof
    assume "c \<in> set b"
    then have "0 < count_list b c" using count_list_0_iff [of b c] by simp
    with b Split_length [of b c] show False by simp
  qed
  with b have "b = v" by (simp add: Split_no_sep)
  with s a \<open>c \<notin> set a\<close> \<open>c \<notin> set b\<close> show "s = u @ c # v \<and> c \<notin> set u \<and> c \<notin> set v" by simp
next
  assume "s = u @ c # v \<and> c \<notin> set u \<and> c \<notin> set v"
  then show "Split s c = [u, v]" by (simp add: Split_append Split_no_sep)
qed

section \<open>Mapping functions and their contract\<close>

text \<open>
  The services never share a data structure: what one of them knows reaches another as a
  string or as a protobuf message, through a pair of mapping functions. The contract of
  such a pair is that decoding gives back what was encoded, for the values that \<open>wf\<close>
  admits; the laws below are what the clients of a pair use.
\<close>

locale codec =
  fixes enc :: "'a \<Rightarrow> 'b" and dec :: "'b \<Rightarrow> 'c" and view :: "'a \<Rightarrow> 'c" and wf :: "'a \<Rightarrow> bool"
  assumes dec_enc: "wf x \<Longrightarrow> dec (enc x) = view x"
begin

lemma enc_distinguishes: "wf x \<Longrightarrow> wf y \<Longrightarrow> enc x = enc y \<Longrightarrow> view x = view y"
  by (metis dec_enc)

lemma enc_inj_on: "inj_on view A \<Longrightarrow> (\<And>x. x \<in> A \<Longrightarrow> wf x) \<Longrightarrow> inj_on enc A"
  by (rule inj_onI) (metis inj_onD enc_distinguishes)

lemma map_dec_enc: "list_all wf xs \<Longrightarrow> map dec (map enc xs) = map view xs"
  by (induction xs) (auto simp: dec_enc)

end

end
