(* ===== verification/App_Error.thy ===== *)
theory App_Error
  imports BB_Prelude
begin

text \<open>
  The error values of the services: \<open>pkg/err_app/errors.go\<close> (the application error with
  its HTTP and gRPC status, the sentinels, \<open>New\<close>, \<open>Wrap\<close>, \<open>Normalize\<close> and the two
  mappings to a transport), the message constants of \<open>pkg/err_msg\<close>, and what
  \<open>errors\<close> and \<open>fmt.Errorf\<close> of Go's library give the code besides: plain errors and
  errors wrapped with \<open>%w\<close>. Logging inside \<open>New\<close> and \<open>Wrap\<close> is not modelled; the
  \<open>data\<close> argument of \<open>Wrap\<close> goes to the log only and is left out.
\<close>

section \<open>Messages\<close>

definition MessageMissingXUserId :: string where
  "MessageMissingXUserId = ''Invalid user id''"
definition SomeThingWentWrong :: string where
  "SomeThingWentWrong = ''something went wrong''"
definition InvalidInputErrMsg :: string where
  "InvalidInputErrMsg = ''invalid input''"
definition InvalidUserNameOrPasswordErrMsg :: string where
  "InvalidUserNameOrPasswordErrMsg = ''invalid username or password''"
definition UserNotFoundErrMsg :: string where
  "UserNotFoundErrMsg = ''user not found''"
definition InvalidBody :: string where
  "InvalidBody = ''Invalid request body''"
definition DuplicateUsername :: string where
  "DuplicateUsername = ''username already exists''"
definition InvalidCategory :: string where
  "InvalidCategory = ''invalid category''"

lemmas err_msg_defs = MessageMissingXUserId_def SomeThingWentWrong_def InvalidInputErrMsg_def
  InvalidUserNameOrPasswordErrMsg_def UserNotFoundErrMsg_def InvalidBody_def
  DuplicateUsername_def InvalidCategory_def

record ErrorResponse =
  er_message :: string
  er_errors :: "(string \<times> string) list"
  er_internal_error_code :: string

definition ErrorResponse_message :: "string \<Rightarrow> ErrorResponse" where
  "ErrorResponse_message msg = \<lparr>er_message = msg, er_errors = [], er_internal_error_code = []\<rparr>"

definition ErrorResponse_Error :: "ErrorResponse \<Rightarrow> string" where
  "ErrorResponse_Error e = er_message e"

section \<open>Application errors\<close>

datatype grpc_code =
    codes_OK
  | codes_InvalidArgument
  | codes_NotFound
  | codes_PermissionDenied
  | codes_Internal
  | codes_Unauthenticated

record AppError =
  OP :: string
  Code :: string
  Message :: string
  HTTPStatus :: int
  GRPCStatus :: grpc_code
  Data :: "(string \<times> string) list"

text \<open>
  \<open>PlainErr\<close> is a value of \<open>errors.New\<close>, of \<open>fmt.Errorf\<close> without \<open>%w\<close> or of a library;
  \<open>WrapErr msg e\<close> is \<open>fmt.Errorf\<close> with \<open>%w\<close>: its text is \<open>msg\<close>, its cause \<open>e\<close>.
\<close>

datatype go_error = AppErr AppError | PlainErr string | WrapErr string go_error

primrec Error :: "go_error \<Rightarrow> string" where
  "Error (AppErr e) = Message e"
| "Error (PlainErr s) = s"
| "Error (WrapErr s _) = s"

text \<open>\<open>errors.As(err, &appErr)\<close>: the first application error along the chain of causes.\<close>

primrec errors_As :: "go_error \<Rightarrow> AppError option" where
  "errors_As (AppErr e) = Some e"
| "errors_As (PlainErr _) = None"
| "errors_As (WrapErr _ e) = errors_As e"

definition New :: "string \<Rightarrow> string \<Rightarrow> string \<Rightarrow> int \<Rightarrow> grpc_code \<Rightarrow> (string \<times> string) list \<Rightarrow> AppError" where
  "New op code message httpStatus grpcStatus data =
     \<lparr>OP = op, Code = code, Message = message, HTTPStatus = httpStatus, GRPCStatus = grpcStatus,
      Data = data\<rparr>"

definition Wrap :: "string \<Rightarrow> go_error option \<Rightarrow> AppError \<Rightarrow> AppError" where
  "Wrap op err appErr =
     \<lparr>OP = op, Code = Code appErr, Message = Message appErr, HTTPStatus = HTTPStatus appErr,
      GRPCStatus = GRPCStatus appErr, Data = []\<rparr>"

definition ErrNotFound :: AppError where
  "ErrNotFound = New ''default'' ''NOT_FOUND'' ''Resource not found'' 404 codes_NotFound []"
definition ErrInternal :: AppError where
  "ErrInternal = New ''default'' ''INTERNAL_ERROR'' SomeThingWentWrong 500 codes_Internal []"
definition ErrInvalidInput :: AppError where
  "ErrInvalidInput = New ''default'' ''INVALID_INPUT'' InvalidInputErrMsg 400 codes_InvalidArgument []"
definition ErrUnauthorized :: AppError where
  "ErrUnauthorized = New ''default'' ''UNAUTHORIZED'' ''Invalid Token'' 401 codes_Unauthenticated []"
definition ErrInvalidLOGIN :: AppError where
  "ErrInvalidLOGIN =
     New ''default'' ''INVALID_LOGIN'' InvalidUserNameOrPasswordErrMsg 403 codes_PermissionDenied []"

lemmas sentinel_defs = ErrNotFound_def ErrInternal_def ErrInvalidInput_def ErrUnauthorized_def
  ErrInvalidLOGIN_def

definition Normalize :: "go_error option \<Rightarrow> AppError option" where
  "Normalize err =
     (case err of None \<Rightarrow> None
      | Some e \<Rightarrow>
          (case errors_As e of Some appErr \<Rightarrow> Some appErr
           | None \<Rightarrow> Some (Wrap ''NORMALIZED'' (Some e) ErrInternal)))"

section \<open>Mapping to a transport\<close>

record HTTPErrMessage =
  hm_message :: string
  hm_error :: string

datatype http_message = HTTPMsg HTTPErrMessage | HTTPText string

definition ToHTTPJson :: "go_error \<Rightarrow> http_message \<times> int" where
  "ToHTTPJson err =
     (case errors_As err of
        Some appErr \<Rightarrow> (HTTPMsg \<lparr>hm_message = Message appErr, hm_error = Message appErr\<rparr>, HTTPStatus appErr)
      | None \<Rightarrow> (HTTPText (Error err), 500))"

definition ToGRPCJson :: "go_error \<Rightarrow> string \<times> grpc_code" where
  "ToGRPCJson err =
     (case errors_As err of
        Some appErr \<Rightarrow> (Message appErr, GRPCStatus appErr)
      | None \<Rightarrow> (Error err, codes_Internal))"

text \<open>What an echo handler answers: a status and a JSON body.\<close>

datatype 'a json_body =
    OkBody 'a
  | ErrBody http_message
  | ErrResponseBody ErrorResponse
  | TextBody string

record 'a http_response =
  http_status :: int
  http_body :: "'a json_body"

definition ctx_JSON :: "int \<Rightarrow> 'a json_body \<Rightarrow> 'a http_response" where
  "ctx_JSON code body = \<lparr>http_status = code, http_body = body\<rparr>"

text \<open>The common tail of the handlers: an error becomes its mapped message and status.\<close>

definition error_JSON :: "go_error \<Rightarrow> 'a http_response" where
  "error_JSON err = (case ToHTTPJson err of (msg, code) \<Rightarrow> ctx_JSON code (ErrBody msg))"

lemma http_response_simps [simp]:
  "http_status (ctx_JSON c b) = c" "http_body (ctx_JSON c b) = b"
  by (simp_all add: ctx_JSON_def)

section \<open>Laws\<close>

lemma New_simps [simp]:
  "OP (New op code msg h g d) = op" "Code (New op code msg h g d) = code"
  "Message (New op code msg h g d) = msg" "HTTPStatus (New op code msg h g d) = h"
  "GRPCStatus (New op code msg h g d) = g" "Data (New op code msg h g d) = d"
  by (simp_all add: New_def)

lemma Wrap_simps [simp]:
  "OP (Wrap op e a) = op" "Code (Wrap op e a) = Code a" "Message (Wrap op e a) = Message a"
  "HTTPStatus (Wrap op e a) = HTTPStatus a" "GRPCStatus (Wrap op e a) = GRPCStatus a"
  "Data (Wrap op e a) = []"
  by (simp_all add: Wrap_def)

lemma Normalize_Some: "Normalize (Some e) = Some (the (Normalize (Some e)))"
  by (simp add: Normalize_def split: option.splits)

text \<open>
  What a client is told about a wrapped error depends on the sentinel alone: neither
  the cause nor the operation shows in the HTTP answer or in the gRPC status, however many
  times the error has been wrapped with \<open>%w\<close> on its way.
\<close>

theorem wrapped_error_hides_cause:
  "ToHTTPJson (AppErr (Wrap op cause s)) =
     (HTTPMsg \<lparr>hm_message = Message s, hm_error = Message s\<rparr>, HTTPStatus s) \<and>
   ToHTTPJson (WrapErr msg (AppErr (Wrap op cause s))) = ToHTTPJson (AppErr s) \<and>
   ToGRPCJson (WrapErr msg (AppErr (Wrap op cause s))) = (Message s, GRPCStatus s) \<and>
   Normalize (Some (WrapErr msg (AppErr (Wrap op cause s)))) = Some (Wrap op cause s)"
  by (simp add: ToHTTPJson_def ToGRPCJson_def Normalize_def)

end
