(* ===== verification/Contract.thy ===== *)
theory Contract
  imports App_Error
begin

text \<open>
  What the services agree on: the topic names of \<open>contract/event/events.go\<close>, the protobuf
  messages of \<open>contract/match\<close>, \<open>contract/question\<close> and \<open>contract/auth\<close> as records, and
  the \<open>Broker\<close> interface of \<open>adapter/broker/Broker.go\<close>. The wire format belongs to the
  protobuf library: it is the record \<open>proto_codec\<close>, an argument of the definitions that use
  it, and \<open>proto_ok\<close> is the documented round trip (a message that marshals without an
  error is read back unchanged).
\<close>

section \<open>Topics\<close>

definition GAME_V1_JOIN_MATCH_QUEUE_REQUESTED :: string where
  "GAME_V1_JOIN_MATCH_QUEUE_REQUESTED = ''GAME_V1_JOIN_MATCH_QUEUE_REQUESTED''"
definition MATCH_V1_MATCH_USERS :: string where
  "MATCH_V1_MATCH_USERS = ''matchMaking_v1_matchUsers''"
definition QUESTION_V1_QUESTIONS :: string where
  "QUESTION_V1_QUESTIONS = ''question_v1_questions''"

lemmas topic_defs = GAME_V1_JOIN_MATCH_QUEUE_REQUESTED_def MATCH_V1_MATCH_USERS_def
  QUESTION_V1_QUESTIONS_def

lemma topics_distinct:
  "GAME_V1_JOIN_MATCH_QUEUE_REQUESTED \<noteq> MATCH_V1_MATCH_USERS"
  "GAME_V1_JOIN_MATCH_QUEUE_REQUESTED \<noteq> QUESTION_V1_QUESTIONS"
  "MATCH_V1_MATCH_USERS \<noteq> QUESTION_V1_QUESTIONS"
  by (simp_all add: topic_defs)

section \<open>Messages\<close>

record PbMatchedUsers =
  pb_UserId :: "u64 list"
  pb_Category :: "string list"
  pb_MatchId :: string

record PbAllMatchedUsers =
  pb_Users :: "PbMatchedUsers list"

record PbAddToWaitingList =
  pb_WaitingUserId :: u64
  pb_WaitingCategory :: string

record PbQuestion =
  pb_QuestionId :: string
  pb_Content :: string
  pb_CorrectAnswer :: string
  pb_Choices :: "string list"
  pb_QuestionCategory :: string
  pb_Difficulty :: string

record PbQuestions =
  pb_QuestionsMatchId :: string
  pb_Questions :: "PbQuestion list"

record PbCreateTokenRequest =
  pb_Key :: string
  pb_Value :: string

record PbTokenResponse =
  pb_Token :: string
  pb_ExpireTime :: int

record proto_codec =
  marshal_AllMatchedUsers :: "PbAllMatchedUsers \<Rightarrow> go_error + bytes"
  unmarshal_AllMatchedUsers :: "bytes \<Rightarrow> go_error + PbAllMatchedUsers"
  marshal_AddToWaitingList :: "PbAddToWaitingList \<Rightarrow> go_error + bytes"
  unmarshal_AddToWaitingList :: "bytes \<Rightarrow> go_error + PbAddToWaitingList"
  marshal_Questions :: "PbQuestions \<Rightarrow> go_error + bytes"
  unmarshal_Questions :: "bytes \<Rightarrow> go_error + PbQuestions"

definition proto_ok :: "proto_codec \<Rightarrow> bool" where
  "proto_ok P \<longleftrightarrow>
     (\<forall>m b. marshal_AllMatchedUsers P m = Inr b \<longrightarrow> unmarshal_AllMatchedUsers P b = Inr m) \<and>
     (\<forall>m b. marshal_AddToWaitingList P m = Inr b \<longrightarrow> unmarshal_AddToWaitingList P b = Inr m) \<and>
     (\<forall>m b. marshal_Questions P m = Inr b \<longrightarrow> unmarshal_Questions P b = Inr m)"

lemma proto_okD [bb_law]:
  "proto_ok P \<Longrightarrow> marshal_AllMatchedUsers P m = Inr b \<Longrightarrow> unmarshal_AllMatchedUsers P b = Inr m"
  "proto_ok P \<Longrightarrow> marshal_AddToWaitingList P m' = Inr b \<Longrightarrow> unmarshal_AddToWaitingList P b = Inr m'"
  "proto_ok P \<Longrightarrow> marshal_Questions P m'' = Inr b \<Longrightarrow> unmarshal_Questions P b = Inr m''"
  by (simp_all add: proto_ok_def)

text \<open>
  The services marshal with \<open>buff, err := proto.Marshal(...)\<close>, log the error and go on with
  \<open>buff\<close>, which is nil when marshalling failed.
\<close>

definition buff_of :: "go_error + bytes \<Rightarrow> bytes" where
  "buff_of r = (case r of Inr b \<Rightarrow> b | Inl _ \<Rightarrow> [])"

lemma buff_of_simps [simp]: "buff_of (Inr b) = b" "buff_of (Inl e) = []"
  by (simp_all add: buff_of_def)

section \<open>The broker interface\<close>

record 'w broker =
  br_Publish :: "string \<Rightarrow> bytes \<Rightarrow> ('w, go_error option) state"

text \<open>
  The contract of \<open>Publish\<close>, on a log of what each topic has received: a call without an
  error appends the message to its topic, a call with an error leaves every log as it was,
  and the rest of the outside world, as far as \<open>other\<close> sees it, does not change.
\<close>

locale publishing =
  fixes b :: "'w broker" and topic_log :: "'w \<Rightarrow> string \<Rightarrow> bytes list" and other :: "'w \<Rightarrow> 'o"
    and up :: "'w \<Rightarrow> bool"
  assumes publish_log: "up w \<Longrightarrow>
      topic_log (snd (run_state (br_Publish b t m) w)) =
        (if fst (run_state (br_Publish b t m) w) = None
         then (topic_log w)(t := topic_log w t @ [m]) else topic_log w)"
    and publish_other: "up w \<Longrightarrow> other (snd (run_state (br_Publish b t m) w)) = other w"
    and publish_up: "up w \<Longrightarrow> up (snd (run_state (br_Publish b t m) w))"
begin

lemma publish_appends:
  "up w \<Longrightarrow> fst (run_state (br_Publish b t m) w) = None \<Longrightarrow>
   topic_log (snd (run_state (br_Publish b t m) w)) t = topic_log w t @ [m]"
  by (simp add: publish_log)

lemma publish_other_topic:
  "up w \<Longrightarrow> t' \<noteq> t \<Longrightarrow> topic_log (snd (run_state (br_Publish b t m) w)) t' = topic_log w t'"
  by (simp add: publish_log)

text \<open>A loop that publishes one message per element, going on after an error.\<close>

definition publish_each :: "string \<Rightarrow> bytes list \<Rightarrow> ('w, unit) state" where
  "publish_each t ms = for_each ms (\<lambda>m. do { _ \<leftarrow> br_Publish b t m; ret () })"

lemma publish_each_up: "up w \<Longrightarrow> up (snd (run_state (publish_each t ms) w))"
  unfolding publish_each_def
  by (rule for_each_invariant) (auto simp: case_prod_beta publish_up)

text \<open>What reaches the topic is a subsequence of what was sent, in the same order.\<close>

lemma publish_each_subseq:
  "up w \<Longrightarrow> \<exists>ms'. subseq ms' ms \<and>
     topic_log (snd (run_state (publish_each t ms) w)) = (topic_log w)(t := topic_log w t @ ms')"
proof (induction ms arbitrary: w)
  case Nil
  then show ?case by (intro exI [of _ "[]"]) (auto simp: publish_each_def fun_eq_iff)
next
  case (Cons m ms)
  let ?w1 = "snd (run_state (br_Publish b t m) w)"
  have run: "snd (run_state (publish_each t (m # ms)) w) = snd (run_state (publish_each t ms) ?w1)"
    by (simp add: publish_each_def case_prod_beta)
  obtain ms' where ms': "subseq ms' ms"
    and log: "topic_log (snd (run_state (publish_each t ms) ?w1)) =
                (topic_log ?w1)(t := topic_log ?w1 t @ ms')"
    using Cons.IH [of ?w1] Cons.prems publish_up by blast
  show ?case
  proof (cases "fst (run_state (br_Publish b t m) w)")
    case None
    then show ?thesis
      using Cons.prems ms' log unfolding run
      by (intro exI [of _ "m # ms'"]) (simp add: publish_log)
  next
    case (Some e)
    then show ?thesis
      using Cons.prems ms' log unfolding run
      by (intro exI [of _ ms']) (simp add: publish_log list_emb_Cons)
  qed
qed

end

end
