(* ===== verification/Auth_Service.thy ===== *)
theory Auth_Service
  imports Contract
begin

text \<open>
  The auth service: \<open>services/auth_app/service\<close> with its validators, the HTTP and gRPC
  handlers of \<open>services/auth_app/delivery\<close>, and the generated gRPC stubs with the client
  \<open>adapter/auth\<close> through which the user service asks for tokens.

  Three libraries are arguments. \<open>jwt\<close> signs claims and parses tokens; \<open>ozzo\<close> is the
  validation library, by its rules \<open>Required\<close>, \<open>Each\<close> and \<open>ValidateStruct\<close>; a
  \<open>grpc_conn\<close> carries a call to the server. Go ranges over a map in an unspecified order,
  which is the program \<open>ae_MapRange\<close>.
\<close>

section \<open>Requests, responses and libraries\<close>

record TokenData =
  tr_Key :: string
  tr_Value :: string

record AccessTokenResponse =
  at_AccessToken :: string
  at_ExpireTime :: int

record RefreshTokenResponse =
  rt_RefreshToken :: string
  rt_ExpireTime :: int

record ValidateTokenRequest =
  vt_Token :: string
  vt_Data :: "string list"

record ValidateTokenResponse =
  vt_Valid :: bool
  vt_AdditionalData :: "TokenData list"

text \<open>The values this service puts into the claims of a token.\<close>

datatype claim = ClaimString string | ClaimNumber int

type_synonym MapClaims = "string \<rightharpoonup> claim"

record jwt =
  jwt_SignedString :: "string \<Rightarrow> MapClaims \<Rightarrow> go_error + string"
  jwt_Parse :: "string \<Rightarrow> gotime \<Rightarrow> string \<Rightarrow> go_error + MapClaims"

record ozzo =
  oz_Required :: "string \<Rightarrow> bool \<Rightarrow> go_error option"
  oz_Each :: "go_error option list \<Rightarrow> go_error option"
  oz_ValidateStruct :: "go_error option list \<Rightarrow> go_error option"

record 'w auth_env =
  ae_Now :: "('w, gotime) state"
  ae_NewString :: "('w, string) state"
  ae_MapRange :: "string list \<Rightarrow> ('w, string list) state"
  ae_jwt :: jwt
  ae_ozzo :: ozzo
  ae_json :: "TokenData list \<Rightarrow> go_error + string"

record auth_config =
  SecretKey :: string
  AccessTokenExpireTime :: duration
  RefreshTokenExpireTime :: duration

definition expireTimeKey :: string where "expireTimeKey = ''exp''"
definition jwtIdKey :: string where "jwtIdKey = ''jti''"
definition jwtIssuedAt :: string where "jwtIssuedAt = ''iat''"
definition additionalData :: "string list" where "additionalData = [''id'', ''role'']"

lemmas claim_key_defs = expireTimeKey_def jwtIdKey_def jwtIssuedAt_def additionalData_def

section \<open>Validators\<close>

text \<open>A field with several rules reports the first that fails.\<close>

fun first_error :: "go_error option list \<Rightarrow> go_error option" where
  "first_error [] = None"
| "first_error (Some e # _) = Some e"
| "first_error (None # es) = first_error es"

definition auth_ErrDataRequired :: string where "auth_ErrDataRequired = ''data is required''"
definition auth_ErrInvalidData :: string where "auth_ErrInvalidData = ''invalid data''"

definition validate_item :: "ozzo \<Rightarrow> TokenData \<Rightarrow> go_error option" where
  "validate_item oz dataItem = oz_ValidateStruct oz
     [oz_Required oz auth_ErrInvalidData (tr_Key dataItem = []),
      oz_Required oz auth_ErrInvalidData (tr_Value dataItem = [])]"

definition ValidateCreateAccessTokenRequest :: "ozzo \<Rightarrow> TokenData list \<Rightarrow> go_error option" where
  "ValidateCreateAccessTokenRequest oz data = oz_ValidateStruct oz
     [first_error [oz_Required oz auth_ErrDataRequired (data = []),
        oz_Each oz (map (validate_item oz) data)]]"

definition ValidateCreateRefreshTokenRequest :: "ozzo \<Rightarrow> TokenData list \<Rightarrow> go_error option" where
  "ValidateCreateRefreshTokenRequest oz data = oz_ValidateStruct oz
     [first_error [oz_Required oz auth_ErrDataRequired (data = []),
        oz_Each oz (map (validate_item oz) data)]]"

definition ValidateValidateTokenRequest :: "ozzo \<Rightarrow> ValidateTokenRequest \<Rightarrow> go_error option" where
  "ValidateValidateTokenRequest oz req = oz_ValidateStruct oz
     [oz_Required oz auth_ErrDataRequired (vt_Token req = [])]"

section \<open>The service\<close>

definition toJWTClaims :: "TokenData list \<Rightarrow> MapClaims" where
  "toJWTClaims data = foldl (\<lambda>claims value. claims(tr_Key value \<mapsto> ClaimString (tr_Value value))) Map.empty data"

definition toMapData :: "'w auth_env \<Rightarrow> string list \<Rightarrow> MapClaims \<Rightarrow> ('w, TokenData list) state" where
  "toMapData env data claims = do {
     keys \<leftarrow> ae_MapRange env data;
     ret (concat (map (\<lambda>key. case claims key of
        Some (ClaimString value) \<Rightarrow> [\<lparr>tr_Key = key, tr_Value = value\<rparr>] | _ \<Rightarrow> []) keys)) }"

definition CreateAccessToken :: "'w auth_env \<Rightarrow> auth_config \<Rightarrow> TokenData list \<Rightarrow>
    ('w, go_error + AccessTokenResponse) state" where
  "CreateAccessToken env cfg data =
     (case ValidateCreateAccessTokenRequest (ae_ozzo env) data of
        Some err \<Rightarrow> ret (Inl (AppErr (Wrap ''service.CreateAccessToken'' (Some err) ErrInvalidInput)))
      | None \<Rightarrow> do {
          uuid \<leftarrow> ae_NewString env;
          now \<leftarrow> ae_Now env;
          let claims = (toJWTClaims data)
            (expireTimeKey \<mapsto> ClaimNumber (AccessTokenExpireTime cfg), jwtIdKey \<mapsto> ClaimString uuid,
             jwtIssuedAt \<mapsto> ClaimNumber (now div nanosecond_per_second));
          case jwt_SignedString (ae_jwt env) (SecretKey cfg) claims of
            Inl err \<Rightarrow> ret (Inl (AppErr (Wrap ''service.CreateAccessToken'' (Some err) ErrInternal)))
          | Inr signedString \<Rightarrow> ret (Inr \<lparr>at_AccessToken = signedString,
              at_ExpireTime = go_div (AccessTokenExpireTime cfg) 1000000\<rparr>) })"

definition CreateRefreshToken :: "'w auth_env \<Rightarrow> auth_config \<Rightarrow> TokenData list \<Rightarrow>
    ('w, go_error + RefreshTokenResponse) state" where
  "CreateRefreshToken env cfg data =
     (case ValidateCreateRefreshTokenRequest (ae_ozzo env) data of
        Some err \<Rightarrow> ret (Inl (AppErr (Wrap ''service.CreateRefreshToken'' (Some err) ErrInvalidInput)))
      | None \<Rightarrow> do {
          uuid \<leftarrow> ae_NewString env;
          now \<leftarrow> ae_Now env;
          let claims = (toJWTClaims data)
            (expireTimeKey \<mapsto> ClaimNumber (RefreshTokenExpireTime cfg), jwtIdKey \<mapsto> ClaimString uuid,
             jwtIssuedAt \<mapsto> ClaimNumber (now div nanosecond_per_second));
          case jwt_SignedString (ae_jwt env) (SecretKey cfg) claims of
            Inl err \<Rightarrow> ret (Inl (AppErr (Wrap ''service.CreateRefreshToken'' (Some err) ErrInternal)))
          | Inr signedString \<Rightarrow> ret (Inr \<lparr>rt_RefreshToken = signedString,
              rt_ExpireTime = go_div (RefreshTokenExpireTime cfg) 1000000\<rparr>) })"

definition ValidateToken :: "'w auth_env \<Rightarrow> auth_config \<Rightarrow> ValidateTokenRequest \<Rightarrow>
    ('w, go_error + ValidateTokenResponse) state" where
  "ValidateToken env cfg request =
     (case ValidateValidateTokenRequest (ae_ozzo env) request of
        Some err \<Rightarrow> ret (Inl (AppErr (Wrap ''service.ValidateToken'' (Some err) ErrInvalidInput)))
      | None \<Rightarrow> do {
          now \<leftarrow> ae_Now env;
          case jwt_Parse (ae_jwt env) (SecretKey cfg) now (vt_Token request) of
            Inl err \<Rightarrow> ret (Inl (AppErr (Wrap ''service.ValidateToken'' (Some err) ErrUnauthorized)))
          | Inr claims \<Rightarrow> do {
              data \<leftarrow> toMapData env (remdups (additionalData @ vt_Data request)) claims;
              ret (Inr \<lparr>vt_Valid = True, vt_AdditionalData = data\<rparr>) } })"

section \<open>HTTP handlers\<close>

definition CreateAccessToken_handler :: "'w auth_env \<Rightarrow> auth_config \<Rightarrow> (go_error + TokenData list) \<Rightarrow>
    ('w, AccessTokenResponse http_response) state" where
  "CreateAccessToken_handler env cfg bound =
     (case bound of
        Inl err \<Rightarrow> ret (ctx_JSON 400 (ErrResponseBody (ErrorResponse_message InvalidBody)))
      | Inr request \<Rightarrow> do {
          r \<leftarrow> CreateAccessToken env cfg request;
          case r of Inl err \<Rightarrow> ret (error_JSON err) | Inr response \<Rightarrow> ret (ctx_JSON 200 (OkBody response)) })"

definition CreateRefreshToken_handler :: "'w auth_env \<Rightarrow> auth_config \<Rightarrow> (go_error + TokenData list) \<Rightarrow>
    ('w, RefreshTokenResponse http_response) state" where
  "CreateRefreshToken_handler env cfg bound =
     (case bound of
        Inl err \<Rightarrow> ret (ctx_JSON 400 (ErrResponseBody (ErrorResponse_message InvalidBody)))
      | Inr request \<Rightarrow> do {
          r \<leftarrow> CreateRefreshToken env cfg request;
          case r of Inl err \<Rightarrow> ret (error_JSON err) | Inr response \<Rightarrow> ret (ctx_JSON 200 (OkBody response)) })"

text \<open>The response headers are a map; \<open>Header().Set\<close> replaces a value.\<close>

type_synonym headers = "string \<rightharpoonup> string"

definition invalid_response :: ValidateTokenResponse where
  "invalid_response = \<lparr>vt_Valid = False, vt_AdditionalData = []\<rparr>"

definition set_header :: "headers \<Rightarrow> TokenData \<Rightarrow> headers" where
  "set_header h data =
     (if tr_Key data = ''id'' then h(''X-User-ID'' \<mapsto> tr_Value data)
      else if tr_Key data = ''role'' then h(''X-User-Role'' \<mapsto> tr_Value data)
      else h)"

definition ValidateToken_handler :: "'w auth_env \<Rightarrow> auth_config \<Rightarrow> string \<Rightarrow> (go_error + ValidateTokenRequest) \<Rightarrow>
    ('w, ValidateTokenResponse http_response \<times> headers) state" where
  "ValidateToken_handler env cfg authorization bound =
     (if length authorization = 0 then ret (ctx_JSON 401 (OkBody invalid_response), Map.empty)
      else case bound of
        Inl err \<Rightarrow> ret (ctx_JSON 401 (OkBody invalid_response), Map.empty)
      | Inr request \<Rightarrow> do {
          r \<leftarrow> ValidateToken env cfg (request\<lparr>vt_Token := authorization\<rparr>);
          case r of
            Inl err \<Rightarrow> ret (error_JSON err, Map.empty)
          | Inr response \<Rightarrow>
              ret (ctx_JSON 200 (OkBody response),
                if vt_Valid response then
                  let h = foldl set_header Map.empty (vt_AdditionalData response)
                  in case ae_json env (vt_AdditionalData response) of
                       Inr result \<Rightarrow> h(''X-Auth-Data'' \<mapsto> result)
                     | Inl err \<Rightarrow> h
                else Map.empty) })"

section \<open>gRPC: the server\<close>

definition GetAccessToken_grpc :: "'w auth_env \<Rightarrow> auth_config \<Rightarrow> PbCreateTokenRequest list \<Rightarrow>
    ('w, string \<times> grpc_code + PbTokenResponse) state" where
  "GetAccessToken_grpc env cfg req = do {
     let requestData = map (\<lambda>data. \<lparr>tr_Key = pb_Key data, tr_Value = pb_Value data\<rparr>) req;
     res \<leftarrow> CreateAccessToken env cfg requestData;
     case res of
       Inl err \<Rightarrow> ret (Inl (ToGRPCJson err))
     | Inr r \<Rightarrow> ret (Inr \<lparr>pb_Token = at_AccessToken r, pb_ExpireTime = at_ExpireTime r\<rparr>) }"

definition GetRefreshToken_grpc :: "'w auth_env \<Rightarrow> auth_config \<Rightarrow> PbCreateTokenRequest list \<Rightarrow>
    ('w, string \<times> grpc_code + PbTokenResponse) state" where
  "GetRefreshToken_grpc env cfg req = do {
     let requestData = map (\<lambda>data. \<lparr>tr_Key = pb_Key data, tr_Value = pb_Value data\<rparr>) req;
     res \<leftarrow> CreateRefreshToken env cfg requestData;
     case res of
       Inl err \<Rightarrow> ret (Inl (ToGRPCJson err))
     | Inr r \<Rightarrow> ret (Inr \<lparr>pb_Token = rt_RefreshToken r, pb_ExpireTime = rt_ExpireTime r\<rparr>) }"

section \<open>gRPC: the generated stubs and the client\<close>

text \<open>
  \<open>Invoke\<close> sends the request to a method and decodes the answer into \<open>out\<close>. A generated
  stub returns a nil pointer next to an error.
\<close>

record 'w grpc_conn =
  cc_Invoke :: "string \<Rightarrow> PbCreateTokenRequest list \<Rightarrow> ('w, go_error + PbTokenResponse) state"

definition tokenServiceClient_GetAccessToken :: "'w grpc_conn \<Rightarrow> PbCreateTokenRequest list \<Rightarrow>
    ('w, PbTokenResponse option \<times> go_error option) state" where
  "tokenServiceClient_GetAccessToken cc req = do {
     r \<leftarrow> cc_Invoke cc ''/auth.TokenService/GetAccessToken'' req;
     case r of Inl err \<Rightarrow> ret (None, Some err) | Inr out \<Rightarrow> ret (Some out, None) }"

definition tokenServiceClient_GetRefreshToken :: "'w grpc_conn \<Rightarrow> PbCreateTokenRequest list \<Rightarrow>
    ('w, PbTokenResponse option \<times> go_error option) state" where
  "tokenServiceClient_GetRefreshToken cc req = do {
     r \<leftarrow> cc_Invoke cc ''/auth.TokenService/GetRefreshToken'' req;
     case r of Inl err \<Rightarrow> ret (None, Some err) | Inr out \<Rightarrow> ret (Some out, None) }"

text \<open>
  The adapter's own records and its client. Without an error and without an answer it
  returns the zero response and no error, which the stubs above never cause.
\<close>

record adapter_TokenData =
  ad_Key :: string
  ad_Value :: string

record adapter_TokenResponse =
  ad_Token :: string
  ad_ExpireTime :: int

record 'w token_client =
  tc_GetAccessToken :: "adapter_TokenData list \<Rightarrow> ('w, adapter_TokenResponse \<times> go_error option) state"
  tc_GetRefreshToken :: "adapter_TokenData list \<Rightarrow> ('w, adapter_TokenResponse \<times> go_error option) state"

definition zero_TokenResponse :: adapter_TokenResponse where
  "zero_TokenResponse = \<lparr>ad_Token = [], ad_ExpireTime = 0\<rparr>"

definition Client_GetAccessToken :: "'w grpc_conn \<Rightarrow> adapter_TokenData list \<Rightarrow>
    ('w, adapter_TokenResponse \<times> go_error option) state" where
  "Client_GetAccessToken cc request = do {
     let requestData = map (\<lambda>data. \<lparr>pb_Key = ad_Key data, pb_Value = ad_Value data\<rparr>) request;
     (res, err) \<leftarrow> tokenServiceClient_GetAccessToken cc requestData;
     case (err, res) of
       (None, Some r) \<Rightarrow> ret (\<lparr>ad_Token = pb_Token r, ad_ExpireTime = pb_ExpireTime r\<rparr>, None)
     | _ \<Rightarrow> ret (zero_TokenResponse, err) }"

definition Client_GetRefreshToken :: "'w grpc_conn \<Rightarrow> adapter_TokenData list \<Rightarrow>
    ('w, adapter_TokenResponse \<times> go_error option) state" where
  "Client_GetRefreshToken cc request = do {
     let requestData = map (\<lambda>data. \<lparr>pb_Key = ad_Key data, pb_Value = ad_Value data\<rparr>) request;
     (res, err) \<leftarrow> tokenServiceClient_GetRefreshToken cc requestData;
     case (err, res) of
       (None, Some r) \<Rightarrow> ret (\<lparr>ad_Token = pb_Token r, ad_ExpireTime = pb_ExpireTime r\<rparr>, None)
     | _ \<Rightarrow> ret (zero_TokenResponse, err) }"

definition TokenClient :: "'w grpc_conn \<Rightarrow> 'w token_client" where
  "TokenClient cc = \<lparr>tc_GetAccessToken = Client_GetAccessToken cc,
     tc_GetRefreshToken = Client_GetRefreshToken cc\<rparr>"

end
