(* ===== verification/Go_Strconv.thy ===== *)
theory Go_Strconv
  imports BB_Prelude
begin

text \<open>
  The functions of Go's package \<open>strconv\<close> that the services use to turn user ids into
  strings and back: \<open>FormatUint\<close>, \<open>FormatInt\<close>, \<open>ParseUint\<close>, \<open>ParseInt\<close> and
  \<open>Atoi\<close>, in base 10. The parsers return the value next to the error, as in Go, since
  one caller drops the error and keeps the value. The lemmas give the round trips and the
  ranges in which they hold.
\<close>

datatype num_error = ErrSyntax | ErrRange

section \<open>Formatting\<close>

definition digit_char :: "nat \<Rightarrow> char" where
  "digit_char d = char_of (48 + d)"

fun dec_digits :: "nat \<Rightarrow> string" where
  "dec_digits n = (if n < 10 then [digit_char n] else dec_digits (n div 10) @ [digit_char (n mod 10)])"

declare dec_digits.simps [simp del]

definition FormatUint :: "u64 \<Rightarrow> string" where
  "FormatUint w = dec_digits (unat w)"

definition FormatInt :: "int \<Rightarrow> string" where
  "FormatInt i = (if i < 0 then CHR ''-'' # dec_digits (nat (- i)) else dec_digits (nat i))"

section \<open>Parsing\<close>

definition is_digit :: "char \<Rightarrow> bool" where
  "is_digit c \<longleftrightarrow> 48 \<le> (of_char c :: nat) \<and> (of_char c :: nat) \<le> 57"

definition digit_val :: "char \<Rightarrow> nat" where
  "digit_val c = of_char c - 48"

fun parse_digits :: "nat \<Rightarrow> nat \<Rightarrow> string \<Rightarrow> nat \<times> num_error option" where
  "parse_digits mx acc [] = (acc, None)"
| "parse_digits mx acc (c # cs) =
     (if \<not> is_digit c then (0, Some ErrSyntax)
      else if mx < acc * 10 + digit_val c then (mx, Some ErrRange)
      else parse_digits mx (acc * 10 + digit_val c) cs)"

abbreviation max_uint64 :: nat where
  "max_uint64 \<equiv> 2 ^ 64 - 1"

definition parse_unsigned :: "string \<Rightarrow> nat \<times> num_error option" where
  "parse_unsigned s = (if s = [] then (0, Some ErrSyntax) else parse_digits max_uint64 0 s)"

definition ParseUint :: "string \<Rightarrow> u64 \<times> num_error option" where
  "ParseUint s = (case parse_unsigned s of (n, e) \<Rightarrow> (of_nat n, e))"

definition clamp_signed :: "bool \<Rightarrow> nat \<Rightarrow> int \<times> num_error option" where
  "clamp_signed neg un =
     (if \<not> neg \<and> 2 ^ 63 \<le> un then (2 ^ 63 - 1, Some ErrRange)
      else if neg \<and> 2 ^ 63 < un then (- (2 ^ 63), Some ErrRange)
      else (if neg then - int un else int un, None))"

definition ParseInt :: "string \<Rightarrow> int \<times> num_error option" where
  "ParseInt s =
     (case s of [] \<Rightarrow> (0, Some ErrSyntax)
      | c # cs \<Rightarrow>
          let neg = (c = CHR ''-''); body = (if c = CHR ''-'' \<or> c = CHR ''+'' then cs else s)
          in case parse_unsigned body of
               (un, Some ErrSyntax) \<Rightarrow> (0, Some ErrSyntax)
             | (un, _) \<Rightarrow> clamp_signed neg un)"

definition Atoi :: "string \<Rightarrow> int \<times> num_error option" where
  "Atoi s = ParseInt s"

section \<open>Round trips\<close>

lemma of_char_digit_char [simp]: "d < 10 \<Longrightarrow> (of_char (digit_char d) :: nat) = 48 + d"
  by (simp add: digit_char_def)

lemma is_digit_digit_char [simp]: "d < 10 \<Longrightarrow> is_digit (digit_char d)"
  by (simp add: is_digit_def)

lemma digit_val_digit_char [simp]: "d < 10 \<Longrightarrow> digit_val (digit_char d) = d"
  by (simp add: digit_val_def)

lemma dec_digits_not_Nil [simp]: "dec_digits n \<noteq> []"
  by (subst dec_digits.simps) simp

lemma dec_digits_is_digit: "c \<in> set (dec_digits n) \<Longrightarrow> is_digit c"
proof (induction n rule: dec_digits.induct)
  case (1 n)
  then show ?case
    by (cases "n < 10") (auto simp: dec_digits.simps [of n])
qed

lemma hd_dec_digits_no_sign:
  "hd (dec_digits n) \<noteq> CHR ''-''" "hd (dec_digits n) \<noteq> CHR ''+''"
proof -
  have "is_digit (hd (dec_digits n))"
    by (rule dec_digits_is_digit [of _ n]) simp
  then show "hd (dec_digits n) \<noteq> CHR ''-''" "hd (dec_digits n) \<noteq> CHR ''+''"
    by (auto simp: is_digit_def)
qed

lemma parse_digits_append:
  "parse_digits mx acc (s @ t) =
     (case parse_digits mx acc s of (n, None) \<Rightarrow> parse_digits mx n t | r \<Rightarrow> r)"
  by (induction s arbitrary: acc) auto

lemma parse_digits_dec_digits: "n \<le> mx \<Longrightarrow> parse_digits mx 0 (dec_digits n) = (n, None)"
proof (induction n rule: dec_digits.induct)
  case (1 n)
  show ?case
  proof (cases "n < 10")
    case True
    then show ?thesis using "1.prems" by (simp add: dec_digits.simps [of n])
  next
    case False
    have "n div 10 \<le> mx" using "1.prems" by (meson div_le_dividend order.trans)
    with "1.IH" False have "parse_digits mx 0 (dec_digits (n div 10)) = (n div 10, None)" by simp
    then show ?thesis
      using False "1.prems" by (simp add: dec_digits.simps [of n] parse_digits_append)
  qed
qed

lemma parse_unsigned_dec_digits: "n < 2 ^ 64 \<Longrightarrow> parse_unsigned (dec_digits n) = (n, None)"
  by (simp add: parse_unsigned_def parse_digits_dec_digits)

lemma ParseUint_FormatUint [simp]: "ParseUint (FormatUint w) = (w, None)"
proof -
  have "unat w < 2 ^ 64" using unsigned_less [of w, where ?'a = nat] by simp
  then show ?thesis by (simp add: ParseUint_def FormatUint_def parse_unsigned_dec_digits)
qed

lemma ParseInt_dec_digits: "n < 2 ^ 63 \<Longrightarrow> ParseInt (dec_digits n) = (int n, None)"
proof -
  assume n: "n < 2 ^ 63"
  obtain c cs where s: "dec_digits n = c # cs" by (metis dec_digits_not_Nil list.exhaust)
  with hd_dec_digits_no_sign [of n] have c: "c \<noteq> CHR ''-''" "c \<noteq> CHR ''+''" by auto
  from n have "parse_unsigned (c # cs) = (n, None)"
    using parse_unsigned_dec_digits [of n] s by simp
  with n c s show ?thesis by (simp add: ParseInt_def clamp_signed_def)
qed

lemma ParseInt_neg_dec_digits:
  "n \<le> 2 ^ 63 \<Longrightarrow> ParseInt (CHR ''-'' # dec_digits n) = (- int n, None)"
proof -
  assume n: "n \<le> 2 ^ 63"
  then have "parse_unsigned (dec_digits n) = (n, None)"
    by (simp add: parse_unsigned_dec_digits)
  with n show ?thesis by (simp add: ParseInt_def clamp_signed_def)
qed

lemma ParseInt_FormatInt [simp]:
  "- (2 ^ 63) \<le> i \<Longrightarrow> i < 2 ^ 63 \<Longrightarrow> ParseInt (FormatInt i) = (i, None)"
  using ParseInt_dec_digits [of "nat i"] ParseInt_neg_dec_digits [of "nat (- i)"]
  by (auto simp: FormatInt_def)

lemma Atoi_FormatInt [simp]:
  "- (2 ^ 63) \<le> i \<Longrightarrow> i < 2 ^ 63 \<Longrightarrow> Atoi (FormatInt i) = (i, None)"
  by (simp add: Atoi_def)

lemma FormatUint_inject [simp]: "FormatUint v = FormatUint w \<longleftrightarrow> v = w"
  by (metis ParseUint_FormatUint prod.inject)

lemma FormatUint_not_Nil [simp]: "FormatUint w \<noteq> []"
  by (simp add: FormatUint_def)

text \<open>
  Below \<open>2 ^ 63\<close> the unsigned and the signed rendering of an id agree; above it they do
  not, since the signed one starts with a minus sign.
\<close>

lemma sint_u64: "sint (w :: u64) = signed_take_bit 63 (int (unat w))"
  by (simp only: sint_uint uint_nat) simp

lemma sint_below_2_63:
  assumes "unat w < 2 ^ 63"
  shows "sint (w :: u64) = int (unat w)"
proof -
  have up: "int (unat w) < 2 ^ 63"
    using assms by (metis of_nat_less_numeral_power_cancel_iff)
  have "- (2 ^ 63) \<le> int (unat w)"
    by (rule order.trans [of _ 0]) simp_all
  then show ?thesis
    unfolding sint_u64 using up by (rule signed_take_bit_int_eq_self)
qed

lemma sint_above_2_63:
  assumes "2 ^ 63 \<le> unat w"
  shows "sint (w :: u64) < 0"
proof -
  have "unat w < 2 ^ 64" using unsigned_less [of w, where ?'a = nat] by simp
  with assms have "unat w div 2 ^ 63 = 1" by (intro div_nat_eqI) simp_all
  then have "bit (unat w) 63" by (simp only: bit_iff_odd) simp
  then have "\<not> 0 \<le> signed_take_bit 63 (int (unat w))"
    by (simp only: signed_take_bit_nonnegative_iff bit_of_nat_iff_bit not_not)
  then show ?thesis unfolding sint_u64 by simp
qed

lemma FormatInt_sint_small: "unat w < 2 ^ 63 \<Longrightarrow> FormatInt (sint (w :: u64)) = FormatUint w"
proof -
  assume w: "unat w < 2 ^ 63"
  then have "sint w = int (unat w)" by (rule sint_below_2_63)
  with w show ?thesis by (simp add: FormatInt_def FormatUint_def)
qed

lemma FormatInt_sint_large: "2 ^ 63 \<le> unat w \<Longrightarrow> FormatInt (sint (w :: u64)) \<noteq> FormatUint w"
proof -
  assume w: "2 ^ 63 \<le> unat w"
  then have "sint w < 0" by (rule sint_above_2_63)
  then have "hd (FormatInt (sint w)) = CHR ''-''" by (simp add: FormatInt_def)
  moreover have "hd (FormatUint w) \<noteq> CHR ''-''"
    by (simp add: FormatUint_def hd_dec_digits_no_sign)
  ultimately show ?thesis by metis
qed

lemma Atoi_FormatUint_small: "unat w < 2 ^ 63 \<Longrightarrow> Atoi (FormatUint w) = (int (unat w), None)"
  by (simp add: Atoi_def FormatUint_def ParseInt_dec_digits)

interpretation uint_codec: codec FormatUint ParseUint "\<lambda>w. (w, None)" "\<lambda>_. True"
  by unfold_locales simp

interpretation int_codec: codec FormatInt ParseInt "\<lambda>i. (i, None)" "\<lambda>i. - (2 ^ 63) \<le> i \<and> i < 2 ^ 63"
  by unfold_locales simp

lemma FormatInt_inject:
  "- (2 ^ 63) \<le> i \<Longrightarrow> i < 2 ^ 63 \<Longrightarrow> - (2 ^ 63) \<le> j \<Longrightarrow> j < 2 ^ 63 \<Longrightarrow>
   FormatInt i = FormatInt j \<Longrightarrow> i = j"
  using int_codec.enc_distinguishes [of i j] by simp

end
