(* ===== verification/User_Service.thy ===== *)
theory User_Service
  imports Auth_Service Go_Strconv
begin

text \<open>
  The user service: \<open>services/user_app\<close> (entities, roles, the service, the HTTP handlers
  and the PostgreSQL repository) with the helpers \<open>pkg/email\<close> and \<open>pkg/common\<close>. The
  database driver is the record \<open>postgres\<close>, bcrypt the record \<open>bcrypt\<close>; the repository
  interface of the service is a record, and \<open>User_Properties\<close> states its contract.
\<close>

section \<open>Entities\<close>

type_synonym Role = "8 word"

definition UserRole :: Role where "UserRole = 1"
definition AdminRole :: Role where "AdminRole = 2"
definition UserRoleStr :: string where "UserRoleStr = ''user''"
definition AdminRoleStr :: string where "AdminRoleStr = ''admin''"

lemmas role_defs = UserRole_def AdminRole_def UserRoleStr_def AdminRoleStr_def

definition Role_String :: "Role \<Rightarrow> string" where
  "Role_String r = (if r = UserRole then UserRoleStr else if r = AdminRole then AdminRoleStr else [])"

definition MapToRoleEntity :: "string \<Rightarrow> Role" where
  "MapToRoleEntity roleStr =
     (if roleStr = UserRoleStr then UserRole else if roleStr = AdminRoleStr then AdminRole else 0)"

record User =
  us_ID :: int
  us_Username :: string
  us_HashedPassword :: string
  us_DisplayName :: string
  us_CreatedAt :: u64
  us_UpdatedAt :: u64
  us_Role :: Role

record Credentials =
  cr_Email :: string
  cr_Password :: string

record LoginResponse =
  lr_ID :: string
  lr_AccessToken :: string
  lr_RefreshToken :: string

record ProfileResponse =
  pr_ID :: string
  pr_Username :: string
  pr_DisplayName :: string
  pr_Role :: string
  pr_CreatedAt :: u64
  pr_UpdatedAt :: u64

section \<open>Interfaces and libraries\<close>

record 'w user_repo =
  ur_InsertUser :: "User \<Rightarrow> ('w, go_error + int) state"
  ur_GetUser :: "string \<Rightarrow> ('w, go_error + User) state"
  ur_GetUserById :: "string \<Rightarrow> ('w, go_error + User) state"

record 'w bcrypt =
  bc_GenerateFromPassword :: "string \<Rightarrow> ('w, go_error + string) state"
  bc_CompareHashAndPassword :: "string \<Rightarrow> string \<Rightarrow> go_error option"

record 'w user_env =
  ue_Now :: "('w, gotime) state"
  ue_bcrypt :: "'w bcrypt"
  ue_Sprint :: "User \<Rightarrow> string"

section \<open>Helpers\<close>

definition IsValid :: "string \<Rightarrow> bool" where
  "IsValid email =
     (if \<not> Contains email ''@'' then False
      else let splitEmail = Split email (CHR ''@'')
        in if length splitEmail \<noteq> 2 then False
           else if length (splitEmail ! 0) \<le> 4 \<or> length (splitEmail ! 1) \<ge> 50 \<or> length (splitEmail ! 1) \<le> 2
           then False else True)"

definition getDisplayName :: "string \<Rightarrow> string" where
  "getDisplayName email = Split email (CHR ''@'') ! 0"

definition UnixMilli :: "gotime \<Rightarrow> int" where
  "UnixMilli t = t div 1000000"

definition GetUTCCurrentMillis :: "'w user_env \<Rightarrow> ('w, u64) state" where
  "GetUTCCurrentMillis env = do { t \<leftarrow> ue_Now env; ret (of_int (UnixMilli t)) }"

definition HashPassword :: "'w user_env \<Rightarrow> string \<Rightarrow> ('w, go_error + string) state" where
  "HashPassword env password = bc_GenerateFromPassword (ue_bcrypt env) password"

definition CheckPasswordHash :: "'w user_env \<Rightarrow> string \<Rightarrow> string \<Rightarrow> bool" where
  "CheckPasswordHash env password hash = (bc_CompareHashAndPassword (ue_bcrypt env) hash password = None)"

section \<open>The service\<close>

definition SignUp :: "'w user_env \<Rightarrow> 'w user_repo \<Rightarrow> Credentials \<Rightarrow> ('w, go_error + string) state" where
  "SignUp env repo request =
     (if \<not> IsValid (cr_Email request) then ret (Inl (AppErr (Wrap ''service.SignUp'' None ErrInvalidInput)))
      else if length (cr_Password request) = 0 then ret (Inl (AppErr (Wrap ''service.SignUp'' None ErrInvalidLOGIN)))
      else do {
        currentTime \<leftarrow> GetUTCCurrentMillis env;
        r \<leftarrow> HashPassword env (cr_Password request);
        case r of
          Inl err \<Rightarrow> ret (Inl (AppErr (Wrap ''service.SignUp'' (Some err) ErrInternal)))
        | Inr hashPassword \<Rightarrow> do {
            let userDto = \<lparr>us_ID = 0, us_Username = cr_Email request, us_HashedPassword = hashPassword,
              us_DisplayName = getDisplayName (cr_Email request), us_CreatedAt = currentTime,
              us_UpdatedAt = currentTime, us_Role = UserRole\<rparr>;
            r \<leftarrow> ur_InsertUser repo userDto;
            case r of
              Inl err \<Rightarrow>
                (if Contains (Error err) ''duplicate'' then
                   ret (Inl (AppErr (New ''service.SignUp'' ''DUPLICATE_USERNAME'' DuplicateUsername 400
                     codes_InvalidArgument [(''message'', ''Error in inserting User''), (''data'', ue_Sprint env userDto)])))
                 else ret (Inl (AppErr (Wrap ''service.SignUp'' (Some err) ErrInternal))))
            | Inr _ \<Rightarrow> ret (Inr (us_DisplayName userDto)) } })"

definition login_data :: "User \<Rightarrow> adapter_TokenData list" where
  "login_data user = [\<lparr>ad_Key = ''id'', ad_Value = FormatInt (us_ID user)\<rparr>,
     \<lparr>ad_Key = ''role'', ad_Value = Role_String (us_Role user)\<rparr>]"

definition Login :: "'w user_env \<Rightarrow> 'w user_repo \<Rightarrow> 'w token_client \<Rightarrow> Credentials \<Rightarrow>
    ('w, go_error + LoginResponse) state" where
  "Login env repo grpcClient request =
     (if \<not> IsValid (cr_Email request) then ret (Inl (AppErr (Wrap ''service.Login'' None ErrInvalidLOGIN)))
      else if length (cr_Password request) = 0 then ret (Inl (AppErr (Wrap ''service.Login'' None ErrInvalidLOGIN)))
      else do {
        r \<leftarrow> ur_GetUser repo (cr_Email request);
        case r of
          Inl err \<Rightarrow> ret (Inl (AppErr (Wrap ''service.Login'' (Some err) ErrInternal)))
        | Inr user \<Rightarrow>
            (if CheckPasswordHash env (cr_Password request) (us_HashedPassword user) then do {
               (accessTokenResponse, err) \<leftarrow> tc_GetAccessToken grpcClient (login_data user);
               case err of
                 Some e \<Rightarrow> ret (Inl (AppErr (Wrap ''service.Login'' (Some e) ErrInternal)))
               | None \<Rightarrow> do {
                   (refreshTokenResponse, err) \<leftarrow> tc_GetRefreshToken grpcClient (login_data user);
                   case err of
                     Some e \<Rightarrow> ret (Inl (AppErr (Wrap ''service.Login'' (Some e) ErrInternal)))
                   | None \<Rightarrow> ret (Inr \<lparr>lr_ID = FormatInt (us_ID user), lr_AccessToken = ad_Token accessTokenResponse,
                       lr_RefreshToken = ad_Token refreshTokenResponse\<rparr>) } }
             else ret (Inl (AppErr (Wrap ''service.Login'' None ErrInvalidLOGIN)))) })"

definition Profile :: "'w user_repo \<Rightarrow> string \<Rightarrow> ('w, go_error + ProfileResponse) state" where
  "Profile repo requestID = do {
     r \<leftarrow> ur_GetUserById repo requestID;
     case r of
       Inl err \<Rightarrow>
         (if Contains (Error err) ''not found'' then
            ret (Inl (AppErr (New ''service.Profile'' ''USER_NOT_FOUND'' UserNotFoundErrMsg 404 codes_NotFound
              [(''message'', Error err), (''user'', requestID)])))
          else ret (Inl (AppErr (Wrap ''service.Profile'' (Some err) ErrInternal))))
     | Inr user \<Rightarrow> ret (Inr \<lparr>pr_ID = FormatInt (us_ID user), pr_Username = us_Username user,
         pr_DisplayName = us_DisplayName user, pr_Role = Role_String (us_Role user),
         pr_CreatedAt = us_CreatedAt user, pr_UpdatedAt = us_UpdatedAt user\<rparr>) }"

section \<open>HTTP handlers\<close>

definition SignUp_handler :: "'w user_env \<Rightarrow> 'w user_repo \<Rightarrow> (go_error + Credentials) \<Rightarrow>
    ('w, string http_response) state" where
  "SignUp_handler env repo bound =
     (case bound of
        Inl err \<Rightarrow> ret (ctx_JSON 400 (ErrResponseBody (ErrorResponse_message InvalidUserNameOrPasswordErrMsg)))
      | Inr req \<Rightarrow> do {
          r \<leftarrow> SignUp env repo req;
          case r of Inl err \<Rightarrow> ret (error_JSON err) | Inr res \<Rightarrow> ret (ctx_JSON 200 (OkBody res)) })"

definition Login_handler :: "'w user_env \<Rightarrow> 'w user_repo \<Rightarrow> 'w token_client \<Rightarrow> (go_error + Credentials) \<Rightarrow>
    ('w, LoginResponse http_response) state" where
  "Login_handler env repo grpcClient bound =
     (case bound of
        Inl err \<Rightarrow> ret (ctx_JSON 400 (ErrResponseBody (ErrorResponse_message InvalidUserNameOrPasswordErrMsg)))
      | Inr req \<Rightarrow> do {
          r \<leftarrow> Login env repo grpcClient req;
          case r of Inl err \<Rightarrow> ret (error_JSON err) | Inr res \<Rightarrow> ret (ctx_JSON 200 (OkBody res)) })"

definition Profile_handler :: "'w user_repo \<Rightarrow> string \<Rightarrow> ('w, ProfileResponse http_response) state" where
  "Profile_handler repo userId =
     (if length userId < 1 then ret (ctx_JSON 400 (TextBody MessageMissingXUserId))
      else do {
        r \<leftarrow> Profile repo userId;
        case r of Inl err \<Rightarrow> ret (error_JSON err) | Inr res \<Rightarrow> ret (ctx_JSON 200 (OkBody res)) })"

section \<open>The PostgreSQL repository\<close>

text \<open>A nullable time scans to the zero time (year 1) when the column is NULL.\<close>

record NullTime =
  nt_Time :: gotime
  nt_Valid :: bool

record user_row =
  row_id :: int
  row_username :: string
  row_password :: string
  row_display_name :: string
  row_role :: string
  row_created_at :: NullTime
  row_updated_at :: NullTime

datatype 'a row_result = Row 'a | NoRows | RowErr go_error

record 'w postgres =
  pq_PrepareContext :: "string \<Rightarrow> ('w, go_error option) state"
  pq_InsertRow :: "string \<Rightarrow> string \<Rightarrow> string \<Rightarrow> string \<Rightarrow> string \<Rightarrow> NullTime \<Rightarrow> NullTime \<Rightarrow> ('w, go_error + int) state"
  pq_QueryUser :: "string \<Rightarrow> string \<Rightarrow> ('w, user_row row_result) state"

definition insert_query :: string where
  "insert_query = ''INSERT INTO users (username, password, display_name, role, created_at, updated_at) VALUES ($1,$2,$3,$4,$5,$6) RETURNING id;''"
definition by_username_query :: string where
  "by_username_query = ''SELECT id, username, password, display_name, role, created_at, updated_at FROM users WHERE username = $1 LIMIT 1''"
definition by_id_query :: string where
  "by_id_query = ''SELECT id, username, password, display_name, role, created_at, updated_at FROM users WHERE id = $1 LIMIT 1''"
definition ErrDuplicateKey :: string where
  "ErrDuplicateKey = ''duplicate key''"

definition InsertUser_repo :: "('w, gotime) state \<Rightarrow> 'w postgres \<Rightarrow> User \<Rightarrow> ('w, go_error + int) state" where
  "InsertUser_repo now db user = do {
     err \<leftarrow> pq_PrepareContext db insert_query;
     case err of
       Some e \<Rightarrow> ret (Inl (WrapErr (''failed to prepare statement: '' @ Error e) e))
     | None \<Rightarrow> do {
         t \<leftarrow> now;
         let currentTime = \<lparr>nt_Time = t, nt_Valid = True\<rparr>;
         r \<leftarrow> pq_InsertRow db insert_query (us_Username user) (us_HashedPassword user) (us_DisplayName user)
           (Role_String (us_Role user)) currentTime currentTime;
         case r of
           Inl err \<Rightarrow>
             (if Contains (Error err) ErrDuplicateKey then
                ret (Inl (PlainErr (''duplicate username: '' @ Error err)))
              else ret (Inl (PlainErr (''failed to insert user '' @ us_Username user @ '' (username: '' @ Error err @ '')''))))
         | Inr userId \<Rightarrow> ret (Inr userId) } }"

definition row_to_user :: "user_row \<Rightarrow> User" where
  "row_to_user row = \<lparr>us_ID = row_id row, us_Username = row_username row, us_HashedPassword = row_password row,
     us_DisplayName = row_display_name row,
     us_CreatedAt = of_int (UnixMilli (nt_Time (row_created_at row))),
     us_UpdatedAt = of_int (UnixMilli (nt_Time (row_updated_at row))),
     us_Role = MapToRoleEntity (row_role row)\<rparr>"

definition GetUser_repo :: "'w postgres \<Rightarrow> string \<Rightarrow> ('w, go_error + User) state" where
  "GetUser_repo db username = do {
     err \<leftarrow> pq_PrepareContext db by_username_query;
     case err of
       Some e \<Rightarrow> ret (Inl (WrapErr (''failed to prepare find result by ID statement: '' @ Error e) e))
     | None \<Rightarrow> do {
         r \<leftarrow> pq_QueryUser db by_username_query username;
         case r of
           NoRows \<Rightarrow> ret (Inl (PlainErr (''result with username '' @ username @ '' not found'')))
         | RowErr err \<Rightarrow> ret (Inl (PlainErr (''error retrieving user with username: '' @ username @ '', error: '' @ Error err)))
         | Row row \<Rightarrow> ret (Inr (row_to_user row)) } }"

definition GetUserById_repo :: "'w postgres \<Rightarrow> string \<Rightarrow> ('w, go_error + User) state" where
  "GetUserById_repo db uid = do {
     err \<leftarrow> pq_PrepareContext db by_id_query;
     case err of
       Some e \<Rightarrow> ret (Inl (WrapErr (''failed to prepare find result by ID: '' @ uid @ '' statement: '' @ Error e) e))
     | None \<Rightarrow> do {
         r \<leftarrow> pq_QueryUser db by_id_query uid;
         case r of
           NoRows \<Rightarrow> ret (Inl (PlainErr (''result with id '' @ uid @ '' not found'')))
         | RowErr err \<Rightarrow> ret (Inl (PlainErr (''error retrieving user with id: '' @ uid @ '', error: '' @ Error err)))
         | Row row \<Rightarrow> ret (Inr (row_to_user row)) } }"

definition UserRepository :: "('w, gotime) state \<Rightarrow> 'w postgres \<Rightarrow> 'w user_repo" where
  "UserRepository now db = \<lparr>ur_InsertUser = InsertUser_repo now db, ur_GetUser = GetUser_repo db,
     ur_GetUserById = GetUserById_repo db\<rparr>"

end
