(* ===== verification/Go_Float.thy ===== *)
theory Go_Float
  imports BB_Prelude "HOL-Library.Log_Nat" Complex_Main
begin

text \<open>
  Go's \<open>float64\<close>, as far as the services compute with it: conversion from and to
  integers, addition, multiplication and division, each rounded to 53 significant bits,
  ties to even, as IEEE 754 prescribes for binary64. A value is a rational number; the
  model has no infinities, no NaN and no subnormal numbers, and none of them can arise
  from the values the code computes with, which are 0 or lie between \<open>2 ^ (- 64)\<close> and
  \<open>2 ^ 64\<close> in absolute value. The lemmas are what the score and the waiting list rest
  on: rounding is monotone, and exact on integers up to \<open>2 ^ 53\<close>.
\<close>

type_synonym float64 = rat

section \<open>Rounding\<close>

text \<open>The exponent of a positive number: \<open>2 ^ expo x \<le> x < 2 ^ (expo x + 1)\<close>.\<close>

definition expo :: "rat \<Rightarrow> int" where
  "expo x = (case quotient_of x of (a, b) \<Rightarrow>
     let e = bitlen a - bitlen b in if x < 2 powi e then e - 1 else e)"

definition round_half_even :: "rat \<Rightarrow> int" where
  "round_half_even q =
     (let f = \<lfloor>q\<rfloor>; r = q - of_int f
      in if r < 1 / 2 then f else if 1 / 2 < r then f + 1 else if even f then f else f + 1)"

definition round53 :: "rat \<Rightarrow> float64" where
  "round53 x = (if x = 0 then 0 else
     let u = 2 powi (expo \<bar>x\<bar> - 52) in of_int (round_half_even (x / u)) * u)"

section \<open>The operations\<close>

definition float64_of_int :: "int \<Rightarrow> float64" where
  "float64_of_int i = round53 (of_int i)"

definition fadd :: "float64 \<Rightarrow> float64 \<Rightarrow> float64" where
  "fadd x y = round53 (x + y)"

definition fmul :: "float64 \<Rightarrow> float64 \<Rightarrow> float64" where
  "fmul x y = round53 (x * y)"

definition fdiv :: "float64 \<Rightarrow> float64 \<Rightarrow> float64" where
  "fdiv x y = round53 (x / y)"

text \<open>The conversion \<open>int(x)\<close> truncates towards zero.\<close>

definition int_of_float64 :: "float64 \<Rightarrow> int" where
  "int_of_float64 x = (if 0 \<le> x then \<lfloor>x\<rfloor> else \<lceil>x\<rceil>)"

section \<open>Rounding is monotone and exact on small integers\<close>

lemma expo_bounds:
  assumes "0 < x"
  shows "2 powi (expo x) \<le> x" "x < 2 powi (expo x + 1)"
proof -
  obtain a b where q: "quotient_of x = (a, b)" by (cases "quotient_of x")
  have b: "0 < b" using quotient_of_denom_pos [OF q] .
  have x: "x = of_int a / of_int b" using quotient_of_div [OF q] .
  with assms b have a: "0 < a" by (simp add: zero_less_divide_iff)
  define la lb where "la = bitlen a" and "lb = bitlen b"
  have la: "1 \<le> la" and lb: "1 \<le> lb"
    using a b unfolding la_def lb_def by (simp_all add: bitlen_alt_def)
  have pw: "(of_int (2 ^ nat k) :: rat) = 2 powi k" if "0 \<le> k" for k
    using that by (simp add: power_int_def)
  have a1: "2 powi (la - 1) \<le> (of_int a :: rat)" and a2: "(of_int a :: rat) < 2 powi la"
    using bitlen_bounds [OF a] la pw [of "la - 1"] pw [of la]
    unfolding la_def by (metis of_int_le_iff diff_ge_0_iff_ge, metis of_int_less_iff bitlen_nonneg)
  have b1: "2 powi (lb - 1) \<le> (of_int b :: rat)" and b2: "(of_int b :: rat) < 2 powi lb"
    using bitlen_bounds [OF b] lb pw [of "lb - 1"] pw [of lb]
    unfolding lb_def by (metis of_int_le_iff diff_ge_0_iff_ge, metis of_int_less_iff bitlen_nonneg)
  have "2 powi (la - lb - 1) = (2 powi (la - 1) / 2 powi lb :: rat)"
    by (simp add: power_int_diff)
  also have "\<dots> \<le> of_int a / of_int b"
    using a1 b2 b a by (intro frac_le) simp_all
  finally have lo: "2 powi (la - lb - 1) \<le> x" using x by simp
  have "x \<le> of_int a / 2 powi (lb - 1)"
    unfolding x using b1 b a by (intro divide_left_mono) simp_all
  also have "\<dots> < 2 powi la / 2 powi (lb - 1)"
    using a2 by (intro divide_strict_right_mono) simp_all
  also have "\<dots> = 2 powi (la - lb + 1)"
    by (simp add: power_int_diff power_int_add)
  finally have hi: "x < 2 powi (la - lb + 1)" .
  have e: "expo x = (if x < 2 powi (la - lb) then la - lb - 1 else la - lb)"
    by (simp add: expo_def q la_def lb_def Let_def)
  show "2 powi (expo x) \<le> x" "x < 2 powi (expo x + 1)"
    using lo hi by (auto simp: e)
qed

lemma powi_less_iff: "(2 :: rat) powi a < 2 powi b \<longleftrightarrow> a < b"
proof
  show "a < b" if "(2 :: rat) powi a < 2 powi b"
    using that power_int_increasing [of b a "2 :: rat"] by (metis not_le one_le_numeral linorder_not_less)
  show "(2 :: rat) powi a < 2 powi b" if "a < b"
    using that by (rule power_int_strict_increasing) simp
qed

lemma expo_mono: "0 < x \<Longrightarrow> x \<le> y \<Longrightarrow> expo x \<le> expo y"
proof -
  assume "0 < x" "x \<le> y"
  then have "2 powi expo x < (2 :: rat) powi (expo y + 1)"
    using expo_bounds [of x] expo_bounds [of y] by linarith
  then show ?thesis by (simp add: powi_less_iff)
qed

lemma round_half_even_of_int [simp]: "round_half_even (of_int n) = n"
  by (simp add: round_half_even_def)

lemma round_half_even_mono: "p \<le> q \<Longrightarrow> round_half_even p \<le> round_half_even q"
proof -
  assume pq: "p \<le> q"
  then have f: "\<lfloor>p\<rfloor> \<le> \<lfloor>q\<rfloor>" by (rule floor_mono)
  show ?thesis
  proof (cases "\<lfloor>p\<rfloor> = \<lfloor>q\<rfloor>")
    case True
    then show ?thesis using pq by (auto simp: round_half_even_def Let_def)
  next
    case False
    with f show ?thesis by (auto simp: round_half_even_def Let_def)
  qed
qed

lemma round53_pos:
  "0 < x \<Longrightarrow> round53 x = of_int (round_half_even (x / 2 powi (expo x - 52))) * 2 powi (expo x - 52)"
  by (simp add: round53_def Let_def)

lemma round53_exact:
  assumes "0 < x" and "x / 2 powi (expo x - 52) = of_int n"
  shows "round53 x = x"
proof -
  have "round53 x = of_int n * 2 powi (expo x - 52)"
    using assms by (simp add: round53_pos)
  also have "\<dots> = x" using assms(2) [symmetric] by simp
  finally show ?thesis .
qed

lemma round53_binade:
  assumes "0 < x"
  shows "2 powi (expo x) \<le> round53 x" "round53 x \<le> 2 powi (expo x + 1)"
proof -
  let ?u = "2 powi (expo x - 52) :: rat"
  have up: "0 < ?u" by simp
  have lo: "of_int (2 ^ 52) * ?u = 2 powi (expo x)" and hi: "of_int (2 ^ 53) * ?u = 2 powi (expo x + 1)"
    by (simp_all add: power_int_diff power_int_add)
  have "of_int (2 ^ 52) \<le> x / ?u"
    using expo_bounds(1) [OF assms] up unfolding lo [symmetric] by (simp add: pos_le_divide_eq)
  then have 1: "2 ^ 52 \<le> round_half_even (x / ?u)"
    by (metis round_half_even_mono round_half_even_of_int)
  have "x / ?u \<le> of_int (2 ^ 53)"
    using expo_bounds(2) [OF assms] up unfolding hi [symmetric] by (simp add: pos_divide_le_eq)
  then have 2: "round_half_even (x / ?u) \<le> 2 ^ 53"
    by (metis round_half_even_mono round_half_even_of_int)
  have "of_int (2 ^ 52) * ?u \<le> of_int (round_half_even (x / ?u)) * ?u"
    using 1 up by (intro mult_right_mono) (simp_all only: of_int_le_iff order.strict_implies_order)
  then show "2 powi (expo x) \<le> round53 x" unfolding lo round53_pos [OF assms] .
  have "of_int (round_half_even (x / ?u)) * ?u \<le> of_int (2 ^ 53) * ?u"
    using 2 up by (intro mult_right_mono) (simp_all only: of_int_le_iff order.strict_implies_order)
  then show "round53 x \<le> 2 powi (expo x + 1)" unfolding hi round53_pos [OF assms] .
qed

lemma round53_0 [simp]: "round53 0 = 0"
  by (simp add: round53_def)

lemma round53_pos_pos: "0 < x \<Longrightarrow> 0 < round53 x"
  using round53_binade(1) [of x] zero_less_power_int [of "2 :: rat" "expo x"] by linarith

lemma round53_nonneg: "0 \<le> x \<Longrightarrow> 0 \<le> round53 x"
  using round53_pos_pos [of x] by (cases "x = 0") auto

lemma round53_mono:
  assumes "0 \<le> x" and "x \<le> y"
  shows "round53 x \<le> round53 y"
proof (cases "x = 0")
  case True
  then show ?thesis using assms by (simp add: round53_nonneg)
next
  case False
  then have x: "0 < x" and y: "0 < y" using assms by simp_all
  have e: "expo x \<le> expo y" using x assms(2) by (rule expo_mono)
  show ?thesis
  proof (cases "expo x = expo y")
    case True
    have "x / 2 powi (expo y - 52) \<le> y / 2 powi (expo y - 52)"
      using assms(2) by (intro divide_right_mono) simp_all
    then have "round_half_even (x / 2 powi (expo y - 52)) \<le> round_half_even (y / 2 powi (expo y - 52))"
      by (rule round_half_even_mono)
    then show ?thesis using True x y by (simp add: round53_pos)
  next
    case False
    with e have "2 powi (expo x + 1) \<le> (2 :: rat) powi expo y"
      by (intro power_int_increasing) simp_all
    then show ?thesis
      using round53_binade(2) [OF x] round53_binade(1) [OF y] by linarith
  qed
qed

lemma round53_of_int:
  assumes "0 \<le> i" and "i \<le> 2 ^ 53"
  shows "round53 (of_int i) = of_int i"
proof (cases "i = 0")
  case False
  then have i: "0 < (of_int i :: rat)" using assms by simp
  let ?e = "expo (of_int i)"
  show ?thesis
  proof (cases "?e \<le> 52")
    case True
    have "(of_int i :: rat) / 2 powi (?e - 52) = of_int i * 2 powi (52 - ?e)"
      by (simp add: power_int_diff)
    also have "\<dots> = of_int (i * 2 ^ nat (52 - ?e))"
      using True by (simp add: power_int_def)
    finally show ?thesis using i by (rule round53_exact [rotated])
  next
    case False
    have "2 powi 53 \<le> (2 :: rat) powi ?e"
      using False by (intro power_int_increasing) simp_all
    also have "\<dots> \<le> of_int i" using i by (rule expo_bounds)
    finally have "(of_int (2 ^ 53) :: rat) \<le> of_int i" by simp
    then have "2 ^ 53 \<le> i" by (simp only: of_int_le_iff)
    with assms have i53: "i = 2 ^ 53" by simp
    have "2 powi ?e \<le> (2 :: rat) powi 53"
      using expo_bounds(1) [OF i] by (simp add: i53)
    then have "?e = 53" using False powi_less_iff [of 53 ?e] by linarith
    then have "(of_int i :: rat) / 2 powi (?e - 52) = of_int (2 ^ 52)" by (simp add: i53)
    then show ?thesis using i by (rule round53_exact [rotated])
  qed
qed simp

section \<open>What the callers use\<close>

lemma float64_of_int_exact: "0 \<le> i \<Longrightarrow> i \<le> 2 ^ 53 \<Longrightarrow> float64_of_int i = of_int i"
  by (simp add: float64_of_int_def round53_of_int)

lemma int_of_float64_of_int: "0 \<le> i \<Longrightarrow> i \<le> 2 ^ 53 \<Longrightarrow> int_of_float64 (float64_of_int i) = i"
  by (simp add: float64_of_int_exact int_of_float64_def)

lemma float64_of_int_mono: "0 \<le> i \<Longrightarrow> i \<le> j \<Longrightarrow> float64_of_int i \<le> float64_of_int j"
  by (simp add: float64_of_int_def round53_mono)

lemma float64_of_int_nonneg: "0 \<le> i \<Longrightarrow> 0 \<le> float64_of_int i"
  by (simp add: float64_of_int_def round53_nonneg)

lemma round53_le_int: "0 \<le> x \<Longrightarrow> x \<le> of_int n \<Longrightarrow> 0 \<le> n \<Longrightarrow> n \<le> 2 ^ 53 \<Longrightarrow> round53 x \<le> of_int n"
  using round53_mono [of x "of_int n"] round53_of_int [of n] by simp

lemma int_of_float64_mono: "0 \<le> x \<Longrightarrow> x \<le> y \<Longrightarrow> int_of_float64 x \<le> int_of_float64 y"
  by (simp add: int_of_float64_def floor_mono)

end
