(* ===== verification/Redis_Adapter.thy ===== *)
theory Redis_Adapter
  imports App_Error Go_Strconv Go_Float
begin

text \<open>
  \<open>adapter/redis/adapter.go\<close>: the thin layer that the match and game repositories call.
  The Redis server and the client library \<open>go-redis\<close> are not part of the repository: they
  are the record \<open>redis_client\<close>, an argument of every definition here, whose operations may
  do anything to the outside world and may fail. What the documentation of Redis promises
  about a server that answers is stated as two predicates on such a record and a view of
  the outside world: \<open>redis_strings\<close> for \<open>GET\<close> and \<open>SET\<close> on keys that do not expire
  meanwhile, and \<open>redis_zsets\<close> for the sorted sets.
\<close>

section \<open>The client library\<close>

text \<open>
  Arguments of a command. The client writes a string or bytes as they are and an unsigned
  integer in decimal.
\<close>

datatype redis_arg = RStr string | RUint u64

record Z =
  Score :: float64
  Member :: redis_arg

record 'w redis_client =
  rc_ZAdd :: "string \<Rightarrow> Z list \<Rightarrow> ('w, go_error option) state"
  rc_ZRem :: "string \<Rightarrow> redis_arg list \<Rightarrow> ('w, go_error option) state"
  rc_ZRangeByScoreWithScores ::
    "string \<Rightarrow> string \<Rightarrow> string \<Rightarrow> ('w, go_error + (string \<times> float64) list) state"
  rc_ZRange :: "string \<Rightarrow> int \<Rightarrow> int \<Rightarrow> ('w, go_error + string list) state"
  rc_Set :: "string \<Rightarrow> string \<Rightarrow> duration \<Rightarrow> ('w, go_error option) state"
  rc_Get :: "string \<Rightarrow> ('w, go_error + string) state"

section \<open>The adapter\<close>

definition ZAdd :: "'w redis_client \<Rightarrow> string \<Rightarrow> Z list \<Rightarrow> ('w, go_error option) state" where
  "ZAdd a key members =
     rc_ZAdd a key (map (\<lambda>member. \<lparr>Score = Score member, Member = Member member\<rparr>) members)"

definition ZDelete :: "'w redis_client \<Rightarrow> string \<Rightarrow> Z list \<Rightarrow> ('w, go_error option) state" where
  "ZDelete a key members = rc_ZRem a key (map Member members)"

text \<open>
  \<open>ZRange\<close> returns the pair (error, members). With scores, a failed command yields no
  error and no members (line 69 returns \<open>nil, nil\<close>); without scores the error is returned.
\<close>

definition ZRange ::
  "'w redis_client \<Rightarrow> string \<Rightarrow> int \<Rightarrow> int \<Rightarrow> bool \<Rightarrow> ('w, go_error option \<times> Z list) state" where
  "ZRange a key start stop withScores =
     (if withScores then do {
        cmd \<leftarrow> rc_ZRangeByScoreWithScores a key (FormatInt start) (FormatInt stop);
        case cmd of
          Inl err \<Rightarrow> ret (None, [])
        | Inr vals \<Rightarrow> ret (None, map (\<lambda>(m, s). \<lparr>Score = s, Member = RStr m\<rparr>) vals) }
      else do {
        res \<leftarrow> rc_ZRange a key start stop;
        case res of
          Inl err \<Rightarrow> ret (Some err, [])
        | Inr vals \<Rightarrow> ret (None, map (\<lambda>m. \<lparr>Score = 0, Member = RStr m\<rparr>) vals) })"

definition redis_Set :: "'w redis_client \<Rightarrow> string \<Rightarrow> string \<Rightarrow> duration \<Rightarrow> ('w, go_error option) state" where
  "redis_Set a key value expiration = rc_Set a key value expiration"

definition redis_Get :: "'w redis_client \<Rightarrow> string \<Rightarrow> ('w, go_error + string) state" where
  "redis_Get a key = rc_Get a key"

lemma ZRange_with_scores_no_error:
  "fst (fst (run_state (ZRange a key start stop True) w)) = None"
  by (simp add: ZRange_def bb_run case_prod_beta split: sum.splits)

section \<open>Documented behaviour of a server that answers\<close>

text \<open>The bytes a member is stored under.\<close>

primrec arg_bytes :: "redis_arg \<Rightarrow> string" where
  "arg_bytes (RStr s) = s"
| "arg_bytes (RUint n) = FormatUint n"

definition redis_strings :: "'w redis_client \<Rightarrow> ('w \<Rightarrow> string \<Rightarrow> string option) \<Rightarrow> bool" where
  "redis_strings a kv \<longleftrightarrow>
     (\<forall>key w. (case kv w key of
                 Some v \<Rightarrow> fst (run_state (rc_Get a key) w) = Inr v
               | None \<Rightarrow> (\<exists>e. fst (run_state (rc_Get a key) w) = Inl e)) \<and>
              kv (snd (run_state (rc_Get a key) w)) = kv w) \<and>
     (\<forall>key v ttl w. fst (run_state (rc_Set a key v ttl) w) = None \<and>
              kv (snd (run_state (rc_Set a key v ttl) w)) = (kv w)(key \<mapsto> v))"

lemma redis_Get_Some:
  "redis_strings a kv \<Longrightarrow> kv w key = Some v \<Longrightarrow>
   \<exists>w'. run_state (redis_Get a key) w = (Inr v, w') \<and> kv w' = kv w"
  unfolding redis_strings_def redis_Get_def
  by (rule exI [of _ "snd (run_state (rc_Get a key) w)"]) (auto simp: prod_eq_iff split: option.splits)

lemma redis_Get_None:
  "redis_strings a kv \<Longrightarrow> kv w key = None \<Longrightarrow>
   \<exists>e w'. run_state (redis_Get a key) w = (Inl e, w') \<and> kv w' = kv w"
  unfolding redis_strings_def redis_Get_def
  by (drule conjunct1, drule spec [of _ key], drule spec [of _ w]) (auto simp: prod_eq_iff)

lemma redis_Set_ok:
  "redis_strings a kv \<Longrightarrow>
   \<exists>w'. run_state (redis_Set a key v ttl) w = (None, w') \<and> kv w' = (kv w)(key \<mapsto> v)"
  unfolding redis_strings_def redis_Set_def
  by (rule exI [of _ "snd (run_state (rc_Set a key v ttl) w)"]) (auto simp: prod_eq_iff)

text \<open>
  Sorted sets: \<open>zs w key\<close> maps the members of the set at \<open>key\<close> to their scores.
  \<open>ZADD\<close> inserts or updates, \<open>ZREM\<close> removes, a range by score lists each member in the
  range once, by increasing score.
\<close>

definition zset_add :: "(string \<rightharpoonup> float64) \<Rightarrow> Z list \<Rightarrow> (string \<rightharpoonup> float64)" where
  "zset_add m zs = foldl (\<lambda>m z. m(arg_bytes (Member z) \<mapsto> Score z)) m zs"

definition zset_remove :: "(string \<rightharpoonup> float64) \<Rightarrow> redis_arg list \<Rightarrow> (string \<rightharpoonup> float64)" where
  "zset_remove m args = foldl (\<lambda>m x. m(arg_bytes x := None)) m args"

definition redis_zsets :: "'w redis_client \<Rightarrow> ('w \<Rightarrow> string \<Rightarrow> (string \<rightharpoonup> float64)) \<Rightarrow> bool" where
  "redis_zsets a zs \<longleftrightarrow>
     (\<forall>key ms w. fst (run_state (rc_ZAdd a key ms) w) = None \<and>
        zs (snd (run_state (rc_ZAdd a key ms) w)) = (zs w)(key := zset_add (zs w key) ms)) \<and>
     (\<forall>key args w. fst (run_state (rc_ZRem a key args) w) = None \<and>
        zs (snd (run_state (rc_ZRem a key args) w)) = (zs w)(key := zset_remove (zs w key) args)) \<and>
     (\<forall>key lo hi w. \<exists>vals.
        fst (run_state (rc_ZRangeByScoreWithScores a key (FormatInt lo) (FormatInt hi)) w) = Inr vals \<and>
        zs (snd (run_state (rc_ZRangeByScoreWithScores a key (FormatInt lo) (FormatInt hi)) w)) = zs w \<and>
        distinct (map fst vals) \<and> sorted (map snd vals) \<and>
        set vals = {(m, s). zs w key m = Some s \<and> of_int lo \<le> s \<and> s \<le> of_int hi})"

lemma ZAdd_ok:
  assumes "redis_zsets a zs"
  shows "\<exists>w'. run_state (ZAdd a key [\<lparr>Score = s, Member = m\<rparr>]) w = (None, w') \<and>
           zs w' = (zs w)(key := (zs w key)(arg_bytes m \<mapsto> s))"
proof -
  let ?zs = "[\<lparr>Score = s, Member = m\<rparr>]"
  have "fst (run_state (rc_ZAdd a key ?zs) w) = None \<and>
      zs (snd (run_state (rc_ZAdd a key ?zs) w)) = (zs w)(key := zset_add (zs w key) ?zs)"
    using assms unfolding redis_zsets_def by blast
  then show ?thesis
    by (intro exI [of _ "snd (run_state (rc_ZAdd a key ?zs) w)"])
      (simp add: ZAdd_def zset_add_def prod_eq_iff)
qed

lemma ZDelete_ok:
  assumes "redis_zsets a zs"
  shows "\<exists>w'. run_state (ZDelete a key [\<lparr>Score = s, Member = m\<rparr>]) w = (None, w') \<and>
           zs w' = (zs w)(key := (zs w key)(arg_bytes m := None))"
proof -
  have "fst (run_state (rc_ZRem a key [m]) w) = None \<and>
      zs (snd (run_state (rc_ZRem a key [m]) w)) = (zs w)(key := zset_remove (zs w key) [m])"
    using assms unfolding redis_zsets_def by blast
  then show ?thesis
    by (intro exI [of _ "snd (run_state (rc_ZRem a key [m]) w)"])
      (simp add: ZDelete_def zset_remove_def prod_eq_iff)
qed

lemma ZRange_ok:
  assumes "redis_zsets a zs"
  shows "\<exists>vals w'. run_state (ZRange a key lo hi True) w =
      ((None, map (\<lambda>(m, s). \<lparr>Score = s, Member = RStr m\<rparr>) vals), w') \<and> zs w' = zs w \<and>
    distinct (map fst vals) \<and> sorted (map snd vals) \<and>
    set vals = {(m, s). zs w key m = Some s \<and> of_int lo \<le> s \<and> s \<le> of_int hi}"
proof -
  let ?r = "run_state (rc_ZRangeByScoreWithScores a key (FormatInt lo) (FormatInt hi)) w"
  obtain vals where "fst ?r = Inr vals" "zs (snd ?r) = zs w" "distinct (map fst vals)"
    "sorted (map snd vals)"
    "set vals = {(m, s). zs w key m = Some s \<and> of_int lo \<le> s \<and> s \<le> of_int hi}"
    using assms unfolding redis_zsets_def by blast
  then show ?thesis
    by (intro exI [of _ vals] exI [of _ "snd ?r"])
      (simp add: ZRange_def bb_run case_prod_beta)
qed

end
