(* ===== verification/Broker.thy ===== *)
theory Broker
  imports Contract
begin

text \<open>
  \<open>adapter/broker/kafka-broker.go\<close>: connecting with a bounded number of attempts,
  publishing, and the consumer loop. The Kafka client library sarama is the record
  \<open>sarama\<close>. The consumer loop reads what its \<open>select\<close> delivers from a list of events, each
  a message or the end of the context; it ends with the first end of the context, and the
  model of a loop that is still waiting is a list that holds none.
\<close>

section \<open>The client library\<close>

record 'w sarama =
  sr_NewSyncProducer :: "('w, go_error option) state"
  sr_NewConsumer :: "('w, go_error option) state"
  sr_SendMessage :: "string \<Rightarrow> bytes \<Rightarrow> ('w, go_error option) state"
  sr_ConsumePartition :: "string \<Rightarrow> ('w, go_error option) state"
  sr_producer_Close :: "('w, go_error option) state"
  sr_consumer_Close :: "('w, go_error option) state"
  sr_partition_Close :: "('w, unit) state"
  sr_Sleep :: "duration \<Rightarrow> ('w, unit) state"

definition retryAttempts :: nat where
  "retryAttempts = 5"
definition retryDelay :: duration where
  "retryDelay = 2 * nanosecond_per_second"

section \<open>Connecting\<close>

text \<open>
  One of the two loops of \<open>NewKafkaBroker\<close>: at most \<open>n\<close> attempts, a pause after each failed
  one, and the error of the last attempt.
\<close>

primrec connect_loop :: "'w sarama \<Rightarrow> ('w, go_error option) state \<Rightarrow> go_error option \<Rightarrow> nat \<Rightarrow>
    ('w, go_error option) state" where
  "connect_loop s attempt err 0 = ret err"
| "connect_loop s attempt err (Suc n) = do {
     r \<leftarrow> attempt;
     case r of
       None \<Rightarrow> ret None
     | Some e \<Rightarrow> do { sr_Sleep s retryDelay; connect_loop s attempt (Some e) n } }"

definition NewKafkaBroker :: "'w sarama \<Rightarrow> ('w, go_error + unit) state" where
  "NewKafkaBroker s = do {
     err \<leftarrow> connect_loop s (sr_NewSyncProducer s) None retryAttempts;
     case err of
       Some e \<Rightarrow> ret (Inl (PlainErr (''could not connect to Kafka producer after retries: '' @ Error e)))
     | None \<Rightarrow> do {
         err \<leftarrow> connect_loop s (sr_NewConsumer s) None retryAttempts;
         case err of
           Some e \<Rightarrow> do {
             _ \<leftarrow> sr_producer_Close s;
             ret (Inl (PlainErr (''could not connect to Kafka consumer after retries: '' @ Error e))) }
         | None \<Rightarrow> ret (Inr ()) } }"

section \<open>Publishing and consuming\<close>

definition Publish :: "'w sarama \<Rightarrow> string \<Rightarrow> bytes \<Rightarrow> ('w, go_error option) state" where
  "Publish s topic message = do {
     err \<leftarrow> sr_SendMessage s topic message;
     case err of Some e \<Rightarrow> ret (Some e) | None \<Rightarrow> ret None }"

datatype consume_event = Message bytes | CtxDone go_error

fun consume_loop :: "(bytes \<Rightarrow> ('w, go_error option) state) \<Rightarrow> consume_event list \<Rightarrow>
    ('w, go_error option) state" where
  "consume_loop handler [] = ret None"
| "consume_loop handler (Message m # es) = do { _ \<leftarrow> handler m; consume_loop handler es }"
| "consume_loop handler (CtxDone e # es) = ret (Some e)"

definition Consume :: "'w sarama \<Rightarrow> string \<Rightarrow> (bytes \<Rightarrow> ('w, go_error option) state) \<Rightarrow>
    consume_event list \<Rightarrow> ('w, go_error option) state" where
  "Consume s topic handler events = do {
     err \<leftarrow> sr_ConsumePartition s topic;
     case err of
       Some e \<Rightarrow> ret (Some e)
     | None \<Rightarrow> do {
         r \<leftarrow> consume_loop handler events;
         sr_partition_Close s;
         ret r } }"

definition Close :: "'w sarama \<Rightarrow> ('w, go_error option) state" where
  "Close s = do {
     err \<leftarrow> sr_producer_Close s;
     case err of
       Some e \<Rightarrow> ret (Some e)
     | None \<Rightarrow> do {
         err \<leftarrow> sr_consumer_Close s;
         case err of Some e \<Rightarrow> ret (Some e) | None \<Rightarrow> ret None } }"

text \<open>The adapter as the services see it.\<close>

definition KafkaBroker :: "'w sarama \<Rightarrow> 'w broker" where
  "KafkaBroker s = \<lparr>br_Publish = Publish s\<rparr>"

lemma run_Publish: "run_state (Publish s t m) w = run_state (sr_SendMessage s t m) w"
  by (auto simp: Publish_def bb_run case_prod_beta prod_eq_iff split: option.splits)

text \<open>
  What the documentation of the synchronous producer promises: a message that was sent
  without an error is in its topic, one that was not is not, and no other state changes.
\<close>

definition sarama_delivers ::
  "'w sarama \<Rightarrow> ('w \<Rightarrow> string \<Rightarrow> bytes list) \<Rightarrow> ('w \<Rightarrow> 'o) \<Rightarrow> bool" where
  "sarama_delivers s topic_log other \<longleftrightarrow>
     (\<forall>t m w. topic_log (snd (run_state (sr_SendMessage s t m) w)) =
        (if fst (run_state (sr_SendMessage s t m) w) = None
         then (topic_log w)(t := topic_log w t @ [m]) else topic_log w) \<and>
        other (snd (run_state (sr_SendMessage s t m) w)) = other w)"

interpretation kafka: publishing "KafkaBroker s" topic_log other
    "\<lambda>_. sarama_delivers s topic_log other" for s topic_log other
  by unfold_locales (simp_all add: KafkaBroker_def run_Publish sarama_delivers_def)

section \<open>Bounded retries\<close>

text \<open>
  \<open>calls w\<close> counts how often the attempt has been made; the pause makes none.
\<close>

lemma connect_loop_calls:
  assumes attempt: "\<And>w. calls (snd (run_state attempt w)) = Suc (calls w)"
    and sleep: "\<And>d w. calls (snd (run_state (sr_Sleep s d) w)) = calls w"
  shows "calls (snd (run_state (connect_loop s attempt err n) w)) \<le> calls w + n \<and>
    (fst (run_state (connect_loop s attempt err n) w) \<noteq> None \<longrightarrow>
      calls (snd (run_state (connect_loop s attempt err n) w)) = calls w + n)"
proof (induction n arbitrary: w err)
  case (Suc n)
  obtain r w1 where r: "run_state attempt w = (r, w1)" by (cases "run_state attempt w")
  let ?w2 = "snd (run_state (sr_Sleep s retryDelay) w1)"
  have c: "calls w1 = Suc (calls w)" "calls ?w2 = Suc (calls w)"
    using attempt [of w] by (simp_all add: r sleep)
  then show ?case using Suc.IH [of r ?w2]
    by (cases r) (simp_all add: r case_prod_beta)
qed simp

lemma connect_loop_first_success:
  "fst (run_state attempt w) = None \<Longrightarrow>
   run_state (connect_loop s attempt err (Suc n)) w = (None, snd (run_state attempt w))"
  by (simp add: bb_run case_prod_beta)

text \<open>
  A service that starts gives up on Kafka after five attempts, never more: when every
  connection attempt counts one, at most five producers are tried, and a start that failed
  at the producer has tried exactly five and no consumer at all.
\<close>

theorem NewKafkaBroker_bounded:
  assumes producer: "\<And>w. pcalls (snd (run_state (sr_NewSyncProducer s) w)) = Suc (pcalls w)"
    and sleep: "\<And>d w. pcalls (snd (run_state (sr_Sleep s d) w)) = pcalls w"
    and err: "fst (run_state (connect_loop s (sr_NewSyncProducer s) None retryAttempts) w) = Some e"
  shows "pcalls (snd (run_state (NewKafkaBroker s) w)) = pcalls w + 5 \<and>
         fst (run_state (NewKafkaBroker s) w) =
           Inl (PlainErr (''could not connect to Kafka producer after retries: '' @ Error e))"
proof -
  let ?r = "run_state (connect_loop s (sr_NewSyncProducer s) None retryAttempts) w"
  have "pcalls (snd ?r) = pcalls w + retryAttempts"
    using err connect_loop_calls [where calls = pcalls, OF producer sleep] by simp
  moreover have "run_state (NewKafkaBroker s) w =
      (Inl (PlainErr (''could not connect to Kafka producer after retries: '' @ Error e)), snd ?r)"
    using err unfolding NewKafkaBroker_def by (simp only: bb_run case_prod_beta) simp
  ultimately show ?thesis by (simp add: retryAttempts_def)
qed

section \<open>A failing handler does not stop the consumer\<close>

lemma consume_loop_append:
  "run_state (consume_loop handler (map Message ms @ es)) w =
   run_state (consume_loop handler es)
     (snd (run_state (for_each ms (\<lambda>m. do { _ \<leftarrow> handler m; ret () })) w))"
  by (induction ms arbitrary: w) (auto simp: bb_run case_prod_beta)

end
