(* ===== verification/Reference_World.thy ===== *)
theory Reference_World
  imports Redis_Adapter Broker "HOL-Library.AList"
begin

text \<open>
  A concrete world: a Redis, a Kafka and a clock as plain data, and clients for them that
  behave as the documentation says. The parameters of the model are instantiated with them
  in the witnesses, which shows that the laws the theorems assume can hold; nothing in the
  model itself depends on this theory.
\<close>

record world =
  w_kv :: "(string \<times> string) list"
  w_zsets :: "string \<Rightarrow> (string \<times> float64) list"
  w_topics :: "string \<Rightarrow> bytes list"
  w_clock :: gotime
  w_calls :: nat

definition world0 :: world where
  "world0 = \<lparr>w_kv = [], w_zsets = (\<lambda>_. []), w_topics = (\<lambda>_. []), w_clock = 0, w_calls = 0\<rparr>"

lemma world0_simps [simp]:
  "w_kv world0 = []" "w_zsets world0 = (\<lambda>_. [])" "w_topics world0 = (\<lambda>_. [])"
  "w_clock world0 = 0" "w_calls world0 = 0"
  by (simp_all add: world0_def)

abbreviation effect :: "'a \<Rightarrow> ('w \<Rightarrow> 'w) \<Rightarrow> ('w, 'a) state" where
  "effect x f \<equiv> State (\<lambda>w. (x, f w))"

section \<open>The clock\<close>

text \<open>A clock that advances by a microsecond at each reading, and one that stands still.\<close>

definition ref_Now :: "('z world_scheme, gotime) state" where
  "ref_Now = State (\<lambda>w. (w_clock w, w\<lparr>w_clock := w_clock w + 1000\<rparr>))"

definition ref_Now_frozen :: "gotime \<Rightarrow> ('w, gotime) state" where
  "ref_Now_frozen t = State (\<lambda>w. (t, w))"

section \<open>Redis\<close>

definition read_nat :: "string \<Rightarrow> nat" where
  "read_nat s = foldl (\<lambda>a c. 10 * a + digit_val c) 0 s"

definition read_int :: "string \<Rightarrow> int" where
  "read_int s = (case s of [] \<Rightarrow> 0
     | c # cs \<Rightarrow> if c = CHR ''-'' then - int (read_nat cs) else int (read_nat s))"

lemma read_nat_dec_digits [simp]: "read_nat (dec_digits n) = n"
proof (induction n rule: dec_digits.induct)
  case (1 n)
  then show ?case
    by (cases "n < 10") (simp_all add: dec_digits.simps [of n] read_nat_def)
qed

lemma read_int_FormatInt [simp]: "read_int (FormatInt i) = i"
proof (cases "i < 0")
  case False
  obtain c cs where s: "dec_digits (nat i) = c # cs" by (metis dec_digits_not_Nil list.exhaust)
  moreover have "c \<noteq> CHR ''-''" using hd_dec_digits_no_sign(1) [of "nat i"] s by simp
  ultimately show ?thesis
    using False read_nat_dec_digits [of "nat i"] by (simp add: FormatInt_def read_int_def)
qed (simp add: FormatInt_def read_int_def)

definition ref_redis :: "'z world_scheme redis_client" where
  "ref_redis = \<lparr>
     rc_ZAdd = (\<lambda>key ms. effect None (\<lambda>w. w\<lparr>w_zsets := (w_zsets w)(key :=
       foldl (\<lambda>l z. AList.update (arg_bytes (Member z)) (Score z) l) (w_zsets w key) ms)\<rparr>)),
     rc_ZRem = (\<lambda>key args. effect None (\<lambda>w. w\<lparr>w_zsets := (w_zsets w)(key :=
       foldl (\<lambda>l x. AList.delete (arg_bytes x) l) (w_zsets w key) args)\<rparr>)),
     rc_ZRangeByScoreWithScores = (\<lambda>key lo hi. State (\<lambda>w.
       (Inr (sort_key snd (filter (\<lambda>(m, s). of_int (read_int lo) \<le> s \<and> s \<le> of_int (read_int hi))
          (AList.clearjunk (w_zsets w key)))), w))),
     rc_ZRange = (\<lambda>key start stop. State (\<lambda>w. (Inr (map fst (w_zsets w key)), w))),
     rc_Set = (\<lambda>key v ttl. effect None (\<lambda>w. w\<lparr>w_kv := (key, v) # w_kv w\<rparr>)),
     rc_Get = (\<lambda>key. State (\<lambda>w. (case map_of (w_kv w) key of
        Some v \<Rightarrow> Inr v | None \<Rightarrow> Inl (PlainErr ''redis: nil''), w)))\<rparr>"

definition ref_kv :: "'z world_scheme \<Rightarrow> string \<Rightarrow> string option" where
  "ref_kv w = map_of (w_kv w)"

definition ref_zs :: "'z world_scheme \<Rightarrow> string \<Rightarrow> string \<rightharpoonup> float64" where
  "ref_zs w key = map_of (w_zsets w key)"

lemma ref_redis_strings: "redis_strings ref_redis ref_kv"
  by (auto simp: redis_strings_def ref_redis_def ref_kv_def split: option.splits)

lemma map_of_foldl_update:
  "map_of (foldl (\<lambda>l z. AList.update (arg_bytes (Member z)) (Score z) l) l ms) = zset_add (map_of l) ms"
  by (induction ms arbitrary: l) (simp_all add: zset_add_def update_conv')

lemma map_of_foldl_delete:
  "map_of (foldl (\<lambda>l x. AList.delete (arg_bytes x) l) l args) = zset_remove (map_of l) args"
  by (induction args arbitrary: l) (simp_all add: zset_remove_def delete_conv')

lemma ref_range:
  fixes l :: "(string \<times> float64) list" and lo hi :: int
  defines "vals \<equiv> sort_key snd (filter (\<lambda>(m, s). of_int lo \<le> s \<and> s \<le> of_int hi) (AList.clearjunk l))"
  shows "distinct (map fst vals)" "sorted (map snd vals)"
    "set vals = {(m, s). map_of l m = Some s \<and> of_int lo \<le> s \<and> s \<le> of_int hi}"
proof -
  let ?F = "filter (\<lambda>(m, s). of_int lo \<le> s \<and> s \<le> of_int hi) (AList.clearjunk l)"
  have d: "distinct (map fst (AList.clearjunk l))" by (rule distinct_clearjunk)
  then have "distinct (map fst ?F)" by (rule distinct_map_filter)
  moreover have "mset (map fst vals) = mset (map fst ?F)" by (simp add: vals_def)
  ultimately show "distinct (map fst vals)" using mset_eq_imp_distinct_iff by blast
  show "sorted (map snd vals)" by (simp add: vals_def)
  have "(m, s) \<in> set (AList.clearjunk l) \<longleftrightarrow> map_of l m = Some s" for m s
    using map_of_eq_Some_iff [OF d, of m s] by (simp add: map_of_clearjunk)
  then show "set vals = {(m, s). map_of l m = Some s \<and> of_int lo \<le> s \<and> s \<le> of_int hi}"
    by (auto simp: vals_def)
qed

lemma ref_redis_zsets: "redis_zsets ref_redis ref_zs"
  unfolding redis_zsets_def
proof (intro conjI allI)
  fix key lo hi w
  show "\<exists>vals. fst (run_state (rc_ZRangeByScoreWithScores ref_redis key (FormatInt lo) (FormatInt hi)) w) = Inr vals \<and>
      ref_zs (snd (run_state (rc_ZRangeByScoreWithScores ref_redis key (FormatInt lo) (FormatInt hi)) w)) = ref_zs w \<and>
      distinct (map fst vals) \<and> sorted (map snd vals) \<and>
      set vals = {(m, s). ref_zs w key m = Some s \<and> of_int lo \<le> s \<and> s \<le> of_int hi}"
    using ref_range [of lo hi "w_zsets w key"]
    by (simp add: ref_redis_def ref_zs_def)
qed (auto simp: ref_redis_def ref_zs_def fun_eq_iff map_of_foldl_update map_of_foldl_delete)

section \<open>Kafka\<close>

text \<open>A broker that takes every message, and one that refuses them and every connection.\<close>

definition ref_sarama :: "'z world_scheme sarama" where
  "ref_sarama = \<lparr>
     sr_NewSyncProducer = effect None (\<lambda>w. w\<lparr>w_calls := Suc (w_calls w)\<rparr>),
     sr_NewConsumer = effect None (\<lambda>w. w),
     sr_SendMessage = (\<lambda>t m. effect None (\<lambda>w. w\<lparr>w_topics := (w_topics w)(t := w_topics w t @ [m])\<rparr>)),
     sr_ConsumePartition = (\<lambda>_. ret None), sr_producer_Close = ret None, sr_consumer_Close = ret None,
     sr_partition_Close = ret (), sr_Sleep = (\<lambda>d. effect () (\<lambda>w. w\<lparr>w_clock := w_clock w + d\<rparr>))\<rparr>"

definition ref_sarama_down :: "'z world_scheme sarama" where
  "ref_sarama_down = ref_sarama\<lparr>
     sr_NewSyncProducer := effect (Some (PlainErr ''refused'')) (\<lambda>w. w\<lparr>w_calls := Suc (w_calls w)\<rparr>),
     sr_SendMessage := (\<lambda>_ _. ret (Some (PlainErr ''leader not available'')))\<rparr>"

lemma ref_sarama_delivers:
  "(\<And>w t. other (w\<lparr>w_topics := t\<rparr>) = other w) \<Longrightarrow> sarama_delivers ref_sarama w_topics other"
  by (simp add: sarama_delivers_def ref_sarama_def)

lemma ref_sarama_down_delivers: "sarama_delivers ref_sarama_down w_topics other"
  by (simp add: sarama_delivers_def ref_sarama_down_def)

text \<open>A start against the broker that refuses every connection tries five times.\<close>

lemma NewKafkaBroker_bounded_witness:
  "w_calls (snd (run_state (NewKafkaBroker ref_sarama_down) world0)) = 5 \<and>
   fst (run_state (NewKafkaBroker ref_sarama_down) world0) =
     Inl (PlainErr ''could not connect to Kafka producer after retries: refused'')"
  using NewKafkaBroker_bounded [of w_calls ref_sarama_down world0 "PlainErr ''refused''"]
  by (simp add: ref_sarama_down_def ref_sarama_def retryAttempts_def numeral_eq_Suc)

section \<open>A wire format\<close>

text \<open>
  A codec that satisfies the round trip: it can write down the messages of one table and
  refuses the others.
\<close>

definition table_marshal :: "('m \<times> bytes) list \<Rightarrow> 'm \<Rightarrow> go_error + bytes" where
  "table_marshal tab m = (case map_of tab m of Some b \<Rightarrow> Inr b | None \<Rightarrow> Inl (PlainErr ''proto''))"

definition table_unmarshal :: "('m \<times> bytes) list \<Rightarrow> bytes \<Rightarrow> go_error + 'm" where
  "table_unmarshal tab b = (case map_of (map prod.swap tab) b of
     Some m \<Rightarrow> Inr m | None \<Rightarrow> Inl (PlainErr ''proto''))"

lemma table_round_trip:
  assumes "distinct (map snd tab)" and "table_marshal tab m = Inr b"
  shows "table_unmarshal tab b = Inr m"
proof -
  have "map_of tab m = Some b" using assms(2) by (simp add: table_marshal_def split: option.splits)
  then have "(b, m) \<in> set (map prod.swap tab)" by (force dest: map_of_SomeD)
  moreover have "distinct (map fst (map prod.swap tab))" using assms(1) by (simp add: comp_def)
  ultimately have "map_of (map prod.swap tab) b = Some m" by (meson map_of_is_SomeI)
  then show ?thesis by (simp add: table_unmarshal_def)
qed

definition table_proto :: "(PbAllMatchedUsers \<times> bytes) list \<Rightarrow> (PbAddToWaitingList \<times> bytes) list \<Rightarrow>
    (PbQuestions \<times> bytes) list \<Rightarrow> proto_codec" where
  "table_proto a b c = \<lparr>
     marshal_AllMatchedUsers = table_marshal a, unmarshal_AllMatchedUsers = table_unmarshal a,
     marshal_AddToWaitingList = table_marshal b, unmarshal_AddToWaitingList = table_unmarshal b,
     marshal_Questions = table_marshal c, unmarshal_Questions = table_unmarshal c\<rparr>"

lemma table_proto_ok:
  "distinct (map snd a) \<Longrightarrow> distinct (map snd b) \<Longrightarrow> distinct (map snd c) \<Longrightarrow> proto_ok (table_proto a b c)"
  by (auto simp: proto_ok_def table_proto_def intro: table_round_trip)

end
