(* ===== verification/Auth_Properties.thy ===== *)
theory Auth_Properties
  imports Auth_Service Reference_World
begin

text \<open>
  Correctness of the auth service: what a token carries, how long it is accepted, what the
  gateway puts into the headers, and the contract \<open>token_issuer\<close> of the token client, met by
  the client over a connection to this service.
\<close>

section \<open>Documented behaviour of the libraries\<close>

definition ascii :: "string \<Rightarrow> bool" where
  "ascii s \<longleftrightarrow> list_all (\<lambda>c. 0 < (of_char c :: nat) \<and> (of_char c :: nat) < 128) s"

text \<open>Claims that survive JSON: ASCII strings, and numbers a \<open>float64\<close> holds exactly.\<close>

definition json_safe :: "MapClaims \<Rightarrow> bool" where
  "json_safe c \<longleftrightarrow> finite (dom c) \<and> (\<forall>k v. c k = Some v \<longrightarrow> ascii k \<and>
     (case v of ClaimString s \<Rightarrow> ascii s | ClaimNumber n \<Rightarrow> \<bar>n\<bar> \<le> 2 ^ 53))"

text \<open>
  The registered claims that \<open>jwt.Parse\<close> checks, against the time in nanoseconds: the
  library reads \<open>exp\<close> and \<open>nbf\<close> as seconds, takes 0 for absent and refuses strings.
\<close>

definition claims_valid :: "gotime \<Rightarrow> MapClaims \<Rightarrow> bool" where
  "claims_valid now c \<longleftrightarrow>
     (case c ''exp'' of None \<Rightarrow> True | Some (ClaimString _) \<Rightarrow> False
      | Some (ClaimNumber e) \<Rightarrow> e = 0 \<or> now < e * nanosecond_per_second) \<and>
     (case c ''nbf'' of None \<Rightarrow> True | Some (ClaimString _) \<Rightarrow> False
      | Some (ClaimNumber n) \<Rightarrow> n * nanosecond_per_second \<le> now)"

definition jwt_ok :: "jwt \<Rightarrow> bool" where
  "jwt_ok J \<longleftrightarrow>
     (\<forall>key c. json_safe c \<longrightarrow> (\<exists>t. t \<noteq> [] \<and> jwt_SignedString J key c = Inr t)) \<and>
     (\<forall>key c t now. json_safe c \<longrightarrow> jwt_SignedString J key c = Inr t \<longrightarrow>
        (if claims_valid now c then jwt_Parse J key now t = Inr c else \<exists>e. jwt_Parse J key now t = Inl e)) \<and>
     (\<forall>key now t. \<exists>e. jwt_Parse J key now (''Bearer '' @ t) = Inl e)"

definition ozzo_ok :: "ozzo \<Rightarrow> bool" where
  "ozzo_ok oz \<longleftrightarrow>
     (\<forall>msg absent. oz_Required oz msg absent = None \<longleftrightarrow> \<not> absent) \<and>
     (\<forall>es. oz_Each oz es = None \<longleftrightarrow> list_all (\<lambda>e. e = None) es) \<and>
     (\<forall>es. oz_ValidateStruct oz es = None \<longleftrightarrow> list_all (\<lambda>e. e = None) es)"

definition auth_env_ok :: "'w auth_env \<Rightarrow> bool" where
  "auth_env_ok env \<longleftrightarrow> jwt_ok (ae_jwt env) \<and> ozzo_ok (ae_ozzo env) \<and>
     (\<forall>ks w. mset (fst (run_state (ae_MapRange env ks) w)) = mset ks) \<and>
     (\<forall>w. ascii (fst (run_state (ae_NewString env) w))) \<and>
     (\<forall>w. 0 \<le> fst (run_state (ae_Now env) w) \<and>
          fst (run_state (ae_Now env) w) \<le> 2 ^ 53 * nanosecond_per_second)"

lemma auth_env_okD:
  assumes "auth_env_ok env"
  shows "jwt_ok (ae_jwt env)" "ozzo_ok (ae_ozzo env)"
    "mset (fst (run_state (ae_MapRange env ks) w)) = mset ks"
    "ascii (fst (run_state (ae_NewString env) w))"
    "0 \<le> fst (run_state (ae_Now env) w)"
    "fst (run_state (ae_Now env) w) \<le> 2 ^ 53 * nanosecond_per_second"
  using assms by (simp_all add: auth_env_ok_def)

section \<open>Validation\<close>

lemma first_error_None [simp]: "first_error es = None \<longleftrightarrow> list_all (\<lambda>e. e = None) es"
  by (induction es rule: first_error.induct) auto

lemma ozzo_simps:
  assumes "ozzo_ok oz"
  shows "oz_Required oz msg absent = None \<longleftrightarrow> \<not> absent"
    "oz_Each oz es = None \<longleftrightarrow> list_all (\<lambda>e. e = None) es"
    "oz_ValidateStruct oz es = None \<longleftrightarrow> list_all (\<lambda>e. e = None) es"
  using assms by (simp_all add: ozzo_ok_def)

definition valid_data :: "TokenData list \<Rightarrow> bool" where
  "valid_data data \<longleftrightarrow> data \<noteq> [] \<and> (\<forall>d \<in> set data. tr_Key d \<noteq> [] \<and> tr_Value d \<noteq> [])"

lemma validators_accept:
  assumes "ozzo_ok oz"
  shows "ValidateCreateAccessTokenRequest oz data = None \<longleftrightarrow> valid_data data"
    "ValidateCreateRefreshTokenRequest oz data = None \<longleftrightarrow> valid_data data"
    "ValidateValidateTokenRequest oz req = None \<longleftrightarrow> vt_Token req \<noteq> []"
  using ozzo_simps [OF assms]
  by (auto simp: ValidateCreateAccessTokenRequest_def ValidateCreateRefreshTokenRequest_def
      ValidateValidateTokenRequest_def validate_item_def valid_data_def list_all_iff)

section \<open>Claims\<close>

definition last_value :: "TokenData list \<Rightarrow> string \<Rightarrow> string option" where
  "last_value data = map_of (rev (map (\<lambda>d. (tr_Key d, tr_Value d)) data))"

lemma toJWTClaims_last: "toJWTClaims data = (\<lambda>k. map_option ClaimString (last_value data k))"
  unfolding last_value_def
proof (induction data rule: rev_induct)
  case (snoc d data)
  then show ?case by (auto simp: toJWTClaims_def fun_eq_iff)
qed (simp add: toJWTClaims_def fun_eq_iff)

lemma last_value_SomeD: "last_value data k = Some v \<Longrightarrow> \<exists>d \<in> set data. tr_Key d = k \<and> tr_Value d = v"
proof -
  assume "last_value data k = Some v"
  then have "(k, v) \<in> set (rev (map (\<lambda>d. (tr_Key d, tr_Value d)) data))"
    unfolding last_value_def by (rule map_of_SomeD)
  then show "\<exists>d \<in> set data. tr_Key d = k \<and> tr_Value d = v" by auto
qed

definition issued_claims :: "TokenData list \<Rightarrow> duration \<Rightarrow> string \<Rightarrow> int \<Rightarrow> MapClaims" where
  "issued_claims data d uuid iat = (toJWTClaims data)
     (expireTimeKey \<mapsto> ClaimNumber d, jwtIdKey \<mapsto> ClaimString uuid, jwtIssuedAt \<mapsto> ClaimNumber iat)"

definition plain_data :: "TokenData list \<Rightarrow> bool" where
  "plain_data data \<longleftrightarrow> valid_data data \<and>
     (\<forall>d \<in> set data. ascii (tr_Key d) \<and> ascii (tr_Value d) \<and>
        tr_Key d \<notin> {''exp'', ''jti'', ''iat'', ''nbf''})"

lemma issued_claims_safe:
  assumes "plain_data data" and "0 \<le> d" "d \<le> 2 ^ 53" and "ascii uuid" and "0 \<le> iat" "iat \<le> 2 ^ 53"
  shows "json_safe (issued_claims data d uuid iat)"
proof -
  have "finite (dom (toJWTClaims data))"
    unfolding toJWTClaims_last last_value_def by (simp add: dom_map_option finite_dom_map_of)
  moreover have "ascii k \<and> (case v of ClaimString s \<Rightarrow> ascii s | ClaimNumber n \<Rightarrow> \<bar>n\<bar> \<le> 2 ^ 53)"
    if "issued_claims data d uuid iat k = Some v" for k v
    using that assms last_value_SomeD [of data k]
    by (auto simp: issued_claims_def toJWTClaims_last claim_key_defs plain_data_def ascii_def split: if_splits)
  ultimately show ?thesis by (simp add: json_safe_def issued_claims_def)
qed

lemma issued_claims_valid:
  assumes "plain_data data"
  shows "claims_valid now (issued_claims data d uuid iat) \<longleftrightarrow> d = 0 \<or> now < d * nanosecond_per_second"
proof -
  have "last_value data ''nbf'' = None"
    using assms last_value_SomeD [of data "''nbf''"] by (cases "last_value data ''nbf''") (auto simp: plain_data_def)
  then show ?thesis
    by (simp add: claims_valid_def issued_claims_def claim_key_defs toJWTClaims_last)
qed

lemma issued_claims_lookup:
  "k \<notin> {''exp'', ''jti'', ''iat''} \<Longrightarrow>
   issued_claims data d uuid iat k = map_option ClaimString (last_value data k)"
  by (simp add: issued_claims_def claim_key_defs toJWTClaims_last)

section \<open>Issuing and validating\<close>

text \<open>A token that was issued for some data, with some lifetime.\<close>

definition token_for :: "'w auth_env \<Rightarrow> auth_config \<Rightarrow> duration \<Rightarrow> TokenData list \<Rightarrow> string \<Rightarrow> bool" where
  "token_for env cfg d data tok \<longleftrightarrow> tok \<noteq> [] \<and>
     (\<exists>uuid iat. json_safe (issued_claims data d uuid iat) \<and>
        jwt_SignedString (ae_jwt env) (SecretKey cfg) (issued_claims data d uuid iat) = Inr tok)"

lemma now_seconds:
  "auth_env_ok env \<Longrightarrow> 0 \<le> fst (run_state (ae_Now env) w) div nanosecond_per_second \<and>
   fst (run_state (ae_Now env) w) div nanosecond_per_second \<le> 2 ^ 53"
  using auth_env_okD(5,6) [of env w] by linarith

lemma sign_issued:
  assumes "auth_env_ok env" and "plain_data data" and "0 \<le> d" "d \<le> 2 ^ 53"
  shows "\<exists>tok. jwt_SignedString (ae_jwt env) (SecretKey cfg)
      (issued_claims data d (fst (run_state (ae_NewString env) w)) (fst (run_state (ae_Now env) w') div nanosecond_per_second)) = Inr tok \<and>
    token_for env cfg d data tok"
proof -
  let ?c = "issued_claims data d (fst (run_state (ae_NewString env) w)) (fst (run_state (ae_Now env) w') div nanosecond_per_second)"
  have safe: "json_safe ?c"
    using now_seconds [OF assms(1), of w'] auth_env_okD(4) [OF assms(1)]
    by (intro issued_claims_safe assms) simp_all
  then obtain tok where "tok \<noteq> []" "jwt_SignedString (ae_jwt env) (SecretKey cfg) ?c = Inr tok"
    using auth_env_okD(1) [OF assms(1)] unfolding jwt_ok_def by blast
  then show ?thesis using safe unfolding token_for_def by blast
qed

lemma create_tokens:
  assumes "auth_env_ok env" and "plain_data data"
  shows "0 \<le> AccessTokenExpireTime cfg \<Longrightarrow> AccessTokenExpireTime cfg \<le> 2 ^ 53 \<Longrightarrow>
      \<exists>tok. fst (run_state (CreateAccessToken env cfg data) w) =
          Inr \<lparr>at_AccessToken = tok, at_ExpireTime = AccessTokenExpireTime cfg div 1000000\<rparr> \<and>
        token_for env cfg (AccessTokenExpireTime cfg) data tok"
    "0 \<le> RefreshTokenExpireTime cfg \<Longrightarrow> RefreshTokenExpireTime cfg \<le> 2 ^ 53 \<Longrightarrow>
      \<exists>tok. fst (run_state (CreateRefreshToken env cfg data) w) =
          Inr \<lparr>rt_RefreshToken = tok, rt_ExpireTime = RefreshTokenExpireTime cfg div 1000000\<rparr> \<and>
        token_for env cfg (RefreshTokenExpireTime cfg) data tok"
proof -
  let ?w1 = "snd (run_state (ae_NewString env) w)"
  have v: "valid_data data" using assms(2) by (simp add: plain_data_def)
  note valid = validators_accept(1,2) [OF auth_env_okD(2) [OF assms(1)], of data]
  {
    assume d: "0 \<le> AccessTokenExpireTime cfg" "AccessTokenExpireTime cfg \<le> 2 ^ 53"
    then show "\<exists>tok. fst (run_state (CreateAccessToken env cfg data) w) =
          Inr \<lparr>at_AccessToken = tok, at_ExpireTime = AccessTokenExpireTime cfg div 1000000\<rparr> \<and>
        token_for env cfg (AccessTokenExpireTime cfg) data tok"
      using sign_issued [OF assms d, of cfg w ?w1] v valid
      by (auto simp: CreateAccessToken_def case_prod_beta Let_def issued_claims_def go_div_nonneg)
  }
  {
    assume d: "0 \<le> RefreshTokenExpireTime cfg" "RefreshTokenExpireTime cfg \<le> 2 ^ 53"
    then show "\<exists>tok. fst (run_state (CreateRefreshToken env cfg data) w) =
          Inr \<lparr>rt_RefreshToken = tok, rt_ExpireTime = RefreshTokenExpireTime cfg div 1000000\<rparr> \<and>
        token_for env cfg (RefreshTokenExpireTime cfg) data tok"
      using sign_issued [OF assms d, of cfg w ?w1] v valid
      by (auto simp: CreateRefreshToken_def case_prod_beta Let_def issued_claims_def go_div_nonneg)
  }
qed

definition unauthorized :: "go_error \<Rightarrow> go_error" where
  "unauthorized err = AppErr (Wrap ''service.ValidateToken'' (Some err) ErrUnauthorized)"

definition selected :: "MapClaims \<Rightarrow> string list \<Rightarrow> TokenData set" where
  "selected claims ks =
     {\<lparr>tr_Key = k, tr_Value = v\<rparr> | k v. k \<in> set ks \<and> claims k = Some (ClaimString v)}"

lemma set_toMapData:
  assumes "auth_env_ok env"
  shows "set (fst (run_state (toMapData env ks claims) w)) = selected claims ks"
proof -
  have "set (fst (run_state (ae_MapRange env ks) w)) = set ks"
    using auth_env_okD(3) [OF assms, of ks w] by (metis set_mset_mset)
  then show ?thesis
    by (force simp: toMapData_def case_prod_beta selected_def split: option.splits claim.splits)
qed

lemma distinct_keys_toMapData:
  assumes "auth_env_ok env" and "distinct ks"
  shows "distinct (map tr_Key (fst (run_state (toMapData env ks claims) w)))"
proof -
  let ?keys = "fst (run_state (ae_MapRange env ks) w)"
  have d: "distinct ?keys"
    using auth_env_okD(3) [OF assms(1), of ks w] assms(2) mset_eq_imp_distinct_iff by blast
  have "map tr_Key (concat (map (\<lambda>key. case claims key of
        Some (ClaimString value) \<Rightarrow> [\<lparr>tr_Key = key, tr_Value = value\<rparr>] | _ \<Rightarrow> []) xs)) =
      filter (\<lambda>k. \<exists>v. claims k = Some (ClaimString v)) xs" for xs
    by (induction xs) (auto split: option.splits claim.splits)
  then show ?thesis using d by (simp add: toMapData_def case_prod_beta)
qed

lemma validate_token_for:
  assumes "auth_env_ok env" and "plain_data data" and "token_for env cfg d data tok"
    and "set ks \<inter> {''exp'', ''jti'', ''iat''} = {}"
  shows "if d = 0 \<or> fst (run_state (ae_Now env) w) < d * nanosecond_per_second
    then \<exists>ad. fst (run_state (ValidateToken env cfg \<lparr>vt_Token = tok, vt_Data = ks\<rparr>) w) =
        Inr \<lparr>vt_Valid = True, vt_AdditionalData = ad\<rparr> \<and> distinct (map tr_Key ad) \<and>
        set ad = {\<lparr>tr_Key = k, tr_Value = v\<rparr> | k v. k \<in> {''id'', ''role''} \<union> set ks \<and> last_value data k = Some v}
    else \<exists>e. fst (run_state (ValidateToken env cfg \<lparr>vt_Token = tok, vt_Data = ks\<rparr>) w) = Inl (unauthorized e)"
proof -
  obtain uuid iat where tok: "tok \<noteq> []" and safe: "json_safe (issued_claims data d uuid iat)"
    and sign: "jwt_SignedString (ae_jwt env) (SecretKey cfg) (issued_claims data d uuid iat) = Inr tok"
    using assms(3) by (auto simp: token_for_def)
  let ?c = "issued_claims data d uuid iat" and ?now = "fst (run_state (ae_Now env) w)"
  let ?ks = "remdups (additionalData @ ks)" and ?w1 = "snd (run_state (ae_Now env) w)"
  have parse: "if claims_valid ?now ?c then jwt_Parse (ae_jwt env) (SecretKey cfg) ?now tok = Inr ?c
      else \<exists>e. jwt_Parse (ae_jwt env) (SecretKey cfg) ?now tok = Inl e"
    using auth_env_okD(1) [OF assms(1)] safe sign unfolding jwt_ok_def by blast
  have accept: "ValidateValidateTokenRequest (ae_ozzo env) \<lparr>vt_Token = tok, vt_Data = ks\<rparr> = None"
    using tok validators_accept(3) [OF auth_env_okD(2) [OF assms(1)]] by simp
  have sel: "selected ?c ?ks =
      {\<lparr>tr_Key = k, tr_Value = v\<rparr> | k v. k \<in> {''id'', ''role''} \<union> set ks \<and> last_value data k = Some v}"
    using assms(4)
    by (auto simp: selected_def issued_claims_lookup claim_key_defs disjoint_iff)
  show ?thesis
  proof (cases "claims_valid ?now ?c")
    case True
    then have "fst (run_state (ValidateToken env cfg \<lparr>vt_Token = tok, vt_Data = ks\<rparr>) w) =
        Inr \<lparr>vt_Valid = True, vt_AdditionalData = fst (run_state (toMapData env ?ks ?c) ?w1)\<rparr>"
      using parse accept by (simp add: ValidateToken_def case_prod_beta)
    then show ?thesis
      using True issued_claims_valid [OF assms(2)] set_toMapData [OF assms(1), of ?ks ?c ?w1] sel
        distinct_keys_toMapData [OF assms(1), of ?ks ?c ?w1] by simp
  next
    case False
    then show ?thesis
      using parse accept issued_claims_valid [OF assms(2), of ?now d uuid iat]
      by (auto simp: ValidateToken_def case_prod_beta unauthorized_def)
  qed
qed

section \<open>Properties\<close>

text \<open>
  C27. What a client puts into an access token comes out of its validation: within the
  lifetime of the token, \<open>ValidateToken\<close> reports it valid and returns the values of \<open>id\<close>,
  \<open>role\<close> and every other requested key, each once, where a key that was given twice has
  the later value.
\<close>

theorem access_token_round_trip:
  assumes "auth_env_ok env" and "plain_data data"
    and "0 < AccessTokenExpireTime cfg" "AccessTokenExpireTime cfg \<le> 2 ^ 53"
    and "set ks \<inter> {''exp'', ''jti'', ''iat''} = {}"
    and "fst (run_state (ae_Now env) w') < AccessTokenExpireTime cfg * nanosecond_per_second"
  shows "\<exists>r ad. fst (run_state (CreateAccessToken env cfg data) w) = Inr r \<and>
    fst (run_state (ValidateToken env cfg \<lparr>vt_Token = at_AccessToken r, vt_Data = ks\<rparr>) w') =
      Inr \<lparr>vt_Valid = True, vt_AdditionalData = ad\<rparr> \<and> distinct (map tr_Key ad) \<and>
    set ad = {\<lparr>tr_Key = k, tr_Value = v\<rparr> | k v. k \<in> {''id'', ''role''} \<union> set ks \<and> last_value data k = Some v}"
proof -
  obtain tok where create: "fst (run_state (CreateAccessToken env cfg data) w) =
      Inr \<lparr>at_AccessToken = tok, at_ExpireTime = AccessTokenExpireTime cfg div 1000000\<rparr>"
    and tok: "token_for env cfg (AccessTokenExpireTime cfg) data tok"
    using create_tokens(1) [OF assms(1,2), of cfg w] assms(3,4) by auto
  show ?thesis
    using validate_token_for [OF assms(1,2) tok assms(5), of w'] assms(6) create by auto
qed

text \<open>
  C36. Tokens do not expire in practice. The claim \<open>exp\<close> holds the configured lifetime as a
  number of nanoseconds, where the library reads seconds since 1970, and the time of issue
  plays no part: with a lifetime of a minute or more, a token is accepted at every clock
  reading before second 60,000,000,000 (the year 3871), however long ago it was issued and
  although its response names the short lifetime in milliseconds.
\<close>

theorem token_outlives_its_lifetime:
  assumes "auth_env_ok env" and "plain_data data"
    and "60 * nanosecond_per_second \<le> AccessTokenExpireTime cfg" "AccessTokenExpireTime cfg \<le> 2 ^ 53"
    and "fst (run_state (ae_Now env) w') < 60000000000 * nanosecond_per_second"
  shows "\<exists>r resp. fst (run_state (CreateAccessToken env cfg data) w) = Inr r \<and>
    at_ExpireTime r = AccessTokenExpireTime cfg div 1000000 \<and>
    fst (run_state (ValidateToken env cfg \<lparr>vt_Token = at_AccessToken r, vt_Data = []\<rparr>) w') = Inr resp \<and>
    vt_Valid resp"
proof -
  obtain tok where create: "fst (run_state (CreateAccessToken env cfg data) w) =
      Inr \<lparr>at_AccessToken = tok, at_ExpireTime = AccessTokenExpireTime cfg div 1000000\<rparr>"
    and tok: "token_for env cfg (AccessTokenExpireTime cfg) data tok"
    using create_tokens(1) [OF assms(1,2), of cfg w] assms(3,4) by auto
  have "60000000000 * nanosecond_per_second \<le> AccessTokenExpireTime cfg * nanosecond_per_second"
    using assms(3) by simp
  then have "fst (run_state (ae_Now env) w') < AccessTokenExpireTime cfg * nanosecond_per_second"
    using assms(5) by linarith
  then show ?thesis
    using validate_token_for [OF assms(1,2) tok, of "[]" w'] create by auto
qed

text \<open>
  A refresh token is as good as an access token: nothing in its claims tells them
  apart, so \<open>ValidateToken\<close> accepts it, with the id and role of its owner, for as long as it
  lives.
\<close>

theorem refresh_token_passes_validation:
  assumes "auth_env_ok env" and "plain_data data"
    and "0 < RefreshTokenExpireTime cfg" "RefreshTokenExpireTime cfg \<le> 2 ^ 53"
    and "fst (run_state (ae_Now env) w') < RefreshTokenExpireTime cfg * nanosecond_per_second"
  shows "\<exists>r ad. fst (run_state (CreateRefreshToken env cfg data) w) = Inr r \<and>
    fst (run_state (ValidateToken env cfg \<lparr>vt_Token = rt_RefreshToken r, vt_Data = []\<rparr>) w') =
      Inr \<lparr>vt_Valid = True, vt_AdditionalData = ad\<rparr> \<and>
    set ad = {\<lparr>tr_Key = k, tr_Value = v\<rparr> | k v. k \<in> {''id'', ''role''} \<and> last_value data k = Some v}"
proof -
  obtain tok where create: "fst (run_state (CreateRefreshToken env cfg data) w) =
      Inr \<lparr>rt_RefreshToken = tok, rt_ExpireTime = RefreshTokenExpireTime cfg div 1000000\<rparr>"
    and tok: "token_for env cfg (RefreshTokenExpireTime cfg) data tok"
    using create_tokens(2) [OF assms(1,2), of cfg w] assms(3,4) by auto
  show ?thesis
    using validate_token_for [OF assms(1,2) tok, of "[]" w'] assms(5) create by auto
qed

subsection \<open>The endpoint of the gateway\<close>

lemma set_header_at:
  "set_header h d ''X-User-ID'' = (if tr_Key d = ''id'' then Some (tr_Value d) else h ''X-User-ID'')"
  "set_header h d ''X-User-Role'' = (if tr_Key d = ''role'' then Some (tr_Value d) else h ''X-User-Role'')"
  by (auto simp: set_header_def)

lemma foldl_set_header:
  assumes "distinct (map tr_Key ad)"
  shows "foldl set_header h ad ''X-User-ID'' =
      (case find (\<lambda>d. tr_Key d = ''id'') ad of Some d \<Rightarrow> Some (tr_Value d) | None \<Rightarrow> h ''X-User-ID'')"
    "foldl set_header h ad ''X-User-Role'' =
      (case find (\<lambda>d. tr_Key d = ''role'') ad of Some d \<Rightarrow> Some (tr_Value d) | None \<Rightarrow> h ''X-User-Role'')"
proof -
  have none: "find (\<lambda>d. tr_Key d = k) xs = None" if "k \<notin> tr_Key ` set xs" for k and xs :: "TokenData list"
    using that by (auto simp: find_None_iff)
  show "foldl set_header h ad ''X-User-ID'' =
      (case find (\<lambda>d. tr_Key d = ''id'') ad of Some d \<Rightarrow> Some (tr_Value d) | None \<Rightarrow> h ''X-User-ID'')"
    using assms
  proof (induction ad arbitrary: h)
    case (Cons d ad)
    then show ?case using none [of "''id''" ad] by (auto simp: set_header_at split: option.splits)
  qed simp
  show "foldl set_header h ad ''X-User-Role'' =
      (case find (\<lambda>d. tr_Key d = ''role'') ad of Some d \<Rightarrow> Some (tr_Value d) | None \<Rightarrow> h ''X-User-Role'')"
    using assms
  proof (induction ad arbitrary: h)
    case (Cons d ad)
    then show ?case using none [of "''role''" ad] by (auto simp: set_header_at split: option.splits)
  qed simp
qed

lemma find_unique:
  assumes "distinct (map tr_Key ad)"
  shows "find (\<lambda>d. tr_Key d = k) ad = Some \<lparr>tr_Key = k, tr_Value = v\<rparr> \<longleftrightarrow> \<lparr>tr_Key = k, tr_Value = v\<rparr> \<in> set ad"
  using assms
proof (induction ad)
  case (Cons d ad)
  then show ?case by (cases d) (auto simp: image_iff)
qed simp

lemma header_id_iff:
  assumes "distinct (map tr_Key ad)"
  shows "foldl set_header Map.empty ad ''X-User-ID'' = Some v \<longleftrightarrow> \<lparr>tr_Key = ''id'', tr_Value = v\<rparr> \<in> set ad"
proof -
  have "d = \<lparr>tr_Key = ''id'', tr_Value = tr_Value d\<rparr>" if "find (\<lambda>d. tr_Key d = ''id'') ad = Some d" for d
  proof -
    have "tr_Key d = ''id''" using that by (auto simp: find_Some_iff)
    then show ?thesis by simp
  qed
  then show ?thesis
    using find_unique [OF assms, of "''id''" v] foldl_set_header(1) [OF assms, of Map.empty]
    by (auto split: option.splits)
qed

text \<open>
  C14. The gateway learns a user id from the auth service only through a verified token:
  the answer carries \<open>X-User-ID: v\<close> exactly when the Authorization header is not empty, the
  request binds, the header parses as a token under the service's secret at the time of
  the call, and \<open>v\<close> is the string claim \<open>id\<close> of that token. With such a token the status is 200; in every
  other case, without a header, with a request that does not bind or a token that does not parse, it is 401 and no
  header is set at all.
\<close>

theorem user_id_header_verified:
  assumes "auth_env_ok env" and "run_state (ValidateToken_handler env cfg auth bound) w = ((resp, h), w')"
  shows "(h ''X-User-ID'' = Some v \<longleftrightarrow> auth \<noteq> [] \<and> (\<exists>req claims. bound = Inr req \<and>
      jwt_Parse (ae_jwt env) (SecretKey cfg) (fst (run_state (ae_Now env) w)) auth = Inr claims \<and>
      claims ''id'' = Some (ClaimString v))) \<and>
    (if auth \<noteq> [] \<and> (\<exists>req claims. bound = Inr req \<and>
        jwt_Parse (ae_jwt env) (SecretKey cfg) (fst (run_state (ae_Now env) w)) auth = Inr claims)
     then http_status resp = 200 else http_status resp = 401 \<and> h = Map.empty)"
proof (cases "auth = [] \<or> (\<exists>err. bound = Inl err)")
  case True
  then show ?thesis using assms(2) by (auto simp: ValidateToken_handler_def split: if_splits)
next
  case False
  then obtain req where req: "auth \<noteq> []" "bound = Inr req" by (cases bound) auto
  let ?parse = "jwt_Parse (ae_jwt env) (SecretKey cfg) (fst (run_state (ae_Now env) w)) auth"
  have accept: "ValidateValidateTokenRequest (ae_ozzo env) (req\<lparr>vt_Token := auth\<rparr>) = None"
    using req validators_accept(3) [OF auth_env_okD(2) [OF assms(1)]] by simp
  show ?thesis
  proof (cases ?parse)
    case (Inl e)
    then show ?thesis
      using req accept assms(2)
      by (auto simp: ValidateToken_handler_def ValidateToken_def case_prod_beta error_JSON_def ToHTTPJson_def
          ErrUnauthorized_def)
  next
    case (Inr claims)
    let ?ks = "remdups (additionalData @ vt_Data req)"
    let ?ad = "fst (run_state (toMapData env ?ks claims) (snd (run_state (ae_Now env) w)))"
    have ad: "distinct (map tr_Key ?ad)" "set ?ad = selected claims ?ks"
      by (rule distinct_keys_toMapData [OF assms(1)], simp) (rule set_toMapData [OF assms(1)])
    have "http_status resp = 200 \<and> h ''X-User-ID'' = foldl set_header Map.empty ?ad ''X-User-ID''"
      using req accept assms(2) Inr
      by (auto simp: ValidateToken_handler_def ValidateToken_def case_prod_beta Let_def split: sum.splits)
    then show ?thesis
      using header_id_iff [OF ad(1), of v] ad(2) req Inr
      by (auto simp: selected_def additionalData_def)
  qed
qed

text \<open>
  The scheme that the documentation prescribes is not understood: with an
  Authorization header of the form \<open>Bearer <token>\<close> the endpoint answers 401 whatever the
  token is, since the handler passes the header to the parser as it stands.
\<close>

theorem bearer_header_refused:
  assumes "auth_env_ok env"
  shows "\<exists>resp w'. run_state (ValidateToken_handler env cfg (''Bearer '' @ tok) bound) w = ((resp, Map.empty), w') \<and>
    http_status resp = 401"
proof (cases bound)
  case (Inr req)
  obtain e where "jwt_Parse (ae_jwt env) (SecretKey cfg) (fst (run_state (ae_Now env) w)) (''Bearer '' @ tok) = Inl e"
    using auth_env_okD(1) [OF assms] unfolding jwt_ok_def by blast
  moreover have "ValidateValidateTokenRequest (ae_ozzo env) (req\<lparr>vt_Token := ''Bearer '' @ tok\<rparr>) = None"
    using validators_accept(3) [OF auth_env_okD(2) [OF assms]] by simp
  ultimately show ?thesis
    using Inr by (auto simp: ValidateToken_handler_def ValidateToken_def case_prod_beta error_JSON_def ToHTTPJson_def
          ErrUnauthorized_def)
qed (simp add: ValidateToken_handler_def)

text \<open>
  A request for a token with no data, or with an empty key or value, is answered 400
  over HTTP and \<open>InvalidArgument\<close> over gRPC, and nothing else is: any other request that
  fails is an internal error.
\<close>

theorem CreateAccessToken_rejects:
  assumes "auth_env_ok env" and "run_state (CreateAccessToken_handler env cfg (Inr data)) w = (resp, w')"
  shows "(http_status resp = 400 \<longleftrightarrow> \<not> valid_data data) \<and> http_status resp \<in> {200, 400, 500} \<and>
    (http_status resp = 400 \<longleftrightarrow>
      (\<exists>msg. fst (run_state (GetAccessToken_grpc env cfg
         (map (\<lambda>d. \<lparr>pb_Key = tr_Key d, pb_Value = tr_Value d\<rparr>) data)) w) = Inl (msg, codes_InvalidArgument)))"
proof -
  have id: "map ((\<lambda>data. \<lparr>tr_Key = pb_Key data, tr_Value = pb_Value data\<rparr>) \<circ>
      (\<lambda>d. \<lparr>pb_Key = tr_Key d, pb_Value = tr_Value d\<rparr>)) data = data"
    by (induction data) auto
  show ?thesis
    using assms(2) validators_accept(1) [OF auth_env_okD(2) [OF assms(1)], of data]
    by (auto simp: CreateAccessToken_handler_def CreateAccessToken_def GetAccessToken_grpc_def case_prod_beta id
        Let_def error_JSON_def ToHTTPJson_def ToGRPCJson_def ErrInvalidInput_def ErrInternal_def
        split: option.splits sum.splits)
qed

section \<open>The contract of the token client\<close>

text \<open>
  What the user service relies on: asked for a token on good data, the client returns one
  that carries the data, and what \<open>other\<close> sees of the world stays as it was.
\<close>

locale token_issuer =
  fixes tc :: "'w token_client" and carries :: "string \<Rightarrow> adapter_TokenData list \<Rightarrow> bool"
    and good :: "adapter_TokenData list \<Rightarrow> bool" and other :: "'w \<Rightarrow> 'o" and issuing :: "'w \<Rightarrow> bool"
  assumes access_token: "issuing w \<Longrightarrow> good data \<Longrightarrow> \<exists>r w'. run_state (tc_GetAccessToken tc data) w = ((r, None), w') \<and>
      carries (ad_Token r) data \<and> issuing w' \<and> other w' = other w"
    and refresh_token: "issuing w \<Longrightarrow> good data \<Longrightarrow> \<exists>r w'. run_state (tc_GetRefreshToken tc data) w = ((r, None), w') \<and>
      carries (ad_Token r) data \<and> issuing w' \<and> other w' = other w"
begin

text \<open>Both tokens of a login, one after the other.\<close>

lemma both_tokens:
  assumes "issuing w" and "good data"
  shows "\<exists>r1 r2 w1 w2. run_state (tc_GetAccessToken tc data) w = ((r1, None), w1) \<and>
    run_state (tc_GetRefreshToken tc data) w1 = ((r2, None), w2) \<and>
    carries (ad_Token r1) data \<and> carries (ad_Token r2) data \<and> issuing w2 \<and> other w2 = other w"
  using access_token [OF assms] refresh_token [OF _ assms(2)] by metis

end

text \<open>A connection that carries each call to the handlers of the auth service.\<close>

definition grpc_delivers :: "'w grpc_conn \<Rightarrow> 'w auth_env \<Rightarrow> auth_config \<Rightarrow> bool" where
  "grpc_delivers cc env cfg \<longleftrightarrow> (\<forall>req w r w'.
     (run_state (GetAccessToken_grpc env cfg req) w = (Inr r, w') \<longrightarrow>
        run_state (cc_Invoke cc ''/auth.TokenService/GetAccessToken'' req) w = (Inr r, w')) \<and>
     (run_state (GetRefreshToken_grpc env cfg req) w = (Inr r, w') \<longrightarrow>
        run_state (cc_Invoke cc ''/auth.TokenService/GetRefreshToken'' req) w = (Inr r, w')))"

definition to_TokenData :: "adapter_TokenData \<Rightarrow> TokenData" where
  "to_TokenData d = \<lparr>tr_Key = ad_Key d, tr_Value = ad_Value d\<rparr>"

definition carried :: "'w auth_env \<Rightarrow> auth_config \<Rightarrow> string \<Rightarrow> adapter_TokenData list \<Rightarrow> bool" where
  "carried env cfg tok data \<longleftrightarrow> (\<exists>d. 0 < d \<and> token_for env cfg d (map to_TokenData data) tok \<and>
     d \<in> {AccessTokenExpireTime cfg, RefreshTokenExpireTime cfg})"

definition auth_up :: "'w grpc_conn \<Rightarrow> 'w auth_env \<Rightarrow> auth_config \<Rightarrow> ('w \<Rightarrow> 'o) \<Rightarrow> bool" where
  "auth_up cc env cfg other \<longleftrightarrow> auth_env_ok env \<and> grpc_delivers cc env cfg \<and>
     0 < AccessTokenExpireTime cfg \<and> AccessTokenExpireTime cfg \<le> 2 ^ 53 \<and>
     0 < RefreshTokenExpireTime cfg \<and> RefreshTokenExpireTime cfg \<le> 2 ^ 53 \<and>
     keeps other (ae_Now env) \<and> keeps other (ae_NewString env)"

lemma keeps_create:
  assumes "keeps other (ae_Now env)" "keeps other (ae_NewString env)"
  shows "keeps other (CreateAccessToken env cfg data)" "keeps other (CreateRefreshToken env cfg data)"
  using assms
  by (auto simp: CreateAccessToken_def CreateRefreshToken_def Let_def intro!: keeps_bind
      split: option.splits sum.splits)

lemma grpc_request: "map (\<lambda>data. \<lparr>tr_Key = pb_Key data, tr_Value = pb_Value data\<rparr>)
    (map (\<lambda>data. \<lparr>pb_Key = ad_Key data, pb_Value = ad_Value data\<rparr>) data) = map to_TokenData data"
  by (simp add: to_TokenData_def)

lemma client_access:
  assumes up: "auth_up cc env cfg other" and data: "plain_data (map to_TokenData data)"
  shows "\<exists>r w'. run_state (tc_GetAccessToken (TokenClient cc) data) w = ((r, None), w') \<and>
    carried env cfg (ad_Token r) data \<and> other w' = other w"
proof -
  note u = up [unfolded auth_up_def]
  let ?req = "map (\<lambda>data. \<lparr>pb_Key = ad_Key data, pb_Value = ad_Value data\<rparr>) data"
  let ?run = "run_state (CreateAccessToken env cfg (map to_TokenData data)) w"
  obtain tok where tok: "fst ?run = Inr \<lparr>at_AccessToken = tok, at_ExpireTime = AccessTokenExpireTime cfg div 1000000\<rparr>"
    and carry: "token_for env cfg (AccessTokenExpireTime cfg) (map to_TokenData data) tok"
    using create_tokens(1) [of env "map to_TokenData data" cfg w] u data by auto
  have other: "other (snd ?run) = other w" using keeps_create(1) [of other env] u by (simp add: keepsD)
  have "run_state (GetAccessToken_grpc env cfg ?req) w =
      (Inr \<lparr>pb_Token = tok, pb_ExpireTime = AccessTokenExpireTime cfg div 1000000\<rparr>, snd ?run)"
    unfolding GetAccessToken_grpc_def Let_def grpc_request using tok by (simp add: case_prod_beta)
  then have "run_state (cc_Invoke cc ''/auth.TokenService/GetAccessToken'' ?req) w =
      (Inr \<lparr>pb_Token = tok, pb_ExpireTime = AccessTokenExpireTime cfg div 1000000\<rparr>, snd ?run)"
    using u unfolding grpc_delivers_def by blast
  then have "run_state (tc_GetAccessToken (TokenClient cc) data) w =
      ((\<lparr>ad_Token = tok, ad_ExpireTime = AccessTokenExpireTime cfg div 1000000\<rparr>, None), snd ?run)"
    by (simp add: TokenClient_def Client_GetAccessToken_def tokenServiceClient_GetAccessToken_def Let_def)
  then show ?thesis
    using carry other u unfolding carried_def by auto
qed

lemma client_refresh:
  assumes up: "auth_up cc env cfg other" and data: "plain_data (map to_TokenData data)"
  shows "\<exists>r w'. run_state (tc_GetRefreshToken (TokenClient cc) data) w = ((r, None), w') \<and>
    carried env cfg (ad_Token r) data \<and> other w' = other w"
proof -
  note u = up [unfolded auth_up_def]
  let ?req = "map (\<lambda>data. \<lparr>pb_Key = ad_Key data, pb_Value = ad_Value data\<rparr>) data"
  let ?run = "run_state (CreateRefreshToken env cfg (map to_TokenData data)) w"
  obtain tok where tok: "fst ?run = Inr \<lparr>rt_RefreshToken = tok, rt_ExpireTime = RefreshTokenExpireTime cfg div 1000000\<rparr>"
    and carry: "token_for env cfg (RefreshTokenExpireTime cfg) (map to_TokenData data) tok"
    using create_tokens(2) [of env "map to_TokenData data" cfg w] u data by auto
  have other: "other (snd ?run) = other w" using keeps_create(2) [of other env] u by (simp add: keepsD)
  have "run_state (GetRefreshToken_grpc env cfg ?req) w =
      (Inr \<lparr>pb_Token = tok, pb_ExpireTime = RefreshTokenExpireTime cfg div 1000000\<rparr>, snd ?run)"
    unfolding GetRefreshToken_grpc_def Let_def grpc_request using tok by (simp add: case_prod_beta)
  then have "run_state (cc_Invoke cc ''/auth.TokenService/GetRefreshToken'' ?req) w =
      (Inr \<lparr>pb_Token = tok, pb_ExpireTime = RefreshTokenExpireTime cfg div 1000000\<rparr>, snd ?run)"
    using u unfolding grpc_delivers_def by blast
  then have "run_state (tc_GetRefreshToken (TokenClient cc) data) w =
      ((\<lparr>ad_Token = tok, ad_ExpireTime = RefreshTokenExpireTime cfg div 1000000\<rparr>, None), snd ?run)"
    by (simp add: TokenClient_def Client_GetRefreshToken_def tokenServiceClient_GetRefreshToken_def Let_def)
  then show ?thesis
    using carry other u unfolding carried_def by auto
qed

interpretation grpc_tokens: token_issuer "TokenClient cc" "carried env cfg"
    "\<lambda>data. plain_data (map to_TokenData data)" other "\<lambda>_. auth_up cc env cfg other"
    for cc env cfg other
proof (unfold_locales, goal_cases)
  case (1 w data)
  then show ?case using client_access [OF 1, of w] by simp
next
  case (2 w data)
  then show ?case using client_refresh [OF 2, of w] by simp
qed

end
