(* ===== verification/Auth_Witnesses.thy ===== *)
theory Auth_Witnesses
  imports Auth_Properties "HOL-Library.List_Lexorder" "HOL-Library.Char_ord"
begin

text \<open>
  Concrete libraries for the auth service: a token format that writes the claims down in
  the order of their keys, separated by a byte that no ASCII string holds, and validation
  rules. With them the laws that the theorems of \<open>Auth_Properties\<close> assume are proved to
  hold, and the theorems are applied.
\<close>

section \<open>A token format\<close>

definition sep :: char where "sep = CHR 0xFF"

primrec write_claim :: "claim \<Rightarrow> string" where
  "write_claim (ClaimString s) = CHR ''s'' # s"
| "write_claim (ClaimNumber n) = CHR ''n'' # FormatInt n"

fun read_claim :: "string \<Rightarrow> claim" where
  "read_claim [] = ClaimString []"
| "read_claim (c # s) = (if c = CHR ''n'' then ClaimNumber (read_int s) else ClaimString s)"

definition claim_list :: "MapClaims \<Rightarrow> (string \<times> claim) list" where
  "claim_list c = map (\<lambda>k. (k, the (c k))) (sorted_list_of_set (dom c))"

definition write_fields :: "(string \<times> claim) list \<Rightarrow> string list" where
  "write_fields l = concat (map (\<lambda>(k, v). [k, write_claim v]) l)"

fun read_fields :: "string list \<Rightarrow> (string \<times> claim) list" where
  "read_fields (k # v # fs) = (k, read_claim v) # read_fields fs"
| "read_fields _ = []"

definition write_token :: "MapClaims \<Rightarrow> string" where
  "write_token c = CHR ''J'' # concat (map (\<lambda>f. sep # f) (write_fields (claim_list c)))"

definition read_token :: "string \<Rightarrow> go_error + MapClaims" where
  "read_token t = (case Split t sep of
     h # fs \<Rightarrow> if h = ''J'' then Inr (map_of (read_fields fs)) else Inl (PlainErr ''token is malformed'')
   | [] \<Rightarrow> Inl (PlainErr ''token is malformed''))"

definition ref_jwt :: jwt where
  "ref_jwt = \<lparr>jwt_SignedString = (\<lambda>key c. Inr (write_token c)),
     jwt_Parse = (\<lambda>key now t. case read_token t of Inl e \<Rightarrow> Inl e
       | Inr c \<Rightarrow> if claims_valid now c then Inr c else Inl (PlainErr ''token is expired''))\<rparr>"

lemma read_write_claim [simp]: "read_claim (write_claim v) = v"
  by (cases v) auto

lemma read_write_fields [simp]: "read_fields (write_fields l) = l"
  by (induction l) (auto simp: write_fields_def)

lemma map_of_claim_list: "finite (dom c) \<Longrightarrow> map_of (claim_list c) = c"
proof -
  assume "finite (dom c)"
  then have "map_of (claim_list c) = (Some \<circ> (\<lambda>k. the (c k))) |` dom c"
    by (simp add: claim_list_def map_of_map_restrict)
  also have "\<dots> = c"
  proof
    show "((Some \<circ> (\<lambda>k. the (c k))) |` dom c) k = c k" for k
      by (cases "c k") (auto simp: restrict_map_def)
  qed
  finally show ?thesis .
qed

lemma Split_fields:
  "c \<notin> set u \<Longrightarrow> list_all (\<lambda>f. c \<notin> set f) fs \<Longrightarrow> Split (u @ concat (map (\<lambda>f. c # f) fs)) c = u # fs"
proof (induction fs arbitrary: u)
  case (Cons f fs)
  then show ?case using Split_append [of c u "f @ concat (map (\<lambda>f. c # f) fs)"] by simp
qed (simp add: Split_no_sep)

lemma ascii_no_sep: "ascii s \<Longrightarrow> sep \<notin> set s"
  by (auto simp: ascii_def list_all_iff sep_def)

lemma FormatInt_no_sep: "sep \<notin> set (FormatInt n)"
proof -
  have "\<not> is_digit sep" by (simp add: is_digit_def sep_def)
  then have "sep \<notin> set (dec_digits m)" for m using dec_digits_is_digit by blast
  moreover have "sep \<noteq> CHR ''-''" by (simp add: sep_def)
  ultimately show ?thesis by (simp add: FormatInt_def)
qed

lemma fields_no_sep:
  assumes "json_safe c"
  shows "list_all (\<lambda>f. sep \<notin> set f) (write_fields (claim_list c))"
proof -
  have fin: "finite (dom c)" using assms by (simp add: json_safe_def)
  have "sep \<notin> set k \<and> sep \<notin> set (write_claim (the (c k)))" if "k \<in> dom c" for k
  proof -
    obtain v where v: "c k = Some v" using \<open>k \<in> dom c\<close> by auto
    then have "ascii k" "case v of ClaimString s \<Rightarrow> ascii s | ClaimNumber n \<Rightarrow> \<bar>n\<bar> \<le> 2 ^ 53"
      using assms by (auto simp: json_safe_def)
    moreover have "sep \<noteq> CHR ''s''" "sep \<noteq> CHR ''n''" by (simp_all add: sep_def)
    ultimately show ?thesis using v by (cases v) (auto simp: ascii_no_sep FormatInt_no_sep)
  qed
  then show ?thesis using fin by (auto simp: write_fields_def claim_list_def list_all_iff)
qed

lemma read_write_token:
  assumes "json_safe c"
  shows "read_token (write_token c) = Inr c"
proof -
  have "sep \<notin> set ''J''" by (simp add: sep_def)
  then have "Split (write_token c) sep = ''J'' # write_fields (claim_list c)"
    using Split_fields [OF _ fields_no_sep [OF assms], of "''J''"] by (simp add: write_token_def)
  moreover have "finite (dom c)" using assms by (simp add: json_safe_def)
  ultimately show ?thesis by (simp add: read_token_def map_of_claim_list)
qed

lemma ref_jwt_ok: "jwt_ok ref_jwt"
proof -
  have "\<exists>e. jwt_Parse ref_jwt key now (''Bearer '' @ t) = Inl e" for key now t
  proof -
    have "hd (Split (''Bearer '' @ t) sep) \<noteq> ''J''" by (simp only: hd_Split) (simp add: sep_def)
    then show ?thesis
      by (cases "Split (''Bearer '' @ t) sep") (auto simp: ref_jwt_def read_token_def)
  qed
  moreover have "write_token c \<noteq> []" for c by (simp add: write_token_def)
  ultimately show ?thesis
    by (auto simp: jwt_ok_def ref_jwt_def read_write_token)
qed

section \<open>The environment\<close>

definition all_None :: "go_error option list \<Rightarrow> go_error option" where
  "all_None es = (if list_all (\<lambda>e. e = None) es then None else Some (PlainErr ''invalid''))"

definition ref_ozzo :: ozzo where
  "ref_ozzo = \<lparr>oz_Required = (\<lambda>msg absent. if absent then Some (PlainErr msg) else None),
     oz_Each = all_None, oz_ValidateStruct = all_None\<rparr>"

definition ref_auth_env :: "gotime \<Rightarrow> 'w auth_env" where
  "ref_auth_env t = \<lparr>ae_Now = ref_Now_frozen t, ae_NewString = ret ''c0ffee'', ae_MapRange = ret,
     ae_jwt = ref_jwt, ae_ozzo = ref_ozzo, ae_json = (\<lambda>d. Inr ''[]'')\<rparr>"

definition ref_auth_cfg :: auth_config where
  "ref_auth_cfg = \<lparr>SecretKey = ''secret'', AccessTokenExpireTime = 86400 * nanosecond_per_second,
     RefreshTokenExpireTime = 432000 * nanosecond_per_second\<rparr>"

lemma ref_auth_env_ok:
  "0 \<le> t \<Longrightarrow> t \<le> 2 ^ 53 * nanosecond_per_second \<Longrightarrow> auth_env_ok (ref_auth_env t)"
  by (simp add: auth_env_ok_def ref_auth_env_def ref_jwt_ok ref_Now_frozen_def ozzo_ok_def ref_ozzo_def
      all_None_def ascii_def)

definition ref_data :: "TokenData list" where
  "ref_data = [\<lparr>tr_Key = ''id'', tr_Value = ''7''\<rparr>, \<lparr>tr_Key = ''role'', tr_Value = ''user''\<rparr>]"

lemma ref_data_plain: "plain_data ref_data"
  by (simp add: plain_data_def valid_data_def ref_data_def ascii_def)

lemma ref_data_last: "last_value ref_data k = (if k = ''id'' then Some ''7'' else if k = ''role'' then Some ''user'' else None)"
  by (simp add: last_value_def ref_data_def)

text \<open>The clock of the witnesses shows a day in 2023; the token was issued in 1970.\<close>

definition ref_2023 :: gotime where "ref_2023 = 1700000000 * nanosecond_per_second"

lemmas ref_auth_evals = ref_auth_cfg_def ref_2023_def ref_auth_env_def ref_Now_frozen_def

section \<open>Witnesses\<close>

lemma access_token_round_trip_witness:
  "\<exists>r ad. fst (run_state (CreateAccessToken (ref_auth_env ref_2023) ref_auth_cfg ref_data) world0) = Inr r \<and>
    fst (run_state (ValidateToken (ref_auth_env ref_2023) ref_auth_cfg
        \<lparr>vt_Token = at_AccessToken r, vt_Data = [''email'']\<rparr>) world0) = Inr \<lparr>vt_Valid = True, vt_AdditionalData = ad\<rparr> \<and>
    \<lparr>tr_Key = ''id'', tr_Value = ''7''\<rparr> \<in> set ad"
proof -
  have ok: "auth_env_ok (ref_auth_env ref_2023)" by (rule ref_auth_env_ok) (simp_all add: ref_2023_def)
  show ?thesis
    using access_token_round_trip [OF ok ref_data_plain, of ref_auth_cfg "[''email'']" world0 world0]
    by (auto simp: ref_auth_evals ref_data_last)
qed

lemma token_outlives_its_lifetime_witness:
  "\<exists>r resp. fst (run_state (CreateAccessToken (ref_auth_env ref_2023) ref_auth_cfg ref_data) world0) = Inr r \<and>
    at_ExpireTime r = 86400000 \<and>
    fst (run_state (ValidateToken (ref_auth_env ref_2023) ref_auth_cfg
        \<lparr>vt_Token = at_AccessToken r, vt_Data = []\<rparr>) world0) = Inr resp \<and> vt_Valid resp"
proof -
  have ok: "auth_env_ok (ref_auth_env ref_2023)" by (rule ref_auth_env_ok) (simp_all add: ref_2023_def)
  show ?thesis
    using token_outlives_its_lifetime [OF ok ref_data_plain, of ref_auth_cfg world0 world0]
    by (auto simp: ref_auth_evals)
qed

lemma refresh_token_passes_validation_witness:
  "\<exists>r ad. fst (run_state (CreateRefreshToken (ref_auth_env ref_2023) ref_auth_cfg ref_data) world0) = Inr r \<and>
    fst (run_state (ValidateToken (ref_auth_env ref_2023) ref_auth_cfg
        \<lparr>vt_Token = rt_RefreshToken r, vt_Data = []\<rparr>) world0) = Inr \<lparr>vt_Valid = True, vt_AdditionalData = ad\<rparr>"
proof -
  have ok: "auth_env_ok (ref_auth_env ref_2023)" by (rule ref_auth_env_ok) (simp_all add: ref_2023_def)
  show ?thesis
    using refresh_token_passes_validation [OF ok ref_data_plain, of ref_auth_cfg world0 world0]
    by (auto simp: ref_auth_evals)
qed

lemma user_id_header_verified_witness:
  "\<exists>resp h w'. run_state (ValidateToken_handler (ref_auth_env 0) ref_auth_cfg [] (Inl (PlainErr ''bind''))) world0 = ((resp, h), w') \<and>
    h ''X-User-ID'' \<noteq> Some ''7''"
proof -
  have ok: "auth_env_ok (ref_auth_env 0)" by (rule ref_auth_env_ok) simp_all
  obtain resp h w' where run: "run_state (ValidateToken_handler (ref_auth_env 0) ref_auth_cfg [] (Inl (PlainErr ''bind''))) world0 = ((resp, h), w')"
    by (metis prod.exhaust)
  then show ?thesis using user_id_header_verified [OF ok run, of "''7''"] by auto
qed

lemma bearer_header_refused_witness:
  "\<exists>resp w'. run_state (ValidateToken_handler (ref_auth_env 0) ref_auth_cfg ''Bearer abc''
      (Inr \<lparr>vt_Token = [], vt_Data = []\<rparr>)) world0 = ((resp, Map.empty), w') \<and> http_status resp = 401"
  using bearer_header_refused [OF ref_auth_env_ok [of 0], of ref_auth_cfg "''abc''"] by simp

lemma CreateAccessToken_rejects_witness:
  "\<exists>resp w'. run_state (CreateAccessToken_handler (ref_auth_env 0) ref_auth_cfg (Inr [])) world0 = (resp, w') \<and>
    http_status resp = 400"
proof -
  have ok: "auth_env_ok (ref_auth_env 0)" by (rule ref_auth_env_ok) simp_all
  obtain resp w' where run: "run_state (CreateAccessToken_handler (ref_auth_env 0) ref_auth_cfg (Inr [])) world0 = (resp, w')"
    by (metis prod.exhaust)
  then show ?thesis using CreateAccessToken_rejects [OF ok run] by (auto simp: valid_data_def)
qed

text \<open>A connection to the service in the same process.\<close>

definition ref_conn :: "'w auth_env \<Rightarrow> auth_config \<Rightarrow> 'w grpc_conn" where
  "ref_conn env cfg = \<lparr>cc_Invoke = (\<lambda>method req.
     if method = ''/auth.TokenService/GetAccessToken'' then do {
       r \<leftarrow> GetAccessToken_grpc env cfg req;
       ret (case r of Inl (msg, code) \<Rightarrow> Inl (PlainErr msg) | Inr out \<Rightarrow> Inr out) }
     else do {
       r \<leftarrow> GetRefreshToken_grpc env cfg req;
       ret (case r of Inl (msg, code) \<Rightarrow> Inl (PlainErr msg) | Inr out \<Rightarrow> Inr out) })\<rparr>"

lemma ref_auth_up:
  assumes "0 \<le> t" "t \<le> 2 ^ 53 * nanosecond_per_second"
  shows "auth_up (ref_conn (ref_auth_env t) ref_auth_cfg) (ref_auth_env t) ref_auth_cfg other"
  using ref_auth_env_ok [OF assms]
  by (simp add: auth_up_def grpc_delivers_def ref_conn_def ref_auth_cfg_def keeps_def)
    (simp add: ref_auth_env_def ref_Now_frozen_def)

end
