(* ===== verification/User_Properties.thy ===== *)
theory User_Properties
  imports User_Service Auth_Witnesses
begin

text \<open>
  Correctness of the user service: which addresses it accepts, what sign-up and login do,
  and the way from a sign-up through the auth service to a validated token. The locale
  \<open>user_store\<close> is the contract of the repository interface; \<open>accounts\<close> adds the token
  client and bcrypt. The interpretations show that the PostgreSQL repository and the gRPC
  client meet them, for a database and libraries that behave as documented.
\<close>

section \<open>Addresses and roles\<close>

text \<open>
  \<open>IsValid\<close> accepts exactly the strings with one \<open>@\<close>, more than four characters
  before it and from three to forty-nine behind it; the display name is the part before.
\<close>

theorem IsValid_iff:
  "IsValid email \<longleftrightarrow> (\<exists>u v. email = u @ CHR ''@'' # v \<and> CHR ''@'' \<notin> set u \<and> CHR ''@'' \<notin> set v \<and>
     5 \<le> length u \<and> 3 \<le> length v \<and> length v \<le> 49 \<and> getDisplayName email = u)"
proof
  assume valid: "IsValid email"
  then have "length (Split email (CHR ''@'')) = 2" by (simp add: IsValid_def Let_def split: if_splits)
  then obtain u v where s: "Split email (CHR ''@'') = [u, v]"
    by (auto simp: length_Suc_conv numeral_2_eq_2)
  then have "email = u @ CHR ''@'' # v \<and> CHR ''@'' \<notin> set u \<and> CHR ''@'' \<notin> set v"
    by (simp add: Split_two_iff)
  moreover have "5 \<le> length u \<and> 3 \<le> length v \<and> length v \<le> 49"
    using valid s by (auto simp: IsValid_def split: if_splits)
  ultimately show "\<exists>u v. email = u @ CHR ''@'' # v \<and> CHR ''@'' \<notin> set u \<and> CHR ''@'' \<notin> set v \<and>
     5 \<le> length u \<and> 3 \<le> length v \<and> length v \<le> 49 \<and> getDisplayName email = u"
    using s by (auto simp: getDisplayName_def)
next
  assume "\<exists>u v. email = u @ CHR ''@'' # v \<and> CHR ''@'' \<notin> set u \<and> CHR ''@'' \<notin> set v \<and>
     5 \<le> length u \<and> 3 \<le> length v \<and> length v \<le> 49 \<and> getDisplayName email = u"
  then obtain u v where e: "email = u @ CHR ''@'' # v" and uv: "CHR ''@'' \<notin> set u" "CHR ''@'' \<notin> set v"
    "5 \<le> length u" "3 \<le> length v" "length v \<le> 49" by blast
  have "Split email (CHR ''@'') = [u, v]" unfolding Split_two_iff using e uv by simp
  moreover have "Contains email ''@''" using e by (simp add: Contains_char)
  ultimately show "IsValid email" using uv by (simp add: IsValid_def)
qed

interpretation role_codec: codec Role_String MapToRoleEntity "\<lambda>r. r" "\<lambda>r. r \<in> {UserRole, AdminRole}"
  by unfold_locales (auto simp: Role_String_def MapToRoleEntity_def role_defs)

section \<open>The contracts\<close>

definition storable :: "User \<Rightarrow> bool" where
  "storable u \<longleftrightarrow> ascii (us_Username u) \<and> length (us_Username u) \<le> 100 \<and>
     ascii (us_HashedPassword u) \<and> length (us_HashedPassword u) \<le> 255 \<and>
     ascii (us_DisplayName u) \<and> length (us_DisplayName u) \<le> 100 \<and> us_Role u \<in> {UserRole, AdminRole}"

definition same_account :: "User \<Rightarrow> User \<Rightarrow> bool" where
  "same_account u v \<longleftrightarrow> us_Username u = us_Username v \<and> us_HashedPassword u = us_HashedPassword v \<and>
     us_DisplayName u = us_DisplayName v \<and> us_Role u = us_Role v"

locale user_store =
  fixes repo :: "'w user_repo" and users :: "'w \<Rightarrow> string \<rightharpoonup> User" and ok :: "'w \<Rightarrow> bool"
  assumes insert_fresh: "ok w \<Longrightarrow> storable u \<Longrightarrow> users w (us_Username u) = None \<Longrightarrow>
      \<exists>n v w'. run_state (ur_InsertUser repo u) w = (Inr n, w') \<and> ok w' \<and>
        users w' = (users w)(us_Username u \<mapsto> v) \<and> us_ID v = n \<and> same_account u v"
    and insert_taken: "ok w \<Longrightarrow> users w (us_Username u) \<noteq> None \<Longrightarrow>
      \<exists>e w'. run_state (ur_InsertUser repo u) w = (Inl e, w') \<and> ok w' \<and> users w' = users w \<and>
        Contains (Error e) ''duplicate''"
    and get_known: "ok w \<Longrightarrow> users w n = Some v \<Longrightarrow>
      \<exists>w'. run_state (ur_GetUser repo n) w = (Inr v, w') \<and> ok w' \<and> users w' = users w"
    and get_unknown: "ok w \<Longrightarrow> users w n = None \<Longrightarrow>
      \<exists>e w'. run_state (ur_GetUser repo n) w = (Inl e, w') \<and> ok w' \<and> users w' = users w"
    and get_by_id: "ok w \<Longrightarrow> users w n = Some v \<Longrightarrow>
      \<exists>w'. run_state (ur_GetUserById repo (FormatInt (us_ID v))) w = (Inr v, w') \<and> ok w' \<and> users w' = users w"
begin

lemma profile_known:
  assumes "ok w" and "users w n = Some v"
  shows "\<exists>w'. run_state (Profile_handler repo (FormatInt (us_ID v))) w = (ctx_JSON 200 (OkBody
      \<lparr>pr_ID = FormatInt (us_ID v), pr_Username = us_Username v, pr_DisplayName = us_DisplayName v,
       pr_Role = Role_String (us_Role v), pr_CreatedAt = us_CreatedAt v, pr_UpdatedAt = us_UpdatedAt v\<rparr>), w') \<and>
    users w' = users w"
proof -
  obtain w' where "run_state (ur_GetUserById repo (FormatInt (us_ID v))) w = (Inr v, w')" "users w' = users w"
    using get_by_id [OF assms] by blast
  moreover have "\<not> length (FormatInt (us_ID v)) < 1" by (simp add: FormatInt_def)
  ultimately show ?thesis by (simp add: Profile_handler_def Profile_def)
qed

end

locale accounts =
  user_store repo users ok + token_issuer tc carries good users ok
  for repo :: "'w user_repo" and users :: "'w \<Rightarrow> string \<rightharpoonup> User" and ok :: "'w \<Rightarrow> bool"
    and tc :: "'w token_client" and carries good and env :: "'w user_env" +
  assumes now_ok: "ok w \<Longrightarrow> ok (snd (run_state (ue_Now env) w)) \<and> users (snd (run_state (ue_Now env) w)) = users w"
    and hash_ok: "ok w \<Longrightarrow> length pw \<le> 72 \<Longrightarrow> \<exists>h w'. run_state (HashPassword env pw) w = (Inr h, w') \<and>
      ok w' \<and> users w' = users w \<and> CheckPasswordHash env pw h \<and> ascii h \<and> length h \<le> 255"
begin

lemma sign_up:
  assumes "ok w" and valid: "IsValid e" "ascii e" "length e \<le> 100" and pw: "pw \<noteq> []" "length pw \<le> 72"
  shows "case users w e of
      None \<Rightarrow> \<exists>v w'. run_state (SignUp env repo \<lparr>cr_Email = e, cr_Password = pw\<rparr>) w = (Inr (getDisplayName e), w') \<and>
        ok w' \<and> users w' = (users w)(e \<mapsto> v) \<and> CheckPasswordHash env pw (us_HashedPassword v) \<and>
        us_Username v = e \<and> us_DisplayName v = getDisplayName e \<and> us_Role v = UserRole
    | Some _ \<Rightarrow> \<exists>err w'. run_state (SignUp env repo \<lparr>cr_Email = e, cr_Password = pw\<rparr>) w = (Inl err, w') \<and>
        ToHTTPJson err = (HTTPMsg \<lparr>hm_message = DuplicateUsername, hm_error = DuplicateUsername\<rparr>, 400) \<and>
        ok w' \<and> users w' = users w"
proof -
  let ?w1 = "snd (run_state (ue_Now env) w)" and ?t = "of_int (UnixMilli (fst (run_state (ue_Now env) w)))"
  obtain h w2 where hash: "run_state (HashPassword env pw) ?w1 = (Inr h, w2)" and w2: "ok w2" "users w2 = users w"
    and h: "CheckPasswordHash env pw h" "ascii h" "length h \<le> 255"
    using now_ok [OF assms(1)] hash_ok [of ?w1 pw] pw(2) by auto
  let ?u = "\<lparr>us_ID = 0, us_Username = e, us_HashedPassword = h, us_DisplayName = getDisplayName e,
    us_CreatedAt = ?t, us_UpdatedAt = ?t, us_Role = UserRole\<rparr>"
  obtain u v where uv: "e = u @ CHR ''@'' # v" "getDisplayName e = u" using valid(1) IsValid_iff by blast
  then have name: "ascii (getDisplayName e)" "length (getDisplayName e) \<le> 100"
    using valid(2,3) by (auto simp: ascii_def)
  have run: "run_state (SignUp env repo \<lparr>cr_Email = e, cr_Password = pw\<rparr>) w =
      (case run_state (ur_InsertUser repo ?u) w2 of
         (Inr _, w3) \<Rightarrow> (Inr (getDisplayName e), w3)
       | (Inl err, w3) \<Rightarrow>
           (Inl (if Contains (Error err) ''duplicate'' then
                AppErr (New ''service.SignUp'' ''DUPLICATE_USERNAME'' DuplicateUsername 400
                     codes_InvalidArgument [(''message'', ''Error in inserting User''), (''data'', ue_Sprint env ?u)])
              else AppErr (Wrap ''service.SignUp'' (Some err) ErrInternal)), w3))"
    using valid(1) pw(1) hash
    by (auto simp: SignUp_def GetUTCCurrentMillis_def Let_def case_prod_beta split: sum.splits)
  show ?thesis
  proof (cases "users w e")
    case None
    have "storable ?u" using valid h name by (simp add: storable_def)
    then obtain n v w3 where "run_state (ur_InsertUser repo ?u) w2 = (Inr n, w3)" "ok w3"
      "users w3 = (users w2)(e \<mapsto> v)" "same_account ?u v"
      using insert_fresh [OF w2(1), of ?u] None w2(2) by auto
    then show ?thesis using None run w2(2) h(1) by (auto simp: same_account_def)
  next
    case (Some x)
    then obtain err w3 where "run_state (ur_InsertUser repo ?u) w2 = (Inl err, w3)" "ok w3" "users w3 = users w2"
      "Contains (Error err) ''duplicate''"
      using insert_taken [OF w2(1), of ?u] w2(2) by auto
    then show ?thesis using Some run w2(2) by (simp add: ToHTTPJson_def)
  qed
qed

lemma login:
  assumes "ok w" and "IsValid e" and "pw \<noteq> []" and known: "users w e = Some v" and good: "good (login_data v)"
  shows "if CheckPasswordHash env pw (us_HashedPassword v)
    then \<exists>a r w'. run_state (Login env repo tc \<lparr>cr_Email = e, cr_Password = pw\<rparr>) w =
        (Inr \<lparr>lr_ID = FormatInt (us_ID v), lr_AccessToken = a, lr_RefreshToken = r\<rparr>, w') \<and>
        carries a (login_data v) \<and> carries r (login_data v) \<and> ok w' \<and> users w' = users w
    else \<exists>w'. run_state (Login env repo tc \<lparr>cr_Email = e, cr_Password = pw\<rparr>) w =
        (Inl (AppErr (Wrap ''service.Login'' None ErrInvalidLOGIN)), w') \<and> ok w' \<and> users w' = users w"
proof -
  obtain w1 where get: "run_state (ur_GetUser repo e) w = (Inr v, w1)" and w1: "ok w1" "users w1 = users w"
    using get_known [OF assms(1) known] by blast
  obtain a r w2 w3 where "run_state (tc_GetAccessToken tc (login_data v)) w1 = ((a, None), w2)"
    "run_state (tc_GetRefreshToken tc (login_data v)) w2 = ((r, None), w3)"
    "carries (ad_Token a) (login_data v)" "carries (ad_Token r) (login_data v)" "ok w3" "users w3 = users w1"
    using both_tokens [OF w1(1) good] by blast
  then show ?thesis using get w1 assms(2,3) by (auto simp: Login_def)
qed

lemma login_unknown:
  assumes "ok w" and "IsValid e" and "pw \<noteq> []" and "users w e = None"
  shows "\<exists>err w'. run_state (Login env repo tc \<lparr>cr_Email = e, cr_Password = pw\<rparr>) w = (Inl err, w') \<and>
    ToHTTPJson err = (HTTPMsg \<lparr>hm_message = SomeThingWentWrong, hm_error = SomeThingWentWrong\<rparr>, 500)"
proof -
  obtain err w1 where "run_state (ur_GetUser repo e) w = (Inl err, w1)"
    using get_unknown [OF assms(1,4)] by blast
  then show ?thesis using assms(2,3) by (simp add: Login_def ToHTTPJson_def ErrInternal_def)
qed

end

section \<open>The PostgreSQL repository meets the contract\<close>

text \<open>
  What the documentation of PostgreSQL promises of the table \<open>users\<close> while the server
  answers: the user name is unique, an insertion of texts that fit their columns gets a
  fresh positive id (from a sequence that is not exhausted), a conflict is reported as a
  duplicate key, and a query by name or by the decimal rendering of an id finds the row.
\<close>

definition insert_law :: "(string \<rightharpoonup> user_row) \<Rightarrow> go_error + int \<Rightarrow> (string \<rightharpoonup> user_row) \<Rightarrow>
    string \<Rightarrow> string \<Rightarrow> string \<Rightarrow> string \<Rightarrow> bool" where
  "insert_law t res t' u h d r =
     (case t u of
        Some _ \<Rightarrow> t' = t \<and> (\<exists>msg. res = Inl (PlainErr msg) \<and> Contains msg ''duplicate key'')
      | None \<Rightarrow> ascii u \<and> length u \<le> 100 \<and> ascii h \<and> length h \<le> 255 \<and> ascii d \<and> length d \<le> 100 \<and>
          ascii r \<and> length r \<le> 10 \<longrightarrow>
          (\<exists>row. res = Inr (row_id row) \<and> t' = t(u \<mapsto> row) \<and>
            row_username row = u \<and> row_password row = h \<and> row_display_name row = d \<and> row_role row = r \<and>
            0 < row_id row \<and> (\<forall>n x. t n = Some x \<longrightarrow> row_id x \<noteq> row_id row)))"

definition users_table :: "'w postgres \<Rightarrow> ('w \<Rightarrow> string \<rightharpoonup> user_row) \<Rightarrow> bool" where
  "users_table db tbl \<longleftrightarrow>
     (\<forall>q w. fst (run_state (pq_PrepareContext db q) w) = None \<and>
        tbl (snd (run_state (pq_PrepareContext db q) w)) = tbl w) \<and>
     (\<forall>u h d r c1 c2 w. insert_law (tbl w) (fst (run_state (pq_InsertRow db insert_query u h d r c1 c2) w))
        (tbl (snd (run_state (pq_InsertRow db insert_query u h d r c1 c2) w))) u h d r) \<and>
     (\<forall>u w. fst (run_state (pq_QueryUser db by_username_query u) w) =
          (case tbl w u of Some row \<Rightarrow> Row row | None \<Rightarrow> NoRows) \<and>
        tbl (snd (run_state (pq_QueryUser db by_username_query u) w)) = tbl w) \<and>
     (\<forall>i w. (case fst (run_state (pq_QueryUser db by_id_query (FormatInt i)) w) of
            Row row \<Rightarrow> row_id row = i \<and> (\<exists>n. tbl w n = Some row)
          | NoRows \<Rightarrow> \<forall>n row. tbl w n = Some row \<longrightarrow> row_id row \<noteq> i
          | RowErr _ \<Rightarrow> False) \<and>
        tbl (snd (run_state (pq_QueryUser db by_id_query (FormatInt i)) w)) = tbl w)"

lemma users_tableD:
  assumes "users_table db tbl"
  shows "fst (run_state (pq_PrepareContext db q) w) = None"
    "tbl (snd (run_state (pq_PrepareContext db q) w)) = tbl w"
    "fst (run_state (pq_QueryUser db by_username_query u) w) = (case tbl w u of Some row \<Rightarrow> Row row | None \<Rightarrow> NoRows)"
    "tbl (snd (run_state (pq_QueryUser db by_username_query u) w)) = tbl w"
    "tbl (snd (run_state (pq_QueryUser db by_id_query (FormatInt i)) w)) = tbl w"
    "insert_law (tbl w) (fst (run_state (pq_InsertRow db insert_query u h d r c1 c2) w))
        (tbl (snd (run_state (pq_InsertRow db insert_query u h d r c1 c2) w))) u h d r"
  using assms unfolding users_table_def by blast+

definition unique_ids :: "(string \<rightharpoonup> user_row) \<Rightarrow> bool" where
  "unique_ids t \<longleftrightarrow> (\<forall>m n x y. t m = Some x \<longrightarrow> t n = Some y \<longrightarrow> row_id x = row_id y \<longrightarrow> m = n)"

definition pg_view :: "('w \<Rightarrow> string \<rightharpoonup> user_row) \<Rightarrow> 'w \<Rightarrow> string \<rightharpoonup> User" where
  "pg_view tbl w n = map_option row_to_user (tbl w n)"

definition pg_ok :: "('w, gotime) state \<Rightarrow> 'w postgres \<Rightarrow> ('w \<Rightarrow> string \<rightharpoonup> user_row) \<Rightarrow> 'w \<Rightarrow> bool" where
  "pg_ok now db tbl w \<longleftrightarrow> users_table db tbl \<and> keeps tbl now \<and> unique_ids (tbl w)"

lemma pg_same: "pg_ok now db tbl w \<Longrightarrow> tbl w' = tbl w \<Longrightarrow> pg_ok now db tbl w' \<and> pg_view tbl w' = pg_view tbl w"
  by (simp add: pg_ok_def) (simp add: pg_view_def fun_eq_iff)

lemma pg_view_upd:
  "tbl w' = (tbl w)(n \<mapsto> row) \<Longrightarrow> pg_view tbl w' = (pg_view tbl w)(n \<mapsto> row_to_user row)"
  by (auto simp: pg_view_def fun_eq_iff)

lemma Role_String_text: "r \<in> {UserRole, AdminRole} \<Longrightarrow> ascii (Role_String r) \<and> length (Role_String r) \<le> 10 \<and> Role_String r \<noteq> []"
  by (auto simp: Role_String_def role_defs ascii_def)

lemma pg_insert:
  assumes ok: "pg_ok now db tbl w"
  shows "storable u \<Longrightarrow> pg_view tbl w (us_Username u) = None \<Longrightarrow>
      \<exists>n v w'. run_state (ur_InsertUser (UserRepository now db) u) w = (Inr n, w') \<and> pg_ok now db tbl w' \<and>
        pg_view tbl w' = (pg_view tbl w)(us_Username u \<mapsto> v) \<and> us_ID v = n \<and> same_account u v"
    "pg_view tbl w (us_Username u) \<noteq> None \<Longrightarrow>
      \<exists>e w'. run_state (ur_InsertUser (UserRepository now db) u) w = (Inl e, w') \<and> pg_ok now db tbl w' \<and>
        pg_view tbl w' = pg_view tbl w \<and> Contains (Error e) ''duplicate''"
proof -
  have law: "users_table db tbl" "keeps tbl now" "unique_ids (tbl w)" using ok by (simp_all add: pg_ok_def)
  let ?w1 = "snd (run_state (pq_PrepareContext db insert_query) w)"
  let ?w2 = "snd (run_state now ?w1)" and ?c = "\<lparr>nt_Time = fst (run_state now ?w1), nt_Valid = True\<rparr>"
  let ?ins = "run_state (pq_InsertRow db insert_query (us_Username u) (us_HashedPassword u) (us_DisplayName u)
    (Role_String (us_Role u)) ?c ?c) ?w2"
  have same: "tbl ?w2 = tbl w" using users_tableD(2) [OF law(1)] law(2) by (simp add: keepsD)
  have run: "run_state (ur_InsertUser (UserRepository now db) u) w = (case fst ?ins of
      Inl err \<Rightarrow> (Inl (PlainErr (if Contains (Error err) ErrDuplicateKey then ''duplicate username: '' @ Error err
        else ''failed to insert user '' @ us_Username u @ '' (username: '' @ Error err @ '')'')), snd ?ins)
    | Inr i \<Rightarrow> (Inr i, snd ?ins))"
    using users_tableD(1) [OF law(1), of insert_query w]
    by (simp add: UserRepository_def InsertUser_repo_def case_prod_beta Let_def split: sum.splits)
  {
    assume st: "storable u" and "pg_view tbl w (us_Username u) = None"
    then have "tbl ?w2 (us_Username u) = None" unfolding same by (simp add: pg_view_def)
    then obtain row where row: "fst ?ins = Inr (row_id row)" "tbl (snd ?ins) = (tbl w)(us_Username u \<mapsto> row)"
      "row_username row = us_Username u" "row_password row = us_HashedPassword u"
      "row_display_name row = us_DisplayName u" "row_role row = Role_String (us_Role u)"
      "\<forall>n x. tbl w n = Some x \<longrightarrow> row_id x \<noteq> row_id row"
      using users_tableD(6) [OF law(1), of ?w2 "us_Username u" "us_HashedPassword u" "us_DisplayName u"
          "Role_String (us_Role u)" ?c ?c] st Role_String_text [of "us_Role u"]
      unfolding same storable_def insert_law_def by auto
    have "unique_ids (tbl (snd ?ins))"
      using law(3) row(7) unfolding row(2) unique_ids_def by (metis fun_upd_apply option.inject)
    moreover have "MapToRoleEntity (Role_String (us_Role u)) = us_Role u"
      using st by (auto simp: storable_def intro: role_codec.dec_enc)
    ultimately show "\<exists>n v w'. run_state (ur_InsertUser (UserRepository now db) u) w = (Inr n, w') \<and> pg_ok now db tbl w' \<and>
        pg_view tbl w' = (pg_view tbl w)(us_Username u \<mapsto> v) \<and> us_ID v = n \<and> same_account u v"
      using row law unfolding run
      by (intro exI [of _ "row_id row"] exI [of _ "row_to_user row"] exI [of _ "snd ?ins"])
        (simp add: pg_ok_def pg_view_upd [OF row(2)] row_to_user_def same_account_def)
  next
    assume "pg_view tbl w (us_Username u) \<noteq> None"
    then obtain x where x: "tbl ?w2 (us_Username u) = Some x" unfolding same by (auto simp: pg_view_def)
    obtain msg where "fst ?ins = Inl (PlainErr msg)" "Contains msg ''duplicate key''" "tbl (snd ?ins) = tbl w"
      using users_tableD(6) [OF law(1), of ?w2 "us_Username u" "us_HashedPassword u" "us_DisplayName u"
          "Role_String (us_Role u)" ?c ?c] x
      unfolding same insert_law_def by auto
    then show "\<exists>e w'. run_state (ur_InsertUser (UserRepository now db) u) w = (Inl e, w') \<and> pg_ok now db tbl w' \<and>
        pg_view tbl w' = pg_view tbl w \<and> Contains (Error e) ''duplicate''"
      using pg_same [OF ok, of "snd ?ins"] Contains_appendI [of "[]" "''duplicate''" "'' username: '' @ msg"] unfolding run
      by (intro exI [of _ "PlainErr (''duplicate username: '' @ msg)"] exI [of _ "snd ?ins"])
        (simp add: ErrDuplicateKey_def)
  }
qed

lemma pg_get:
  assumes ok: "pg_ok now db tbl w"
  shows "pg_view tbl w n = Some v \<Longrightarrow> \<exists>w'. run_state (ur_GetUser (UserRepository now db) n) w = (Inr v, w') \<and>
      pg_ok now db tbl w' \<and> pg_view tbl w' = pg_view tbl w"
    "pg_view tbl w n = None \<Longrightarrow> \<exists>e w'. run_state (ur_GetUser (UserRepository now db) n) w = (Inl e, w') \<and>
      pg_ok now db tbl w' \<and> pg_view tbl w' = pg_view tbl w"
proof -
  have law: "users_table db tbl" using ok by (simp add: pg_ok_def)
  let ?w1 = "snd (run_state (pq_PrepareContext db by_username_query) w)"
  let ?w2 = "snd (run_state (pq_QueryUser db by_username_query n) ?w1)"
  have same: "tbl ?w1 = tbl w" "tbl ?w2 = tbl w" using users_tableD(2,4) [OF law] by simp_all
  note laws = users_tableD(1) [OF law, of by_username_query w] users_tableD(3) [OF law, of n ?w1]
  {
    assume "pg_view tbl w n = Some v"
    then show "\<exists>w'. run_state (ur_GetUser (UserRepository now db) n) w = (Inr v, w') \<and>
      pg_ok now db tbl w' \<and> pg_view tbl w' = pg_view tbl w"
      using laws same pg_same [OF ok, of ?w2]
      by (auto simp: UserRepository_def GetUser_repo_def case_prod_beta pg_view_def)
  next
    assume "pg_view tbl w n = None"
    then show "\<exists>e w'. run_state (ur_GetUser (UserRepository now db) n) w = (Inl e, w') \<and>
      pg_ok now db tbl w' \<and> pg_view tbl w' = pg_view tbl w"
      using laws same pg_same [OF ok, of ?w2]
      by (auto simp: UserRepository_def GetUser_repo_def case_prod_beta pg_view_def)
  }
qed

lemma pg_get_by_id:
  assumes ok: "pg_ok now db tbl w" and v: "pg_view tbl w n = Some v"
  shows "\<exists>w'. run_state (ur_GetUserById (UserRepository now db) (FormatInt (us_ID v))) w = (Inr v, w') \<and>
      pg_ok now db tbl w' \<and> pg_view tbl w' = pg_view tbl w"
proof -
  have law: "users_table db tbl" "unique_ids (tbl w)" using ok by (simp_all add: pg_ok_def)
  obtain row where row: "tbl w n = Some row" "v = row_to_user row" using v by (auto simp: pg_view_def)
  let ?w1 = "snd (run_state (pq_PrepareContext db by_id_query) w)"
  let ?q = "run_state (pq_QueryUser db by_id_query (FormatInt (us_ID v))) ?w1"
  have same: "tbl ?w1 = tbl w" "tbl (snd ?q) = tbl w" using users_tableD(2,5) [OF law(1)] by simp_all
  have "case fst ?q of
            Row x \<Rightarrow> row_id x = us_ID v \<and> (\<exists>m. tbl ?w1 m = Some x)
          | NoRows \<Rightarrow> \<forall>m x. tbl ?w1 m = Some x \<longrightarrow> row_id x \<noteq> us_ID v
          | RowErr _ \<Rightarrow> False"
    using law(1) unfolding users_table_def by blast
  then have q: "case fst ?q of
            Row x \<Rightarrow> row_id x = row_id row \<and> (\<exists>m. tbl w m = Some x)
          | NoRows \<Rightarrow> False | RowErr _ \<Rightarrow> False"
    using row unfolding same by (auto simp: row_to_user_def split: row_result.splits)
  then obtain x m where x: "fst ?q = Row x" "row_id x = row_id row" "tbl w m = Some x"
    by (auto split: row_result.splits)
  then have "m = n" using row(1) law(2) unfolding unique_ids_def by blast
  then have "x = row" using x(3) row(1) by simp
  then show ?thesis
    using x(1) row(2) users_tableD(1) [OF law(1), of by_id_query w] pg_same [OF ok same(2)]
    by (auto simp: UserRepository_def GetUserById_repo_def case_prod_beta)
qed

interpretation pg_users: user_store "UserRepository now db" "pg_view tbl" "pg_ok now db tbl" for now db tbl
  by unfold_locales (rule pg_insert pg_get pg_get_by_id; assumption)+

section \<open>The services together meet the contract of accounts\<close>

definition bcrypt_ok :: "'w bcrypt \<Rightarrow> ('w \<Rightarrow> 'v) \<Rightarrow> bool" where
  "bcrypt_ok B view \<longleftrightarrow> (\<forall>pw w. length pw \<le> 72 \<longrightarrow>
     view (snd (run_state (bc_GenerateFromPassword B pw) w)) = view w \<and>
     (\<exists>h. fst (run_state (bc_GenerateFromPassword B pw) w) = Inr h \<and> ascii h \<and> length h = 60 \<and>
        bc_CompareHashAndPassword B h pw = None))"

definition services_up :: "'w user_env \<Rightarrow> ('w \<Rightarrow> string \<rightharpoonup> user_row) \<Rightarrow> 'w grpc_conn \<Rightarrow> 'w auth_env \<Rightarrow> auth_config \<Rightarrow> bool" where
  "services_up env tbl cc aenv acfg \<longleftrightarrow> bcrypt_ok (ue_bcrypt env) tbl \<and> auth_up cc aenv acfg tbl"

definition accounts_ready where
  "accounts_ready env db tbl cc aenv acfg w \<longleftrightarrow>
     pg_ok (ue_Now env) db tbl w \<and> services_up env tbl cc aenv acfg"

lemma accounts_pg: "accounts_ready env db tbl cc aenv acfg w \<Longrightarrow> pg_ok (ue_Now env) db tbl w"
  by (simp add: accounts_ready_def)

lemma accounts_iff:
  "accounts_ready env db tbl cc aenv acfg w \<Longrightarrow>
   accounts_ready env db tbl cc aenv acfg w' \<longleftrightarrow> pg_ok (ue_Now env) db tbl w'"
  by (simp add: accounts_ready_def)

lemma accounts_token:
  assumes ready: "accounts_ready env db tbl cc aenv acfg w" and good: "plain_data (map to_TokenData data)"
  shows "\<exists>r w'. run_state (tc_GetAccessToken (TokenClient cc) data) w = ((r, None), w') \<and>
      carried aenv acfg (ad_Token r) data \<and> accounts_ready env db tbl cc aenv acfg w' \<and> pg_view tbl w' = pg_view tbl w"
    "\<exists>r w'. run_state (tc_GetRefreshToken (TokenClient cc) data) w = ((r, None), w') \<and>
      carried aenv acfg (ad_Token r) data \<and> accounts_ready env db tbl cc aenv acfg w' \<and> pg_view tbl w' = pg_view tbl w"
proof -
  have ok: "pg_ok (ue_Now env) db tbl w" and up: "services_up env tbl cc aenv acfg" "auth_up cc aenv acfg tbl"
    using ready by (simp_all add: accounts_ready_def services_up_def)
  show "\<exists>r w'. run_state (tc_GetAccessToken (TokenClient cc) data) w = ((r, None), w') \<and>
      carried aenv acfg (ad_Token r) data \<and> accounts_ready env db tbl cc aenv acfg w' \<and> pg_view tbl w' = pg_view tbl w"
    using grpc_tokens.access_token [OF up(2) good, of w] pg_same [OF ok] up(1)
    unfolding accounts_ready_def by blast
  show "\<exists>r w'. run_state (tc_GetRefreshToken (TokenClient cc) data) w = ((r, None), w') \<and>
      carried aenv acfg (ad_Token r) data \<and> accounts_ready env db tbl cc aenv acfg w' \<and> pg_view tbl w' = pg_view tbl w"
    using grpc_tokens.refresh_token [OF up(2) good, of w] pg_same [OF ok] up(1)
    unfolding accounts_ready_def by blast
qed

lemma accounts_hash:
  assumes ready: "accounts_ready env db tbl cc aenv acfg w" and "length pw \<le> 72"
  shows "\<exists>h w'. run_state (HashPassword env pw) w = (Inr h, w') \<and> accounts_ready env db tbl cc aenv acfg w' \<and>
    pg_view tbl w' = pg_view tbl w \<and> CheckPasswordHash env pw h \<and> ascii h \<and> length h \<le> 255"
proof -
  have ok: "pg_ok (ue_Now env) db tbl w" and up: "services_up env tbl cc aenv acfg" "bcrypt_ok (ue_bcrypt env) tbl"
    using ready by (simp_all add: accounts_ready_def services_up_def)
  let ?r = "run_state (bc_GenerateFromPassword (ue_bcrypt env) pw) w"
  obtain h where h: "fst ?r = Inr h" "ascii h" "length h = 60" "bc_CompareHashAndPassword (ue_bcrypt env) h pw = None"
    and same: "tbl (snd ?r) = tbl w"
    using up(2) assms(2) unfolding bcrypt_ok_def by blast
  have "run_state (HashPassword env pw) w = (Inr h, snd ?r)"
    using h(1) by (simp add: HashPassword_def prod_eq_iff)
  then show ?thesis
    using h up(1) pg_same [OF ok same] by (simp add: accounts_ready_def CheckPasswordHash_def)
qed

interpretation pg_accounts: accounts "UserRepository (ue_Now env) db" "pg_view tbl"
    "accounts_ready env db tbl cc aenv acfg" "TokenClient cc" "carried aenv acfg"
    "\<lambda>data. plain_data (map to_TokenData data)" env for env db tbl cc aenv acfg
proof (unfold_locales, goal_cases)
  case (1 w u)
  show ?case
    using pg_insert(1) [OF accounts_pg [OF 1(1)] 1(2,3)] by (simp only: accounts_iff [OF 1(1)])
next
  case (2 w u)
  show ?case
    using pg_insert(2) [OF accounts_pg [OF 2(1)] 2(2)] by (simp only: accounts_iff [OF 2(1)])
next
  case (3 w n v)
  show ?case using pg_get(1) [OF accounts_pg [OF 3(1)] 3(2)] by (simp only: accounts_iff [OF 3(1)])
next
  case (4 w n)
  show ?case using pg_get(2) [OF accounts_pg [OF 4(1)] 4(2)] by (simp only: accounts_iff [OF 4(1)])
next
  case (5 w n v)
  show ?case using pg_get_by_id [OF accounts_pg [OF 5(1)] 5(2)] by (simp only: accounts_iff [OF 5(1)])
next
  case (6 w data)
  then show ?case by (rule accounts_token)
next
  case (7 w data)
  then show ?case by (rule accounts_token)
next
  case (8 w)
  have "tbl (snd (run_state (ue_Now env) w)) = tbl w"
    using accounts_pg [OF 8] by (simp add: pg_ok_def keepsD)
  from pg_same [OF accounts_pg [OF 8] this] show ?case unfolding accounts_iff [OF 8] .
next
  case (9 w pw)
  then show ?case by (rule accounts_hash)
qed

section \<open>Properties\<close>

lemma sign_up_login_account:
  assumes ready: "accounts_ready env db tbl cc aenv acfg w"
    and valid: "IsValid e" "ascii e" "length e \<le> 100" and pw: "pw \<noteq> []" "length pw \<le> 72"
    and fresh: "pg_view tbl w e = None"
    and clock: "fst (run_state (ae_Now aenv) w') < AccessTokenExpireTime acfg * nanosecond_per_second"
      "fst (run_state (ae_Now aenv) w') < RefreshTokenExpireTime acfg * nanosecond_per_second"
  shows "\<exists>w1 w2 uid a r v.
    run_state (SignUp_handler env (UserRepository (ue_Now env) db) (Inr \<lparr>cr_Email = e, cr_Password = pw\<rparr>)) w =
      (ctx_JSON 200 (OkBody (getDisplayName e)), w1) \<and>
    run_state (Login_handler env (UserRepository (ue_Now env) db) (TokenClient cc) (Inr \<lparr>cr_Email = e, cr_Password = pw\<rparr>)) w1 =
      (ctx_JSON 200 (OkBody \<lparr>lr_ID = FormatInt uid, lr_AccessToken = a, lr_RefreshToken = r\<rparr>), w2) \<and>
    (\<forall>tok \<in> {a, r}. \<exists>ad. fst (run_state (ValidateToken aenv acfg \<lparr>vt_Token = tok, vt_Data = []\<rparr>) w') =
       Inr \<lparr>vt_Valid = True, vt_AdditionalData = ad\<rparr> \<and>
       set ad = {\<lparr>tr_Key = ''id'', tr_Value = FormatInt uid\<rparr>, \<lparr>tr_Key = ''role'', tr_Value = ''user''\<rparr>}) \<and>
    pg_ok (ue_Now env) db tbl w2 \<and> pg_view tbl w2 e = Some v \<and> us_ID v = uid \<and> us_Username v = e \<and>
    us_DisplayName v = getDisplayName e \<and> us_Role v = UserRole"
proof -
  obtain v w1 where up: "run_state (SignUp env (UserRepository (ue_Now env) db) \<lparr>cr_Email = e, cr_Password = pw\<rparr>) w =
      (Inr (getDisplayName e), w1)" and w1: "accounts_ready env db tbl cc aenv acfg w1" "pg_view tbl w1 e = Some v"
    and v: "CheckPasswordHash env pw (us_HashedPassword v)" "us_Role v = UserRole" "us_Username v = e" "us_DisplayName v = getDisplayName e"
    using pg_accounts.sign_up [OF ready valid pw] fresh by auto
  have "ascii (dec_digits k)" for k
    by (auto simp: ascii_def list_all_iff is_digit_def dest!: dec_digits_is_digit)
  then have digits: "ascii (FormatInt i) \<and> FormatInt i \<noteq> []" for i
    by (simp add: FormatInt_def ascii_def)
  have data: "map to_TokenData (login_data v) =
      [\<lparr>tr_Key = ''id'', tr_Value = FormatInt (us_ID v)\<rparr>, \<lparr>tr_Key = ''role'', tr_Value = ''user''\<rparr>]"
    using v(2) by (simp add: login_data_def to_TokenData_def Role_String_def role_defs)
  have plain: "plain_data (map to_TokenData (login_data v))"
    unfolding data using digits by (simp add: plain_data_def valid_data_def) (simp add: ascii_def)
  obtain a r w2 where login: "run_state (Login env (UserRepository (ue_Now env) db) (TokenClient cc) \<lparr>cr_Email = e, cr_Password = pw\<rparr>) w1 =
        (Inr \<lparr>lr_ID = FormatInt (us_ID v), lr_AccessToken = a, lr_RefreshToken = r\<rparr>, w2)"
    and carry: "carried aenv acfg a (login_data v)" "carried aenv acfg r (login_data v)"
    and w2: "accounts_ready env db tbl cc aenv acfg w2" "pg_view tbl w2 = pg_view tbl w1"
    using pg_accounts.login [OF w1(1) valid(1) pw(1) w1(2) plain] v(1) by auto
  have env_ok: "auth_env_ok aenv" using ready by (simp add: accounts_ready_def services_up_def auth_up_def)
  have sel: "{\<lparr>tr_Key = k, tr_Value = v'\<rparr> | k v'. k \<in> {''id'', ''role''} \<union> set [] \<and>
      last_value (map to_TokenData (login_data v)) k = Some v'} =
    {\<lparr>tr_Key = ''id'', tr_Value = FormatInt (us_ID v)\<rparr>, \<lparr>tr_Key = ''role'', tr_Value = ''user''\<rparr>}"
    unfolding data by (auto simp: last_value_def)
  have "\<exists>ad. fst (run_state (ValidateToken aenv acfg \<lparr>vt_Token = tok, vt_Data = []\<rparr>) w') =
       Inr \<lparr>vt_Valid = True, vt_AdditionalData = ad\<rparr> \<and>
       set ad = {\<lparr>tr_Key = ''id'', tr_Value = FormatInt (us_ID v)\<rparr>, \<lparr>tr_Key = ''role'', tr_Value = ''user''\<rparr>}"
    if tok: "carried aenv acfg tok (login_data v)" for tok
  proof -
    obtain d where d: "0 < d" "token_for aenv acfg d (map to_TokenData (login_data v)) tok"
      "d = AccessTokenExpireTime acfg \<or> d = RefreshTokenExpireTime acfg"
      using tok by (auto simp: carried_def)
    then have now: "d = 0 \<or> fst (run_state (ae_Now aenv) w') < d * nanosecond_per_second"
      using clock by auto
    have "set [] \<inter> {''exp'', ''jti'', ''iat''} = {}" by simp
    then show ?thesis
      using validate_token_for [OF env_ok plain d(2), of "[]" w'] unfolding sel if_P [OF now] by blast
  qed
  then have both: "\<forall>tok \<in> {a, r}. \<exists>ad. fst (run_state (ValidateToken aenv acfg \<lparr>vt_Token = tok, vt_Data = []\<rparr>) w') =
       Inr \<lparr>vt_Valid = True, vt_AdditionalData = ad\<rparr> \<and>
       set ad = {\<lparr>tr_Key = ''id'', tr_Value = FormatInt (us_ID v)\<rparr>, \<lparr>tr_Key = ''role'', tr_Value = ''user''\<rparr>}"
    using carry by blast
  show ?thesis
    by (intro exI [of _ w1] exI [of _ w2] exI [of _ "us_ID v"] exI [of _ a] exI [of _ r] exI [of _ v] conjI both)
      (simp_all add: SignUp_handler_def Login_handler_def up login accounts_pg [OF w2(1)] w2(2) w1(2) v)
qed

text \<open>
  C2. From sign-up to an authenticated request, through both services: a new user with an
  acceptable address and password is answered 200 with the display name; a login with the
  same credentials is then answered 200 with the id of the account that the table holds for the address, and two tokens; and
  the auth service accepts either token, reporting exactly this id and the role \<open>user\<close>.
\<close>

theorem sign_up_login_validate:
  assumes ready: "accounts_ready env db tbl cc aenv acfg w"
    and valid: "IsValid e" "ascii e" "length e \<le> 100" and pw: "pw \<noteq> []" "length pw \<le> 72"
    and fresh: "pg_view tbl w e = None"
    and clock: "fst (run_state (ae_Now aenv) w') < AccessTokenExpireTime acfg * nanosecond_per_second"
      "fst (run_state (ae_Now aenv) w') < RefreshTokenExpireTime acfg * nanosecond_per_second"
  shows "\<exists>w1 w2 uid a r v.
    run_state (SignUp_handler env (UserRepository (ue_Now env) db) (Inr \<lparr>cr_Email = e, cr_Password = pw\<rparr>)) w =
      (ctx_JSON 200 (OkBody (getDisplayName e)), w1) \<and>
    run_state (Login_handler env (UserRepository (ue_Now env) db) (TokenClient cc) (Inr \<lparr>cr_Email = e, cr_Password = pw\<rparr>)) w1 =
      (ctx_JSON 200 (OkBody \<lparr>lr_ID = FormatInt uid, lr_AccessToken = a, lr_RefreshToken = r\<rparr>), w2) \<and>
    (\<forall>tok \<in> {a, r}. \<exists>ad. fst (run_state (ValidateToken aenv acfg \<lparr>vt_Token = tok, vt_Data = []\<rparr>) w') =
       Inr \<lparr>vt_Valid = True, vt_AdditionalData = ad\<rparr> \<and>
       set ad = {\<lparr>tr_Key = ''id'', tr_Value = FormatInt uid\<rparr>, \<lparr>tr_Key = ''role'', tr_Value = ''user''\<rparr>}) \<and>
    pg_view tbl w2 e = Some v \<and> us_ID v = uid \<and> us_Username v = e \<and> us_DisplayName v = getDisplayName e \<and> us_Role v = UserRole"
  using sign_up_login_account [OF assms] by blast

text \<open>
  Signing up with a name that is taken is answered 400 with the message that the user
  name already exists, whatever the password, and the accounts stay as they were.
\<close>

theorem sign_up_taken:
  assumes "accounts_ready env db tbl cc aenv acfg w"
    and "IsValid e" "ascii e" "length e \<le> 100" "pw \<noteq> []" "length pw \<le> 72"
    and "pg_view tbl w e = Some v"
  shows "\<exists>w'. run_state (SignUp_handler env (UserRepository (ue_Now env) db) (Inr \<lparr>cr_Email = e, cr_Password = pw\<rparr>)) w =
      (ctx_JSON 400 (ErrBody (HTTPMsg \<lparr>hm_message = DuplicateUsername, hm_error = DuplicateUsername\<rparr>)), w') \<and>
    pg_view tbl w' = pg_view tbl w"
  using pg_accounts.sign_up [OF assms(1-6)] assms(7) by (auto simp: SignUp_handler_def error_JSON_def)

text \<open>
  A login with an unknown name is answered 500 (something went wrong), although a
  wrong password for a known name is answered 403, as the documentation has it for both:
  the status tells a caller which addresses have an account.
\<close>

theorem login_statuses:
  assumes "accounts_ready env db tbl cc aenv acfg w" and "IsValid e" and "pw \<noteq> []"
  shows "(pg_view tbl w e = None \<longrightarrow> http_status (fst (run_state (Login_handler env (UserRepository (ue_Now env) db)
        (TokenClient cc) (Inr \<lparr>cr_Email = e, cr_Password = pw\<rparr>)) w)) = 500) \<and>
    (\<forall>v. pg_view tbl w e = Some v \<longrightarrow> \<not> CheckPasswordHash env pw (us_HashedPassword v) \<longrightarrow>
      http_status (fst (run_state (Login_handler env (UserRepository (ue_Now env) db)
        (TokenClient cc) (Inr \<lparr>cr_Email = e, cr_Password = pw\<rparr>)) w)) = 403)"
proof (intro conjI impI allI)
  assume "pg_view tbl w e = None"
  then show "http_status (fst (run_state (Login_handler env (UserRepository (ue_Now env) db)
        (TokenClient cc) (Inr \<lparr>cr_Email = e, cr_Password = pw\<rparr>)) w)) = 500"
    using pg_accounts.login_unknown [OF assms] by (auto simp: Login_handler_def error_JSON_def)
next
  fix v assume v: "pg_view tbl w e = Some v" and wrong: "\<not> CheckPasswordHash env pw (us_HashedPassword v)"
  obtain w1 where "run_state (ur_GetUser (UserRepository (ue_Now env) db) e) w = (Inr v, w1)"
    using pg_accounts.get_known [OF assms(1) v] by blast
  then show "http_status (fst (run_state (Login_handler env (UserRepository (ue_Now env) db)
        (TokenClient cc) (Inr \<lparr>cr_Email = e, cr_Password = pw\<rparr>)) w)) = 403"
    using assms(2,3) wrong
    by (simp add: Login_handler_def Login_def error_JSON_def ToHTTPJson_def ErrInvalidLOGIN_def)
qed

text \<open>
  A failure of the database can be reported as a duplicate name: the service looks for
  the word in the text of the error, the repository puts the user name into that text, and
  so an address that contains \<open>duplicate\<close> is answered 400 (user name already exists) for
  every error of the insertion.
\<close>

theorem insert_error_misreported:
  assumes "IsValid e" "Contains e ''duplicate''" "pw \<noteq> []"
    and hash: "\<And>w. \<exists>h. fst (run_state (bc_GenerateFromPassword (ue_bcrypt env) pw) w) = Inr h"
    and prepare: "\<And>q w. fst (run_state (pq_PrepareContext db q) w) = None"
    and fails: "\<And>q u h d r c1 c2 w. fst (run_state (pq_InsertRow db q u h d r c1 c2) w) = Inl err"
  shows "fst (run_state (SignUp_handler env (UserRepository now db) (Inr \<lparr>cr_Email = e, cr_Password = pw\<rparr>)) w) =
    ctx_JSON 400 (ErrBody (HTTPMsg \<lparr>hm_message = DuplicateUsername, hm_error = DuplicateUsername\<rparr>))"
proof -
  obtain u v where e: "e = u @ ''duplicate'' @ v" using assms(2) by (auto simp: Contains_iff)
  have c1: "Contains (''duplicate username: '' @ Error err) ''duplicate''"
    using Contains_appendI [of "[]" "''duplicate''" "'' username: '' @ Error err"] by simp
  have c2: "Contains (''failed to insert user '' @ e @ '' (username: '' @ Error err @ '')'') ''duplicate''"
    using Contains_appendI [of "''failed to insert user '' @ u" "''duplicate''" "v @ '' (username: '' @ Error err @ '')''"]
    by (simp add: e)
  have insert: "\<exists>m. fst (run_state (ur_InsertUser (UserRepository now db) x) w) = Inl (PlainErr m) \<and> Contains m ''duplicate''"
    if "us_Username x = e" for x w
    using c1 c2 that fails prepare
    by (auto simp: UserRepository_def InsertUser_repo_def case_prod_beta Let_def)
  let ?w1 = "snd (run_state (ue_Now env) w)" and ?t = "of_int (UnixMilli (fst (run_state (ue_Now env) w)))"
  let ?hash = "run_state (bc_GenerateFromPassword (ue_bcrypt env) pw) ?w1"
  obtain h where h: "fst ?hash = Inr h" using hash by blast
  let ?u = "\<lparr>us_ID = 0, us_Username = e, us_HashedPassword = h, us_DisplayName = getDisplayName e,
    us_CreatedAt = ?t, us_UpdatedAt = ?t, us_Role = UserRole\<rparr>"
  obtain m where m: "fst (run_state (ur_InsertUser (UserRepository now db) ?u) (snd ?hash)) = Inl (PlainErr m)"
    "Contains m ''duplicate''"
    using insert [of ?u "snd ?hash"] by auto
  show ?thesis
    using assms(1,3) h m
    by (simp add: SignUp_handler_def SignUp_def GetUTCCurrentMillis_def HashPassword_def case_prod_beta Let_def
        error_JSON_def ToHTTPJson_def)
qed

text \<open>
  The profile endpoint shows what the account holds: for every stored account, a
  request with its id in the header is answered 200 with its name, display name, role and
  times, and a request without an id 400.
\<close>

theorem profile_of_account:
  assumes "pg_ok now db tbl w" and "pg_view tbl w n = Some v"
  shows "(\<exists>w'. run_state (Profile_handler (UserRepository now db) (FormatInt (us_ID v))) w = (ctx_JSON 200 (OkBody
      \<lparr>pr_ID = FormatInt (us_ID v), pr_Username = us_Username v, pr_DisplayName = us_DisplayName v,
       pr_Role = Role_String (us_Role v), pr_CreatedAt = us_CreatedAt v, pr_UpdatedAt = us_UpdatedAt v\<rparr>), w') \<and>
      pg_view tbl w' = pg_view tbl w) \<and>
    run_state (Profile_handler (UserRepository now db) []) w = (ctx_JSON 400 (TextBody MessageMissingXUserId), w)"
  using pg_users.profile_known [OF assms] by (simp add: Profile_handler_def)

section \<open>Witnesses\<close>

text \<open>A world that is just the table, and a bcrypt that pads the password to sixty bytes.\<close>

type_synonym table = "(string \<times> user_row) list"

definition next_id :: "table \<Rightarrow> int" where
  "next_id t = 1 + foldr (\<lambda>(_, row) m. max (row_id row) m) t 0"

definition ref_pg :: "table postgres" where
  "ref_pg = \<lparr>pq_PrepareContext = (\<lambda>q. ret None),
     pq_InsertRow = (\<lambda>q u h d r c1 c2. State (\<lambda>t.
       if map_of t u \<noteq> None then (Inl (PlainErr ''duplicate key value violates unique constraint''), t)
       else (Inr (next_id t), (u, \<lparr>row_id = next_id t, row_username = u, row_password = h, row_display_name = d,
         row_role = r, row_created_at = c1, row_updated_at = c2\<rparr>) # t))),
     pq_QueryUser = (\<lambda>q arg. State (\<lambda>t.
       (if q = by_username_query then (case map_of t arg of Some row \<Rightarrow> Row row | None \<Rightarrow> NoRows)
        else (case find (\<lambda>(n, row). FormatInt (row_id row) = arg) (AList.clearjunk t) of
          Some (n, row) \<Rightarrow> Row row | None \<Rightarrow> NoRows), t)))\<rparr>"

lemma next_id_fresh: "map_of t n = Some row \<Longrightarrow> row_id row < next_id t"
proof -
  have "(n, row) \<in> set t \<Longrightarrow> row_id row \<le> foldr (\<lambda>(_, row) m. max (row_id row) m) t 0"
    by (induction t) (auto simp: le_max_iff_disj)
  then show "map_of t n = Some row \<Longrightarrow> row_id row < next_id t"
    by (force simp: next_id_def dest: map_of_SomeD)
qed

lemma next_id_pos: "0 < next_id t"
proof -
  have "0 \<le> foldr (\<lambda>(_, row) m. max (row_id row) m) t 0" by (induction t) auto
  then show ?thesis by (simp add: next_id_def)
qed

lemma FormatInt_eq_iff: "FormatInt i = FormatInt j \<longleftrightarrow> i = j"
  by (metis read_int_FormatInt)

lemma ref_find:
  "case find (\<lambda>(n, row). FormatInt (row_id row) = FormatInt i) (AList.clearjunk t) of
     Some (n, row) \<Rightarrow> row_id row = i \<and> map_of t n = Some row
   | None \<Rightarrow> \<forall>n row. map_of t n = Some row \<longrightarrow> row_id row \<noteq> i"
proof -
  have mem: "(n, row) \<in> set (AList.clearjunk t) \<longleftrightarrow> map_of t n = Some row" for n row
    using map_of_eq_Some_iff [OF distinct_clearjunk, of t n row] by (simp add: map_of_clearjunk)
  show ?thesis
  proof (cases "find (\<lambda>(n, row). FormatInt (row_id row) = FormatInt i) (AList.clearjunk t)")
    case None
    then have "\<not> (\<exists>x. x \<in> set (AList.clearjunk t) \<and> (case x of (n, row) \<Rightarrow> FormatInt (row_id row) = FormatInt i))"
      by (rule find_None_iff [THEN iffD1])
    then have no: "\<not> (case x of (n, row) \<Rightarrow> FormatInt (row_id row) = FormatInt i)"
      if "x \<in> set (AList.clearjunk t)" for x
      using that by blast
    have "row_id row \<noteq> i" if "(n, row) \<in> set (AList.clearjunk t)" for n row
      using no [OF that] by auto
    then show ?thesis using None mem by simp
  next
    case (Some x)
    obtain n row where x: "x = (n, row)" by (cases x)
    have "x \<in> set (AList.clearjunk t)" "row_id (snd x) = i"
      using Some by (auto simp: find_Some_iff FormatInt_eq_iff in_set_conv_nth)
    then show ?thesis using Some mem x by simp
  qed
qed

lemma ref_users_table: "users_table ref_pg map_of"
proof -
  have q: "by_username_query \<noteq> by_id_query" by (simp add: by_username_query_def by_id_query_def)
  have fresh: "map_of t n = Some x \<Longrightarrow> row_id x \<noteq> next_id t" for t n x
    using next_id_fresh [of t n x] by simp
  have dup: "Contains ''duplicate key value violates unique constraint'' ''duplicate key''"
    using Contains_appendI [of "[]" "''duplicate key''" "'' value violates unique constraint''"] by simp
  show ?thesis
    unfolding users_table_def
  proof (intro conjI allI)
    fix u h d r c1 c2 and w :: table
    show "insert_law (map_of w) (fst (run_state (pq_InsertRow ref_pg insert_query u h d r c1 c2) w))
        (map_of (snd (run_state (pq_InsertRow ref_pg insert_query u h d r c1 c2) w))) u h d r"
    proof (cases "map_of w u")
      case None
      then show ?thesis
        using fresh [of w] next_id_pos [of w]
        by (simp add: ref_pg_def insert_law_def)
          (intro impI exI [of _ "\<lparr>row_id = next_id w, row_username = u, row_password = h, row_display_name = d,
             row_role = r, row_created_at = c1, row_updated_at = c2\<rparr>"], simp)
    qed (simp add: ref_pg_def insert_law_def dup)
  next
    fix i w
    show "case fst (run_state (pq_QueryUser ref_pg by_id_query (FormatInt i)) w) of
            Row row \<Rightarrow> row_id row = i \<and> (\<exists>n. map_of w n = Some row)
          | NoRows \<Rightarrow> \<forall>n row. map_of w n = Some row \<longrightarrow> row_id row \<noteq> i
          | RowErr _ \<Rightarrow> False"
      using ref_find [where i = i and t = w] q by (auto simp: ref_pg_def split: option.splits)
  qed (use q in \<open>auto simp: ref_pg_def split: option.splits\<close>)
qed

definition ref_hash :: string where "ref_hash = replicate 60 CHR ''x''"

lemma ref_hash_ascii: "ascii ref_hash" "length ref_hash = 60" "''h'' \<noteq> ref_hash"
proof -
  show "ascii ref_hash" by (simp add: ref_hash_def ascii_def list_all_iff)
  show l: "length ref_hash = 60" by (simp add: ref_hash_def)
  have "length ''h'' \<noteq> length ref_hash" using l by simp
  then show "''h'' \<noteq> ref_hash" by metis
qed

definition ref_user_env :: "table user_env" where
  "ref_user_env = \<lparr>ue_Now = ref_Now_frozen ref_2023,
     ue_bcrypt = \<lparr>bc_GenerateFromPassword = (\<lambda>pw. ret (Inr ref_hash)),
       bc_CompareHashAndPassword = (\<lambda>h pw. if h = ref_hash then None else Some (PlainErr ''mismatch''))\<rparr>,
     ue_Sprint = (\<lambda>u. us_Username u)\<rparr>"

abbreviation ref_cc :: "table grpc_conn" where
  "ref_cc \<equiv> ref_conn (ref_auth_env ref_2023) ref_auth_cfg"

lemma ref_accounts_ready:
  "unique_ids (map_of t) \<Longrightarrow>
   accounts_ready ref_user_env ref_pg map_of ref_cc (ref_auth_env ref_2023) ref_auth_cfg t"
  using ref_users_table ref_auth_up [of ref_2023 map_of]
  by (simp add: accounts_ready_def services_up_def pg_ok_def bcrypt_ok_def ref_user_env_def ref_Now_frozen_def
      keeps_def ref_hash_ascii) (simp add: ref_2023_def)

definition ref_row :: user_row where
  "ref_row = \<lparr>row_id = 7, row_username = ''alice@x.org'', row_password = ''h'', row_display_name = ''alice'',
     row_role = ''user'', row_created_at = \<lparr>nt_Time = 0, nt_Valid = True\<rparr>,
     row_updated_at = \<lparr>nt_Time = 0, nt_Valid = True\<rparr>\<rparr>"

lemma ref_alice_valid: "IsValid ''alice@x.org'' \<and> ascii ''alice@x.org''"
  by (simp add: IsValid_def Contains_char ascii_def)

lemma ref_unique: "unique_ids (map_of [(''alice@x.org'', ref_row)])" "unique_ids (map_of [])"
  by (auto simp: unique_ids_def split: if_splits)

lemma sign_up_login_validate_witness:
  "\<exists>w1 w2 uid a r.
    run_state (SignUp_handler ref_user_env (UserRepository (ue_Now ref_user_env) ref_pg)
      (Inr \<lparr>cr_Email = ''alice@x.org'', cr_Password = ''pw''\<rparr>)) [] = (ctx_JSON 200 (OkBody ''alice''), w1) \<and>
    run_state (Login_handler ref_user_env (UserRepository (ue_Now ref_user_env) ref_pg) (TokenClient ref_cc)
      (Inr \<lparr>cr_Email = ''alice@x.org'', cr_Password = ''pw''\<rparr>)) w1 =
      (ctx_JSON 200 (OkBody \<lparr>lr_ID = FormatInt uid, lr_AccessToken = a, lr_RefreshToken = r\<rparr>), w2)"
proof -
  have "getDisplayName ''alice@x.org'' = ''alice''" by (simp add: getDisplayName_def)
  then show ?thesis
    using sign_up_login_validate [OF ref_accounts_ready [OF ref_unique(2)], of "''alice@x.org''" "''pw''" "[]"]
      ref_alice_valid
    by (force simp: pg_view_def ref_auth_env_def ref_Now_frozen_def ref_auth_cfg_def ref_2023_def)
qed

lemma sign_up_taken_witness:
  "http_status (fst (run_state (SignUp_handler ref_user_env (UserRepository (ue_Now ref_user_env) ref_pg)
      (Inr \<lparr>cr_Email = ''alice@x.org'', cr_Password = ''pw''\<rparr>)) [(''alice@x.org'', ref_row)])) = 400"
  using sign_up_taken [OF ref_accounts_ready [OF ref_unique(1)], of "''alice@x.org''" "''pw''"] ref_alice_valid
  by (force simp: pg_view_def)

lemma login_statuses_witness:
  "http_status (fst (run_state (Login_handler ref_user_env (UserRepository (ue_Now ref_user_env) ref_pg) (TokenClient ref_cc)
      (Inr \<lparr>cr_Email = ''alice@x.org'', cr_Password = ''pw''\<rparr>)) [])) = 500 \<and>
   http_status (fst (run_state (Login_handler ref_user_env (UserRepository (ue_Now ref_user_env) ref_pg) (TokenClient ref_cc)
      (Inr \<lparr>cr_Email = ''alice@x.org'', cr_Password = ''wrong''\<rparr>)) [(''alice@x.org'', ref_row)])) = 403"
  using login_statuses [OF ref_accounts_ready [OF ref_unique(2)], of "''alice@x.org''" "''pw''"]
    login_statuses [OF ref_accounts_ready [OF ref_unique(1)], of "''alice@x.org''" "''wrong''"] ref_alice_valid
  by (simp add: pg_view_def CheckPasswordHash_def ref_user_env_def row_to_user_def ref_row_def ref_hash_ascii)

lemma insert_error_misreported_witness:
  "http_status (fst (run_state (SignUp_handler ref_user_env
      (UserRepository (ue_Now ref_user_env) (ref_pg\<lparr>pq_InsertRow := (\<lambda>q u h d r c1 c2. ret (Inl (PlainErr ''disk full'')))\<rparr>))
      (Inr \<lparr>cr_Email = ''duplicate@x.org'', cr_Password = ''pw''\<rparr>)) [])) = 400"
proof -
  have "IsValid ''duplicate@x.org''" by (simp add: IsValid_def Contains_char)
  moreover have "Contains ''duplicate@x.org'' ''duplicate''"
    using Contains_appendI [of "[]" "''duplicate''" "''@x.org''"] by simp
  ultimately show ?thesis
    by (subst insert_error_misreported [where err = "PlainErr ''disk full''"])
      (simp_all add: ref_user_env_def ref_pg_def)
qed

lemma profile_of_account_witness:
  "http_status (fst (run_state (Profile_handler (UserRepository (ue_Now ref_user_env) ref_pg) (FormatInt 7))
     [(''alice@x.org'', ref_row)])) = 200"
proof -
  have "pg_ok (ue_Now ref_user_env) ref_pg map_of [(''alice@x.org'', ref_row)]"
    using ref_accounts_ready [OF ref_unique(1)] by (simp add: accounts_ready_def)
  then show ?thesis
    using profile_of_account [where n = "''alice@x.org''" and v = "row_to_user ref_row" and now = "ue_Now ref_user_env"
        and db = ref_pg and tbl = map_of and w = "[(''alice@x.org'', ref_row)]"]
    by (force simp: pg_view_def row_to_user_def ref_row_def)
qed

end
