(* ===== verification/Match_Service.thy ===== *)
theory Match_Service
  imports Contract Go_Strconv
begin

text \<open>
  The match service: \<open>services/match_app/service\<close> and the HTTP handler of
  \<open>services/match_app/delivery/http\<close>. The repository is the Go interface \<open>Repository\<close> as
  a record of programs; \<open>waiting_list\<close> is its contract, and the theorems about a round of
  matchmaking are proved under it. \<open>Match_Repository\<close> shows that the Redis repository
  meets the contract.

  The libraries the service calls are arguments: the clock, the ULID generator (a function
  of the seed and the timestamp, as the code uses it), \<open>funk.IndexOf\<close>, \<open>sort.Slice\<close>
  and the verdict of the validation library on a required string.
\<close>

section \<open>Entities\<close>

type_synonym Category = string

definition CategoryTypeSport :: Category where "CategoryTypeSport = ''SPORT''"
definition CategoryTypeMusic :: Category where "CategoryTypeMusic = ''MUSIC''"
definition CategoryTypeTech :: Category where "CategoryTypeTech = ''TECH''"
definition CategoryTypeUnknown :: Category where "CategoryTypeUnknown = ''UNKNOWN''"

lemmas category_defs = CategoryTypeSport_def CategoryTypeMusic_def CategoryTypeTech_def
  CategoryTypeUnknown_def

definition GetCategories :: "Category list" where
  "GetCategories = [CategoryTypeSport, CategoryTypeMusic, CategoryTypeTech]"

definition MapToCategory :: "string \<Rightarrow> Category" where
  "MapToCategory category =
     (if category = ''SPORT'' then CategoryTypeSport
      else if category = ''MUSIC'' then CategoryTypeMusic
      else if category = ''TECH'' then CategoryTypeTech
      else CategoryTypeUnknown)"

record WaitingMember =
  wm_UserId :: u64
  wm_TimeStamp :: int
  wm_Category :: Category

record MatchedUsers =
  mu_Id :: string
  mu_Category :: "Category list"
  mu_UserId :: "u64 list"

definition WaitingMember_String :: "WaitingMember \<Rightarrow> string" where
  "WaitingMember_String wm = ''UserId: '' @ FormatUint (wm_UserId wm) @ '', TimeStamp: '' @ FormatInt (wm_TimeStamp wm) @
     '', Category: '' @ wm_Category wm"

text \<open>\<open>MatchedUsers.String\<close> cuts the last byte of the categories and panics without any.\<close>

definition MatchedUsers_String :: "(u64 list \<Rightarrow> string) \<Rightarrow> MatchedUsers \<Rightarrow> string outcome" where
  "MatchedUsers_String sprint m =
     (let categories = concat (map (\<lambda>c. c @ '','') (mu_Category m))
      in if categories = [] then Panicked SliceOutOfRange
         else Returned (''matchedUsers: Category: '' @ butlast categories @ ''==>'' @ sprint (mu_UserId m)))"

record AddToWaitingListRequest =
  aw_Category :: string
  aw_UserId :: string

record AddToWaitingListResponse =
  aw_Timeout :: duration

section \<open>The repository interface and the libraries\<close>

record 'w match_repo =
  mr_AddToWaitingList :: "Category \<Rightarrow> string \<Rightarrow> ('w, go_error option) state"
  mr_GetWaitingListByCategory :: "Category \<Rightarrow> ('w, WaitingMember list \<times> go_error option) state"
  mr_RemoveWaitingMember :: "WaitingMember list \<Rightarrow> ('w, go_error option) state"

record 'w match_env =
  me_Now :: "('w, gotime) state"
  me_ulid :: "int \<Rightarrow> int \<Rightarrow> string"
  me_IndexOf :: "MatchedUsers list \<Rightarrow> (MatchedUsers \<Rightarrow> bool) \<Rightarrow> int"
  me_sort :: "(WaitingMember \<Rightarrow> WaitingMember \<Rightarrow> bool) \<Rightarrow> WaitingMember list \<Rightarrow> WaitingMember list"
  me_Required :: "string \<Rightarrow> string \<Rightarrow> go_error option"
  me_proto :: proto_codec

record match_config =
  mc_WaitingTimeout :: duration
  mc_LeastPresence :: duration

text \<open>\<open>funk.IndexOf\<close>: the first index at which the predicate holds, or -1.\<close>

definition index_of_first :: "'a list \<Rightarrow> ('a \<Rightarrow> bool) \<Rightarrow> int" where
  "index_of_first xs P = (let i = length (takeWhile (\<lambda>x. \<not> P x) xs)
     in if i < length xs then int i else - 1)"

section \<open>Validation and the waiting list\<close>

definition ErrValidationDataRequired :: string where
  "ErrValidationDataRequired = ''category is required''"
definition ErrInvalidCategory :: string where
  "ErrInvalidCategory = ''invalid category''"

definition ValidateAddToWaitingListRequest ::
    "'w match_env \<Rightarrow> AddToWaitingListRequest \<Rightarrow> go_error option" where
  "ValidateAddToWaitingListRequest env req =
     (case me_Required env ErrValidationDataRequired (aw_Category req) of
        Some err \<Rightarrow> Some err
      | None \<Rightarrow> if MapToCategory (aw_Category req) = CategoryTypeUnknown
                then Some (PlainErr ErrInvalidCategory) else None)"

definition AddToWaitingList :: "'w match_env \<Rightarrow> match_config \<Rightarrow> 'w match_repo \<Rightarrow>
    AddToWaitingListRequest \<Rightarrow> ('w, go_error + AddToWaitingListResponse) state" where
  "AddToWaitingList env cfg repo request =
     (case ValidateAddToWaitingListRequest env request of
        Some err \<Rightarrow> ret (Inl (AppErr (Wrap ''matchMakingHandler.AddToWaitingList'' (Some err) ErrInvalidInput)))
      | None \<Rightarrow> do {
          err \<leftarrow> mr_AddToWaitingList repo (MapToCategory (aw_Category request)) (aw_UserId request);
          case err of
            Some e \<Rightarrow> ret (Inl (AppErr (Wrap ''matchMakingHandler.AddToWaitingList'' (Some e) ErrInternal)))
          | None \<Rightarrow> ret (Inr \<lparr>aw_Timeout = mc_WaitingTimeout cfg\<rparr>) })"

text \<open>
  The HTTP handler. \<open>ctx.Bind\<close> decodes the request into the struct that already holds the
  user id of the header: \<open>ctx_Bind\<close> is echo's function on that struct.
\<close>

definition addToWaitingList_handler :: "'w match_env \<Rightarrow> match_config \<Rightarrow> 'w match_repo \<Rightarrow> string \<Rightarrow>
    (AddToWaitingListRequest \<Rightarrow> go_error + AddToWaitingListRequest) \<Rightarrow>
    ('w, AddToWaitingListResponse http_response) state" where
  "addToWaitingList_handler env cfg repo userId ctx_Bind =
     (if length userId < 1 then ret (ctx_JSON 400 (TextBody MessageMissingXUserId))
      else case ctx_Bind \<lparr>aw_Category = [], aw_UserId = userId\<rparr> of
        Inl err \<Rightarrow> ret (ctx_JSON 400 (TextBody InvalidCategory))
      | Inr req \<Rightarrow> do {
          r \<leftarrow> AddToWaitingList env cfg repo req;
          case r of
            Inl err \<Rightarrow> ret (error_JSON err)
          | Inr res \<Rightarrow> ret (ctx_JSON 200 (OkBody res)) })"

section \<open>A round of matchmaking\<close>

definition MapFromEntityToProtoMessage :: "MatchedUsers list \<Rightarrow> PbAllMatchedUsers" where
  "MapFromEntityToProtoMessage matchedUsers =
     \<lparr>pb_Users = map (\<lambda>user. \<lparr>pb_UserId = mu_UserId user, pb_Category = map (\<lambda>c. c) (mu_Category user),
        pb_MatchId = mu_Id user\<rparr>) matchedUsers\<rparr>"

definition MapFromAddToWaitingListProtoToEntity :: "PbAddToWaitingList \<Rightarrow> u64 \<times> Category" where
  "MapFromAddToWaitingListProtoToEntity message =
     (pb_WaitingUserId message, MapToCategory (pb_WaitingCategory message))"

text \<open>The first loop: the waiting lists of all categories, and the last error.\<close>

fun collect_waiting :: "'w match_repo \<Rightarrow> Category list \<Rightarrow> WaitingMember list \<Rightarrow> go_error option \<Rightarrow>
    ('w, WaitingMember list \<times> go_error option) state" where
  "collect_waiting repo [] waitingMembers rErr = ret (waitingMembers, rErr)"
| "collect_waiting repo (category # cs) waitingMembers rErr = do {
     (result, err) \<leftarrow> mr_GetWaitingListByCategory repo category;
     collect_waiting repo cs
       (waitingMembers @ map (\<lambda>res. \<lparr>wm_UserId = wm_UserId res, wm_TimeStamp = wm_TimeStamp res,
          wm_Category = category\<rparr>) result)
       (case err of None \<Rightarrow> rErr
        | Some e \<Rightarrow> Some (AppErr (Wrap ''matchMakingHandler.MatchWaitUsers'' (Some e) ErrInternal))) }"

definition less_timestamp :: "WaitingMember \<Rightarrow> WaitingMember \<Rightarrow> bool" where
  "less_timestamp a b \<longleftrightarrow> wm_TimeStamp a < wm_TimeStamp b"

text \<open>The second loop: a member joins the first group that has its category, or starts one.\<close>

definition group_step :: "'w match_env \<Rightarrow> MatchedUsers list \<Rightarrow> WaitingMember \<Rightarrow> MatchedUsers list outcome" where
  "group_step env readyUsers member =
     (let index = me_IndexOf env readyUsers (\<lambda>users. list_ex (\<lambda>category. category = wm_Category member) (mu_Category users))
      in if index \<noteq> - 1 then
           (if 0 \<le> index \<and> index < int (length readyUsers) then
              Returned (readyUsers[nat index := (readyUsers ! nat index)
                \<lparr>mu_UserId := mu_UserId (readyUsers ! nat index) @ [wm_UserId member]\<rparr>])
            else Panicked IndexOutOfRange)
         else Returned (readyUsers @ [\<lparr>mu_Id = [], mu_Category = [wm_Category member], mu_UserId = [wm_UserId member]\<rparr>]))"

fun group_members :: "'w match_env \<Rightarrow> MatchedUsers list \<Rightarrow> WaitingMember list \<Rightarrow> MatchedUsers list outcome" where
  "group_members env readyUsers [] = Returned readyUsers"
| "group_members env readyUsers (m # ms) =
     (case group_step env readyUsers m of
        Returned r \<Rightarrow> group_members env r ms
      | Panicked p \<Rightarrow> Panicked p)"

text \<open>The third loop: an even number of users per group, at least two, with a fresh ULID.\<close>

definition finalize_group :: "'w match_env \<Rightarrow> MatchedUsers \<Rightarrow> ('w, MatchedUsers list) state" where
  "finalize_group env readyUser =
     (let r = length (mu_UserId readyUser)
      in if r < 2 then ret []
         else do {
           let r = (if r mod 2 \<noteq> 0 then r - 1 else r);
           seed \<leftarrow> me_Now env;
           now \<leftarrow> me_Now env;
           ret [\<lparr>mu_Id = me_ulid env seed (now div 1000000), mu_Category = mu_Category readyUser,
                 mu_UserId = take r (mu_UserId readyUser)\<rparr>] })"

definition publishFinalUsers :: "'w match_env \<Rightarrow> 'w broker \<Rightarrow> 'w match_repo \<Rightarrow> MatchedUsers list \<Rightarrow>
    ('w, unit outcome) state" where
  "publishFinalUsers env b repo users = do {
     let buff = buff_of (marshal_AllMatchedUsers (me_proto env) (MapFromEntityToProtoMessage users));
     err \<leftarrow> br_Publish b MATCH_V1_MATCH_USERS buff;
     (if list_ex (\<lambda>user. mu_UserId user \<noteq> [] \<and> mu_Category user = []) users
      then ret (Panicked IndexOutOfRange)
      else do {
        let waitingMembers = concat (map (\<lambda>user. map (\<lambda>userid.
              \<lparr>wm_UserId = userid, wm_TimeStamp = 0, wm_Category = hd (mu_Category user)\<rparr>)
            (mu_UserId user)) users);
        err \<leftarrow> mr_RemoveWaitingMember repo waitingMembers;
        ret (Returned ()) }) }"

definition MatchWaitUsers :: "'w match_env \<Rightarrow> 'w broker \<Rightarrow> 'w match_repo \<Rightarrow>
    ('w, go_error option outcome) state" where
  "MatchWaitUsers env b repo = do {
     (waitingMembers, rErr) \<leftarrow> collect_waiting repo GetCategories [] None;
     let waitingMembers = me_sort env less_timestamp waitingMembers;
     case group_members env [] waitingMembers of
       Panicked p \<Rightarrow> ret (Panicked p)
     | Returned readyUsers \<Rightarrow> do {
         finalUsers \<leftarrow> for_collect readyUsers (finalize_group env);
         (if length finalUsers > 0 then do {
            r \<leftarrow> publishFinalUsers env b repo finalUsers;
            case r of Panicked p \<Rightarrow> ret (Panicked p) | Returned _ \<Rightarrow> ret (Returned rErr) }
          else ret (Returned rErr)) } }"

section \<open>The consumer and the scheduler\<close>

definition ConsumeJoinMatchQueueRequest :: "'w match_env \<Rightarrow> 'w match_repo \<Rightarrow> bytes \<Rightarrow>
    ('w, go_error option) state" where
  "ConsumeJoinMatchQueueRequest env repo message =
     (case unmarshal_AddToWaitingList (me_proto env) message of
        Inl err \<Rightarrow> ret (Some err)
      | Inr addToWaitingListRequestProto \<Rightarrow>
          (case MapFromAddToWaitingListProtoToEntity addToWaitingListRequestProto of (userId, category) \<Rightarrow>
             if category = CategoryTypeUnknown then ret None
             else do {
               err \<leftarrow> mr_AddToWaitingList repo category (FormatUint userId);
               case err of Some e \<Rightarrow> ret (Some e) | None \<Rightarrow> ret None }))"

text \<open>\<open>getTopics\<close>: the handler of each topic this service consumes.\<close>

definition match_getTopics :: "'w match_env \<Rightarrow> 'w match_repo \<Rightarrow>
    (string \<rightharpoonup> (bytes \<Rightarrow> ('w, go_error option) state))" where
  "match_getTopics env repo =
     [GAME_V1_JOIN_MATCH_QUEUE_REQUESTED \<mapsto> ConsumeJoinMatchQueueRequest env repo]"

text \<open>One tick of the scheduler: an error is logged, a panic ends the process.\<close>

definition Scheduler_MatchWaitedUsers :: "'w match_env \<Rightarrow> 'w broker \<Rightarrow> 'w match_repo \<Rightarrow>
    ('w, unit outcome) state" where
  "Scheduler_MatchWaitedUsers env b repo = do {
     r \<leftarrow> MatchWaitUsers env b repo;
     case r of Panicked p \<Rightarrow> ret (Panicked p) | Returned err \<Rightarrow> ret (Returned ()) }"

end
