(* ===== verification/Match_Laws.thy ===== *)
theory Match_Laws
  imports Match_Service
begin

text \<open>
  What a round of matchmaking does, for any repository, broker and clock that meet their
  contracts. The first section describes the three pure loops of \<open>MatchWaitUsers\<close> in
  closed form; the second states the contract \<open>waiting_list\<close> of the repository interface
  and the locale \<open>matchmaking\<close>, which adds the broker, the clock and the libraries; its
  lemmas are the correctness of a round.
\<close>

section \<open>The loops in closed form\<close>

lemma MapToCategory_cases:
  "MapToCategory c \<noteq> CategoryTypeUnknown \<longleftrightarrow> c \<in> set GetCategories"
  "c \<in> set GetCategories \<Longrightarrow> MapToCategory c = c"
  "MapToCategory c \<in> set GetCategories \<or> MapToCategory c = CategoryTypeUnknown"
  by (auto simp: MapToCategory_def GetCategories_def category_defs)

interpretation category_codec: codec "\<lambda>c. c" MapToCategory "\<lambda>c. c" "\<lambda>c. c \<in> set GetCategories"
  by unfold_locales (rule MapToCategory_cases)

definition index_law :: "'w match_env \<Rightarrow> bool" where
  "index_law env \<longleftrightarrow> me_IndexOf env = index_of_first"

definition ids_of :: "WaitingMember list \<Rightarrow> Category \<Rightarrow> u64 list" where
  "ids_of ms c = map wm_UserId (filter (\<lambda>m. wm_Category m = c) ms)"

definition group_of :: "WaitingMember list \<Rightarrow> Category \<Rightarrow> MatchedUsers" where
  "group_of ms c = \<lparr>mu_Id = [], mu_Category = [c], mu_UserId = ids_of ms c\<rparr>"

definition groups_of :: "WaitingMember list \<Rightarrow> MatchedUsers list" where
  "groups_of ms = map (group_of ms) (first_occurrences (map wm_Category ms))"

lemma ids_of_snoc:
  "ids_of (ms @ [m]) c = (if wm_Category m = c then ids_of ms c @ [wm_UserId m] else ids_of ms c)"
  by (simp add: ids_of_def)

lemma ids_of_Nil_iff: "ids_of ms c = [] \<longleftrightarrow> c \<notin> wm_Category ` set ms"
  by (auto simp: ids_of_def filter_empty_conv)

lemma index_of_first_absent: "\<forall>x \<in> set xs. \<not> P x \<Longrightarrow> index_of_first xs P = - 1"
proof -
  assume "\<forall>x \<in> set xs. \<not> P x"
  then have tw: "takeWhile (\<lambda>x. \<not> P x) xs = xs" by simp
  show ?thesis unfolding index_of_first_def tw by simp
qed

lemma group_step_groups_of:
  assumes "index_law env"
  shows "group_step env (groups_of ms) m = Returned (groups_of (ms @ [m]))"
proof -
  let ?c = "wm_Category m" and ?cs = "first_occurrences (map wm_Category ms)"
  have pred: "(\<lambda>u. list_ex (\<lambda>category. category = ?c) (mu_Category u)) (group_of ms x) \<longleftrightarrow> x = ?c" for x
    by (simp add: group_of_def)
  show ?thesis
  proof (cases "?c \<in> set ?cs")
    case True
    then obtain i where i: "i < length ?cs" "?cs ! i = ?c" by (metis in_set_conv_nth)
    have uniq: "j < length ?cs \<Longrightarrow> ?cs ! j = ?c \<longleftrightarrow> j = i" for j
      using i nth_eq_iff_index_eq [OF distinct_first_occurrences, of j "map wm_Category ms" i] by simp
    have tw: "takeWhile (\<lambda>x. \<not> x = ?c) ?cs = take i ?cs"
      using i by (intro takeWhile_eq_take_P_nth) (auto simp: uniq)
    then have idx: "me_IndexOf env (groups_of ms)
        (\<lambda>users. list_ex (\<lambda>category. category = ?c) (mu_Category users)) = int i"
      using assms i
      by (simp add: index_law_def index_of_first_def groups_of_def takeWhile_map comp_def group_of_def)
    have "(groups_of ms)[i := (groups_of ms ! i)
        \<lparr>mu_UserId := mu_UserId (groups_of ms ! i) @ [wm_UserId m]\<rparr>] = groups_of (ms @ [m])"
    proof (rule nth_equalityI)
      fix j assume "j < length ((groups_of ms)[i := (groups_of ms ! i)
        \<lparr>mu_UserId := mu_UserId (groups_of ms ! i) @ [wm_UserId m]\<rparr>])"
      then have "j < length ?cs" by (simp add: groups_of_def)
      then show "(groups_of ms)[i := (groups_of ms ! i)
          \<lparr>mu_UserId := mu_UserId (groups_of ms ! i) @ [wm_UserId m]\<rparr>] ! j = groups_of (ms @ [m]) ! j"
        using i True uniq [of j]
        by (cases "j = i") (simp_all add: groups_of_def group_of_def ids_of_snoc eq_commute)
    qed (use True in \<open>auto simp: groups_of_def\<close>)
    then show ?thesis
      using i unfolding group_step_def idx by (simp add: groups_of_def)
  next
    case False
    then have "\<forall>u \<in> set (groups_of ms). \<not> list_ex (\<lambda>category. category = ?c) (mu_Category u)"
      by (auto simp: groups_of_def group_of_def) (metis imageI)
    then have "me_IndexOf env (groups_of ms)
        (\<lambda>users. list_ex (\<lambda>category. category = ?c) (mu_Category users)) = - 1"
      using assms by (simp add: index_law_def index_of_first_absent)
    moreover have "groups_of (ms @ [m]) = groups_of ms @ [group_of (ms @ [m]) ?c]"
      using False by (auto simp: groups_of_def group_of_def ids_of_snoc)
    moreover have "ids_of ms ?c = []" using False by (simp add: ids_of_Nil_iff)
    ultimately show ?thesis
      by (simp add: group_step_def group_of_def ids_of_snoc)
  qed
qed

lemma group_members_append:
  "group_members env r (xs @ ys) =
     (case group_members env r xs of Returned r' \<Rightarrow> group_members env r' ys | Panicked p \<Rightarrow> Panicked p)"
  by (induction xs arbitrary: r) (auto split: outcome.splits)

lemma group_members_groups_of:
  assumes "index_law env"
  shows "group_members env [] ms = Returned (groups_of ms)"
proof (induction ms rule: rev_induct)
  case Nil
  then show ?case by (simp add: groups_of_def)
next
  case (snoc m ms)
  then show ?case by (simp add: group_members_append group_step_groups_of [OF assms])
qed

text \<open>The number of users of a group that take part: the largest even number below.\<close>

definition keep_even :: "nat \<Rightarrow> nat" where
  "keep_even r = (if r mod 2 \<noteq> 0 then r - 1 else r)"

lemma keep_even_facts:
  "even (keep_even r)" "keep_even r \<le> r" "r \<le> Suc (keep_even r)" "2 \<le> r \<Longrightarrow> 2 \<le> keep_even r"
  by (auto simp: keep_even_def) presburger+

lemma finalize_group_shape:
  "map (\<lambda>u. (mu_Category u, mu_UserId u)) (fst (run_state (for_collect gs (finalize_group env)) w)) =
   map (\<lambda>g. (mu_Category g, take (keep_even (length (mu_UserId g))) (mu_UserId g)))
     (filter (\<lambda>g. 2 \<le> length (mu_UserId g)) gs)"
  by (induction gs arbitrary: w)
    (auto simp: finalize_group_def keep_even_def case_prod_beta not_less)

text \<open>The users of a category that are matched when \<open>S\<close> is the sorted waiting list.\<close>

definition matched_ids :: "WaitingMember list \<Rightarrow> Category \<Rightarrow> u64 list" where
  "matched_ids S c = (if length (ids_of S c) < 2 then []
     else take (keep_even (length (ids_of S c))) (ids_of S c))"

definition matched_categories :: "WaitingMember list \<Rightarrow> Category list" where
  "matched_categories S =
     filter (\<lambda>c. 2 \<le> length (ids_of S c)) (first_occurrences (map wm_Category S))"

lemma finalize_groups_of:
  "map (\<lambda>u. (mu_Category u, mu_UserId u))
     (fst (run_state (for_collect (groups_of S) (finalize_group env)) w)) =
   map (\<lambda>c. ([c], matched_ids S c)) (matched_categories S)"
  by (simp add: finalize_group_shape groups_of_def group_of_def filter_map comp_def
      matched_ids_def matched_categories_def cong: map_cong)

lemma matched_ids_absent: "c \<notin> set (matched_categories S) \<Longrightarrow> matched_ids S c = []"
  using ids_of_Nil_iff [of S c]
  by (auto simp: matched_categories_def matched_ids_def not_le)

lemma matched_ids_prefix:
  "prefix (matched_ids S c) (ids_of S c)" "even (length (matched_ids S c))"
  "length (ids_of S c) \<le> Suc (length (matched_ids S c))"
  using keep_even_facts [of "length (ids_of S c)"]
  by (auto simp: matched_ids_def take_is_prefix)

lemma keep_even_div: "keep_even n = 2 * (n div 2)"
  unfolding keep_even_def by presburger

lemma matched_ids_take: "matched_ids S c = take (2 * (length (ids_of S c) div 2)) (ids_of S c)"
  by (simp add: matched_ids_def keep_even_div)

lemma matched_ids_two: "c \<in> set (matched_categories S) \<Longrightarrow> 2 \<le> length (matched_ids S c)"
  using keep_even_facts [of "length (ids_of S c)"]
  by (auto simp: matched_categories_def matched_ids_def)

lemma filter_eq_distinct: "distinct xs \<Longrightarrow> filter (\<lambda>x. x = c) xs = (if c \<in> set xs then [c] else [])"
  by (induction xs) (auto simp: filter_empty_conv)

text \<open>At most one match per category: the users of \<open>matched_ids\<close>, when there are two of them.\<close>

lemma matches_of_shape:
  assumes "map (\<lambda>u. (mu_Category u, mu_UserId u)) us = map (\<lambda>c. ([c], matched_ids S c)) (matched_categories S)"
  shows "map mu_UserId (filter (\<lambda>u. mu_Category u = [c]) us) =
    (if 2 \<le> length (ids_of S c) then [matched_ids S c] else [])"
proof -
  have "map mu_UserId (filter (\<lambda>u. mu_Category u = [c]) us) =
      map snd (filter (\<lambda>p. fst p = [c]) (map (\<lambda>u. (mu_Category u, mu_UserId u)) us))"
    by (simp add: filter_map comp_def)
  also have "\<dots> = map (matched_ids S) (filter (\<lambda>d. d = c) (matched_categories S))"
    unfolding assms by (simp add: filter_map comp_def)
  also have "\<dots> = (if c \<in> set (matched_categories S) then [matched_ids S c] else [])"
    by (subst filter_eq_distinct) (simp_all add: matched_categories_def)
  also have "c \<in> set (matched_categories S) \<longleftrightarrow> 2 \<le> length (ids_of S c)"
    using ids_of_Nil_iff [of S c] by (auto simp: matched_categories_def)
  finally show ?thesis .
qed

lemma shape_known:
  assumes shape: "map (\<lambda>u. (mu_Category u, mu_UserId u)) us = map (\<lambda>c. ([c], matched_ids S c)) (matched_categories S)"
    and "wm_Category ` set S \<subseteq> C" and "u \<in> set us"
  shows "\<exists>c \<in> C. mu_Category u = [c]"
proof -
  have "(mu_Category u, mu_UserId u) \<in> set (map (\<lambda>u. (mu_Category u, mu_UserId u)) us)" using assms(3) by simp
  then show ?thesis using assms(2) unfolding shape by (auto simp: matched_categories_def)
qed

lemma shape_categories:
  assumes "map (\<lambda>u. (mu_Category u, mu_UserId u)) us = map (\<lambda>c. ([c], matched_ids S c)) (matched_categories S)"
  shows "\<forall>u \<in> set us. mu_Category u \<noteq> []"
proof
  fix u assume "u \<in> set us"
  then have "(mu_Category u, mu_UserId u) \<in> set (map (\<lambda>u. (mu_Category u, mu_UserId u)) us)" by simp
  then show "mu_Category u \<noteq> []" unfolding assms by auto
qed

section \<open>The members that a round removes\<close>

definition removal_list :: "MatchedUsers list \<Rightarrow> WaitingMember list" where
  "removal_list users = concat (map (\<lambda>user. map (\<lambda>userid.
     \<lparr>wm_UserId = userid, wm_TimeStamp = 0, wm_Category = hd (mu_Category user)\<rparr>) (mu_UserId user)) users)"

definition removed_ids :: "WaitingMember list \<Rightarrow> Category \<Rightarrow> u64 set" where
  "removed_ids ms c = wm_UserId ` {m \<in> set ms. wm_Category m = c}"

lemma removed_ids_removal_list:
  assumes "map (\<lambda>u. (mu_Category u, mu_UserId u)) users = map (\<lambda>c. ([c], matched_ids S c)) (matched_categories S)"
  shows "removed_ids (removal_list users) c = set (matched_ids S c)"
proof -
  let ?mk = "\<lambda>c userid. \<lparr>wm_UserId = userid, wm_TimeStamp = 0, wm_Category = c\<rparr>"
  have "removal_list users = concat (map (\<lambda>(cs, ids). map (?mk (hd cs)) ids)
      (map (\<lambda>u. (mu_Category u, mu_UserId u)) users))"
    by (simp add: removal_list_def comp_def)
  also have "\<dots> = concat (map (\<lambda>c. map (?mk c) (matched_ids S c)) (matched_categories S))"
    unfolding assms by (simp add: comp_def)
  finally have "removed_ids (removal_list users) c =
      (\<Union>d \<in> set (matched_categories S). if d = c then set (matched_ids S d) else {})"
    by (force simp: removed_ids_def image_iff split: if_splits)
  also have "\<dots> = set (matched_ids S c)"
    using matched_ids_absent [of c S] by (cases "c \<in> set (matched_categories S)") auto
  finally show ?thesis .
qed

section \<open>The contract of the repository\<close>

text \<open>
  \<open>waiting w c\<close> maps the users that wait in category \<open>c\<close> to the time they joined, and \<open>window w\<close> holds the
  times of joining that a query in the world \<open>w\<close> is for. A query
  returns each user once, with that time, for all users who joined in its window;
  a removal takes out the listed pairs of user and category; joining records a time.
\<close>

definition fetched :: "(u64 \<rightharpoonup> int) \<Rightarrow> (int \<Rightarrow> bool) \<Rightarrow> Category \<Rightarrow> WaitingMember list \<Rightarrow> bool" where
  "fetched waiting_c win c ms \<longleftrightarrow> distinct (ids_of ms c) \<and>
     (\<lambda>m. (wm_UserId m, wm_TimeStamp m)) ` {m \<in> set ms. wm_Category m = c} = {(u, t). waiting_c u = Some t \<and> win t}"

text \<open>The world in which a round asks for the list of category \<open>c\<close>: those of the categories before it have been asked for.\<close>

definition asked_at :: "'w match_repo \<Rightarrow> Category list \<Rightarrow> Category \<Rightarrow> 'w \<Rightarrow> 'w" where
  "asked_at repo cs c w = snd (run_state (collect_waiting repo (takeWhile (\<lambda>d. d \<noteq> c) cs) [] None) w)"

lemma collect_waiting_world:
  "snd (run_state (collect_waiting repo cs acc r) w) = snd (run_state (collect_waiting repo cs [] None) w)"
proof (induction cs arbitrary: acc r w)
  case (Cons c cs)
  show ?case
    by (simp add: bb_run case_prod_beta del: append_Nil)
      (rule trans [OF Cons.IH Cons.IH [symmetric]])
qed (simp add: bb_run)

lemma asked_at_first: "asked_at repo (c # cs) c w = w"
  by (simp add: asked_at_def bb_run)

lemma asked_at_next:
  assumes "d \<noteq> c" and "run_state (mr_GetWaitingListByCategory repo c) w = (r, w1)"
  shows "asked_at repo (c # cs) d w = asked_at repo cs d w1"
  using assms collect_waiting_world [of repo "takeWhile (\<lambda>e. e \<noteq> d) cs"]
  by (simp add: asked_at_def bb_run case_prod_beta)

lemma ids_of_sort:
  assumes "mset S = mset ms"
  shows "mset (ids_of S c) = mset (ids_of ms c)"
  using assms by (simp add: ids_of_def)

lemma fetched_mset: "mset S = mset ms \<Longrightarrow> fetched f win c S \<longleftrightarrow> fetched f win c ms"
  unfolding fetched_def
  by (simp only: mset_eq_imp_distinct_iff [OF ids_of_sort [of S ms c]] mset_eq_setD [of S ms])

lemma fetched_ids_waiting: "fetched f win c ms \<Longrightarrow> set (ids_of ms c) \<subseteq> dom f"
  by (force simp: fetched_def ids_of_def set_eq_iff image_iff)

locale waiting_list =
  fixes repo :: "'w match_repo" and waiting :: "'w \<Rightarrow> Category \<Rightarrow> u64 \<rightharpoonup> int" and ok :: "'w \<Rightarrow> bool"
    and window :: "'w \<Rightarrow> int \<Rightarrow> bool"
  assumes get_members: "ok w \<Longrightarrow> \<exists>xs w'.
        run_state (mr_GetWaitingListByCategory repo c) w = ((xs, None), w') \<and> ok w' \<and>
        waiting w' = waiting w \<and> distinct (map wm_UserId xs) \<and>
        (\<lambda>m. (wm_UserId m, wm_TimeStamp m)) ` set xs = {(u, t). waiting w c u = Some t \<and> window w t}"
    and remove_members: "ok w \<Longrightarrow> \<exists>w'.
        run_state (mr_RemoveWaitingMember repo ms) w = (None, w') \<and> ok w' \<and>
        waiting w' = (\<lambda>c. waiting w c |` (- removed_ids ms c))"
    and add_member: "ok w \<Longrightarrow> unat u < 2 ^ 63 \<Longrightarrow> \<exists>t w'.
        run_state (mr_AddToWaitingList repo c (FormatUint u)) w = (None, w') \<and> ok w' \<and>
        waiting w' = (waiting w)(c := (waiting w c)(u \<mapsto> t))"
begin

lemma collect_waiting_ok:
  assumes "distinct cs" and "ok w"
  shows "\<exists>ms w'. run_state (collect_waiting repo cs acc r) w = ((acc @ ms, r), w') \<and> ok w' \<and>
    waiting w' = waiting w \<and> wm_Category ` set ms \<subseteq> set cs \<and>
    (\<forall>c \<in> set cs. fetched (waiting w c) (window (asked_at repo cs c w)) c ms)"
  using assms
proof (induction cs arbitrary: acc w)
  case Nil
  then show ?case by simp
next
  case (Cons c cs)
  obtain xs w1 where get: "run_state (mr_GetWaitingListByCategory repo c) w = ((xs, None), w1)"
    and w1: "ok w1" "waiting w1 = waiting w" and dist: "distinct (map wm_UserId xs)"
    and img: "(\<lambda>m. (wm_UserId m, wm_TimeStamp m)) ` set xs =
      {(u, t). waiting w c u = Some t \<and> window w t}"
    using get_members [OF Cons.prems(2), of c] by blast
  let ?ys = "map (\<lambda>res. \<lparr>wm_UserId = wm_UserId res, wm_TimeStamp = wm_TimeStamp res, wm_Category = c\<rparr>) xs"
  obtain ms w2 where rest: "run_state (collect_waiting repo cs (acc @ ?ys) r) w1 = ((acc @ ?ys @ ms, r), w2)"
    and w2: "ok w2" "waiting w2 = waiting w" and cats: "wm_Category ` set ms \<subseteq> set cs"
    and fet: "\<forall>d \<in> set cs. fetched (waiting w d) (window (asked_at repo cs d w1)) d ms"
    using Cons.IH [of w1 "acc @ ?ys"] Cons.prems(1) w1 by auto
  have c_fresh: "c \<notin> wm_Category ` set ms" using cats Cons.prems(1) by auto
  have "ids_of (?ys @ ms) c = map wm_UserId xs"
    using c_fresh by (auto simp: ids_of_def filter_empty_conv comp_def)
  moreover have "{m \<in> set (?ys @ ms). wm_Category m = c} = set ?ys" using c_fresh by auto
  ultimately have f1: "fetched (waiting w c) (window (asked_at repo (c # cs) c w)) c (?ys @ ms)"
    using dist img unfolding fetched_def asked_at_first by (auto simp: image_image)
  have f2: "fetched (waiting w d) (window (asked_at repo (c # cs) d w)) d (?ys @ ms)" if "d \<in> set cs" for d
  proof -
    have "d \<noteq> c" using that Cons.prems(1) by auto
    then have "ids_of (?ys @ ms) d = ids_of ms d"
      "{m \<in> set (?ys @ ms). wm_Category m = d} = {m \<in> set ms. wm_Category m = d}"
      by (auto simp: ids_of_def filter_empty_conv)
    then show ?thesis using fet that unfolding fetched_def asked_at_next [OF \<open>d \<noteq> c\<close> get] by simp
  qed
  have "run_state (collect_waiting repo (c # cs) acc r) w = ((acc @ ?ys @ ms, r), w2)"
    using get rest by simp
  moreover have "wm_Category ` set (?ys @ ms) \<subseteq> set (c # cs)" using cats by auto
  ultimately show ?case using w2 f1 f2 by (intro exI [of _ "?ys @ ms"] exI [of _ w2]) auto
qed

end

section \<open>A round\<close>

locale matchmaking =
  waiting_list repo waiting ok window + publishing b topic_log waiting ok
  for repo :: "'w match_repo" and waiting :: "'w \<Rightarrow> Category \<Rightarrow> u64 \<rightharpoonup> int" and ok :: "'w \<Rightarrow> bool" and window :: "'w \<Rightarrow> int \<Rightarrow> bool"
    and b :: "'w broker" and topic_log :: "'w \<Rightarrow> string \<Rightarrow> bytes list" and env :: "'w match_env" +
  assumes indexes: "ok w \<Longrightarrow> index_law env"
    and sorts: "ok w \<Longrightarrow> slice_sort less_timestamp (me_sort env)"
    and now_ok: "ok w \<Longrightarrow> ok (snd (run_state (me_Now env) w))"
    and now_waiting: "ok w \<Longrightarrow> waiting (snd (run_state (me_Now env) w)) = waiting w"
begin

lemma finalize_ok:
  "ok w \<Longrightarrow> ok (snd (run_state (for_collect gs (finalize_group env)) w)) \<and>
   waiting (snd (run_state (for_collect gs (finalize_group env)) w)) = waiting w"
  by (induction gs arbitrary: w)
    (auto simp: finalize_group_def case_prod_beta Let_def now_ok now_waiting)

text \<open>
  Publishing the matches takes exactly the users in them out of the waiting lists, whether
  the broker accepted the message or not; when it refuses, the topics stay as they were.
\<close>

lemma publishFinalUsers_removes:
  assumes "ok w" and cats: "\<forall>u \<in> set users. mu_Category u \<noteq> []"
  shows "\<exists>w'. run_state (publishFinalUsers env b repo users) w = (Returned (), w') \<and> ok w' \<and>
    (\<forall>c. waiting w' c = waiting w c |` (- removed_ids (removal_list users) c))"
proof -
  let ?buff = "buff_of (marshal_AllMatchedUsers (me_proto env) (MapFromEntityToProtoMessage users))"
  obtain e w1 where pub: "run_state (br_Publish b MATCH_V1_MATCH_USERS ?buff) w = (e, w1)"
    by (cases "run_state (br_Publish b MATCH_V1_MATCH_USERS ?buff) w")
  then have w1: "ok w1" "waiting w1 = waiting w"
    using publish_up [OF assms(1), of MATCH_V1_MATCH_USERS ?buff]
      publish_other [OF assms(1), of MATCH_V1_MATCH_USERS ?buff] by simp_all
  obtain w2 where rem: "run_state (mr_RemoveWaitingMember repo (removal_list users)) w1 = (None, w2)"
    and w2: "ok w2" "waiting w2 = (\<lambda>c. waiting w c |` (- removed_ids (removal_list users) c))"
    using remove_members [OF w1(1)] w1(2) by metis
  have "\<not> list_ex (\<lambda>user. mu_UserId user \<noteq> [] \<and> mu_Category user = []) users"
    using cats by (auto simp: list_ex_iff)
  then have "run_state (publishFinalUsers env b repo users) w = (Returned (), w2)"
    using pub rem by (simp add: publishFinalUsers_def removal_list_def)
  then show ?thesis using w2 by simp
qed

lemma publish_failure_removes:
  assumes "ok w" and cats: "\<forall>u \<in> set users. mu_Category u \<noteq> []"
    and err: "fst (run_state (br_Publish b MATCH_V1_MATCH_USERS
        (buff_of (marshal_AllMatchedUsers (me_proto env) (MapFromEntityToProtoMessage users)))) w) = Some e"
    and log: "\<And>ms. keeps topic_log (mr_RemoveWaitingMember repo ms)"
  shows "\<exists>w'. run_state (publishFinalUsers env b repo users) w = (Returned (), w') \<and>
    topic_log w' = topic_log w \<and>
    (\<forall>c. waiting w' c = waiting w c |` (- removed_ids (removal_list users) c))"
proof -
  let ?buff = "buff_of (marshal_AllMatchedUsers (me_proto env) (MapFromEntityToProtoMessage users))"
  obtain w' where w': "run_state (publishFinalUsers env b repo users) w = (Returned (), w')"
    and rest: "\<forall>c. waiting w' c = waiting w c |` (- removed_ids (removal_list users) c)"
    using publishFinalUsers_removes [OF assms(1,2)] by blast
  obtain w1 where pub: "run_state (br_Publish b MATCH_V1_MATCH_USERS ?buff) w = (Some e, w1)"
    using err by (metis prod.collapse)
  have "topic_log w1 = topic_log w"
    using publish_log [OF assms(1), of MATCH_V1_MATCH_USERS ?buff] pub by simp
  moreover have "topic_log w' = topic_log w1"
    using w' pub keepsD [OF log, of "removal_list users" w1]
    by (simp add: publishFinalUsers_def removal_list_def case_prod_beta split: if_splits)
  ultimately show ?thesis using w' rest by auto
qed

lemma publishFinalUsers_ok:
  assumes "ok w"
    and shape: "map (\<lambda>u. (mu_Category u, mu_UserId u)) users = map (\<lambda>c. ([c], matched_ids S c)) (matched_categories S)"
  shows "\<exists>w'. run_state (publishFinalUsers env b repo users) w = (Returned (), w') \<and> ok w' \<and>
    (\<forall>c. waiting w' c = waiting w c |` (- set (matched_ids S c)))"
proof -
  have "\<forall>u \<in> set users. mu_Category u \<noteq> []" by (rule shape_categories [OF shape])
  then have "\<exists>w'. run_state (publishFinalUsers env b repo users) w = (Returned (), w') \<and> ok w' \<and>
      (\<forall>c. waiting w' c = waiting w c |` (- removed_ids (removal_list users) c))"
    by (rule publishFinalUsers_removes [OF assms(1)])
  then show ?thesis by (simp only: removed_ids_removal_list [OF shape])
qed

text \<open>
  The round as a whole: it returns without an error or a panic, and takes from each waiting
  list the users it matched, where \<open>S\<close> is what it fetched, in the order of joining.
\<close>

lemma round_runs:
  assumes "ok w"
  shows "\<exists>S us w2. ok w2 \<and> waiting w2 = waiting w \<and>
    run_state (MatchWaitUsers env b repo) w =
      (if us = [] then (Returned None, w2)
       else (Returned None, snd (run_state (publishFinalUsers env b repo us) w2))) \<and>
    w2 = snd (run_state (for_collect (groups_of S) (finalize_group env))
           (snd (run_state (collect_waiting repo GetCategories [] None) w))) \<and>
    sorted_wrt (\<lambda>x y. wm_TimeStamp x \<le> wm_TimeStamp y) S \<and> wm_Category ` set S \<subseteq> set GetCategories \<and>
    (\<forall>c \<in> set GetCategories. fetched (waiting w c) (window (asked_at repo GetCategories c w)) c S) \<and>
    map (\<lambda>u. (mu_Category u, mu_UserId u)) us = map (\<lambda>c. ([c], matched_ids S c)) (matched_categories S)"
proof -
  note sort_laws = slice_sort.srt_mset [OF sorts [OF assms]] slice_sort.srt_sorted [OF sorts [OF assms]]
    slice_sort.srt_set [OF sorts [OF assms]]
  have "distinct GetCategories" by (simp add: GetCategories_def category_defs)
  then obtain ms w1 where col: "run_state (collect_waiting repo GetCategories [] None) w = ((ms, None), w1)"
    and w1: "ok w1" "waiting w1 = waiting w" and cats: "wm_Category ` set ms \<subseteq> set GetCategories"
    and fet: "\<forall>c \<in> set GetCategories. fetched (waiting w c) (window (asked_at repo GetCategories c w)) c ms"
    using collect_waiting_ok [of GetCategories w "[]" None] assms by auto
  let ?S = "me_sort env less_timestamp ms"
  obtain us w2 where fin: "run_state (for_collect (groups_of ?S) (finalize_group env)) w1 = (us, w2)"
    by (cases "run_state (for_collect (groups_of ?S) (finalize_group env)) w1")
  have w2: "ok w2" "waiting w2 = waiting w"
    using finalize_ok [OF w1(1), of "groups_of ?S"] fin w1(2) by simp_all
  have shape: "map (\<lambda>u. (mu_Category u, mu_UserId u)) us =
      map (\<lambda>c. ([c], matched_ids ?S c)) (matched_categories ?S)"
    using finalize_groups_of [of ?S env w1] fin by simp
  obtain w3 where pub: "run_state (publishFinalUsers env b repo us) w2 = (Returned (), w3)"
    using publishFinalUsers_ok [OF w2(1) shape] by blast
  have sort: "sorted_wrt (\<lambda>x y. wm_TimeStamp x \<le> wm_TimeStamp y) ?S"
    using sort_laws(2) [of ms] by (simp add: less_timestamp_def not_less)
  have fetS: "\<forall>c \<in> set GetCategories. fetched (waiting w c) (window (asked_at repo GetCategories c w)) c ?S"
    using fet fetched_mset [OF sort_laws(1) [of ms]] by simp
  have run: "run_state (MatchWaitUsers env b repo) w =
      (if us = [] then (Returned None, w2)
       else (Returned None, snd (run_state (publishFinalUsers env b repo us) w2)))"
    using col fin pub by (simp add: MatchWaitUsers_def group_members_groups_of [OF indexes [OF assms]])
  show ?thesis
    by (intro exI [of _ ?S] exI [of _ us] exI [of _ w2] conjI)
      (use w2 run sort fetS shape cats sort_laws(3) [of ms] in \<open>simp_all add: col fin\<close>)
qed

lemma keeps_collect_waiting:
  "(\<And>c. keeps view (mr_GetWaitingListByCategory repo c)) \<Longrightarrow> keeps view (collect_waiting repo cs acc r)"
  by (induction cs arbitrary: acc r) (auto intro!: keeps_bind simp: case_prod_beta)

lemma keeps_finalize_group: "keeps view (me_Now env) \<Longrightarrow> keeps view (finalize_group env g)"
  by (auto simp: finalize_group_def Let_def intro!: keeps_bind)

text \<open>What the topic receives from \<open>publishFinalUsers\<close>.\<close>

lemma publishFinalUsers_log:
  assumes "ok w" and cats: "\<forall>u \<in> set users. mu_Category u \<noteq> []"
    and log: "\<And>ms. keeps topic_log (mr_RemoveWaitingMember repo ms)"
  shows "topic_log (snd (run_state (publishFinalUsers env b repo users) w)) =
    topic_log (snd (run_state (br_Publish b MATCH_V1_MATCH_USERS
      (buff_of (marshal_AllMatchedUsers (me_proto env) (MapFromEntityToProtoMessage users)))) w))"
proof -
  have "\<not> list_ex (\<lambda>user. mu_UserId user \<noteq> [] \<and> mu_Category user = []) users"
    using cats by (auto simp: list_ex_iff)
  then show ?thesis
    using keepsD [OF log, of "removal_list users"]
    by (simp add: publishFinalUsers_def removal_list_def case_prod_beta)
qed

text \<open>
  The users who are matched in a category are the \<open>ids\<close> who joined in the window of its query,
  by the time of joining, cut to an even number; the others stay in the waiting list.
\<close>

lemma fetched_ids:
  assumes "sorted_wrt (\<lambda>x y. wm_TimeStamp x \<le> wm_TimeStamp y) S" and "fetched f win c S"
  shows "distinct (ids_of S c)"
    "set (ids_of S c) = {u. \<exists>t. f u = Some t \<and> win t}"
    "sorted (map (\<lambda>u. the (f u)) (ids_of S c))"
proof -
  let ?F = "filter (\<lambda>m. wm_Category m = c) S"
  have img: "(\<lambda>m. (wm_UserId m, wm_TimeStamp m)) ` set ?F = {(u, t). f u = Some t \<and> win t}"
    using assms(2) by (auto simp: fetched_def)
  show "distinct (ids_of S c)" using assms(2) by (simp add: fetched_def)
  have "fst ` (\<lambda>m. (wm_UserId m, wm_TimeStamp m)) ` set ?F = set (ids_of S c)"
    by (simp add: ids_of_def image_image)
  then show "set (ids_of S c) = {u. \<exists>t. f u = Some t \<and> win t}"
    unfolding img by force
  have time: "the (f (wm_UserId m)) = wm_TimeStamp m" if "m \<in> set ?F" for m
  proof -
    have "(wm_UserId m, wm_TimeStamp m) \<in> (\<lambda>m. (wm_UserId m, wm_TimeStamp m)) ` set ?F"
      using that by (rule imageI)
    then show ?thesis unfolding img by simp
  qed
  have "sorted_wrt (\<lambda>x y. wm_TimeStamp x \<le> wm_TimeStamp y) ?F"
    using assms(1) by (rule sorted_wrt_filter)
  then have "sorted (map wm_TimeStamp ?F)" by (simp add: sorted_map)
  moreover have "map (\<lambda>u. the (f u)) (ids_of S c) = map wm_TimeStamp ?F"
    using time by (simp add: ids_of_def)
  ultimately show "sorted (map (\<lambda>u. the (f u)) (ids_of S c))" by simp
qed

lemma round:
  assumes "ok w"
    and get_log: "\<And>c. keeps topic_log (mr_GetWaitingListByCategory repo c)"
    and remove_log: "\<And>ms. keeps topic_log (mr_RemoveWaitingMember repo ms)"
    and now_log: "keeps topic_log (me_Now env)"
    and delivers: "\<And>t m w. fst (run_state (br_Publish b t m) w) = None"
  shows "\<exists>us w'. run_state (MatchWaitUsers env b repo) w = (Returned None, w') \<and> ok w' \<and>
    topic_log w' = (if us = [] then topic_log w
      else (topic_log w)(MATCH_V1_MATCH_USERS := topic_log w MATCH_V1_MATCH_USERS @
        [buff_of (marshal_AllMatchedUsers (me_proto env) (MapFromEntityToProtoMessage us))])) \<and>
    (\<forall>u \<in> set us. \<exists>c \<in> set GetCategories. mu_Category u = [c]) \<and>
    (\<forall>c \<in> set GetCategories. \<exists>ids. distinct ids \<and>
       set ids = {u. \<exists>t. waiting w c u = Some t \<and> window (asked_at repo GetCategories c w) t} \<and>
       sorted (map (\<lambda>u. the (waiting w c u)) ids) \<and>
       map mu_UserId (filter (\<lambda>u. mu_Category u = [c]) us) =
         (if 2 \<le> length ids then [take (2 * (length ids div 2)) ids] else []) \<and>
       waiting w' c = waiting w c |` (- set (take (2 * (length ids div 2)) ids)))"
proof -
  obtain S us w2 where w2: "ok w2" "waiting w2 = waiting w"
    and run: "run_state (MatchWaitUsers env b repo) w =
      (if us = [] then (Returned None, w2)
       else (Returned None, snd (run_state (publishFinalUsers env b repo us) w2)))"
    and w2_def: "w2 = snd (run_state (for_collect (groups_of S) (finalize_group env))
           (snd (run_state (collect_waiting repo GetCategories [] None) w)))"
    and sort: "sorted_wrt (\<lambda>x y. wm_TimeStamp x \<le> wm_TimeStamp y) S" and cats: "wm_Category ` set S \<subseteq> set GetCategories"
    and fet: "\<forall>c \<in> set GetCategories. fetched (waiting w c) (window (asked_at repo GetCategories c w)) c S"
    and shape: "map (\<lambda>u. (mu_Category u, mu_UserId u)) us = map (\<lambda>c. ([c], matched_ids S c)) (matched_categories S)"
    using round_runs [OF assms(1)] by blast
  have log2: "topic_log w2 = topic_log w"
    unfolding w2_def
    by (simp add: keepsD [OF keeps_collect_waiting [OF get_log]]
        keepsD [OF keeps_for_collect [OF keeps_finalize_group [OF now_log]], of "groups_of S" "\<lambda>g. g"])
  obtain w3 where pub: "run_state (publishFinalUsers env b repo us) w2 = (Returned (), w3)" "ok w3"
    and w3: "\<forall>c. waiting w3 c = waiting w c |` (- set (matched_ids S c))"
    using publishFinalUsers_ok [OF w2(1) shape] w2(2) by metis
  have log3: "topic_log w3 = (topic_log w)(MATCH_V1_MATCH_USERS := topic_log w MATCH_V1_MATCH_USERS @
        [buff_of (marshal_AllMatchedUsers (me_proto env) (MapFromEntityToProtoMessage us))])"
    using publishFinalUsers_log [OF w2(1) shape_categories [OF shape] remove_log]
      publish_log [OF w2(1)] delivers log2 pub(1) by simp
  define w' where "w' = (if us = [] then w2 else w3)"
  have w': "waiting w' c = waiting w c |` (- set (matched_ids S c))" for c
  proof (cases "us = []")
    case True
    then have "matched_ids S c = []" using shape matched_ids_absent [of c S] by simp
    then show ?thesis using True w2 by (simp add: w'_def restrict_map_def)
  qed (simp add: w'_def w3)
  have cat: "\<exists>ids. distinct ids \<and>
       set ids = {u. \<exists>t. waiting w c u = Some t \<and> window (asked_at repo GetCategories c w) t} \<and>
       sorted (map (\<lambda>u. the (waiting w c u)) ids) \<and>
       map mu_UserId (filter (\<lambda>u. mu_Category u = [c]) us) =
         (if 2 \<le> length ids then [take (2 * (length ids div 2)) ids] else []) \<and>
       waiting w' c = waiting w c |` (- set (take (2 * (length ids div 2)) ids))"
    if c: "c \<in> set GetCategories" for c
    using fetched_ids [OF sort bspec [OF fet c]] matches_of_shape [OF shape, of c] w' [of c]
    unfolding matched_ids_take by (intro exI [of _ "ids_of S c"] conjI)
  show ?thesis
    by (intro exI [of _ us] exI [of _ w'] conjI ballI cat shape_known [OF shape cats])
      (simp_all add: run pub w'_def w2 log2 log3)
qed

end

end
