(* ===== verification/Match_Repository.thy ===== *)
theory Match_Repository
  imports Match_Laws Redis_Adapter Broker
begin

text \<open>
  \<open>services/match_app/repository/match.go\<close>: the waiting lists as Redis sorted sets, one per
  category, with the user id as the member and the time of joining in microseconds as the
  score. The interpretations at the end show that this repository, over a Redis that behaves
  as documented, meets the contract \<open>waiting_list\<close>, and with the Kafka broker the
  contract \<open>matchmaking\<close>, as long as every member is the decimal rendering of an id below
  \<open>2 ^ 63\<close> and the clock reads a time before the year 2255 (when a count of microseconds
  stops being exact in a \<open>float64\<close>). Both conditions are kept by every operation.
\<close>

record match_repo_config =
  WaitingListPrefix :: string
  MinTimeWaitingListSelection :: duration

definition UnixMicro :: "gotime \<Rightarrow> int" where
  "UnixMicro t = t div 1000"

definition waiting_key :: "match_repo_config \<Rightarrow> Category \<Rightarrow> string" where
  "waiting_key cfg category = WaitingListPrefix cfg @ '':'' @ category"

definition AddToWaitingList_repo :: "('w, gotime) state \<Rightarrow> match_repo_config \<Rightarrow> 'w redis_client \<Rightarrow>
    Category \<Rightarrow> string \<Rightarrow> ('w, go_error option) state" where
  "AddToWaitingList_repo now cfg db category userId = do {
     t \<leftarrow> now;
     ZAdd db (waiting_key cfg category)
       [\<lparr>Score = float64_of_int (UnixMicro t), Member = RStr userId\<rparr>] }"

definition waiting_member_of :: "Category \<Rightarrow> Z \<Rightarrow> WaitingMember" where
  "waiting_member_of category z =
     (case Member z of RStr s \<Rightarrow>
        \<lparr>wm_UserId = of_int (fst (Atoi s)), wm_TimeStamp = int_of_float64 (Score z), wm_Category = category\<rparr>
      | RUint n \<Rightarrow>
        \<lparr>wm_UserId = n, wm_TimeStamp = int_of_float64 (Score z), wm_Category = category\<rparr>)"

definition GetWaitingListByCategory_repo :: "('w, gotime) state \<Rightarrow> match_repo_config \<Rightarrow> 'w redis_client \<Rightarrow>
    Category \<Rightarrow> ('w, WaitingMember list \<times> go_error option) state" where
  "GetWaitingListByCategory_repo now cfg db category = do {
     let key = waiting_key cfg category;
     t1 \<leftarrow> now;
     let mintTime = UnixMicro (t1 + MinTimeWaitingListSelection cfg);
     t2 \<leftarrow> now;
     let maxTime = UnixMicro t2;
     (err, list) \<leftarrow> ZRange db key mintTime maxTime True;
     case err of
       Some e \<Rightarrow> ret ([], Some e)
     | None \<Rightarrow> ret (map (waiting_member_of category) list, None) }"

definition RemoveWaitingMember_repo :: "match_repo_config \<Rightarrow> 'w redis_client \<Rightarrow> WaitingMember list \<Rightarrow>
    ('w, go_error option) state" where
  "RemoveWaitingMember_repo cfg db members = do {
     for_each members (\<lambda>member. do {
       let key = waiting_key cfg (wm_Category member);
       err \<leftarrow> ZDelete db key [\<lparr>Score = 0, Member = RUint (wm_UserId member)\<rparr>];
       ret () });
     ret None }"

definition MatchMakingRepository :: "('w, gotime) state \<Rightarrow> match_repo_config \<Rightarrow> 'w redis_client \<Rightarrow> 'w match_repo" where
  "MatchMakingRepository now cfg db =
     \<lparr>mr_AddToWaitingList = AddToWaitingList_repo now cfg db,
      mr_GetWaitingListByCategory = GetWaitingListByCategory_repo now cfg db,
      mr_RemoveWaitingMember = RemoveWaitingMember_repo cfg db\<rparr>"

section \<open>The query never fails\<close>

text \<open>
  Reading a waiting list reports no error whatever Redis does, since the adapter drops
  the error of a range query with scores: a Redis that does not answer looks like an empty
  waiting list, and a round of matchmaking over this repository never returns an error.
\<close>

theorem GetWaitingListByCategory_no_error:
  "snd (fst (run_state (mr_GetWaitingListByCategory (MatchMakingRepository now cfg db) category) w)) = None"
  using ZRange_with_scores_no_error [of db]
  by (simp add: MatchMakingRepository_def GetWaitingListByCategory_repo_def case_prod_beta Let_def)

section \<open>The waiting lists that Redis holds\<close>

definition stored_time :: "float64 \<Rightarrow> int" where
  "stored_time s = int_of_float64 s"

text \<open>The member of a user, and what it takes for a sorted set to be a waiting list.\<close>

definition canonical :: "(string \<rightharpoonup> float64) \<Rightarrow> bool" where
  "canonical m \<longleftrightarrow> (\<forall>s sc. m s = Some sc \<longrightarrow>
     (\<exists>u. s = FormatUint u \<and> unat u < 2 ^ 63) \<and> (\<exists>i. sc = of_int i \<and> 0 \<le> i))"

definition redis_waiting :: "match_repo_config \<Rightarrow> ('w \<Rightarrow> string \<Rightarrow> string \<rightharpoonup> float64) \<Rightarrow>
    'w \<Rightarrow> Category \<Rightarrow> u64 \<rightharpoonup> int" where
  "redis_waiting cfg zs w c u = map_option stored_time (zs w (waiting_key cfg c) (FormatUint u))"

text \<open>
  The times of joining, in microseconds, that a query in the world \<open>w\<close> is for: from the configured span before
  (its value is negative) its first reading of the clock up to its second one.
\<close>

definition join_window :: "match_repo_config \<Rightarrow> ('w, gotime) state \<Rightarrow> 'w \<Rightarrow> int \<Rightarrow> bool" where
  "join_window cfg now w t \<longleftrightarrow> (case run_state now w of (t1, w1) \<Rightarrow>
     UnixMicro (t1 + MinTimeWaitingListSelection cfg) \<le> t \<and> t \<le> UnixMicro (fst (run_state now w1)))"

text \<open>The candidates of a round in a category: who waits there and joined in the window of the query for it.\<close>

definition candidates :: "('w, gotime) state \<Rightarrow> match_repo_config \<Rightarrow> 'w redis_client \<Rightarrow> ('w \<Rightarrow> string \<Rightarrow> string \<rightharpoonup> float64) \<Rightarrow>
    'w \<Rightarrow> Category \<Rightarrow> u64 set" where
  "candidates now cfg db zs w c = {u. \<exists>t. redis_waiting cfg zs w c u = Some t \<and>
     join_window cfg now (asked_at (MatchMakingRepository now cfg db) GetCategories c w) t}"

text \<open>
  Whatever the clock does between \<open>a\<close> and \<open>b\<close> during the round, who joined by \<open>a\<close>, not longer ago than the configured
  span, is a candidate, and nobody is who joined after \<open>b\<close> or before the span.
\<close>

lemma candidates_bounds:
  assumes "\<And>w. a \<le> fst (run_state now w) \<and> fst (run_state now w) \<le> b"
  shows "{u. \<exists>t. redis_waiting cfg zs w c u = Some t \<and> UnixMicro (b + MinTimeWaitingListSelection cfg) \<le> t \<and> t \<le> UnixMicro a}
      \<subseteq> candidates now cfg db zs w c"
    "candidates now cfg db zs w c \<subseteq>
      {u. \<exists>t. redis_waiting cfg zs w c u = Some t \<and> UnixMicro (a + MinTimeWaitingListSelection cfg) \<le> t \<and> t \<le> UnixMicro b}"
proof -
  have mono: "x \<le> y \<Longrightarrow> UnixMicro x \<le> UnixMicro y" for x y by (simp add: UnixMicro_def zdiv_mono1)
  have now: "a \<le> t1 \<and> t1 \<le> b" if "run_state now v = (t1, v')" for t1 v v' using assms [of v] that by simp
  have "UnixMicro (t1 + MinTimeWaitingListSelection cfg) \<le> UnixMicro (b + MinTimeWaitingListSelection cfg) \<and>
      UnixMicro (a + MinTimeWaitingListSelection cfg) \<le> UnixMicro (t1 + MinTimeWaitingListSelection cfg) \<and>
      UnixMicro a \<le> UnixMicro (fst (run_state now v')) \<and> UnixMicro (fst (run_state now v')) \<le> UnixMicro b"
    if "run_state now v = (t1, v')" for t1 v v'
    using now [OF that] assms [of v'] by (intro conjI mono) simp_all
  then have win: "UnixMicro (b + MinTimeWaitingListSelection cfg) \<le> t \<Longrightarrow> t \<le> UnixMicro a \<Longrightarrow> join_window cfg now v t"
    "join_window cfg now v t \<Longrightarrow> UnixMicro (a + MinTimeWaitingListSelection cfg) \<le> t \<and> t \<le> UnixMicro b" for v t
    unfolding join_window_def by (auto split: prod.splits dest: order.trans)
  show "{u. \<exists>t. redis_waiting cfg zs w c u = Some t \<and> UnixMicro (b + MinTimeWaitingListSelection cfg) \<le> t \<and> t \<le> UnixMicro a}
      \<subseteq> candidates now cfg db zs w c"
    using win(1) by (auto simp: candidates_def)
  show "candidates now cfg db zs w c \<subseteq>
      {u. \<exists>t. redis_waiting cfg zs w c u = Some t \<and> UnixMicro (a + MinTimeWaitingListSelection cfg) \<le> t \<and> t \<le> UnixMicro b}"
    using win(2) by (auto simp: candidates_def)
qed

definition clock_ok :: "('w, gotime) state \<Rightarrow> ('w \<Rightarrow> 'v) \<Rightarrow> bool" where
  "clock_ok now view \<longleftrightarrow> keeps view now \<and>
     (\<forall>w. 0 \<le> fst (run_state now w) \<and> fst (run_state now w) \<le> 2 ^ 53 * 1000)"

definition redis_ready :: "('w, gotime) state \<Rightarrow> match_repo_config \<Rightarrow> 'w redis_client \<Rightarrow>
    ('w \<Rightarrow> string \<Rightarrow> string \<rightharpoonup> float64) \<Rightarrow> 'w \<Rightarrow> bool" where
  "redis_ready now cfg db zs w \<longleftrightarrow> redis_zsets db zs \<and> clock_ok now zs \<and>
     (\<forall>c. canonical (zs w (waiting_key cfg c)))"

lemma waiting_key_inject [simp]: "waiting_key cfg c = waiting_key cfg d \<longleftrightarrow> c = d"
  by (simp add: waiting_key_def)

lemma run_now_keeps:
  "clock_ok now zs \<Longrightarrow> \<exists>t w'. run_state now w = (t, w') \<and> zs w' = zs w \<and> 0 \<le> t \<and> t \<le> 2 ^ 53 * 1000"
  unfolding clock_ok_def keeps_def by (metis prod.collapse)

lemma UnixMicro_range: "0 \<le> t \<Longrightarrow> t \<le> 2 ^ 53 * 1000 \<Longrightarrow> 0 \<le> UnixMicro t \<and> UnixMicro t \<le> 2 ^ 53"
  by (auto simp: UnixMicro_def)

lemma of_int_unat_u64: "of_int (int (unat (u :: u64))) = u"
  by simp

lemma waiting_member_of_canonical:
  "unat u < 2 ^ 63 \<Longrightarrow> waiting_member_of c \<lparr>Score = s, Member = RStr (FormatUint u)\<rparr> =
     \<lparr>wm_UserId = u, wm_TimeStamp = stored_time s, wm_Category = c\<rparr>"
  by (simp add: waiting_member_of_def Atoi_FormatUint_small stored_time_def)

lemma stored_time_of_int: "0 \<le> i \<Longrightarrow> stored_time (of_int i) = i"
  by (simp add: stored_time_def int_of_float64_def)

section \<open>The contract holds\<close>

lemma redis_readyD:
  assumes "redis_ready now cfg db zs w"
  shows "redis_zsets db zs" "clock_ok now zs" "canonical (zs w (waiting_key cfg c))"
  using assms by (simp_all add: redis_ready_def)

lemma redis_ready_same: "redis_ready now cfg db zs w \<Longrightarrow> zs w' = zs w \<Longrightarrow> redis_ready now cfg db zs w'"
  by (simp add: redis_ready_def)

lemma redis_waiting_same: "zs w' = zs w \<Longrightarrow> redis_waiting cfg zs w' = redis_waiting cfg zs w"
  by (simp add: redis_waiting_def fun_eq_iff)

lemma get_members_redis:
  assumes ready: "redis_ready now cfg db zs w"
  shows "\<exists>xs w'.
    run_state (mr_GetWaitingListByCategory (MatchMakingRepository now cfg db) c) w = ((xs, None), w') \<and>
    redis_ready now cfg db zs w' \<and> redis_waiting cfg zs w' = redis_waiting cfg zs w \<and>
    distinct (map wm_UserId xs) \<and>
    (\<lambda>m. (wm_UserId m, wm_TimeStamp m)) ` set xs =
      {(u, t). redis_waiting cfg zs w c u = Some t \<and> join_window cfg now w t}"
proof -
  note laws = redis_readyD [OF ready]
  obtain t1 w1 where n1: "run_state now w = (t1, w1)" "zs w1 = zs w" using run_now_keeps [OF laws(2)] by blast
  obtain t2 w2 where n2: "run_state now w1 = (t2, w2)" "zs w2 = zs w1" using run_now_keeps [OF laws(2)] by blast
  let ?lo = "UnixMicro (t1 + MinTimeWaitingListSelection cfg)" and ?hi = "UnixMicro t2"
  let ?key = "waiting_key cfg c"
  obtain vals w3 where z: "run_state (ZRange db ?key ?lo ?hi True) w2 =
      ((None, map (\<lambda>(m, s). \<lparr>Score = s, Member = RStr m\<rparr>) vals), w3)"
    and w3: "zs w3 = zs w2" and dist: "distinct (map fst vals)"
    and vals: "set vals = {(m, s). zs w2 ?key m = Some s \<and> of_int ?lo \<le> s \<and> s \<le> of_int ?hi}"
    using ZRange_ok [OF laws(1)] by blast
  let ?xs = "map (\<lambda>(m, s). waiting_member_of c \<lparr>Score = s, Member = RStr m\<rparr>) vals"
  have run: "run_state (mr_GetWaitingListByCategory (MatchMakingRepository now cfg db) c) w = ((?xs, None), w3)"
    using n1 n2 z by (simp add: MatchMakingRepository_def GetWaitingListByCategory_repo_def Let_def
        comp_def case_prod_beta)
  have canon: "\<exists>u i. m = FormatUint u \<and> unat u < 2 ^ 63 \<and> s = of_int i \<and> 0 \<le> i"
    if "(m, s) \<in> set vals" for m s
    using that laws(3) [of c] n1 n2 unfolding vals canonical_def by fastforce
  have "FormatUint (wm_UserId (waiting_member_of c \<lparr>Score = s, Member = RStr m\<rparr>)) = m"
    if "(m, s) \<in> set vals" for m s
    using canon [OF that] by (auto simp: waiting_member_of_canonical)
  then have ids: "map FormatUint (map wm_UserId ?xs) = map fst vals" by auto
  then have d: "distinct (map wm_UserId ?xs)"
    using dist by (metis distinct_map)
  have "(\<lambda>m. (wm_UserId m, wm_TimeStamp m)) ` set ?xs =
      {(u, t). redis_waiting cfg zs w c u = Some t \<and> ?lo \<le> t \<and> t \<le> ?hi}" (is "?L = ?R")
  proof (intro set_eqI iffI)
    fix p assume "p \<in> ?L"
    then obtain m s where ms: "(m, s) \<in> set vals"
      and p: "p = (wm_UserId (waiting_member_of c \<lparr>Score = s, Member = RStr m\<rparr>),
                   wm_TimeStamp (waiting_member_of c \<lparr>Score = s, Member = RStr m\<rparr>))" by auto
    obtain u i where "m = FormatUint u" "unat u < 2 ^ 63" "s = of_int i" "0 \<le> i"
      using canon [OF ms] by blast
    then show "p \<in> ?R"
      using ms n1 n2 unfolding p vals
      by (simp add: waiting_member_of_canonical stored_time_of_int redis_waiting_def)
  next
    fix p assume "p \<in> ?R"
    then obtain u t where p: "p = (u, t)" and wt: "redis_waiting cfg zs w c u = Some t" "?lo \<le> t" "t \<le> ?hi" by auto
    then obtain s where s: "zs w ?key (FormatUint u) = Some s" "t = stored_time s"
      by (auto simp: redis_waiting_def)
    obtain i where i: "s = of_int i" "0 \<le> i" and u: "unat u < 2 ^ 63"
      using laws(3) [of c] s(1) unfolding canonical_def by (metis FormatUint_inject)
    have "(FormatUint u, s) \<in> set vals"
      using s i wt n1 n2 unfolding vals by (simp add: stored_time_of_int)
    then show "p \<in> ?L"
      using u s p by (force simp: waiting_member_of_canonical)
  qed
  then show ?thesis
    using run d w3 n1 n2 redis_ready_same [OF ready, of w3] redis_waiting_same [of zs w3 w cfg]
    by (intro exI [of _ ?xs] exI [of _ w3]) (simp add: join_window_def)
qed

lemma remove_one_redis:
  assumes ready: "redis_ready now cfg db zs w"
  shows "\<exists>e w'. run_state (ZDelete db (waiting_key cfg c) [\<lparr>Score = 0, Member = RUint u\<rparr>]) w = (e, w') \<and>
    redis_ready now cfg db zs w' \<and>
    redis_waiting cfg zs w' = (\<lambda>d. if d = c then (redis_waiting cfg zs w c)(u := None) else redis_waiting cfg zs w d)"
proof -
  note laws = redis_readyD [OF ready]
  obtain w' where w': "run_state (ZDelete db (waiting_key cfg c) [\<lparr>Score = 0, Member = RUint u\<rparr>]) w = (None, w')"
    and zs: "zs w' = (zs w)(waiting_key cfg c := (zs w (waiting_key cfg c))(FormatUint u := None))"
    using ZDelete_ok [OF laws(1), where m = "RUint u"] by (metis arg_bytes.simps(2))
  have "redis_ready now cfg db zs w'"
    using ready unfolding redis_ready_def zs by (auto simp: canonical_def)
  moreover have "redis_waiting cfg zs w' = (\<lambda>d. if d = c then (redis_waiting cfg zs w c)(u := None) else redis_waiting cfg zs w d)"
    by (auto simp: redis_waiting_def zs fun_eq_iff)
  ultimately show ?thesis using w' by blast
qed

lemma remove_members_redis:
  assumes "redis_ready now cfg db zs w"
  shows "\<exists>w'. run_state (mr_RemoveWaitingMember (MatchMakingRepository now cfg db) ms) w = (None, w') \<and>
    redis_ready now cfg db zs w' \<and>
    redis_waiting cfg zs w' = (\<lambda>c. redis_waiting cfg zs w c |` (- removed_ids ms c))"
  using assms
proof (induction ms arbitrary: w)
  case Nil
  then show ?case
    by (simp add: MatchMakingRepository_def RemoveWaitingMember_repo_def removed_ids_def restrict_map_def)
next
  case (Cons m ms)
  obtain e w1 where z: "run_state (ZDelete db (waiting_key cfg (wm_Category m)) [\<lparr>Score = 0, Member = RUint (wm_UserId m)\<rparr>]) w = (e, w1)"
    and w1: "redis_ready now cfg db zs w1"
    and wait: "redis_waiting cfg zs w1 = (\<lambda>d. if d = wm_Category m then (redis_waiting cfg zs w (wm_Category m))(wm_UserId m := None)
       else redis_waiting cfg zs w d)"
    using remove_one_redis [OF Cons.prems] by blast
  obtain w2 where w2: "run_state (mr_RemoveWaitingMember (MatchMakingRepository now cfg db) ms) w1 = (None, w2)"
    and r2: "redis_ready now cfg db zs w2"
    and wait2: "redis_waiting cfg zs w2 = (\<lambda>c. redis_waiting cfg zs w1 c |` (- removed_ids ms c))"
    using Cons.IH [OF w1] by blast
  have "run_state (mr_RemoveWaitingMember (MatchMakingRepository now cfg db) (m # ms)) w = (None, w2)"
    using z w2 by (simp add: MatchMakingRepository_def RemoveWaitingMember_repo_def Let_def case_prod_beta)
  moreover have "redis_waiting cfg zs w2 = (\<lambda>c. redis_waiting cfg zs w c |` (- removed_ids (m # ms) c))"
    unfolding wait2 wait by (auto simp: removed_ids_def restrict_map_def fun_eq_iff)
  ultimately show ?case using r2 by blast
qed

lemma add_member_redis:
  assumes ready: "redis_ready now cfg db zs w" and u: "unat u < 2 ^ 63"
  shows "\<exists>t w'. run_state (mr_AddToWaitingList (MatchMakingRepository now cfg db) c (FormatUint u)) w = (None, w') \<and>
    redis_ready now cfg db zs w' \<and>
    redis_waiting cfg zs w' = (redis_waiting cfg zs w)(c := (redis_waiting cfg zs w c)(u \<mapsto> t))"
proof -
  note laws = redis_readyD [OF ready]
  obtain t w1 where n: "run_state now w = (t, w1)" "zs w1 = zs w" "0 \<le> t" "t \<le> 2 ^ 53 * 1000"
    using run_now_keeps [OF laws(2)] by blast
  let ?sc = "float64_of_int (UnixMicro t)"
  have sc: "?sc = of_int (UnixMicro t)" "0 \<le> UnixMicro t"
    using UnixMicro_range [OF n(3,4)] by (simp_all add: float64_of_int_exact)
  obtain w2 where z: "run_state (ZAdd db (waiting_key cfg c) [\<lparr>Score = ?sc, Member = RStr (FormatUint u)\<rparr>]) w1 = (None, w2)"
    and zs: "zs w2 = (zs w1)(waiting_key cfg c := (zs w1 (waiting_key cfg c))(FormatUint u \<mapsto> ?sc))"
    using ZAdd_ok [OF laws(1), where m = "RStr (FormatUint u)"] by (metis arg_bytes.simps(1))
  have "run_state (mr_AddToWaitingList (MatchMakingRepository now cfg db) c (FormatUint u)) w = (None, w2)"
    using n z by (simp add: MatchMakingRepository_def AddToWaitingList_repo_def)
  moreover have "redis_ready now cfg db zs w2"
    using ready u sc unfolding redis_ready_def zs n(2) by (auto simp: canonical_def)
  moreover have "redis_waiting cfg zs w2 =
      (redis_waiting cfg zs w)(c := (redis_waiting cfg zs w c)(u \<mapsto> UnixMicro t))"
    using sc by (auto simp: redis_waiting_def zs n(2) fun_eq_iff stored_time_of_int)
  ultimately show ?thesis by blast
qed

interpretation redis_list: waiting_list "MatchMakingRepository now cfg db" "redis_waiting cfg zs"
    "redis_ready now cfg db zs" "join_window cfg now" for now cfg db zs
  by unfold_locales (rule get_members_redis remove_members_redis add_member_redis; assumption)+

text \<open>The contract of the whole round: this repository, the Kafka broker, the libraries.\<close>

definition match_ready :: "'w match_env \<Rightarrow> match_repo_config \<Rightarrow> 'w redis_client \<Rightarrow> 'w sarama \<Rightarrow>
    ('w \<Rightarrow> string \<Rightarrow> bytes list) \<Rightarrow> ('w \<Rightarrow> string \<Rightarrow> string \<rightharpoonup> float64) \<Rightarrow> 'w \<Rightarrow> bool" where
  "match_ready env cfg db s topic_log zs w \<longleftrightarrow>
     redis_ready (me_Now env) cfg db zs w \<and> sarama_delivers s topic_log zs \<and>
     index_law env \<and> slice_sort less_timestamp (me_sort env)"

lemma match_readyD:
  assumes "match_ready env cfg db s topic_log zs w"
  shows "redis_ready (me_Now env) cfg db zs w" "sarama_delivers s topic_log zs"
    "index_law env" "slice_sort less_timestamp (me_sort env)"
  using assms by (simp_all add: match_ready_def)

lemma sarama_run:
  assumes "sarama_delivers s topic_log zs"
  shows "zs (snd (run_state (br_Publish (KafkaBroker s) t m) w)) = zs w"
    "topic_log (snd (run_state (br_Publish (KafkaBroker s) t m) w)) =
       (if fst (run_state (br_Publish (KafkaBroker s) t m) w) = None
        then (topic_log w)(t := topic_log w t @ [m]) else topic_log w)"
  using assms by (simp_all add: sarama_delivers_def KafkaBroker_def run_Publish)

lemma match_ready_keeps:
  assumes "match_ready env cfg db s topic_log zs w" and "zs w' = zs w"
  shows "match_ready env cfg db s topic_log zs w' \<and> redis_waiting cfg zs w' = redis_waiting cfg zs w"
  using assms redis_ready_same [OF _ assms(2)] redis_waiting_same [of zs w' w cfg, OF assms(2)]
  unfolding match_ready_def by blast

lemma matchmaking_publish:
  assumes "match_ready env cfg db s topic_log zs w"
  shows "match_ready env cfg db s topic_log zs (snd (run_state (br_Publish (KafkaBroker s) t m) w))"
    "redis_waiting cfg zs (snd (run_state (br_Publish (KafkaBroker s) t m) w)) = redis_waiting cfg zs w"
    "topic_log (snd (run_state (br_Publish (KafkaBroker s) t m) w)) =
       (if fst (run_state (br_Publish (KafkaBroker s) t m) w) = None
        then (topic_log w)(t := topic_log w t @ [m]) else topic_log w)"
  using match_ready_keeps [OF assms sarama_run(1) [OF match_readyD(2) [OF assms]]]
    sarama_run(2) [OF match_readyD(2) [OF assms]] by simp_all

lemma matchmaking_now:
  assumes "match_ready env cfg db s topic_log zs w"
  shows "match_ready env cfg db s topic_log zs (snd (run_state (me_Now env) w))"
    "redis_waiting cfg zs (snd (run_state (me_Now env) w)) = redis_waiting cfg zs w"
proof -
  have "zs (snd (run_state (me_Now env) w)) = zs w"
    using redis_readyD(2) [OF match_readyD(1) [OF assms]] by (simp add: clock_ok_def keeps_def)
  then show "match_ready env cfg db s topic_log zs (snd (run_state (me_Now env) w))"
    "redis_waiting cfg zs (snd (run_state (me_Now env) w)) = redis_waiting cfg zs w"
    using match_ready_keeps [OF assms] by blast+
qed

lemma match_ready_iff:
  "match_ready env cfg db s topic_log zs w \<Longrightarrow>
   match_ready env cfg db s topic_log zs w' \<longleftrightarrow> redis_ready (me_Now env) cfg db zs w'"
  by (simp add: match_ready_def)

interpretation redis_matchmaking: matchmaking "MatchMakingRepository (me_Now env) cfg db"
    "redis_waiting cfg zs" "match_ready env cfg db s topic_log zs" "join_window cfg (me_Now env)" "KafkaBroker s" topic_log env
    for env cfg db s topic_log zs
proof (unfold_locales, goal_cases)
  case (1 w c)
  show ?case
    using redis_list.get_members [OF match_readyD(1) [OF 1], of c] by (simp only: match_ready_iff [OF 1])
next
  case (2 w ms)
  show ?case
    using redis_list.remove_members [OF match_readyD(1) [OF 2], of ms] by (simp only: match_ready_iff [OF 2])
next
  case (3 w u c)
  show ?case
    using redis_list.add_member [OF match_readyD(1) [OF 3(1)] 3(2), of c] by (simp only: match_ready_iff [OF 3(1)])
qed (rule matchmaking_publish matchmaking_now match_readyD
    slice_sort.srt_mset [OF match_readyD(4)] slice_sort.srt_sorted [OF match_readyD(4)]; assumption)+

end
