(* ===== verification/Match_Properties.thy ===== *)
theory Match_Properties
  imports Match_Repository Reference_World
begin

text \<open>
  What the match service guarantees, stated on the service over the Redis repository and
  the Kafka broker, with witnesses on the concrete world of \<open>Reference_World\<close>.
\<close>

section \<open>A round never panics\<close>

lemma publishFinalUsers_returns:
  "\<forall>u \<in> set users. mu_Category u \<noteq> [] \<Longrightarrow>
   fst (run_state (publishFinalUsers env b repo users) w) = Returned ()"
  by (auto simp: publishFinalUsers_def case_prod_beta list_ex_iff)

text \<open>
  Whatever the repository, the broker and the clock do, a tick of the scheduler returns:
  the index expressions of the round (\<open>readyUsers[index]\<close>, \<open>user.Category[0]\<close>) are in range
  for every waiting list, also with empty lists and failed reads, as long as
  \<open>funk.IndexOf\<close> yields the first index of a match.
\<close>

theorem Scheduler_never_panics:
  assumes "index_law env"
  shows "fst (run_state (Scheduler_MatchWaitedUsers env b repo) w) = Returned ()"
proof -
  obtain ms r w1 where col: "run_state (collect_waiting repo GetCategories [] None) w = ((ms, r), w1)"
    by (metis prod.exhaust)
  let ?S = "me_sort env less_timestamp ms"
  obtain us w2 where fin: "run_state (for_collect (groups_of ?S) (finalize_group env)) w1 = (us, w2)"
    by (cases "run_state (for_collect (groups_of ?S) (finalize_group env)) w1")
  have "map (\<lambda>u. (mu_Category u, mu_UserId u)) us = map (\<lambda>c. ([c], matched_ids ?S c)) (matched_categories ?S)"
    using finalize_groups_of [of ?S env w1] fin by simp
  then have "fst (run_state (publishFinalUsers env b repo us) w2) = Returned ()"
    by (intro publishFinalUsers_returns shape_categories)
  then show ?thesis
    using col fin
    by (simp add: Scheduler_MatchWaitedUsers_def MatchWaitUsers_def group_members_groups_of [OF assms]
        case_prod_beta)
qed

section \<open>What a round publishes and removes\<close>

text \<open>The commands of Redis leave what \<open>view\<close> sees, such as the topics of Kafka, as it was.\<close>

definition redis_keeps :: "'w redis_client \<Rightarrow> ('w \<Rightarrow> 'v) \<Rightarrow> bool" where
  "redis_keeps a view \<longleftrightarrow>
     (\<forall>k ms. keeps view (rc_ZAdd a k ms)) \<and> (\<forall>k args. keeps view (rc_ZRem a k args)) \<and>
     (\<forall>k lo hi. keeps view (rc_ZRangeByScoreWithScores a k lo hi)) \<and>
     (\<forall>k i j. keeps view (rc_ZRange a k i j)) \<and>
     (\<forall>k v t. keeps view (rc_Set a k v t)) \<and> (\<forall>k. keeps view (rc_Get a k))"

lemma repository_keeps:
  assumes "redis_keeps db view" and "keeps view now"
  shows "keeps view (mr_GetWaitingListByCategory (MatchMakingRepository now cfg db) c)"
    "keeps view (mr_RemoveWaitingMember (MatchMakingRepository now cfg db) ms)"
  using assms
  by (auto simp: redis_keeps_def MatchMakingRepository_def GetWaitingListByCategory_repo_def
      RemoveWaitingMember_repo_def ZRange_def ZDelete_def Let_def
      intro!: keeps_bind keeps_for_each split: option.splits sum.splits)

text \<open>
  C1. A round of matchmaking, with everything up: it returns no error, and for each category
  the candidates are the waiting users who joined in the window of the query for it, from the configured span before
  the time on the clock up to the time on the clock (\<open>candidates\<close>).
  By the time of joining, all of them but at most the last one are put into one single
  match, of that one category; with fewer than two candidates there is none. The matches of
  all categories go out in one message, none is sent when there are no matches, and exactly
  the matched users leave the waiting lists. (So the two-player matches of the documentation are matches of
  up to as many players as wait in a category.)
\<close>

theorem match_round:
  assumes "match_ready env cfg db s topic_log zs w"
    and "redis_keeps db topic_log" and "keeps topic_log (me_Now env)"
    and "\<And>t m w. fst (run_state (sr_SendMessage s t m) w) = None"
  shows "\<exists>us w'. run_state (MatchWaitUsers env (KafkaBroker s) (MatchMakingRepository (me_Now env) cfg db)) w =
      (Returned None, w') \<and>
    topic_log w' = (if us = [] then topic_log w
      else (topic_log w)(MATCH_V1_MATCH_USERS := topic_log w MATCH_V1_MATCH_USERS @
        [buff_of (marshal_AllMatchedUsers (me_proto env) (MapFromEntityToProtoMessage us))])) \<and>
    (\<forall>u \<in> set us. \<exists>c \<in> set GetCategories. mu_Category u = [c]) \<and>
    (\<forall>c \<in> set GetCategories. \<exists>ids. distinct ids \<and>
       set ids = candidates (me_Now env) cfg db zs w c \<and>
       sorted (map (\<lambda>u. the (redis_waiting cfg zs w c u)) ids) \<and>
       map mu_UserId (filter (\<lambda>u. mu_Category u = [c]) us) =
         (if 2 \<le> length ids then [take (2 * (length ids div 2)) ids] else []) \<and>
       redis_waiting cfg zs w' c = redis_waiting cfg zs w c |` (- set (take (2 * (length ids div 2)) ids)))"
proof -
  have "fst (run_state (br_Publish (KafkaBroker s) t m) w) = None" for t m w
    using assms(4) by (simp add: KafkaBroker_def run_Publish)
  then show ?thesis
    using redis_matchmaking.round [OF assms(1) repository_keeps(1) [OF assms(2,3)]
        repository_keeps(2) [OF assms(2,3)] assms(3)] unfolding candidates_def by blast
qed

text \<open>
  C31. Users are lost when the broker refuses the message of a round: the round still reports
  no error, no topic changes, and the users it had matched, all candidates of a category but at most the last one, leave
  the waiting lists all the same. They have to join again.
\<close>

theorem round_loses_users:
  assumes ready: "match_ready env cfg db s topic_log zs w"
    and keep: "redis_keeps db topic_log" "keeps topic_log (me_Now env)"
    and down: "\<And>t m w. fst (run_state (sr_SendMessage s t m) w) \<noteq> None"
  shows "\<exists>w'. run_state (MatchWaitUsers env (KafkaBroker s) (MatchMakingRepository (me_Now env) cfg db)) w =
      (Returned None, w') \<and> topic_log w' = topic_log w \<and>
    (\<forall>c \<in> set GetCategories. \<exists>ids. distinct ids \<and>
       set ids = candidates (me_Now env) cfg db zs w c \<and>
       sorted (map (\<lambda>u. the (redis_waiting cfg zs w c u)) ids) \<and>
       redis_waiting cfg zs w' c = redis_waiting cfg zs w c |` (- set (take (2 * (length ids div 2)) ids)))"
proof -
  let ?repo = "MatchMakingRepository (me_Now env) cfg db" and ?b = "KafkaBroker s"
  obtain S us w2 where w2: "match_ready env cfg db s topic_log zs w2"
      "redis_waiting cfg zs w2 = redis_waiting cfg zs w"
    and run: "run_state (MatchWaitUsers env ?b ?repo) w =
      (if us = [] then (Returned None, w2)
       else (Returned None, snd (run_state (publishFinalUsers env ?b ?repo us) w2)))"
    and w2_def: "w2 = snd (run_state (for_collect (groups_of S) (finalize_group env))
           (snd (run_state (collect_waiting ?repo GetCategories [] None) w)))"
    and sort: "sorted_wrt (\<lambda>x y. wm_TimeStamp x \<le> wm_TimeStamp y) S"
    and fet: "\<forall>c \<in> set GetCategories. fetched (redis_waiting cfg zs w c) (join_window cfg (me_Now env) (asked_at ?repo GetCategories c w)) c S"
    and shape: "map (\<lambda>u. (mu_Category u, mu_UserId u)) us = map (\<lambda>c. ([c], matched_ids S c)) (matched_categories S)"
    using redis_matchmaking.round_runs [OF ready] by blast
  have log2: "topic_log w2 = topic_log w"
    unfolding w2_def
    by (simp add: keepsD [OF redis_matchmaking.keeps_collect_waiting [OF repository_keeps(1) [OF keep]]]
        keepsD [OF keeps_for_collect [OF redis_matchmaking.keeps_finalize_group [OF keep(2)]], of "groups_of S" "\<lambda>g. g"])
  obtain e where err: "fst (run_state (br_Publish ?b MATCH_V1_MATCH_USERS
      (buff_of (marshal_AllMatchedUsers (me_proto env) (MapFromEntityToProtoMessage us)))) w2) = Some e"
    using down by (force simp: KafkaBroker_def run_Publish)
  obtain w3 where w3: "run_state (publishFinalUsers env ?b ?repo us) w2 = (Returned (), w3)"
      "topic_log w3 = topic_log w2"
    and wait3: "\<forall>c. redis_waiting cfg zs w3 c = redis_waiting cfg zs w2 c |` (- removed_ids (removal_list us) c)"
    using redis_matchmaking.publish_failure_removes
      [OF w2(1) shape_categories [OF shape] err repository_keeps(2) [OF keep]] by blast
  define w' where "w' = (if us = [] then w2 else w3)"
  have "redis_waiting cfg zs w' c = redis_waiting cfg zs w c |` (- set (matched_ids S c))" for c
  proof (cases "us = []")
    case True
    then have "matched_ids S c = []" using shape matched_ids_absent [of c S] by simp
    then show ?thesis using True w2 by (simp add: w'_def restrict_map_def)
  qed (simp add: w'_def wait3 w2 removed_ids_removal_list [OF shape])
  then have cat: "\<exists>ids. distinct ids \<and>
       set ids = candidates (me_Now env) cfg db zs w c \<and>
       sorted (map (\<lambda>u. the (redis_waiting cfg zs w c u)) ids) \<and>
       redis_waiting cfg zs w' c = redis_waiting cfg zs w c |` (- set (take (2 * (length ids div 2)) ids))"
    if "c \<in> set GetCategories" for c
    using redis_matchmaking.fetched_ids [OF sort bspec [OF fet that]]
    unfolding matched_ids_take candidates_def by (intro exI [of _ "ids_of S c"] conjI)
  show ?thesis
    by (intro exI [of _ w'] conjI ballI cat) (simp_all add: run w'_def w3 log2)
qed

section \<open>Joining the waiting list\<close>

definition required_law :: "'w match_env \<Rightarrow> bool" where
  "required_law env \<longleftrightarrow> (\<forall>msg s. me_Required env msg s = None \<longleftrightarrow> s \<noteq> [])"

lemma Validate_category:
  assumes "required_law env"
  shows "ValidateAddToWaitingListRequest env req = None \<longleftrightarrow> aw_Category req \<in> set GetCategories"
proof (cases "aw_Category req = []")
  case True
  then have "me_Required env ErrValidationDataRequired (aw_Category req) \<noteq> None"
    using assms by (simp add: required_law_def)
  then show ?thesis
    using True by (auto simp: ValidateAddToWaitingListRequest_def GetCategories_def category_defs)
next
  case False
  then have "me_Required env ErrValidationDataRequired (aw_Category req) = None"
    using assms by (simp add: required_law_def)
  then show ?thesis
    using MapToCategory_cases(1) [of "aw_Category req"] by (auto simp: ValidateAddToWaitingListRequest_def)
qed

text \<open>
  The HTTP endpoint answers 400 to a request without a user id in the header, with a
  body that does not bind or with a category other than SPORT, MUSIC and TECH, and then
  changes nothing; otherwise it asks the repository to add the user of the bound request to
  that very category, and answers 200 with the configured timeout, or 500 when the
  repository failed.
\<close>

theorem addToWaitingList_answers:
  assumes "required_law env"
  shows "run_state (addToWaitingList_handler env cfg repo userId ctx_Bind) w =
    (if userId = [] then (ctx_JSON 400 (TextBody MessageMissingXUserId), w)
     else case ctx_Bind \<lparr>aw_Category = [], aw_UserId = userId\<rparr> of
       Inl _ \<Rightarrow> (ctx_JSON 400 (TextBody InvalidCategory), w)
     | Inr req \<Rightarrow>
         if aw_Category req \<notin> set GetCategories then
           (ctx_JSON 400 (ErrBody (HTTPMsg \<lparr>hm_message = InvalidInputErrMsg, hm_error = InvalidInputErrMsg\<rparr>)), w)
         else (case run_state (mr_AddToWaitingList repo (aw_Category req) (aw_UserId req)) w of
             (None, w') \<Rightarrow> (ctx_JSON 200 (OkBody \<lparr>aw_Timeout = mc_WaitingTimeout cfg\<rparr>), w')
           | (Some _, w') \<Rightarrow>
               (ctx_JSON 500 (ErrBody (HTTPMsg \<lparr>hm_message = SomeThingWentWrong, hm_error = SomeThingWentWrong\<rparr>)), w')))"
proof (cases "userId = []")
  case False
  show ?thesis
  proof (cases "ctx_Bind \<lparr>aw_Category = [], aw_UserId = userId\<rparr>")
    case (Inr req)
    have nonempty: "\<not> length userId < 1" using False by (cases userId) auto
    show ?thesis
    proof (cases "aw_Category req \<in> set GetCategories")
      case True
      then have "ValidateAddToWaitingListRequest env req = None" by (simp add: Validate_category [OF assms])
      then show ?thesis
        using True False Inr nonempty
        by (auto simp: addToWaitingList_handler_def AddToWaitingList_def MapToCategory_cases(2) case_prod_beta
            error_JSON_def ToHTTPJson_def ErrInternal_def prod_eq_iff split: option.splits)
    next
      case no: False
      then obtain e where "ValidateAddToWaitingListRequest env req = Some e"
        using Validate_category [OF assms] by blast
      then show ?thesis
        using no False Inr nonempty
        by (simp add: addToWaitingList_handler_def AddToWaitingList_def error_JSON_def ToHTTPJson_def
            ErrInvalidInput_def)
    qed
  qed (use False in \<open>cases userId; simp add: addToWaitingList_handler_def\<close>)
qed (simp add: addToWaitingList_handler_def)

text \<open>
  The user id of the header, which the gateway has verified, does not decide who joins.
  The struct that the body is decoded into has no tag that protects the field \<open>UserId\<close>, so
  a body can set it: two callers whose requests bind to the same struct do the same thing,
  whoever they are, and the user added is the one the body names.
\<close>

theorem body_overrides_header_user:
  assumes "required_law env" and "userId \<noteq> []"
    and "ctx_Bind \<lparr>aw_Category = [], aw_UserId = userId\<rparr> = Inr \<lparr>aw_Category = c, aw_UserId = victim\<rparr>"
    and "c \<in> set GetCategories"
  shows "snd (run_state (addToWaitingList_handler env cfg repo userId ctx_Bind) w) =
         snd (run_state (mr_AddToWaitingList repo c victim) w)"
proof -
  have "ValidateAddToWaitingListRequest env \<lparr>aw_Category = c, aw_UserId = victim\<rparr> = None"
    using assms(4) by (simp add: Validate_category [OF assms(1)])
  moreover have "\<not> length userId < 1" using assms(2) by (cases userId) auto
  ultimately show ?thesis
    using assms(3,4)
    by (auto simp: addToWaitingList_handler_def AddToWaitingList_def MapToCategory_cases(2) case_prod_beta
        split: option.splits)
qed

lemma ConsumeJoin_run:
  assumes "redis_ready (me_Now env) cfg db zs w" and "proto_ok (me_proto env)"
    and "marshal_AddToWaitingList (me_proto env) \<lparr>pb_WaitingUserId = u, pb_WaitingCategory = c\<rparr> = Inr m"
    and "unat u < 2 ^ 63"
  shows "\<exists>w'. run_state (ConsumeJoinMatchQueueRequest env (MatchMakingRepository (me_Now env) cfg db) m) w = (None, w') \<and>
    (if c \<in> set GetCategories
     then \<exists>t. redis_waiting cfg zs w' = (redis_waiting cfg zs w)(c := (redis_waiting cfg zs w c)(u \<mapsto> t))
     else w' = w)"
proof -
  have dec: "unmarshal_AddToWaitingList (me_proto env) m = Inr \<lparr>pb_WaitingUserId = u, pb_WaitingCategory = c\<rparr>"
    using assms(2,3) by (rule proto_okD)
  show ?thesis
  proof (cases "c \<in> set GetCategories")
    case True
    obtain t w' where "run_state (mr_AddToWaitingList (MatchMakingRepository (me_Now env) cfg db) c (FormatUint u)) w = (None, w')"
      "redis_waiting cfg zs w' = (redis_waiting cfg zs w)(c := (redis_waiting cfg zs w c)(u \<mapsto> t))"
      using redis_list.add_member [OF assms(1,4)] by blast
    moreover have "MapToCategory c = c" "c \<noteq> CategoryTypeUnknown"
      using True MapToCategory_cases(1,2) by auto
    ultimately show ?thesis
      using True dec by (auto simp: ConsumeJoinMatchQueueRequest_def MapFromAddToWaitingListProtoToEntity_def)
  next
    case False
    then have "MapToCategory c = CategoryTypeUnknown" using MapToCategory_cases(1) by blast
    then show ?thesis
      using False dec by (simp add: ConsumeJoinMatchQueueRequest_def MapFromAddToWaitingListProtoToEntity_def)
  qed
qed

text \<open>The members that a message on the topic brings to a category.\<close>

definition joins :: "'w match_env \<Rightarrow> bytes \<Rightarrow> Category \<Rightarrow> u64 set" where
  "joins env m c = {u. c \<in> set GetCategories \<and>
     unmarshal_AddToWaitingList (me_proto env) m = Inr \<lparr>pb_WaitingUserId = u, pb_WaitingCategory = c\<rparr>}"

lemma ConsumeJoin_any:
  assumes "redis_ready (me_Now env) cfg db zs w" and small: "\<forall>p. unmarshal_AddToWaitingList (me_proto env) m = Inr p \<longrightarrow> unat (pb_WaitingUserId p) < 2 ^ 63"
  shows "\<exists>r w'. run_state (ConsumeJoinMatchQueueRequest env (MatchMakingRepository (me_Now env) cfg db) m) w = (r, w') \<and>
    redis_ready (me_Now env) cfg db zs w' \<and> (\<forall>c. dom (redis_waiting cfg zs w' c) = dom (redis_waiting cfg zs w c) \<union> joins env m c)"
proof (cases "unmarshal_AddToWaitingList (me_proto env) m")
  case (Inl e)
  then show ?thesis using assms(1) by (simp add: ConsumeJoinMatchQueueRequest_def joins_def)
next
  case (Inr p)
  let ?u = "pb_WaitingUserId p" and ?c = "pb_WaitingCategory p"
  have joins: "joins env m d = (if d = ?c \<and> d \<in> set GetCategories then {?u} else {})" for d
    using Inr by (cases p) (auto simp: joins_def)
  show ?thesis
  proof (cases "?c \<in> set GetCategories")
    case True
    obtain t w' where add: "run_state (mr_AddToWaitingList (MatchMakingRepository (me_Now env) cfg db) ?c (FormatUint ?u)) w = (None, w')"
      "redis_ready (me_Now env) cfg db zs w'"
      "redis_waiting cfg zs w' = (redis_waiting cfg zs w)(?c := (redis_waiting cfg zs w ?c)(?u \<mapsto> t))"
      using redis_list.add_member [OF assms(1), of ?u ?c] small Inr by blast
    moreover have "MapToCategory ?c = ?c" "?c \<noteq> CategoryTypeUnknown" using True MapToCategory_cases [of ?c] by auto
    ultimately show ?thesis
      using True Inr by (intro exI [of _ None] exI [of _ w'])
        (simp add: ConsumeJoinMatchQueueRequest_def MapFromAddToWaitingListProtoToEntity_def joins)
  next
    case False
    then have "MapToCategory ?c = CategoryTypeUnknown" using MapToCategory_cases(1) by blast
    then show ?thesis
      using False Inr assms(1) by (simp add: ConsumeJoinMatchQueueRequest_def MapFromAddToWaitingListProtoToEntity_def joins)
  qed
qed

lemma ConsumeJoin_loop:
  assumes "redis_ready (me_Now env) cfg db zs w"
    and "\<forall>m \<in> set ms. \<forall>p. unmarshal_AddToWaitingList (me_proto env) m = Inr p \<longrightarrow> unat (pb_WaitingUserId p) < 2 ^ 63"
  shows "\<exists>w'. run_state (consume_loop (ConsumeJoinMatchQueueRequest env (MatchMakingRepository (me_Now env) cfg db)) (map Message ms @ [CtxDone e])) w =
      (Some e, w') \<and> redis_ready (me_Now env) cfg db zs w' \<and>
    (\<forall>c. dom (redis_waiting cfg zs w' c) = dom (redis_waiting cfg zs w c) \<union> (\<Union>m \<in> set ms. joins env m c))"
  using assms
proof (induction ms arbitrary: w)
  case (Cons m ms)
  obtain r w1 where one: "run_state (ConsumeJoinMatchQueueRequest env (MatchMakingRepository (me_Now env) cfg db) m) w = (r, w1)"
    "redis_ready (me_Now env) cfg db zs w1" "\<forall>c. dom (redis_waiting cfg zs w1 c) = dom (redis_waiting cfg zs w c) \<union> joins env m c"
    using ConsumeJoin_any [OF Cons.prems(1), of m] Cons.prems(2) by auto
  from Cons.IH [OF one(2)] Cons.prems(2) one show ?case by (auto simp: bb_run)
qed simp

text \<open>
  C26. The consumer of the match service: however many messages come in before it is told to stop, and
  whatever they hold, it goes on to the end; afterwards the waiting list of each known
  category has exactly the members it had and those a readable message brought. Garbage and
  messages with an unknown category are skipped and change nothing.
\<close>

theorem join_stream:
  assumes ready: "redis_ready (me_Now env) cfg db zs w" and repo: "repo = MatchMakingRepository (me_Now env) cfg db"
    and small: "\<forall>m \<in> set ms. \<forall>p. unmarshal_AddToWaitingList (me_proto env) m = Inr p \<longrightarrow> unat (pb_WaitingUserId p) < 2 ^ 63"
    and topic: "match_getTopics env repo topic = Some handler"
    and kafka: "\<And>w. fst (run_state (sr_ConsumePartition s topic) w) = None" "keeps zs (sr_ConsumePartition s topic)" "keeps zs (sr_partition_Close s)"
  shows "\<exists>w'. run_state (Consume s topic handler (map Message ms @ [CtxDone e])) w = (Some e, w') \<and>
    (\<forall>c. dom (redis_waiting cfg zs w' c) = dom (redis_waiting cfg zs w c) \<union>
      {u. c \<in> set GetCategories \<and> (\<exists>m \<in> set ms. unmarshal_AddToWaitingList (me_proto env) m =
        Inr \<lparr>pb_WaitingUserId = u, pb_WaitingCategory = c\<rparr>)})"
proof -
  have handler: "handler = ConsumeJoinMatchQueueRequest env (MatchMakingRepository (me_Now env) cfg db)"
    using topic by (simp add: match_getTopics_def repo split: if_splits)
  obtain w1 where w1: "run_state (sr_ConsumePartition s topic) w = (None, w1)" "zs w1 = zs w"
    using kafka(1) [of w] keepsD [OF kafka(2), of w] by (cases "run_state (sr_ConsumePartition s topic) w") auto
  obtain w2 where w2: "run_state (consume_loop handler (map Message ms @ [CtxDone e])) w1 = (Some e, w2)"
    "\<forall>c. dom (redis_waiting cfg zs w2 c) = dom (redis_waiting cfg zs w1 c) \<union> (\<Union>m \<in> set ms. joins env m c)"
    using ConsumeJoin_loop [OF redis_ready_same [OF ready w1(2)] small] handler by blast
  let ?w3 = "snd (run_state (sr_partition_Close s) w2)"
  have "redis_waiting cfg zs ?w3 = redis_waiting cfg zs w2" by (rule redis_waiting_same) (rule keepsD [OF kafka(3)])
  moreover have "redis_waiting cfg zs w1 = redis_waiting cfg zs w" using w1(2) by (rule redis_waiting_same)
  ultimately show ?thesis using w1 w2
    by (intro exI [of _ ?w3]) (auto simp: Consume_def bb_run case_prod_beta joins_def)
qed

section \<open>Witnesses\<close>

definition ref_match_env :: "world match_env" where
  "ref_match_env = \<lparr>me_Now = ref_Now_frozen 5000, me_ulid = (\<lambda>seed ms. FormatInt seed @ ''-'' @ FormatInt ms),
     me_IndexOf = index_of_first, me_sort = insertion_sort,
     me_Required = (\<lambda>msg s. if s = [] then Some (PlainErr msg) else None),
     me_proto = table_proto [] [(\<lparr>pb_WaitingUserId = 7, pb_WaitingCategory = ''MUSIC''\<rparr>, ''join'')] []\<rparr>"

definition ref_match_cfg :: match_repo_config where
  "ref_match_cfg = \<lparr>WaitingListPrefix = ''waiting'', MinTimeWaitingListSelection = - 5000\<rparr>"

interpretation waiting_sort: slice_sort less_timestamp insertion_sort
  by (rule insertion_sort_slice_sort [where key = wm_TimeStamp]) (simp add: less_timestamp_def)

lemma ref_ready:
  assumes "\<And>c. canonical (ref_zs w (waiting_key ref_match_cfg c))"
    and "sarama_delivers s w_topics ref_zs"
  shows "match_ready ref_match_env ref_match_cfg ref_redis s w_topics ref_zs w"
proof -
  show ?thesis
    using assms waiting_sort.slice_sort_axioms
    by (simp add: match_ready_def redis_ready_def ref_redis_zsets clock_ok_def keeps_def ref_match_env_def
        ref_Now_frozen_def index_law_def)
qed

lemma ref_keeps: "redis_keeps ref_redis w_topics" "keeps w_topics (me_Now ref_match_env)"
  by (auto simp: redis_keeps_def keeps_def ref_redis_def ref_match_env_def ref_Now_frozen_def)

text \<open>Three users wait for SPORT, one for MUSIC.\<close>

definition ref_waiting_world :: world where
  "ref_waiting_world = world0\<lparr>w_zsets := (\<lambda>_. [])(
     ''waiting:SPORT'' := [(FormatUint 1, 3), (FormatUint 2, 1), (FormatUint 3, 2)],
     ''waiting:MUSIC'' := [(FormatUint 9, 2)])\<rparr>"

lemma canonical_Nil: "canonical (map_of [])"
  by (simp add: canonical_def)

lemma canonical_Cons:
  "unat u < 2 ^ 63 \<Longrightarrow> 0 \<le> i \<Longrightarrow> canonical (map_of l) \<Longrightarrow>
   canonical (map_of ((FormatUint u, of_int i) # l))"
  by (auto simp: canonical_def)

lemma ref_waiting_world_canonical: "canonical (ref_zs ref_waiting_world (waiting_key ref_match_cfg c))"
proof -
  have "canonical (map_of [(FormatUint 1, 3), (FormatUint 2, 1), (FormatUint 3, 2)])"
    using canonical_Cons [OF _ _ canonical_Cons [OF _ _ canonical_Cons [OF _ _ canonical_Nil, of 3 2], of 2 1], of 1 3]
    by simp
  moreover have "canonical (map_of [(FormatUint 9, 2)])"
    using canonical_Cons [OF _ _ canonical_Nil, of 9 2] by simp
  ultimately show ?thesis
    using canonical_Nil by (simp add: ref_zs_def ref_waiting_world_def)
qed

lemma ref_waiting_ready:
  "match_ready ref_match_env ref_match_cfg ref_redis ref_sarama w_topics ref_zs ref_waiting_world"
  "match_ready ref_match_env ref_match_cfg ref_redis ref_sarama_down w_topics ref_zs ref_waiting_world"
  using ref_ready [OF ref_waiting_world_canonical]
    ref_sarama_delivers [of ref_zs] ref_sarama_down_delivers [of ref_zs]
  by (simp_all add: ref_zs_def fun_eq_iff)

lemma Scheduler_never_panics_witness:
  "fst (run_state (Scheduler_MatchWaitedUsers ref_match_env (KafkaBroker ref_sarama)
     (MatchMakingRepository (me_Now ref_match_env) ref_match_cfg ref_redis)) ref_waiting_world) = Returned ()"
  by (rule Scheduler_never_panics) (simp add: index_law_def ref_match_env_def)

text \<open>The clock stands at five microseconds and the span reaches back to zero, so that all four are candidates.\<close>

lemma ref_sport: "redis_waiting ref_match_cfg ref_zs ref_waiting_world ''SPORT'' = [1 \<mapsto> 3, 2 \<mapsto> 1, 3 \<mapsto> 2]"
  by (auto simp: redis_waiting_def ref_zs_def ref_waiting_world_def ref_match_cfg_def waiting_key_def stored_time_def int_of_float64_def fun_eq_iff)

lemma ref_candidates: "candidates (me_Now ref_match_env) ref_match_cfg db ref_zs ref_waiting_world ''SPORT'' = {1, 2, 3}"
proof -
  have now: "5000 \<le> fst (run_state (me_Now ref_match_env) w) \<and> fst (run_state (me_Now ref_match_env) w) \<le> 5000" for w
    by (simp add: ref_match_env_def ref_Now_frozen_def)
  have "{u. \<exists>t. redis_waiting ref_match_cfg ref_zs ref_waiting_world ''SPORT'' u = Some t \<and>
      UnixMicro (5000 + MinTimeWaitingListSelection ref_match_cfg) \<le> t \<and> t \<le> UnixMicro 5000} = {1, 2, 3}"
    unfolding ref_sport by (auto simp: UnixMicro_def ref_match_cfg_def split: if_splits)
  with candidates_bounds [OF now, where cfg = ref_match_cfg and zs = ref_zs and w = ref_waiting_world and c = "''SPORT''" and db = db] show ?thesis by blast
qed

lemma ref_matched:
  assumes "distinct ids" and "set ids = candidates (me_Now ref_match_env) ref_match_cfg db ref_zs ref_waiting_world ''SPORT''"
    and "sorted (map (\<lambda>u. the (redis_waiting ref_match_cfg ref_zs ref_waiting_world ''SPORT'' u)) ids)"
  shows "ids = [2, 3, 1]"
proof (rule map_sorted_distinct_set_unique)
  let ?f = "\<lambda>u. the (redis_waiting ref_match_cfg ref_zs ref_waiting_world ''SPORT'' u)"
  have ids: "set ids = {1, 2, 3}" using assms(2) ref_candidates by simp
  show inj: "inj_on ?f (set ids \<union> set [2, 3, 1])" unfolding ids by (simp add: inj_on_def ref_sport)
  show "sorted (map ?f ids)" by (rule assms(3))
  show "distinct (map ?f ids)" using assms(1) inj by (simp add: distinct_map inj_on_Un)
  show "sorted (map ?f [2, 3, 1])" "distinct (map ?f [2, 3, 1])" by (simp_all add: ref_sport)
  show "set ids = set [2, 3, 1]" unfolding ids by auto
qed

lemma ref_sport_known: "''SPORT'' \<in> set GetCategories"
  by (simp add: GetCategories_def category_defs)

lemma ref_left: "dom ([1 \<mapsto> 3, 2 \<mapsto> 1, 3 \<mapsto> 2] |` (- set (take (2 * (length [2, 3, 1 :: u64] div 2)) [2, 3, 1]))) = {1 :: u64}"
  by auto

lemma match_round_witness:
  "\<exists>us w'. run_state (MatchWaitUsers ref_match_env (KafkaBroker ref_sarama)
     (MatchMakingRepository (me_Now ref_match_env) ref_match_cfg ref_redis)) ref_waiting_world = (Returned None, w') \<and>
   w_topics w' MATCH_V1_MATCH_USERS = [buff_of (marshal_AllMatchedUsers (me_proto ref_match_env) (MapFromEntityToProtoMessage us))] \<and>
   map mu_UserId (filter (\<lambda>u. mu_Category u = [''SPORT'']) us) = [[2, 3]] \<and>
   dom (redis_waiting ref_match_cfg ref_zs w' ''SPORT'') = {1}"
proof -
  have sends: "fst (run_state (sr_SendMessage ref_sarama t m) w) = None" for t m and w :: world by (simp add: ref_sarama_def)
  obtain us w' where run: "run_state (MatchWaitUsers ref_match_env (KafkaBroker ref_sarama)
        (MatchMakingRepository (me_Now ref_match_env) ref_match_cfg ref_redis)) ref_waiting_world = (Returned None, w')"
      "w_topics w' = (if us = [] then w_topics ref_waiting_world
        else (w_topics ref_waiting_world)(MATCH_V1_MATCH_USERS := w_topics ref_waiting_world MATCH_V1_MATCH_USERS @
          [buff_of (marshal_AllMatchedUsers (me_proto ref_match_env) (MapFromEntityToProtoMessage us))]))"
    and cats: "\<forall>c \<in> set GetCategories. \<exists>ids. distinct ids \<and>
       set ids = candidates (me_Now ref_match_env) ref_match_cfg ref_redis ref_zs ref_waiting_world c \<and>
       sorted (map (\<lambda>u. the (redis_waiting ref_match_cfg ref_zs ref_waiting_world c u)) ids) \<and>
       map mu_UserId (filter (\<lambda>u. mu_Category u = [c]) us) =
         (if 2 \<le> length ids then [take (2 * (length ids div 2)) ids] else []) \<and>
       redis_waiting ref_match_cfg ref_zs w' c =
         redis_waiting ref_match_cfg ref_zs ref_waiting_world c |` (- set (take (2 * (length ids div 2)) ids))"
    using match_round [OF ref_waiting_ready(1) ref_keeps sends] by (elim exE conjE)
  obtain ids where "distinct ids" "set ids = candidates (me_Now ref_match_env) ref_match_cfg ref_redis ref_zs ref_waiting_world ''SPORT''"
      "sorted (map (\<lambda>u. the (redis_waiting ref_match_cfg ref_zs ref_waiting_world ''SPORT'' u)) ids)"
      and sport: "map mu_UserId (filter (\<lambda>u. mu_Category u = [''SPORT'']) us) = (if 2 \<le> length ids then [take (2 * (length ids div 2)) ids] else [])"
        "redis_waiting ref_match_cfg ref_zs w' ''SPORT'' =
         redis_waiting ref_match_cfg ref_zs ref_waiting_world ''SPORT'' |` (- set (take (2 * (length ids div 2)) ids))"
    using bspec [OF cats ref_sport_known] by blast
  then have "ids = [2, 3, 1]" using ref_matched by blast
  with sport have "map mu_UserId (filter (\<lambda>u. mu_Category u = [''SPORT'']) us) = [[2, 3]]" "us \<noteq> []"
    "dom (redis_waiting ref_match_cfg ref_zs w' ''SPORT'') = {1}"
    using ref_left unfolding ref_sport by auto
  with run show ?thesis by (intro exI [of _ us] exI [of _ w']) (simp add: ref_waiting_world_def)
qed

lemma round_loses_users_witness:
  "\<exists>w'. run_state (MatchWaitUsers ref_match_env (KafkaBroker ref_sarama_down)
     (MatchMakingRepository (me_Now ref_match_env) ref_match_cfg ref_redis)) ref_waiting_world = (Returned None, w') \<and>
   w_topics w' = w_topics ref_waiting_world \<and> dom (redis_waiting ref_match_cfg ref_zs w' ''SPORT'') = {1}"
proof -
  have down: "fst (run_state (sr_SendMessage ref_sarama_down t m) w) \<noteq> None" for t m and w :: world by (simp add: ref_sarama_down_def)
  obtain w' where run: "run_state (MatchWaitUsers ref_match_env (KafkaBroker ref_sarama_down)
        (MatchMakingRepository (me_Now ref_match_env) ref_match_cfg ref_redis)) ref_waiting_world = (Returned None, w')"
      "w_topics w' = w_topics ref_waiting_world"
    and cats: "\<forall>c \<in> set GetCategories. \<exists>ids. distinct ids \<and>
       set ids = candidates (me_Now ref_match_env) ref_match_cfg ref_redis ref_zs ref_waiting_world c \<and>
       sorted (map (\<lambda>u. the (redis_waiting ref_match_cfg ref_zs ref_waiting_world c u)) ids) \<and>
       redis_waiting ref_match_cfg ref_zs w' c =
         redis_waiting ref_match_cfg ref_zs ref_waiting_world c |` (- set (take (2 * (length ids div 2)) ids))"
    using round_loses_users [OF ref_waiting_ready(2) ref_keeps down] by (elim exE conjE)
  obtain ids where "distinct ids" "set ids = candidates (me_Now ref_match_env) ref_match_cfg ref_redis ref_zs ref_waiting_world ''SPORT''"
      "sorted (map (\<lambda>u. the (redis_waiting ref_match_cfg ref_zs ref_waiting_world ''SPORT'' u)) ids)"
      and sport: "redis_waiting ref_match_cfg ref_zs w' ''SPORT'' =
         redis_waiting ref_match_cfg ref_zs ref_waiting_world ''SPORT'' |` (- set (take (2 * (length ids div 2)) ids))"
    using bspec [OF cats ref_sport_known] by blast
  then have "ids = [2, 3, 1]" using ref_matched by blast
  with sport run show ?thesis using ref_left unfolding ref_sport by auto
qed

lemma ref_required: "required_law ref_match_env"
  by (simp add: required_law_def ref_match_env_def)

definition ref_match_repo :: "world match_repo" where
  "ref_match_repo = MatchMakingRepository (me_Now ref_match_env) ref_match_cfg ref_redis"

lemma addToWaitingList_answers_witness:
  "run_state (addToWaitingList_handler ref_match_env \<lparr>mc_WaitingTimeout = 20, mc_LeastPresence = 5\<rparr> ref_match_repo ''7''
     (\<lambda>r. Inr (r\<lparr>aw_Category := ''CHESS''\<rparr>))) world0 =
   (ctx_JSON 400 (ErrBody (HTTPMsg \<lparr>hm_message = ''invalid input'', hm_error = ''invalid input''\<rparr>)), world0)"
  by (subst addToWaitingList_answers [OF ref_required])
    (simp add: GetCategories_def category_defs InvalidInputErrMsg_def)

lemma body_overrides_header_user_witness:
  "snd (run_state (addToWaitingList_handler ref_match_env \<lparr>mc_WaitingTimeout = 20, mc_LeastPresence = 5\<rparr> ref_match_repo ''7''
     (\<lambda>r. Inr \<lparr>aw_Category = ''TECH'', aw_UserId = ''8''\<rparr>)) world0) =
   snd (run_state (mr_AddToWaitingList ref_match_repo ''TECH'' ''8'') world0)"
  by (rule body_overrides_header_user [OF ref_required])
    (simp_all add: GetCategories_def category_defs)

lemma join_stream_witness:
  "\<exists>w'. run_state (Consume ref_sarama GAME_V1_JOIN_MATCH_QUEUE_REQUESTED (ConsumeJoinMatchQueueRequest ref_match_env ref_match_repo)
      [Message ''garbage'', Message ''join'', CtxDone (PlainErr ''context canceled'')]) ref_waiting_world =
      (Some (PlainErr ''context canceled''), w') \<and>
    dom (redis_waiting ref_match_cfg ref_zs w' ''MUSIC'') = {7, 9}"
proof -
  let ?unmarshal = "unmarshal_AddToWaitingList (me_proto ref_match_env)"
  have reads: "?unmarshal ''join'' = Inr \<lparr>pb_WaitingUserId = 7, pb_WaitingCategory = ''MUSIC''\<rparr>"
      "\<exists>e. ?unmarshal ''garbage'' = Inl e"
    by (simp_all add: ref_match_env_def table_proto_def table_unmarshal_def)
  have "redis_waiting ref_match_cfg ref_zs ref_waiting_world ''MUSIC'' = [9 \<mapsto> stored_time 2]"
    by (auto simp: redis_waiting_def ref_zs_def ref_waiting_world_def ref_match_cfg_def waiting_key_def fun_eq_iff)
  then have dom: "dom (redis_waiting ref_match_cfg ref_zs ref_waiting_world ''MUSIC'') = {9}" by simp
  have small: "\<forall>m \<in> set [''garbage'', ''join'']. \<forall>p. ?unmarshal m = Inr p \<longrightarrow> unat (pb_WaitingUserId p) < 2 ^ 63"
    using reads by auto
  note run = join_stream [OF match_readyD(1) [OF ref_waiting_ready(1)] refl small, of GAME_V1_JOIN_MATCH_QUEUE_REQUESTED _ ref_sarama
      "PlainErr ''context canceled''"]
  from run [of "ConsumeJoinMatchQueueRequest ref_match_env ref_match_repo"] obtain w' where
    "run_state (Consume ref_sarama GAME_V1_JOIN_MATCH_QUEUE_REQUESTED (ConsumeJoinMatchQueueRequest ref_match_env ref_match_repo)
      [Message ''garbage'', Message ''join'', CtxDone (PlainErr ''context canceled'')]) ref_waiting_world =
      (Some (PlainErr ''context canceled''), w')"
    "dom (redis_waiting ref_match_cfg ref_zs w' ''MUSIC'') = {9} \<union> {u. ''MUSIC'' \<in> set GetCategories \<and>
      (\<exists>m \<in> set [''garbage'', ''join'']. ?unmarshal m = Inr \<lparr>pb_WaitingUserId = u, pb_WaitingCategory = ''MUSIC''\<rparr>)}"
    by (auto simp: match_getTopics_def ref_match_repo_def ref_sarama_def keeps_def dom)
  then show ?thesis using reads by (intro exI [of _ w']) (auto simp: GetCategories_def category_defs)
qed

end
