(* ===== verification/Question_Service.thy ===== *)
theory Question_Service
  imports Match_Laws Broker
begin

text \<open>
  The question service: \<open>services/question_app\<close>. It consumes the matches of a round and
  publishes, for each of them, up to ten random easy questions of its categories. The
  database driver is the record \<open>question_db\<close>; a query yields the rows that were read, each
  with the outcome of scanning it, and the error that ended the iteration, which only
  \<open>GetProperQuestions\<close> looks at, and only for its first query.
\<close>

section \<open>Entities and mappings\<close>

type_synonym Difficulty = string

definition DifficultEasy :: Difficulty where "DifficultEasy = ''EASY''"
definition DifficultMedium :: Difficulty where "DifficultMedium = ''MEDIUM''"
definition DifficultHard :: Difficulty where "DifficultHard = ''HARD''"

lemmas difficulty_defs = DifficultEasy_def DifficultMedium_def DifficultHard_def

text \<open>Unlike in the other services, an unknown category is MUSIC.\<close>

definition question_MapToCategory :: "string \<Rightarrow> Category" where
  "question_MapToCategory category =
     (if category = ''MUSIC'' then CategoryTypeMusic
      else if category = ''SPORT'' then CategoryTypeSport
      else if category = ''TECH'' then CategoryTypeTech
      else CategoryTypeMusic)"

record question_MatchedUsers =
  qm_MatchId :: string
  qm_Category :: "Category list"
  qm_UserId :: "u64 list"

record question_Question =
  qq_Id :: string
  qq_Content :: string
  qq_CorrectAnswer :: string
  qq_Choices :: "string list"
  qq_Category :: Category
  qq_Difficulty :: Difficulty

definition question_MapFromProtoMessageToEntity :: "PbAllMatchedUsers \<Rightarrow> question_MatchedUsers list" where
  "question_MapFromProtoMessageToEntity users =
     map (\<lambda>user. \<lparr>qm_MatchId = pb_MatchId user, qm_Category = map question_MapToCategory (pb_Category user),
       qm_UserId = pb_UserId user\<rparr>) (pb_Users users)"

definition MapQuestionsToProtoMessage :: "string \<Rightarrow> question_Question list \<Rightarrow> PbQuestions" where
  "MapQuestionsToProtoMessage matchId questions =
     \<lparr>pb_QuestionsMatchId = matchId,
      pb_Questions = map (\<lambda>question. \<lparr>pb_QuestionId = qq_Id question, pb_Content = qq_Content question,
        pb_CorrectAnswer = qq_CorrectAnswer question, pb_Choices = qq_Choices question,
        pb_QuestionCategory = qq_Category question, pb_Difficulty = qq_Difficulty question\<rparr>) questions\<rparr>"

section \<open>The repository\<close>

record 'w question_repo =
  qr_GetProperQuestions :: "u64 list \<Rightarrow> Category list \<Rightarrow> int \<Rightarrow> ('w, question_Question list \<times> go_error option) state"
  qr_GetRandomQuestions :: "Category list \<Rightarrow> Difficulty \<Rightarrow> int \<Rightarrow> ('w, question_Question list \<times> go_error option) state"

record 'w question_db =
  qd_Prepare :: "string \<Rightarrow> ('w, go_error option) state"
  qd_QuerySeen :: "string \<Rightarrow> u64 list \<Rightarrow> ('w, go_error + (go_error + string) list \<times> go_error option) state"
  qd_QueryUnseen :: "string \<Rightarrow> string list \<Rightarrow> string list \<Rightarrow> int \<Rightarrow>
    ('w, go_error + (go_error + question_Question) list \<times> go_error option) state"
  qd_QueryRandom :: "string \<Rightarrow> Category list \<Rightarrow> Difficulty \<Rightarrow> int \<Rightarrow>
    ('w, go_error + (go_error + question_Question) list \<times> go_error option) state"

text \<open>A loop over \<open>rows.Next()\<close>: the first row that does not scan ends it with an error.\<close>

fun scan_rows :: "string \<Rightarrow> (go_error + 'a) list \<Rightarrow> go_error + 'a list" where
  "scan_rows msg [] = Inr []"
| "scan_rows msg (Inl err # rows) = Inl (WrapErr (msg @ Error err) err)"
| "scan_rows msg (Inr q # rows) = (case scan_rows msg rows of Inl err \<Rightarrow> Inl err | Inr qs \<Rightarrow> Inr (q # qs))"

definition seenQuery :: string where
  "seenQuery = ''SELECT DISTINCT question_id FROM user_question_history WHERE user_id = ANY($1) AND seen_at > NOW() - INTERVAL '' @ [CHR 0x27] @ ''30 days'' @ [CHR 0x27]"
definition properQuery :: string where
  "properQuery = ''SELECT id, content, correct_answer, choices, category, difficulty FROM questions WHERE category = ANY($1) AND id != ALL($2) ORDER BY RANDOM() LIMIT $3''"
definition randomQuery :: string where
  "randomQuery = ''SELECT id, content, correct_answer, choices, category, difficulty FROM questions WHERE category = ANY($1) AND difficulty = $2 ORDER BY RANDOM() LIMIT $3''"

definition GetProperQuestions_repo :: "'w question_db \<Rightarrow> u64 list \<Rightarrow> Category list \<Rightarrow> int \<Rightarrow>
    ('w, question_Question list \<times> go_error option) state" where
  "GetProperQuestions_repo db userIds category limit = do {
     err \<leftarrow> qd_Prepare db seenQuery;
     case err of
       Some e \<Rightarrow> ret ([], Some (WrapErr (''failed to prepare seenQuery statement: '' @ Error e) e))
     | None \<Rightarrow> do {
         r \<leftarrow> qd_QuerySeen db seenQuery userIds;
         case r of
           Inl e \<Rightarrow> ret ([], Some e)
         | Inr (rows, rowsErr) \<Rightarrow>
             (case scan_rows ''failed to scan question ID: '' rows of
                Inl e \<Rightarrow> ret ([], Some e)
              | Inr seenQuestionIDs \<Rightarrow>
                  (case rowsErr of
                     Some e \<Rightarrow> ret ([], Some e)
                   | None \<Rightarrow> do {
                       r \<leftarrow> qd_QueryUnseen db properQuery (map (\<lambda>c. c) category) seenQuestionIDs limit;
                       case r of
                         Inl e \<Rightarrow> ret ([], Some (WrapErr (''failed to query questions: '' @ Error e) e))
                       | Inr (rows, _) \<Rightarrow>
                           (case scan_rows ''failed to scan question row: '' rows of
                              Inl e \<Rightarrow> ret ([], Some e)
                            | Inr questions \<Rightarrow> ret (questions, None)) })) } }"

definition GetRandomQuestions_repo :: "'w question_db \<Rightarrow> Category list \<Rightarrow> Difficulty \<Rightarrow> int \<Rightarrow>
    ('w, question_Question list \<times> go_error option) state" where
  "GetRandomQuestions_repo db category difficulty limit = do {
     r \<leftarrow> qd_QueryRandom db randomQuery category difficulty limit;
     case r of
       Inl e \<Rightarrow> ret ([], Some (WrapErr (''failed to query questions: '' @ Error e) e))
     | Inr (rows, _) \<Rightarrow>
         (case scan_rows ''failed to scan question row: '' rows of
            Inl e \<Rightarrow> ret ([], Some e)
          | Inr questions \<Rightarrow> ret (questions, None)) }"

definition QuestionRepository :: "'w question_db \<Rightarrow> 'w question_repo" where
  "QuestionRepository db = \<lparr>qr_GetProperQuestions = GetProperQuestions_repo db,
     qr_GetRandomQuestions = GetRandomQuestions_repo db\<rparr>"

section \<open>The service\<close>

definition AddQuestion :: "('w, go_error option) state" where
  "AddQuestion = ret None"

definition AddQuestion_handler :: "(go_error + unit) \<Rightarrow> ('w, unit http_response) state" where
  "AddQuestion_handler bound =
     (case bound of
        Inl err \<Rightarrow> ret (ctx_JSON 400 (ErrResponseBody (ErrorResponse_message InvalidInputErrMsg)))
      | Inr req \<Rightarrow> do {
          err \<leftarrow> AddQuestion;
          case err of Some e \<Rightarrow> ret (error_JSON e) | None \<Rightarrow> ret (ctx_JSON 200 (OkBody ())) })"

text \<open>One turn of the loop over the matches: whatever fails is logged, and the turn goes on.\<close>

definition publish_questions :: "proto_codec \<Rightarrow> 'w question_repo \<Rightarrow> 'w broker \<Rightarrow> question_MatchedUsers \<Rightarrow>
    ('w, unit) state" where
  "publish_questions P repo b matchedUser = do {
     (questions, err) \<leftarrow> qr_GetRandomQuestions repo (qm_Category matchedUser) DifficultEasy 10;
     let buff = buff_of (marshal_Questions P (MapQuestionsToProtoMessage (qm_MatchId matchedUser) questions));
     err \<leftarrow> br_Publish b QUESTION_V1_QUESTIONS buff;
     ret () }"

definition question_ConsumeMatchCreated :: "proto_codec \<Rightarrow> 'w question_repo \<Rightarrow> 'w broker \<Rightarrow> bytes \<Rightarrow>
    ('w, go_error option) state" where
  "question_ConsumeMatchCreated P repo b message =
     (case unmarshal_AllMatchedUsers P message of
        Inl err \<Rightarrow> ret (Some err)
      | Inr protoMatchedUsers \<Rightarrow> do {
          for_each (question_MapFromProtoMessageToEntity protoMatchedUsers) (publish_questions P repo b);
          ret None })"

definition question_getTopics :: "proto_codec \<Rightarrow> 'w question_repo \<Rightarrow> 'w broker \<Rightarrow>
    (string \<rightharpoonup> (bytes \<Rightarrow> ('w, go_error option) state))" where
  "question_getTopics P repo b = [MATCH_V1_MATCH_USERS \<mapsto> question_ConsumeMatchCreated P repo b]"

section \<open>Questions for a match\<close>

lemma scan_rows_Inr: "scan_rows msg (map Inr qs) = Inr qs"
  by (induction qs) auto

lemma GetRandomQuestions_failure:
  assumes "snd (fst (run_state (GetRandomQuestions_repo db c d n) w)) \<noteq> None"
  shows "fst (fst (run_state (GetRandomQuestions_repo db c d n) w)) = []"
  using assms by (auto simp: GetRandomQuestions_repo_def case_prod_beta split: sum.splits prod.splits)

text \<open>What the repository answers in a state, and the message that is made of it.\<close>

definition questions_at :: "'w question_repo \<Rightarrow> question_MatchedUsers \<Rightarrow> 'w \<Rightarrow> question_Question list" where
  "questions_at repo u w = fst (fst (run_state (qr_GetRandomQuestions repo (qm_Category u) DifficultEasy 10) w))"

definition questions_message :: "proto_codec \<Rightarrow> question_MatchedUsers \<Rightarrow> question_Question list \<Rightarrow> bytes" where
  "questions_message P u qs = buff_of (marshal_Questions P (MapQuestionsToProtoMessage (qm_MatchId u) qs))"

context publishing
begin

lemma publish_questions_log:
  assumes "up w" and keep: "\<And>c d n. keeps topic_log (qr_GetRandomQuestions repo c d n)"
    and keep_up: "\<And>c d n w. up w \<Longrightarrow> up (snd (run_state (qr_GetRandomQuestions repo c d n) w))"
    and delivers: "\<And>t m w. fst (run_state (br_Publish b t m) w) = None"
  shows "up (snd (run_state (publish_questions P repo b u) w)) \<and>
    topic_log (snd (run_state (publish_questions P repo b u) w)) = (topic_log w)(QUESTION_V1_QUESTIONS :=
      topic_log w QUESTION_V1_QUESTIONS @ [questions_message P u (questions_at repo u w)])"
  using assms(1) keep_up [of w] delivers
  by (simp add: publish_questions_def case_prod_beta Let_def publish_up publish_log keepsD [OF keep]
      questions_message_def questions_at_def)

lemma publish_questions_all:
  assumes "up w" and keep: "\<And>c d n. keeps topic_log (qr_GetRandomQuestions repo c d n)"
    and keep_up: "\<And>c d n w. up w \<Longrightarrow> up (snd (run_state (qr_GetRandomQuestions repo c d n) w))"
    and delivers: "\<And>t m w. fst (run_state (br_Publish b t m) w) = None"
  shows "\<exists>ws. length ws = length us \<and>
    topic_log (snd (run_state (for_each us (publish_questions P repo b)) w)) =
      (topic_log w)(QUESTION_V1_QUESTIONS := topic_log w QUESTION_V1_QUESTIONS @
         map (\<lambda>(u, w'). questions_message P u (questions_at repo u w')) (zip us ws))"
  using assms(1)
proof (induction us arbitrary: w)
  case Nil
  then show ?case by (simp add: fun_eq_iff)
next
  case (Cons u us)
  let ?w1 = "snd (run_state (publish_questions P repo b u) w)"
  have step: "up ?w1" "topic_log ?w1 = (topic_log w)(QUESTION_V1_QUESTIONS :=
      topic_log w QUESTION_V1_QUESTIONS @ [questions_message P u (questions_at repo u w)])"
    using publish_questions_log [OF Cons.prems keep keep_up delivers] by simp_all
  obtain ws where "length ws = length us" "topic_log (snd (run_state (for_each us (publish_questions P repo b)) ?w1)) =
      (topic_log ?w1)(QUESTION_V1_QUESTIONS := topic_log ?w1 QUESTION_V1_QUESTIONS @
         map (\<lambda>(u, w'). questions_message P u (questions_at repo u w')) (zip us ws))"
    using Cons.IH [OF step(1)] by blast
  then show ?case
    using step(2) by (intro exI [of _ "w # ws"]) (simp add: split_def)
qed

end

section \<open>From a match to its questions\<close>

text \<open>
  The matches that the match service publishes reach the question service unchanged, since
  their categories are known ones.
\<close>

definition to_question_match :: "MatchedUsers \<Rightarrow> question_MatchedUsers" where
  "to_question_match u = \<lparr>qm_MatchId = mu_Id u, qm_Category = mu_Category u, qm_UserId = mu_UserId u\<rparr>"

lemma question_MapToCategory_known: "c \<in> set GetCategories \<Longrightarrow> question_MapToCategory c = c"
  by (auto simp: GetCategories_def category_defs question_MapToCategory_def)

interpretation match_to_question: codec MapFromEntityToProtoMessage question_MapFromProtoMessageToEntity
    "map to_question_match" "\<lambda>us :: MatchedUsers list. \<forall>u \<in> set us. set (mu_Category u) \<subseteq> set GetCategories"
proof
  fix us :: "MatchedUsers list" assume wf: "\<forall>u \<in> set us. set (mu_Category u) \<subseteq> set GetCategories"
  then have "map question_MapToCategory (mu_Category u) = mu_Category u" if "u \<in> set us" for u
    using that by (intro map_idI question_MapToCategory_known) auto
  then show "question_MapFromProtoMessageToEntity (MapFromEntityToProtoMessage us) = map to_question_match us"
    by (simp add: question_MapFromProtoMessageToEntity_def MapFromEntityToProtoMessage_def to_question_match_def)
qed

lemma map2_fst: "length us = length ws \<Longrightarrow> map2 (\<lambda>u w. f u) us ws = map f us"
  by (induction us ws rule: list_induct2) auto

lemma question_ConsumeMatchCreated_run:
  assumes deliver: "sarama_delivers s topic_log (\<lambda>_. ())" "\<And>t m w. fst (run_state (sr_SendMessage s t m) w) = None"
    and keep: "\<And>c d n. keeps topic_log (GetRandomQuestions_repo db c d n)"
    and codec: "proto_ok P" "marshal_AllMatchedUsers P (MapFromEntityToProtoMessage us) = Inr m"
    and known: "\<forall>u \<in> set us. set (mu_Category u) \<subseteq> set GetCategories"
  shows "\<exists>w' ws. run_state (question_ConsumeMatchCreated P (QuestionRepository db) (KafkaBroker s) m) w = (None, w') \<and>
    length ws = length us \<and>
    topic_log w' = (topic_log w)(QUESTION_V1_QUESTIONS := topic_log w QUESTION_V1_QUESTIONS @
      map (\<lambda>(u, w1). questions_message P (to_question_match u)
         (questions_at (QuestionRepository db) (to_question_match u) w1)) (zip us ws))"
proof -
  have "unmarshal_AllMatchedUsers P m = Inr (MapFromEntityToProtoMessage us)"
    using codec by (rule proto_okD)
  moreover have "fst (run_state (br_Publish (KafkaBroker s) t m) w) = None" for t m w
    using deliver(2) by (simp add: KafkaBroker_def run_Publish)
  moreover have "keeps topic_log (qr_GetRandomQuestions (QuestionRepository db) c d n)" for c d n
    using keep by (simp add: QuestionRepository_def)
  ultimately show ?thesis
    using kafka.publish_questions_all [OF deliver(1), of "QuestionRepository db" "map to_question_match us" P w]
      deliver(1) match_to_question.dec_enc [OF known]
    by (force simp: question_ConsumeMatchCreated_def case_prod_beta zip_map1 comp_def)
qed

text \<open>
  C20. The question service answers each match with one message, in order: fed with the
  bytes of a round whose categories are known, it publishes for each match the questions
  that the repository gave for its categories, under the id of the match.
\<close>

theorem questions_for_each_match:
  assumes deliver: "sarama_delivers s topic_log (\<lambda>_. ())" "\<And>t m w. fst (run_state (sr_SendMessage s t m) w) = None"
    and keep: "\<And>c d n. keeps topic_log (GetRandomQuestions_repo db c d n)"
    and codec: "proto_ok P" "marshal_AllMatchedUsers P (MapFromEntityToProtoMessage us) = Inr m"
    and known: "\<forall>u \<in> set us. set (mu_Category u) \<subseteq> set GetCategories"
  shows "\<exists>w' ws. run_state (question_ConsumeMatchCreated P (QuestionRepository db) (KafkaBroker s) m) w = (None, w') \<and>
    length ws = length us \<and>
    topic_log w' = (topic_log w)(QUESTION_V1_QUESTIONS := topic_log w QUESTION_V1_QUESTIONS @
      map (\<lambda>(u, w1). questions_message P (to_question_match u)
         (questions_at (QuestionRepository db) (to_question_match u) w1)) (zip us ws))"
  by (rule question_ConsumeMatchCreated_run [OF assms])

text \<open>
  When the database fails, a match still gets its message, with no question in it, and
  the consumer reports nothing: the players of that match can never be sent a question.
\<close>

theorem no_questions_on_failure:
  assumes deliver: "sarama_delivers s topic_log (\<lambda>_. ())" "\<And>t m w. fst (run_state (sr_SendMessage s t m) w) = None"
    and down: "\<And>q c d n w. run_state (qd_QueryRandom db q c d n) w = (Inl e, w)"
    and codec: "proto_ok P" "marshal_AllMatchedUsers P (MapFromEntityToProtoMessage us) = Inr m"
    and known: "\<forall>u \<in> set us. set (mu_Category u) \<subseteq> set GetCategories"
  shows "\<exists>w'. run_state (question_ConsumeMatchCreated P (QuestionRepository db) (KafkaBroker s) m) w = (None, w') \<and>
    topic_log w' = (topic_log w)(QUESTION_V1_QUESTIONS := topic_log w QUESTION_V1_QUESTIONS @
      map (\<lambda>u. buff_of (marshal_Questions P \<lparr>pb_QuestionsMatchId = mu_Id u, pb_Questions = []\<rparr>)) us)"
proof -
  let ?repo = "QuestionRepository db" and ?us = "map to_question_match us"
  let ?m = "for_each ?us (publish_questions P ?repo (KafkaBroker s))"
  have same: "snd (run_state (qr_GetRandomQuestions ?repo c d n) w) = w"
    and none: "fst (fst (run_state (qr_GetRandomQuestions ?repo c d n) w)) = []" for c d n w
    using down by (simp_all add: QuestionRepository_def GetRandomQuestions_repo_def bb_run)
  have keep: "keeps topic_log (qr_GetRandomQuestions ?repo c d n)" for c d n
    by (simp add: keeps_def same)
  have sends: "fst (run_state (br_Publish (KafkaBroker s) t m) w) = None" for t m w
    using deliver(2) by (simp add: KafkaBroker_def run_Publish)
  have msg: "questions_message P (to_question_match u) (questions_at ?repo (to_question_match u) w1) =
      buff_of (marshal_Questions P \<lparr>pb_QuestionsMatchId = mu_Id u, pb_Questions = []\<rparr>)" for u w1
    by (simp add: questions_message_def questions_at_def none MapQuestionsToProtoMessage_def to_question_match_def)
  have run: "run_state (question_ConsumeMatchCreated P ?repo (KafkaBroker s) m) w = (None, snd (run_state ?m w))"
    using proto_okD(1) [OF codec] match_to_question.dec_enc [OF known]
    by (simp add: question_ConsumeMatchCreated_def bb_run case_prod_beta)
  obtain ws where len: "length ws = length ?us" and log: "topic_log (snd (run_state ?m w)) =
      (topic_log w)(QUESTION_V1_QUESTIONS := topic_log w QUESTION_V1_QUESTIONS @
        map (\<lambda>(u, w'). questions_message P u (questions_at ?repo u w')) (zip ?us ws))"
    using kafka.publish_questions_all [OF deliver(1) keep deliver(1) sends] by blast
  have "map (\<lambda>(u, w'). questions_message P u (questions_at ?repo u w')) (zip ?us ws) =
      map (\<lambda>(u, w'). buff_of (marshal_Questions P \<lparr>pb_QuestionsMatchId = mu_Id u, pb_Questions = []\<rparr>)) (zip us ws)"
    by (simp add: zip_map1 case_prod_beta msg)
  also have "\<dots> = map (\<lambda>u. buff_of (marshal_Questions P \<lparr>pb_QuestionsMatchId = mu_Id u, pb_Questions = []\<rparr>)) us"
    using len by (intro map2_fst) simp
  finally show ?thesis using run log by (intro exI conjI) auto
qed

end
