(* ===== verification/Question_Witnesses.thy ===== *)
theory Question_Witnesses
  imports Question_Service Reference_World
begin

text \<open>
  The theorems about the question service applied to the concrete world: a database that
  answers with one question, and one that fails.
\<close>

definition ref_question :: question_Question where
  "ref_question = \<lparr>qq_Id = ''q1'', qq_Content = ''2 + 2'', qq_CorrectAnswer = ''4'', qq_Choices = [''3'', ''4''],
     qq_Category = CategoryTypeTech, qq_Difficulty = DifficultEasy\<rparr>"

definition ref_question_db :: "world question_db" where
  "ref_question_db = \<lparr>qd_Prepare = (\<lambda>_. ret None), qd_QuerySeen = (\<lambda>_ _. ret (Inr ([], None))),
     qd_QueryUnseen = (\<lambda>_ _ _ _. ret (Inr ([Inr ref_question], None))),
     qd_QueryRandom = (\<lambda>_ _ _ _. ret (Inr ([Inr ref_question], None)))\<rparr>"

definition ref_question_db_down :: "world question_db" where
  "ref_question_db_down = ref_question_db\<lparr>qd_QueryRandom := (\<lambda>_ _ _ _. ret (Inl (PlainErr ''down'')))\<rparr>"

definition ref_round :: "MatchedUsers list" where
  "ref_round = [\<lparr>mu_Id = ''m1'', mu_Category = [CategoryTypeTech], mu_UserId = [1, 2]\<rparr>]"

definition ref_question_proto :: proto_codec where
  "ref_question_proto = table_proto [(MapFromEntityToProtoMessage ref_round, ''round'')] []
     [(MapQuestionsToProtoMessage ''m1'' [ref_question], ''questions''),
      (MapQuestionsToProtoMessage ''m1'' [], ''none'')]"

lemma ref_question_proto_ok: "proto_ok ref_question_proto"
  unfolding ref_question_proto_def by (rule table_proto_ok) simp_all

lemma ref_round_marshals: "marshal_AllMatchedUsers ref_question_proto (MapFromEntityToProtoMessage ref_round) = Inr ''round''"
  by (simp add: ref_question_proto_def table_proto_def table_marshal_def)

lemma ref_round_known: "\<forall>u \<in> set ref_round. set (mu_Category u) \<subseteq> set GetCategories"
  by (simp add: ref_round_def GetCategories_def)

lemma ref_sends: "fst (run_state (sr_SendMessage ref_sarama t m) w) = None"
  by (simp add: ref_sarama_def)

lemma ref_question_db_keeps: "keeps topic_log (GetRandomQuestions_repo ref_question_db c d n)"
  by (simp add: keeps_def GetRandomQuestions_repo_def ref_question_db_def bb_run)

lemma questions_for_each_match_witness:
  "\<exists>w' ws. run_state (question_ConsumeMatchCreated ref_question_proto (QuestionRepository ref_question_db)
      (KafkaBroker ref_sarama) ''round'') world0 = (None, w') \<and> length ws = length ref_round \<and>
    w_topics w' = (w_topics world0)(QUESTION_V1_QUESTIONS := w_topics world0 QUESTION_V1_QUESTIONS @
      map (\<lambda>(u, w1). questions_message ref_question_proto (to_question_match u)
         (questions_at (QuestionRepository ref_question_db) (to_question_match u) w1)) (zip ref_round ws))"
  by (rule questions_for_each_match [OF ref_sarama_delivers ref_sends ref_question_db_keeps
      ref_question_proto_ok ref_round_marshals ref_round_known]) (rule refl)

lemma ref_question_db_down_fails: "run_state (qd_QueryRandom ref_question_db_down q c d n) w = (Inl (PlainErr ''down''), w)"
  by (simp add: ref_question_db_down_def bb_run)

lemma no_questions_on_failure_witness:
  "\<exists>w'. run_state (question_ConsumeMatchCreated ref_question_proto (QuestionRepository ref_question_db_down)
      (KafkaBroker ref_sarama) ''round'') world0 = (None, w') \<and>
    w_topics w' = (w_topics world0)(QUESTION_V1_QUESTIONS := w_topics world0 QUESTION_V1_QUESTIONS @
      map (\<lambda>u. buff_of (marshal_Questions ref_question_proto \<lparr>pb_QuestionsMatchId = mu_Id u, pb_Questions = []\<rparr>)) ref_round)"
  by (rule no_questions_on_failure [OF ref_sarama_delivers ref_sends ref_question_db_down_fails
      ref_question_proto_ok ref_round_marshals ref_round_known]) (rule refl)

end
