(* ===== verification/Go_Time.thy ===== *)
theory Go_Time
  imports Go_Strconv Go_Float
begin

text \<open>
  Go's package \<open>time\<close>, as far as the game service uses it: the zero time, adding and
  subtracting, durations in seconds and milliseconds, and the text of a UTC time in RFC 3339
  with nanoseconds, which is how \<open>encoding/json\<close> writes a \<open>time.Time\<close>. The text of a time
  between the years 0 and 9999 reads back as the same time.
\<close>

section \<open>Times and durations\<close>

definition zero_time :: gotime where
  "zero_time = - 62135596800 * nanosecond_per_second"

definition time_Add :: "gotime \<Rightarrow> duration \<Rightarrow> gotime" where
  "time_Add t d = t + d"

text \<open>\<open>t.Sub(u)\<close> saturates at the least and the greatest duration.\<close>

definition time_Sub :: "gotime \<Rightarrow> gotime \<Rightarrow> duration" where
  "time_Sub t u = max (- (2 ^ 63)) (min (2 ^ 63 - 1) (t - u))"

definition After :: "gotime \<Rightarrow> gotime \<Rightarrow> bool" where
  "After t u \<longleftrightarrow> u < t"

definition Milliseconds :: "duration \<Rightarrow> int" where
  "Milliseconds d = go_div d 1000000"

text \<open>\<open>d.Seconds()\<close>: the whole seconds plus the rest, each rounded to a \<open>float64\<close>.\<close>

definition Seconds :: "duration \<Rightarrow> float64" where
  "Seconds d =
     (let sec = go_div d nanosecond_per_second; nsec = d - sec * nanosecond_per_second
      in fadd (float64_of_int sec) (fdiv (float64_of_int nsec) 1000000000))"

lemma time_Sub_small: "- (2 ^ 63) \<le> t - u \<Longrightarrow> t - u < 2 ^ 63 \<Longrightarrow> time_Sub t u = t - u"
  by (simp add: time_Sub_def)

lemma time_Sub_mono: "u' \<le> u \<Longrightarrow> time_Sub t u \<le> time_Sub t u'"
  unfolding time_Sub_def by (intro max.mono min.mono) simp_all

lemma time_Sub_nonneg: "u \<le> t \<Longrightarrow> 0 \<le> time_Sub t u"
  by (simp add: time_Sub_def)

lemma Milliseconds_mono:
  assumes "0 \<le> d" and "d \<le> e"
  shows "Milliseconds d \<le> Milliseconds e"
  using assms by (simp add: Milliseconds_def go_div_nonneg zdiv_mono1)

lemma Seconds_nonneg_eq:
  assumes "0 \<le> d"
  shows "Seconds d = fadd (float64_of_int (d div 1000000000)) (fdiv (float64_of_int (d mod 1000000000)) 1000000000)"
  using assms by (simp add: Seconds_def go_div_nonneg Let_def minus_div_mult_eq_mod)

lemma fraction_bounds:
  assumes "0 \<le> n" and "n < 1000000000"
  shows "0 \<le> fdiv (float64_of_int n) 1000000000" "fdiv (float64_of_int n) 1000000000 \<le> 1"
proof -
  have n: "float64_of_int n = of_int n"
    using assms by (intro float64_of_int_exact) simp_all
  have q: "0 \<le> (of_int n :: rat) / 1000000000" "(of_int n :: rat) / 1000000000 \<le> of_int 1"
    using assms by (simp_all add: pos_divide_le_eq)
  then show "0 \<le> fdiv (float64_of_int n) 1000000000" by (simp add: fdiv_def n round53_nonneg)
  show "fdiv (float64_of_int n) 1000000000 \<le> 1"
    using round53_le_int [OF q] by (simp add: fdiv_def n)
qed

lemma Seconds_nonneg: "0 \<le> d \<Longrightarrow> 0 \<le> Seconds d"
  unfolding Seconds_nonneg_eq fadd_def
  by (intro round53_nonneg add_nonneg_nonneg float64_of_int_nonneg fraction_bounds)
    (simp_all add: pos_imp_zdiv_nonneg_iff)

text \<open>Whole seconds are exact up to \<open>2 ^ 53\<close>, more than any duration has.\<close>

lemma Seconds_mono:
  assumes "0 \<le> d" and "d \<le> e" and "e < 2 ^ 63"
  shows "Seconds d \<le> Seconds e"
proof -
  let ?s = "\<lambda>x :: int. x div 1000000000" and ?n = "\<lambda>x :: int. x mod 1000000000"
  let ?f = "\<lambda>x :: int. fdiv (float64_of_int (?n x)) 1000000000"
  have s: "?s d \<le> ?s e" using assms by (intro zdiv_mono1) simp_all
  have pos: "0 \<le> ?s d" using assms by (simp add: pos_imp_zdiv_nonneg_iff)
  have lt: "?s e < 2 ^ 53" using assms by (simp add: div_less_iff_less_mult)
  have exact: "float64_of_int (?s d) = of_int (?s d)" "float64_of_int (?s e) = of_int (?s e)"
    using s pos lt by (simp_all add: float64_of_int_exact)
  have f: "0 \<le> ?f d" "?f d \<le> 1" "0 \<le> ?f e" by (intro fraction_bounds; simp)+
  have "of_int (?s d) + ?f d \<le> of_int (?s e) + ?f e"
  proof (cases "?s d = ?s e")
    case True
    have "d - ?s d * 1000000000 \<le> e - ?s e * 1000000000" using assms(2) True by simp
    then have "?n d \<le> ?n e" by (simp only: minus_div_mult_eq_mod)
    then have "float64_of_int (?n d) / 1000000000 \<le> float64_of_int (?n e) / 1000000000"
      by (intro divide_right_mono float64_of_int_mono) simp_all
    then have "?f d \<le> ?f e"
      unfolding fdiv_def by (intro round53_mono divide_nonneg_nonneg float64_of_int_nonneg) simp_all
    with True show ?thesis by simp
  next
    case False
    with s have "?s d + 1 \<le> ?s e" by simp
    then have "(of_int (?s d) :: rat) + 1 \<le> of_int (?s e)" by (metis of_int_add of_int_1 of_int_le_iff)
    then show ?thesis using f by linarith
  qed
  then show ?thesis
    using assms(1,2) f(1) pos unfolding Seconds_nonneg_eq [OF assms(1)]
      Seconds_nonneg_eq [OF order.trans [OF assms(1,2)]] exact fadd_def
    by (intro round53_mono add_nonneg_nonneg) simp_all
qed

lemma Seconds_whole: "0 \<le> n \<Longrightarrow> n \<le> 2 ^ 53 \<Longrightarrow> Seconds (n * nanosecond_per_second) = of_int n"
  by (simp add: Seconds_nonneg_eq float64_of_int_exact fadd_def fdiv_def round53_of_int)

section \<open>The calendar\<close>

definition leap :: "int \<Rightarrow> bool" where
  "leap y \<longleftrightarrow> y mod 4 = 0 \<and> (y mod 100 \<noteq> 0 \<or> y mod 400 = 0)"

text \<open>Days from the first day of year 1 to the first day of year \<open>y\<close>, and back.\<close>

definition days_before_year :: "int \<Rightarrow> int" where
  "days_before_year y = (let n = y - 1 in 365 * n + n div 4 - n div 100 + n div 400)"

definition year_of_day :: "int \<Rightarrow> int" where
  "year_of_day d =
     (let y = d * 400 div 146097 + 1
      in if d < days_before_year y then y - 1
         else if days_before_year (y + 1) \<le> d then y + 1 else y)"

lemma div_Suc:
  fixes n k :: int
  assumes "0 < k"
  shows "(n + 1) div k = n div k + (if (n + 1) mod k = 0 then 1 else 0)"
proof -
  have n: "n = k * (n div k) + n mod k" by simp
  have r: "0 \<le> n mod k" "n mod k < k" using assms by simp_all
  show ?thesis
  proof (cases "n mod k + 1 < k")
    case True
    with r n have "(n + 1) div k = n div k" "(n + 1) mod k = n mod k + 1"
      by (auto intro!: int_div_pos_eq [where r = "n mod k + 1"] int_mod_pos_eq [where q = "n div k"])
    with r show ?thesis by simp
  next
    case False
    with r have "n mod k + 1 = k" by simp
    moreover have "k * (n div k + 1) = k * (n div k) + k" by (simp add: distrib_left)
    ultimately have eq: "n + 1 = k * (n div k + 1) + 0" using n by linarith
    then have "(n + 1) div k = n div k + 1" using assms by (intro int_div_pos_eq [OF eq]) simp_all
    moreover have "(n + 1) mod k = 0" using assms by (intro int_mod_pos_eq [OF eq]) simp_all
    ultimately show ?thesis by simp
  qed
qed

lemma div_bounds: fixes m k :: int
  shows "0 < k \<Longrightarrow> k * (m div k) \<le> m" "0 < k \<Longrightarrow> m < k * (m div k) + k"
  using mult_div_mod_eq [of k m] pos_mod_sign [of k m] pos_mod_bound [of k m] by linarith+

lemma days_in_year: "days_before_year (y + 1) = days_before_year y + (if leap y then 366 else 365)"
proof -
  define a b c where "a = (if y mod 4 = 0 then 1 else 0 :: int)"
    and "b = (if y mod 100 = 0 then 1 else 0 :: int)" and "c = (if y mod 400 = 0 then 1 else 0 :: int)"
  have "y div 4 = (y - 1) div 4 + a" "y div 100 = (y - 1) div 100 + b" "y div 400 = (y - 1) div 400 + c"
    using div_Suc [of 4 "y - 1"] div_Suc [of 100 "y - 1"] div_Suc [of 400 "y - 1"]
    unfolding a_def b_def c_def by (simp_all only: diff_add_cancel zero_less_numeral simp_thms)
  note steps = this
  have "365 * y + (p + a) - (q + b) + (r + c) = 365 * (y - 1) + p - q + r + 365 + a - b + c" for p q r
    by simp
  then have "days_before_year (y + 1) = days_before_year y + 365 + a - b + c"
    unfolding days_before_year_def Let_def add_diff_cancel_right' steps .
  moreover have "y mod 400 = 0 \<Longrightarrow> y mod 100 = 0"
    using dvd_trans [of 100 400 y] by (simp add: mod_eq_0_iff_dvd)
  moreover have "y mod 100 = 0 \<Longrightarrow> y mod 4 = 0"
    by presburger
  ultimately show ?thesis unfolding leap_def a_def b_def c_def by (cases "y mod 4 = 0"; cases "y mod 100 = 0"; cases "y mod 400 = 0") simp_all
qed

lemma year_of_day_bounds:
  "days_before_year (year_of_day d) \<le> d \<and> d < days_before_year (year_of_day d + 1)"
proof -
  define n where "n = d * 400 div 146097"
  have n: "146097 * n \<le> d * 400" "d * 400 < 146097 * n + 146097"
    using div_bounds [of 146097 "d * 400"] by (simp_all add: n_def)
  have b: "4 * (m div 4) \<le> m" "m < 4 * (m div 4) + 4" "100 * (m div 100) \<le> m" "m < 100 * (m div 100) + 100"
    "400 * (m div 400) \<le> m" "m < 400 * (m div 400) + 400" for m :: int
    using div_bounds [of 4 m] div_bounds [of 100 m] div_bounds [of 400 m] by simp_all
  have step: "days_before_year y + 365 \<le> days_before_year (y + 1)" for y by (simp add: days_in_year)
  have lo: "days_before_year (n + 1) \<le> d + 1"
    using b [of n] n by (simp add: days_before_year_def Let_def)
  have hi: "d < days_before_year (n + 1 + 1) + 2"
    using b [of "n + 1"] n by (simp add: days_before_year_def Let_def)
  have y: "year_of_day d = (if d < days_before_year (n + 1) then n + 1 - 1
      else if days_before_year (n + 1 + 1) \<le> d then n + 1 + 1 else n + 1)"
    by (simp add: year_of_day_def n_def Let_def)
  show ?thesis
    using lo hi step [of n] step [of "n + 1 + 1"] unfolding y by (auto simp: algebra_simps)
qed

text \<open>Days of the months, and the month and day of a day of the year, counted from 0.\<close>

definition month_days :: "int \<Rightarrow> int list" where
  "month_days y = [31, if leap y then 29 else 28, 31, 30, 31, 30, 31, 31, 30, 31, 30, 31]"

fun find_month :: "int list \<Rightarrow> int \<Rightarrow> int \<Rightarrow> int \<times> int" where
  "find_month [] m d = (m, d)"
| "find_month (n # ns) m d = (if d < n then (m, d) else find_month ns (m + 1) (d - n))"

definition days_of_date :: "int \<Rightarrow> int \<Rightarrow> int \<Rightarrow> int" where
  "days_of_date y m d = days_before_year y + sum_list (take (nat (m - 1)) (month_days y)) + (d - 1)"

definition valid_date :: "int \<Rightarrow> int \<Rightarrow> int \<Rightarrow> bool" where
  "valid_date y m d \<longleftrightarrow> 1 \<le> m \<and> m \<le> 12 \<and> 1 \<le> d \<and> d \<le> month_days y ! nat (m - 1)"

definition date_of_day :: "int \<Rightarrow> int \<times> int \<times> int" where
  "date_of_day n = (let y = year_of_day n
     in case find_month (month_days y) 1 (n - days_before_year y) of (m, d) \<Rightarrow> (y, m, d + 1))"

lemma find_month_bounds:
  assumes "0 \<le> d" and "d < sum_list ns"
  shows "\<exists>i < length ns. \<exists>r. find_month ns m d = (m + int i, r) \<and> 0 \<le> r \<and> r < ns ! i \<and> d = sum_list (take i ns) + r"
  using assms
proof (induction ns arbitrary: m d)
  case (Cons n ns)
  show ?case
  proof (cases "d < n")
    case True
    with Cons.prems show ?thesis by (intro exI [of _ 0]) simp
  next
    case False
    with Cons.prems have "0 \<le> d - n" "d - n < sum_list ns" by simp_all
    from Cons.IH [OF this, of "m + 1"] obtain i r where i: "i < length ns"
      "find_month ns (m + 1) (d - n) = (m + 1 + int i, r)" "0 \<le> r" "r < ns ! i" "d - n = sum_list (take i ns) + r"
      by blast
    with False show ?thesis by (intro exI [of _ "Suc i"]) auto
  qed
qed simp

lemma date_of_day_correct:
  assumes "date_of_day n = (y, m, d)"
  shows "y = year_of_day n" "valid_date y m d" "days_of_date y m d = n"
proof -
  show y: "y = year_of_day n"
    using assms by (simp add: date_of_day_def Let_def split: prod.splits)
  let ?r = "n - days_before_year y"
  have "0 \<le> ?r" "?r < sum_list (month_days y)"
    using year_of_day_bounds [of n] unfolding y days_in_year
    by (auto simp: month_days_def split: if_splits)
  from find_month_bounds [OF this, of 1] obtain i r where i: "i < length (month_days y)"
    "find_month (month_days y) 1 ?r = (1 + int i, r)" "0 \<le> r" "r < month_days y ! i" "?r = sum_list (take i (month_days y)) + r"
    by blast
  with assms y have md: "m = 1 + int i" "d = r + 1" by (simp_all add: date_of_day_def Let_def)
  have "length (month_days y) = 12" by (simp add: month_days_def)
  with i md show "valid_date y m d" "days_of_date y m d = n" by (simp_all add: valid_date_def days_of_date_def)
qed

lemma year_range: "0 \<le> n \<Longrightarrow> 1 \<le> year_of_day n"
  "n < 3652059 \<Longrightarrow> year_of_day n \<le> 9999"
proof -
  have step: "days_before_year z \<le> days_before_year (z + 1)" for z
    by (simp add: days_in_year)
  have "days_before_year y \<le> days_before_year (y + int k)" for y k
  proof (induction k)
    case (Suc k)
    have "y + int (Suc k) = y + int k + 1" by simp
    with Suc step [of "y + int k"] show ?case by (simp only:)
  qed simp
  note mono = this
  have ge: "days_before_year y \<le> days_before_year z" if "y \<le> z" for y z
    using mono [of y "nat (z - y)"] that by simp
  have b: "days_before_year 1 = 0" "days_before_year 10000 = 3652059" by (simp_all add: days_before_year_def)
  show "1 \<le> year_of_day n" if "0 \<le> n"
    using year_of_day_bounds [of n] ge [of "year_of_day n + 1" 1] b that by linarith
  show "year_of_day n \<le> 9999" if "n < 3652059"
    using year_of_day_bounds [of n] ge [of 10000 "year_of_day n"] b that by linarith
qed

section \<open>The text of a time\<close>

primrec pad :: "nat \<Rightarrow> nat \<Rightarrow> string" where
  "pad 0 n = []"
| "pad (Suc k) n = pad k (n div 10) @ [digit_char (n mod 10)]"

definition digits_value :: "string \<Rightarrow> nat" where
  "digits_value s = foldl (\<lambda>a c. 10 * a + digit_val c) 0 s"

lemma length_pad [simp]: "length (pad k n) = k"
  by (induction k arbitrary: n) simp_all

lemma pad_is_digit: "c \<in> set (pad k n) \<Longrightarrow> is_digit c"
  by (induction k arbitrary: n) auto

lemma digits_value_pad: "n < 10 ^ k \<Longrightarrow> digits_value (pad k n) = n"
proof (induction k arbitrary: n)
  case (Suc k)
  then have "n div 10 < 10 ^ k" by (simp add: div_less_iff_less_mult mult.commute)
  then have "digits_value (pad k (n div 10)) = n div 10" by (rule Suc.IH)
  then show ?case by (simp add: digits_value_def)
qed (simp add: digits_value_def)

definition strip_zeros :: "string \<Rightarrow> string" where
  "strip_zeros s = rev (dropWhile (\<lambda>c. c = CHR ''0'') (rev s))"

definition fraction_text :: "nat \<Rightarrow> string" where
  "fraction_text ns = (if ns = 0 then [] else CHR ''.'' # strip_zeros (pad 9 ns))"

definition seconds_per_day :: int where
  "seconds_per_day = 86400"

text \<open>Days from the first day of year 1 to the first of January 1970.\<close>

definition unix_epoch_day :: int where
  "unix_epoch_day = 719162"

definition RFC3339Nano :: "gotime \<Rightarrow> string option" where
  "RFC3339Nano t =
     (let secs = t div nanosecond_per_second; ns = t mod nanosecond_per_second;
          sod = nat (secs mod seconds_per_day)
      in case date_of_day (secs div seconds_per_day + unix_epoch_day) of (y, m, d) \<Rightarrow>
           if y < 0 \<or> 9999 < y then None
           else Some (pad 4 (nat y) @ CHR ''-'' # pad 2 (nat m) @ CHR ''-'' # pad 2 (nat d) @ CHR ''T'' #
             pad 2 (sod div 3600) @ CHR '':'' # pad 2 (sod div 60 mod 60) @ CHR '':'' # pad 2 (sod mod 60) @
             fraction_text (nat ns) @ ''Z''))"

definition parse_fraction :: "string \<Rightarrow> nat option" where
  "parse_fraction s =
     (if s = ''Z'' then Some 0
      else case s of [] \<Rightarrow> None
        | c # fs \<Rightarrow> (let ds = takeWhile is_digit fs
            in if c = CHR ''.'' \<and> ds \<noteq> [] \<and> dropWhile is_digit fs = ''Z''
               then Some (digits_value (take 9 (ds @ replicate 9 (CHR ''0'')))) else None))"

text \<open>Only the form with \<open>Z\<close> is read, which is the one the service writes.\<close>

definition parse_RFC3339 :: "string \<Rightarrow> gotime option" where
  "parse_RFC3339 s =
     (let part = (\<lambda>i n. take n (drop i s)); num = (\<lambda>i n. int (digits_value (part i n)));
          y = num 0 4; m = num 5 2; d = num 8 2; hh = num 11 2; mm = num 14 2; ss = num 17 2
      in if 20 \<le> length s \<and> s ! 4 = CHR ''-'' \<and> s ! 7 = CHR ''-'' \<and> s ! 10 = CHR ''T'' \<and>
            s ! 13 = CHR '':'' \<and> s ! 16 = CHR '':'' \<and>
            list_all is_digit (part 0 4 @ part 5 2 @ part 8 2 @ part 11 2 @ part 14 2 @ part 17 2) \<and>
            valid_date y m d \<and> hh < 24 \<and> mm < 60 \<and> ss < 60
         then case parse_fraction (drop 19 s) of
                None \<Rightarrow> None
              | Some ns \<Rightarrow> Some (((days_of_date y m d - unix_epoch_day) * seconds_per_day +
                  hh * 3600 + mm * 60 + ss) * nanosecond_per_second + int ns)
         else None)"

lemma strip_zeros_append: "\<exists>k. s = strip_zeros s @ replicate k (CHR ''0'')"
proof -
  let ?w = "takeWhile (\<lambda>c. c = CHR ''0'') (rev s)"
  have w: "replicate (length ?w) (CHR ''0'') = ?w"
    by (rule replicate_length_same) (auto dest: set_takeWhileD)
  have "s = rev (?w @ dropWhile (\<lambda>c. c = CHR ''0'') (rev s))"
    by (simp only: takeWhile_dropWhile_id rev_rev_ident)
  also have "\<dots> = strip_zeros s @ rev ?w"
    by (simp only: rev_append strip_zeros_def)
  also have "rev ?w = replicate (length ?w) (CHR ''0'')"
    by (subst w [symmetric]) (simp only: rev_replicate)
  finally show ?thesis ..
qed

lemma strip_zeros_is_digit: "list_all is_digit s \<Longrightarrow> list_all is_digit (strip_zeros s)"
  by (auto simp: strip_zeros_def list_all_iff dest: set_dropWhileD)

lemma digits_value_zeros: "digits_value (replicate k (CHR ''0'')) = 0"
  by (induction k) (simp_all add: digits_value_def digit_val_def)

lemma pad_list_all [simp]: "list_all is_digit (pad k n)"
  by (auto simp: list_all_iff dest: pad_is_digit)

lemma strip_zeros_not_Nil:
  assumes "n < 10 ^ k" and "n \<noteq> 0"
  shows "strip_zeros (pad k n) \<noteq> []"
proof
  assume "strip_zeros (pad k n) = []"
  then obtain j where "pad k n = replicate j (CHR ''0'')"
    using strip_zeros_append [of "pad k n"] by auto
  then show False
    using digits_value_pad [OF assms(1)] assms(2) digits_value_zeros [of j] by simp
qed

lemma strip_zeros_refill:
  assumes "length s = k"
  shows "take k (strip_zeros s @ replicate k (CHR ''0'')) = s"
proof -
  obtain j where j: "s = strip_zeros s @ replicate j (CHR ''0'')"
    using strip_zeros_append by blast
  have "length s = length (strip_zeros s) + j" by (subst j) simp
  then have "take (k - length (strip_zeros s)) (replicate k (CHR ''0'')) = replicate j (CHR ''0'')"
    using assms by simp
  moreover have "length (strip_zeros s) \<le> k"
    using \<open>length s = length (strip_zeros s) + j\<close> assms by simp
  ultimately show ?thesis using j by (simp add: take_append)
qed

lemma span_digits:
  assumes "list_all is_digit s" and "\<not> is_digit c"
  shows "takeWhile is_digit (s @ [c]) = s" "dropWhile is_digit (s @ [c]) = [c]"
  using assms by (induction s) auto

lemma parse_fraction_text:
  assumes "ns < 10 ^ 9"
  shows "parse_fraction (fraction_text ns @ ''Z'') = Some ns"
proof (cases "ns = 0")
  case False
  let ?z = "strip_zeros (pad 9 ns)"
  have z: "?z \<noteq> []" using strip_zeros_not_Nil [OF assms False] .
  have "\<not> is_digit (CHR ''Z'')" by (simp add: is_digit_def)
  note span = span_digits [OF strip_zeros_is_digit [OF pad_list_all] this]
  have "digits_value (take 9 (?z @ replicate 9 (CHR ''0''))) = ns"
    unfolding strip_zeros_refill [OF length_pad] by (rule digits_value_pad [OF assms])
  with False z show ?thesis
    by (simp only: parse_fraction_def fraction_text_def if_False append_Cons list.case Let_def span
        list.inject char.inject) simp
qed (simp add: fraction_text_def parse_fraction_def)

lemma split_fields:
  fixes a b c d e f r :: string
  assumes "length a = 4" "length b = 2" "length c = 2" "length d = 2" "length e = 2" "length f = 2"
  defines "s \<equiv> a @ CHR ''-'' # b @ CHR ''-'' # c @ CHR ''T'' # d @ CHR '':'' # e @ CHR '':'' # f @ r"
  shows "take 4 (drop 0 s) = a" "take 2 (drop 5 s) = b" "take 2 (drop 8 s) = c" "take 2 (drop 11 s) = d"
    "take 2 (drop 14 s) = e" "take 2 (drop 17 s) = f" "drop 19 s = r" "length s = 19 + length r"
    "s ! 4 = CHR ''-''" "s ! 7 = CHR ''-''" "s ! 10 = CHR ''T''" "s ! 13 = CHR '':''" "s ! 16 = CHR '':''"
proof -
  obtain a1 a2 a3 a4 where "a = [a1, a2, a3, a4]"
    using assms(1) by (auto simp: length_Suc_conv numeral_eq_Suc)
  moreover obtain b1 b2 c1 c2 d1 d2 e1 e2 f1 f2
    where "b = [b1, b2]" "c = [c1, c2]" "d = [d1, d2]" "e = [e1, e2]" "f = [f1, f2]"
    using assms(2-6) by (auto simp: length_Suc_conv numeral_eq_Suc)
  ultimately have s: "s = a1 # a2 # a3 # a4 # CHR ''-'' # b1 # b2 # CHR ''-'' # c1 # c2 # CHR ''T'' # d1 # d2 #
      CHR '':'' # e1 # e2 # CHR '':'' # f1 # f2 # r"
    and f: "a = [a1, a2, a3, a4]" "b = [b1, b2]" "c = [c1, c2]" "d = [d1, d2]" "e = [e1, e2]" "f = [f1, f2]"
    by (simp_all add: s_def)
  show "take 4 (drop 0 s) = a" "take 2 (drop 5 s) = b" "take 2 (drop 8 s) = c" "take 2 (drop 11 s) = d"
    "take 2 (drop 14 s) = e" "take 2 (drop 17 s) = f" "drop 19 s = r" "length s = 19 + length r"
    "s ! 4 = CHR ''-''" "s ! 7 = CHR ''-''" "s ! 10 = CHR ''T''" "s ! 13 = CHR '':''" "s ! 16 = CHR '':''"
    by (simp_all only: s f) simp_all
qed

text \<open>A time of day in hours, minutes and seconds.\<close>

lemma time_of_day:
  fixes n :: nat
  assumes "n < 86400"
  shows "n div 3600 < 24" "n div 3600 * 3600 + n div 60 mod 60 * 60 + n mod 60 = n"
proof -
  show "n div 3600 < 24" using assms by (simp add: div_less_iff_less_mult)
  have "n div 3600 = n div 60 div 60" by (simp add: div_mult2_eq [symmetric])
  moreover have "n div 60 div 60 * 60 + n div 60 mod 60 = n div 60" by simp
  moreover have "n div 60 * 60 + n mod 60 = n" by simp
  ultimately show "n div 3600 * 3600 + n div 60 mod 60 * 60 + n mod 60 = n" by linarith
qed

theorem parse_RFC3339Nano:
  assumes "RFC3339Nano t = Some s"
  shows "parse_RFC3339 s = Some t"
proof -
  let ?secs = "t div nanosecond_per_second" and ?ns = "nat (t mod nanosecond_per_second)"
  let ?sod = "nat (?secs mod seconds_per_day)"
  obtain y m d where date: "date_of_day (?secs div seconds_per_day + unix_epoch_day) = (y, m, d)"
    by (cases "date_of_day (?secs div seconds_per_day + unix_epoch_day)")
  have y: "0 \<le> y" "y \<le> 9999" and s: "s = pad 4 (nat y) @ CHR ''-'' # pad 2 (nat m) @ CHR ''-'' # pad 2 (nat d) @ CHR ''T'' #
      pad 2 (?sod div 3600) @ CHR '':'' # pad 2 (?sod div 60 mod 60) @ CHR '':'' # pad 2 (?sod mod 60) @
      (fraction_text ?ns @ ''Z'')"
    using assms date by (auto simp: RFC3339Nano_def Let_def split: if_splits)
  note fields = split_fields [OF length_pad length_pad length_pad length_pad length_pad length_pad,
      of "nat y" "nat m" "nat d" "?sod div 3600" "?sod div 60 mod 60" "?sod mod 60" "fraction_text ?ns @ ''Z''", folded s]
  note valid = date_of_day_correct(2) [OF date] and days = date_of_day_correct(3) [OF date]
  have "month_days y ! nat (m - 1) \<le> 31"
  proof -
    have "nat (m - 1) < 12" using valid by (auto simp: valid_date_def)
    then have "month_days y ! nat (m - 1) \<in> set (month_days y)" by (intro nth_mem) (simp add: month_days_def)
    then show ?thesis by (auto simp: month_days_def split: if_splits)
  qed
  then have md: "1 \<le> m" "m \<le> 12" "1 \<le> d" "d \<le> 31" using valid by (auto simp: valid_date_def)
  have sod: "?sod < 86400" by (simp add: seconds_per_day_def nat_less_iff)
  have tod: "int (?sod div 3600) * 3600 + int (?sod div 60 mod 60) * 60 + int (?sod mod 60) = int ?sod"
    using arg_cong [OF time_of_day(2) [OF sod], of int] by (simp only: of_nat_add of_nat_mult of_nat_numeral)
  have vals: "int (digits_value (pad 4 (nat y))) = y" "int (digits_value (pad 2 (nat m))) = m"
    "int (digits_value (pad 2 (nat d))) = d" "digits_value (pad 2 (?sod div 3600)) = ?sod div 3600"
    "digits_value (pad 2 (?sod div 60 mod 60)) = ?sod div 60 mod 60" "digits_value (pad 2 (?sod mod 60)) = ?sod mod 60"
    using y md time_of_day(1) [OF sod] by (subst digits_value_pad; simp)+
  have ns: "parse_fraction (fraction_text ?ns @ ''Z'') = Some ?ns"
    by (rule parse_fraction_text) (simp add: nat_less_iff)
  have len: "20 \<le> 19 + length (fraction_text ?ns @ ''Z'')" by simp
  have whole: "(?secs div seconds_per_day + unix_epoch_day - unix_epoch_day) * seconds_per_day + int ?sod = ?secs"
    by (simp add: seconds_per_day_def)
  have total: "a + int (?sod div 3600) * 3600 + int (?sod div 60 mod 60) * 60 + int (?sod mod 60) = a + int ?sod" for a
    using tod by simp
  have ranges: "int (?sod div 3600) < 24" "int (?sod div 60 mod 60) < 60" "int (?sod mod 60) < 60"
    using time_of_day(1) [OF sod] by linarith+
  show ?thesis
    unfolding parse_RFC3339_def Let_def fields vals ns days option.case total whole
    using valid ranges len by simp
qed

definition year_10000 :: gotime where
  "year_10000 = 253402300800 * nanosecond_per_second"

lemma RFC3339Nano_defined:
  assumes "zero_time \<le> t" and "t < year_10000"
  shows "\<exists>s. RFC3339Nano t = Some s"
proof -
  let ?n = "t div nanosecond_per_second div seconds_per_day + unix_epoch_day"
  have "- 62135596800 \<le> t div nanosecond_per_second" "t div nanosecond_per_second < 253402300800"
    using zdiv_mono1 [OF assms(1), of nanosecond_per_second] assms(2)
    by (simp_all add: zero_time_def year_10000_def div_less_iff_less_mult)
  then have "0 \<le> ?n" "?n < 3652059"
    by (simp_all add: seconds_per_day_def unix_epoch_day_def)
  then have "1 \<le> year_of_day ?n" "year_of_day ?n \<le> 9999" by (simp_all only: year_range)
  moreover obtain y m d where "date_of_day ?n = (y, m, d)" by (cases "date_of_day ?n")
  ultimately show ?thesis
    using date_of_day_correct(1) by (auto simp: RFC3339Nano_def Let_def)
qed

end
