(* ===== verification/Go_Json.thy ===== *)
theory Go_Json
  imports Go_Time App_Error
begin

text \<open>
  Go's package \<open>encoding/json\<close>, as far as the game service uses it: the text of a value, the
  reader of that text, and the decoding of a value into strings, integers, times, slices
  and structs. A value is a \<open>json\<close>; a number keeps its literal, as in Go. Writing escapes
  quotes, control characters, the three HTML characters, the two line separators of
  Unicode and bytes that are not UTF-8, and reading undoes it, so a text that was written
  reads back as the value it was written from. Error texts are not modelled.
\<close>

datatype json =
    JNull
  | JBool bool
  | JNum string
  | JStr bytes
  | JArr "json list"
  | JObj "(bytes \<times> json) list"

section \<open>UTF-8\<close>

abbreviation byte :: "char \<Rightarrow> nat" where
  "byte \<equiv> of_char"

definition byte_in :: "nat \<Rightarrow> nat \<Rightarrow> char \<Rightarrow> bool" where
  "byte_in lo hi c \<longleftrightarrow> lo \<le> byte c \<and> byte c \<le> hi"

text \<open>
  The length of the encoded character at the front of the bytes, 0 if there is none: the
  first byte gives the length and the range of the second one, the others continue it.
\<close>

definition rune_len :: "char \<Rightarrow> nat" where
  "rune_len c = (if byte c < 128 then 1 else if byte_in 194 223 c then 2
     else if byte_in 224 239 c then 3 else if byte_in 240 244 c then 4 else 0)"

definition second_ok :: "char \<Rightarrow> char \<Rightarrow> bool" where
  "second_ok c d = byte_in (if byte c = 224 then 160 else if byte c = 240 then 144 else 128)
     (if byte c = 237 then 159 else if byte c = 244 then 143 else 191) d"

definition continues :: "char \<Rightarrow> nat \<Rightarrow> bytes \<Rightarrow> bool" where
  "continues c k r \<longleftrightarrow> length r = k \<and> (case r of [] \<Rightarrow> True | d # r' \<Rightarrow> second_ok c d \<and> list_all (byte_in 128 191) r')"

definition utf8_size :: "bytes \<Rightarrow> nat" where
  "utf8_size s = (case s of [] \<Rightarrow> 0
     | c # r \<Rightarrow> if continues c (rune_len c - 1) (take (rune_len c - 1) r) then rune_len c else 0)"

definition utf8_encode :: "nat \<Rightarrow> bytes" where
  "utf8_encode v =
     (if v < 128 then [char_of v]
      else if v < 2048 then [char_of (192 + v div 64), char_of (128 + v mod 64)]
      else if v < 65536 then [char_of (224 + v div 4096), char_of (128 + v div 64 mod 64), char_of (128 + v mod 64)]
      else [char_of (240 + v div 262144), char_of (128 + v div 4096 mod 64), char_of (128 + v div 64 mod 64),
            char_of (128 + v mod 64)])"

definition RuneError :: bytes where
  "RuneError = utf8_encode 65533"

lemma utf8_size_Nil [simp]: "utf8_size [] = 0"
  by (simp add: utf8_size_def)

function utf8_valid :: "bytes \<Rightarrow> bool" where
  "utf8_valid s = (if s = [] then True else if utf8_size s = 0 then False else utf8_valid (drop (utf8_size s) s))"
  by pat_completeness auto
termination
  by (relation "measure length") auto

declare utf8_valid.simps [simp del]

lemma utf8_valid_Nil [simp]: "utf8_valid []"
  by (simp add: utf8_valid.simps)

lemma utf8_size_ascii: "byte c < 128 \<Longrightarrow> utf8_size (c # s) = 1"
  by (simp add: utf8_size_def rune_len_def continues_def)

lemma utf8_valid_ascii: "(\<And>c. c \<in> set s \<Longrightarrow> byte c < 128) \<Longrightarrow> utf8_valid s"
  by (induction s) (simp_all add: utf8_valid.simps [of "_ # _"] utf8_size_ascii)

text \<open>The bytes of a character of several bytes, whatever follows them.\<close>

lemma utf8_size_pos:
  assumes "0 < utf8_size (c # s)"
  shows "utf8_size (c # s) = rune_len c" "continues c (rune_len c - 1) (take (rune_len c - 1) s)"
    "rune_len c - 1 \<le> length s" "0 < rune_len c"
  using assms by (auto simp: utf8_size_def continues_def split: if_splits)

lemma utf8_size_take:
  assumes "0 < utf8_size (c # s)"
  shows "utf8_size (c # take (utf8_size (c # s) - 1) s @ t) = utf8_size (c # s)"
proof -
  note p = utf8_size_pos [OF assms]
  have "take (rune_len c - 1) (take (rune_len c - 1) s @ t) = take (rune_len c - 1) s"
    using p(3) by simp
  with p show ?thesis by (simp add: utf8_size_def)
qed

lemma continues_high: "continues c k r \<Longrightarrow> x \<in> set r \<Longrightarrow> 128 \<le> byte x"
  by (auto simp: continues_def second_ok_def byte_in_def list_all_iff split: list.splits if_splits)

section \<open>Strings\<close>

definition hex_digit :: "nat \<Rightarrow> char" where
  "hex_digit d = (if d < 10 then char_of (48 + d) else char_of (87 + d))"

definition u_escape :: "nat \<Rightarrow> string" where
  "u_escape v = [CHR 0x5C, CHR ''u'', hex_digit (v div 4096 mod 16), hex_digit (v div 256 mod 16),
     hex_digit (v div 16 mod 16), hex_digit (v mod 16)]"

definition escape_ascii :: "char \<Rightarrow> string" where
  "escape_ascii c =
     (if c = CHR 0x22 then [CHR 0x5C, CHR 0x22]
      else if c = CHR 0x5C then [CHR 0x5C, CHR 0x5C]
      else if c = CHR 0x08 then [CHR 0x5C, CHR ''b'']
      else if c = CHR 0x0C then [CHR 0x5C, CHR ''f'']
      else if c = CHR 0x0A then [CHR 0x5C, CHR ''n'']
      else if c = CHR 0x0D then [CHR 0x5C, CHR ''r'']
      else if c = CHR 0x09 then [CHR 0x5C, CHR ''t'']
      else if byte c < 32 \<or> c = CHR ''<'' \<or> c = CHR ''>'' \<or> c = CHR ''&'' then u_escape (byte c)
      else [c])"

definition line_separators :: "bytes list" where
  "line_separators = [utf8_encode 8232, utf8_encode 8233]"

function json_escape :: "bytes \<Rightarrow> string" where
  "json_escape [] = []"
| "json_escape (c # s) =
     (if byte c < 128 then escape_ascii c @ json_escape s
      else let n = utf8_size (c # s); r = take n (c # s) in
        if n = 0 then u_escape 65533 @ json_escape s
        else (if r = utf8_encode 8232 then u_escape 8232 else if r = utf8_encode 8233 then u_escape 8233 else r) @
             json_escape (drop (n - 1) s))"
  by pat_completeness auto
termination
  by (relation "measure length") auto

definition hex_val :: "char \<Rightarrow> nat option" where
  "hex_val c = (if is_digit c then Some (byte c - 48)
     else if byte_in 97 102 c then Some (byte c - 87) else if byte_in 65 70 c then Some (byte c - 55) else None)"

definition hex4 :: "char \<Rightarrow> char \<Rightarrow> char \<Rightarrow> char \<Rightarrow> nat option" where
  "hex4 a b c d = (case (hex_val a, hex_val b, hex_val c, hex_val d) of
     (Some w, Some x, Some y, Some z) \<Rightarrow> Some (w * 4096 + x * 256 + y * 16 + z) | _ \<Rightarrow> None)"

text \<open>A \<open>\u\<close> escape at the front of the text.\<close>

definition getu4 :: "string \<Rightarrow> nat option" where
  "getu4 s = (case s of b # u # a1 # a2 # a3 # a4 # _ \<Rightarrow>
      if b = CHR 0x5C \<and> u = CHR ''u'' then hex4 a1 a2 a3 a4 else None | _ \<Rightarrow> None)"

definition unescape :: "char \<Rightarrow> char option" where
  "unescape c = map_of [(CHR 0x22, CHR 0x22), (CHR 0x5C, CHR 0x5C), (CHR ''/'', CHR ''/''), (CHR ''b'', CHR 0x08),
     (CHR ''f'', CHR 0x0C), (CHR ''n'', CHR 0x0A), (CHR ''r'', CHR 0x0D), (CHR ''t'', CHR 0x09)] c"

definition push :: "bytes \<Rightarrow> (bytes \<times> string) option \<Rightarrow> (bytes \<times> string) option" where
  "push b r = (case r of None \<Rightarrow> None | Some (s, rest) \<Rightarrow> Some (b @ s, rest))"

text \<open>The string whose opening quote has been read, and what follows its closing quote.\<close>

function parse_string :: "string \<Rightarrow> (bytes \<times> string) option" where
  "parse_string [] = None"
| "parse_string (c # s) =
     (if c = CHR 0x22 then Some ([], s)
      else if c = CHR 0x5C then
        (case getu4 (c # s) of
           Some v \<Rightarrow>
             if 55296 \<le> v \<and> v < 57344 then
               (case getu4 (drop 5 s) of
                  Some v2 \<Rightarrow>
                    if v < 56320 \<and> 56320 \<le> v2 \<and> v2 < 57344
                    then push (utf8_encode ((v - 55296) * 1024 + (v2 - 56320) + 65536)) (parse_string (drop 11 s))
                    else push RuneError (parse_string (drop 5 s))
                | None \<Rightarrow> push RuneError (parse_string (drop 5 s)))
             else push (utf8_encode v) (parse_string (drop 5 s))
         | None \<Rightarrow>
             (case s of [] \<Rightarrow> None
              | e # s' \<Rightarrow> (case unescape e of None \<Rightarrow> None | Some b \<Rightarrow> push [b] (parse_string s'))))
      else if byte c < 32 then None
      else if byte c < 128 then push [c] (parse_string s)
      else let n = utf8_size (c # s)
        in if n = 0 then push RuneError (parse_string s)
           else push (take n (c # s)) (parse_string (drop (n - 1) s)))"
  by pat_completeness auto
termination
  by (relation "measure length") auto

lemma push_simps [simp]: "push b (Some (s, r)) = Some (b @ s, r)" "push b None = None"
  by (simp_all add: push_def)

lemma hex_val_digit: "d < 16 \<Longrightarrow> hex_val (hex_digit d) = Some d"
  by (auto simp: hex_val_def hex_digit_def is_digit_def byte_in_def)

lemma hex4_digits:
  assumes "v < 65536"
  shows "hex4 (hex_digit (v div 4096 mod 16)) (hex_digit (v div 256 mod 16)) (hex_digit (v div 16 mod 16))
    (hex_digit (v mod 16)) = Some v"
proof -
  have "v div 4096 < 16" using assms by (simp add: div_less_iff_less_mult)
  then have 1: "v div 4096 mod 16 = v div 4096" by simp
  have "v div 16 = v div 16 div 16 * 16 + v div 16 mod 16" "v = v div 16 * 16 + v mod 16"
    "v div 16 div 16 = v div 16 div 16 div 16 * 16 + v div 16 div 16 mod 16" by (simp_all only: div_mult_mod_eq)
  moreover have "v div 16 div 16 = v div 256" "v div 16 div 16 div 16 = v div 4096"
    by (simp_all add: div_mult2_eq [symmetric])
  moreover have "q * 4096 + x * 256 + y * 16 + z = v"
    if "p = p2 * 16 + y" "v = p * 16 + z" "p2 = q * 16 + x" for p p2 q x y z :: nat
    using that by simp
  ultimately have "v div 4096 * 4096 + v div 256 mod 16 * 256 + v div 16 mod 16 * 16 + v mod 16 = v" by metis
  with \<open>v div 4096 < 16\<close> show ?thesis by (simp add: hex4_def hex_val_digit 1)
qed

lemma getu4_u_escape: "v < 65536 \<Longrightarrow> getu4 (u_escape v @ t) = Some v"
  using hex4_digits [of v] by (simp only: getu4_def u_escape_def append_Cons list.case simp_thms if_True)

lemma parse_u_escape:
  assumes "v < 55296"
  shows "parse_string (u_escape v @ t) = push (utf8_encode v) (parse_string t)"
proof -
  obtain u where u: "u_escape v @ t = CHR 0x5C # u" "drop 5 u = t"
    by (simp add: u_escape_def)
  then have "getu4 (CHR 0x5C # u) = Some v" using getu4_u_escape [of v t] assms by simp
  with u(2) assms show ?thesis unfolding u(1) by simp
qed

lemma getu4_no_u: "e \<noteq> CHR ''u'' \<Longrightarrow> getu4 (c # e # t) = None"
  by (simp add: getu4_def split: list.split)

lemma parse_simple_escape:
  assumes "unescape e = Some b" and "e \<noteq> CHR ''u''"
  shows "parse_string ([CHR 0x5C, e] @ t) = push [b] (parse_string t)"
proof -
  have "parse_string (CHR 0x5C # e # t) = (case e # t of [] \<Rightarrow> None
      | e # s' \<Rightarrow> (case unescape e of None \<Rightarrow> None | Some b \<Rightarrow> push [b] (parse_string s')))"
    using getu4_no_u [OF assms(2)] by (subst parse_string.simps) simp
  with assms(1) show ?thesis by (simp only: list.case option.case append_Cons append_Nil)
qed

lemma parse_escape_ascii:
  assumes "byte c < 128"
  shows "parse_string (escape_ascii c @ t) = push [c] (parse_string t)"
proof (cases "c \<in> {CHR 0x22, CHR 0x5C, CHR 0x08, CHR 0x0C, CHR 0x0A, CHR 0x0D, CHR 0x09}")
  case True
  have "\<exists>e. escape_ascii c = [CHR 0x5C, e] \<and> unescape e = Some c \<and> e \<noteq> CHR ''u''"
    using True by (elim insertE emptyE) (simp_all add: escape_ascii_def unescape_def)
  then obtain e where e: "escape_ascii c = [CHR 0x5C, e]" "unescape e = Some c" "e \<noteq> CHR ''u''" by blast
  show ?thesis unfolding e(1) by (rule parse_simple_escape [OF e(2,3)])
next
  case False
  then have "escape_ascii c = u_escape (byte c) \<or> escape_ascii c = [c] \<and> \<not> byte c < 32"
    by (simp add: escape_ascii_def)
  then consider "escape_ascii c = u_escape (byte c)" | "escape_ascii c = [c]" "\<not> byte c < 32"
    by blast
  then show ?thesis
  proof cases
    case 1
    then show ?thesis using parse_u_escape [of "byte c" t] assms by (simp add: utf8_encode_def)
  next
    case 2
    with False assms show ?thesis by simp
  qed
qed

lemma parse_rune:
  assumes "\<not> byte c < 128" and "0 < utf8_size (c # s)"
  defines "n \<equiv> utf8_size (c # s)"
  shows "parse_string (take n (c # s) @ t) = push (take n (c # s)) (parse_string t)"
proof -
  obtain k where k: "n = Suc k" using assms(2) by (cases n) (simp_all add: n_def)
  have len: "k \<le> length s" using utf8_size_pos(1,3) [OF assms(2)] k by (simp add: n_def)
  have "utf8_size (c # take k s @ t) = Suc k"
    using utf8_size_take [OF assms(2), of t] k unfolding n_def by simp
  moreover have "c \<noteq> CHR 0x22" "c \<noteq> CHR 0x5C" "\<not> byte c < 32" using assms(1) by auto
  ultimately show ?thesis using assms(1) len by (simp add: k Let_def)
qed

theorem parse_json_escape:
  "utf8_valid s \<Longrightarrow> parse_string (json_escape s @ CHR 0x22 # rest) = Some (s, rest)"
proof (induction s rule: json_escape.induct)
  case (2 c s)
  show ?case
  proof (cases "byte c < 128")
    case True
    then have "utf8_valid s" using "2.prems" by (simp add: utf8_valid.simps [of "c # s"] utf8_size_ascii)
    with 2 True show ?thesis by (simp add: parse_escape_ascii del: parse_string.simps)
  next
    case False
    let ?n = "utf8_size (c # s)" and ?r = "take (utf8_size (c # s)) (c # s)"
    have n: "0 < ?n" and v: "utf8_valid (drop ?n (c # s))"
      using "2.prems" by (simp_all add: utf8_valid.simps [of "c # s"] split: if_splits)
    have d: "drop ?n (c # s) = drop (?n - 1) s" using n by (cases ?n) simp_all
    have "parse_string (json_escape (drop (?n - 1) s) @ CHR 0x22 # rest) = Some (drop (?n - 1) s, rest)"
      using "2.IH"(3) [OF False refl refl] n v d by simp
    moreover have "?r @ drop (?n - 1) s = c # s" using d append_take_drop_id [of ?n "c # s"] by simp
    moreover have "json_escape (c # s) = (if ?r = utf8_encode 8232 then u_escape 8232
        else if ?r = utf8_encode 8233 then u_escape 8233 else ?r) @ json_escape (drop (?n - 1) s)"
      using False n by (simp add: Let_def)
    ultimately show ?thesis
      using parse_u_escape [of 8232] parse_u_escape [of 8233] parse_rune [OF False n]
      by (cases "?r = utf8_encode 8232"; cases "?r = utf8_encode 8233")
        (simp_all del: parse_string.simps json_escape.simps)
  qed
qed simp

section \<open>Values\<close>

fun join_commas :: "string list \<Rightarrow> string" where
  "join_commas [] = []"
| "join_commas [x] = x"
| "join_commas (x # y # xs) = x @ CHR '','' # join_commas (y # xs)"

definition quote :: "bytes \<Rightarrow> string" where
  "quote s = CHR 0x22 # json_escape s @ [CHR 0x22]"

fun json_print :: "json \<Rightarrow> string" where
  "json_print JNull = ''null''"
| "json_print (JBool b) = (if b then ''true'' else ''false'')"
| "json_print (JNum s) = s"
| "json_print (JStr s) = quote s"
| "json_print (JArr xs) = CHR ''['' # join_commas (map json_print xs) @ '']''"
| "json_print (JObj kvs) = CHR 0x7B # join_commas (map (\<lambda>(k, v). quote k @ CHR '':'' # json_print v) kvs) @ [CHR 0x7D]"

text \<open>Numbers, by the grammar of JSON.\<close>

definition valid_exponent :: "string \<Rightarrow> bool" where
  "valid_exponent s = (case s of [] \<Rightarrow> True
     | c # cs \<Rightarrow> (c = CHR ''e'' \<or> c = CHR ''E'') \<and>
         (let ds = (case cs of d # ds \<Rightarrow> if d = CHR ''+'' \<or> d = CHR ''-'' then ds else cs | [] \<Rightarrow> [])
          in ds \<noteq> [] \<and> list_all is_digit ds))"

definition valid_fraction :: "string \<Rightarrow> bool" where
  "valid_fraction s = (case s of [] \<Rightarrow> True
     | c # cs \<Rightarrow> if c = CHR ''.'' then takeWhile is_digit cs \<noteq> [] \<and> valid_exponent (dropWhile is_digit cs)
                 else valid_exponent s)"

definition valid_number :: "string \<Rightarrow> bool" where
  "valid_number s =
     (let u = (case s of c # cs \<Rightarrow> if c = CHR ''-'' then cs else s | [] \<Rightarrow> []); ds = takeWhile is_digit u
      in ds \<noteq> [] \<and> (hd ds = CHR ''0'' \<longrightarrow> length ds = 1) \<and> valid_fraction (dropWhile is_digit u))"

definition number_char :: "char \<Rightarrow> bool" where
  "number_char c \<longleftrightarrow> is_digit c \<or> c \<in> set ''+-.eE''"

definition skip_ws :: "string \<Rightarrow> string" where
  "skip_ws = dropWhile (\<lambda>c. c \<in> {CHR '' '', CHR 0x09, CHR 0x0A, CHR 0x0D})"

definition literals :: "(string \<times> json) list" where
  "literals = [(''null'', JNull), (''true'', JBool True), (''false'', JBool False)]"

text \<open>
  One value, the rest of an array and the rest of an object, with what follows them. Each
  call of the reader uses up one unit of fuel, and at most two calls share a character.
\<close>

fun json_value :: "nat \<Rightarrow> string \<Rightarrow> (json \<times> string) option"
  and json_elements :: "nat \<Rightarrow> string \<Rightarrow> (json list \<times> string) option"
  and json_members :: "nat \<Rightarrow> string \<Rightarrow> ((bytes \<times> json) list \<times> string) option" where
  "json_value 0 s = None"
| "json_value (Suc n) s =
     (case skip_ws s of [] \<Rightarrow> None
      | c # r \<Rightarrow>
          if c = CHR 0x22 then map_option (\<lambda>(b, r). (JStr b, r)) (parse_string r)
          else if c = CHR ''['' then
            (case skip_ws r of [] \<Rightarrow> None
             | d # r' \<Rightarrow> if d = CHR '']'' then Some (JArr [], r')
                 else map_option (\<lambda>(xs, r). (JArr xs, r)) (json_elements n r))
          else if c = CHR 0x7B then
            (case skip_ws r of [] \<Rightarrow> None
             | d # r' \<Rightarrow> if d = CHR 0x7D then Some (JObj [], r')
                 else map_option (\<lambda>(kvs, r). (JObj kvs, r)) (json_members n r))
          else case find (\<lambda>(w, v). prefix w (c # r)) literals of
              Some (w, v) \<Rightarrow> Some (v, drop (length w) (c # r))
            | None \<Rightarrow> (let num = takeWhile number_char (c # r)
                in if valid_number num then Some (JNum num, dropWhile number_char (c # r)) else None))"
| "json_elements 0 s = None"
| "json_elements (Suc n) s =
     (case json_value n s of None \<Rightarrow> None
      | Some (v, r) \<Rightarrow>
          (case skip_ws r of [] \<Rightarrow> None
           | c # r' \<Rightarrow> if c = CHR '']'' then Some ([v], r')
               else if c = CHR '','' then map_option (\<lambda>(vs, r). (v # vs, r)) (json_elements n r')
               else None))"
| "json_members 0 s = None"
| "json_members (Suc n) s =
     (case skip_ws s of [] \<Rightarrow> None
      | q # s' \<Rightarrow> if q \<noteq> CHR 0x22 then None else
          (case parse_string s' of None \<Rightarrow> None
           | Some (k, r) \<Rightarrow>
               (case skip_ws r of [] \<Rightarrow> None
                | d # r' \<Rightarrow> if d \<noteq> CHR '':'' then None else
                    (case json_value n r' of None \<Rightarrow> None
                     | Some (v, r) \<Rightarrow>
                         (case skip_ws r of [] \<Rightarrow> None
                          | c # r' \<Rightarrow> if c = CHR 0x7D then Some ([(k, v)], r')
                              else if c = CHR '','' then map_option (\<lambda>(kvs, r). ((k, v) # kvs, r)) (json_members n r')
                              else None)))))"

fun json_depth :: "json \<Rightarrow> nat" where
  "json_depth (JArr xs) = Suc (fold max (map json_depth xs) 0)"
| "json_depth (JObj kvs) = Suc (fold max (map (\<lambda>(k, v). json_depth v) kvs) 0)"
| "json_depth _ = 0"

text \<open>The scanner refuses values nested more than 10000 deep.\<close>

definition json_parse :: "string \<Rightarrow> json option" where
  "json_parse s = (case json_value (2 * length s + 2) s of
     Some (v, r) \<Rightarrow> if skip_ws r = [] \<and> json_depth v \<le> 10000 then Some v else None
   | None \<Rightarrow> None)"

section \<open>What was written reads back\<close>

fun json_wf :: "json \<Rightarrow> bool" where
  "json_wf (JNum s) = valid_number s"
| "json_wf (JStr s) = utf8_valid s"
| "json_wf (JArr xs) = list_all json_wf xs"
| "json_wf (JObj kvs) = list_all (\<lambda>(k, v). utf8_valid k \<and> json_wf v) kvs"
| "json_wf _ = True"

lemma number_char_simps [simp]: "is_digit c \<Longrightarrow> number_char c" "number_char (CHR ''.'')" "number_char (CHR ''-'')"
  "number_char (CHR ''+'')" "number_char (CHR ''e'')" "number_char (CHR ''E'')"
  by (simp_all add: number_char_def)

lemma span_chars:
  "list_all P (takeWhile Q s) \<Longrightarrow> list_all P (dropWhile Q s) \<Longrightarrow> list_all P s"
  by (metis list_all_append takeWhile_dropWhile_id)

lemma takeWhile_digits: "list_all number_char (takeWhile is_digit s)"
  by (auto simp: list_all_iff dest: set_takeWhileD)

lemma valid_exponent_chars: "valid_exponent s \<Longrightarrow> list_all number_char s"
  by (auto simp: valid_exponent_def list_all_iff Let_def split: list.splits if_splits)

lemma valid_fraction_chars: "valid_fraction s \<Longrightarrow> list_all number_char s"
  by (auto simp: valid_fraction_def dest: valid_exponent_chars intro: span_chars [OF takeWhile_digits]
      split: list.splits if_splits)

lemma valid_number_chars: "valid_number s \<Longrightarrow> list_all number_char s"
  by (auto simp: valid_number_def Let_def intro: span_chars [OF takeWhile_digits] valid_fraction_chars
      split: list.splits if_splits)

lemma valid_number_hd:
  assumes "valid_number s"
  shows "\<exists>c r. s = c # r \<and> (c = CHR ''-'' \<or> is_digit c)"
  using assms by (cases s) (auto simp: valid_number_def Let_def split: if_splits)

definition json_end :: "string \<Rightarrow> bool" where
  "json_end s \<longleftrightarrow> (case s of [] \<Rightarrow> True | c # _ \<Rightarrow> c \<in> {CHR '','', CHR '']'', CHR 0x7D})"

lemma json_end_simps [simp]: "json_end []" "json_end (CHR '','' # s)" "json_end (CHR '']'' # s)" "json_end (CHR 0x7D # s)"
  by (simp_all add: json_end_def)

lemma span_number:
  assumes "list_all number_char s" and "json_end rest"
  shows "takeWhile number_char (s @ rest) = s" "dropWhile number_char (s @ rest) = rest"
proof -
  have "takeWhile number_char rest = [] \<and> dropWhile number_char rest = rest"
    using assms(2) by (auto simp: json_end_def number_char_def is_digit_def split: list.splits)
  with assms(1) show "takeWhile number_char (s @ rest) = s" "dropWhile number_char (s @ rest) = rest"
    by (induction s) auto
qed

abbreviation ws :: "char \<Rightarrow> bool" where
  "ws c \<equiv> c \<in> {CHR '' '', CHR 0x09, CHR 0x0A, CHR 0x0D}"

lemma skip_ws_Cons: "\<not> ws c \<Longrightarrow> skip_ws (c # s) = c # s"
  by (simp add: skip_ws_def)

lemma json_print_hd:
  assumes "json_wf j"
  shows "\<exists>c r. json_print j = c # r \<and> \<not> ws c \<and> c \<noteq> CHR '']''"
proof (cases j)
  case (JNum s)
  with assms valid_number_hd [of s] obtain c r where "s = c # r" "c = CHR ''-'' \<or> is_digit c" by auto
  with JNum show ?thesis by (auto simp: is_digit_def)
qed (simp_all add: quote_def)

lemma json_value_number:
  assumes "valid_number s" and "json_end rest"
  shows "json_value (Suc n) (s @ rest) = Some (JNum s, rest)"
proof -
  obtain c r where s: "s = c # r" and c: "c = CHR ''-'' \<or> is_digit c" using valid_number_hd [OF assms(1)] by blast
  have "skip_ws (s @ rest) = c # r @ rest"
    unfolding s append_Cons by (rule skip_ws_Cons) (use c in \<open>auto simp: is_digit_def\<close>)
  moreover have "c \<noteq> CHR 0x22" "c \<noteq> CHR ''[''" "c \<noteq> CHR 0x7B" "c \<noteq> CHR ''n''" "c \<noteq> CHR ''t''" "c \<noteq> CHR ''f''"
    using c by (auto simp: is_digit_def)
  moreover have "takeWhile number_char (c # r @ rest) = s" "dropWhile number_char (c # r @ rest) = rest"
    using span_number [OF valid_number_chars [OF assms(1)] assms(2)] s by simp_all
  ultimately show ?thesis using assms(1)
    by (simp del: takeWhile.simps dropWhile.simps add: literals_def Let_def)
qed

lemma json_elements_print:
  assumes "\<And>x n rest. x \<in> set xs \<Longrightarrow> 2 * length (json_print x) \<le> n \<Longrightarrow> json_end rest \<Longrightarrow>
      json_value n (json_print x @ rest) = Some (x, rest)"
    and "xs \<noteq> []" and "2 * length (join_commas (map json_print xs)) + 1 \<le> n"
  shows "json_elements n (join_commas (map json_print xs) @ CHR '']'' # rest) = Some (xs, rest)"
  using assms
proof (induction xs arbitrary: n)
  case (Cons x xs)
  then obtain m where n: "n = Suc m" by (cases n) auto
  show ?case
  proof (cases xs)
    case Nil
    then have "json_value m (json_print x @ CHR '']'' # rest) = Some (x, CHR '']'' # rest)"
      using Cons.prems n by simp
    with Nil n show ?thesis by (simp add: skip_ws_Cons)
  next
    case (Cons y ys)
    let ?r = "join_commas (map json_print xs) @ CHR '']'' # rest"
    have "json_value m (json_print x @ CHR '','' # ?r) = Some (x, CHR '','' # ?r)"
      using Cons.prems n Cons by simp
    moreover have "json_elements m ?r = Some (xs, rest)"
      using Cons.prems n Cons by (intro Cons.IH) auto
    ultimately show ?thesis using n Cons by (simp add: skip_ws_Cons)
  qed
qed simp

lemma json_members_print:
  fixes kvs :: "(bytes \<times> json) list"
  defines "pr \<equiv> (\<lambda>(k, v). quote k @ CHR '':'' # json_print v)"
  assumes "\<And>k v n rest. (k, v) \<in> set kvs \<Longrightarrow> 2 * length (json_print v) \<le> n \<Longrightarrow> json_end rest \<Longrightarrow>
      json_value n (json_print v @ rest) = Some (v, rest)"
    and "\<And>k v. (k, v) \<in> set kvs \<Longrightarrow> utf8_valid k"
    and "kvs \<noteq> []" and "2 * length (join_commas (map pr kvs)) + 1 \<le> n"
  shows "json_members n (join_commas (map pr kvs) @ CHR 0x7D # rest) = Some (kvs, rest)"
  using assms(2-)
proof (induction kvs arbitrary: n)
  case (Cons kv kvs)
  obtain k v where kv: "kv = (k, v)" by (cases kv)
  obtain m where n: "n = Suc m" using Cons.prems(4) by (cases n) auto
  have k: "parse_string (json_escape k @ CHR 0x22 # t) = Some (k, t)" for t
    using Cons.prems(2) kv by (intro parse_json_escape) auto
  show ?case
  proof (cases kvs)
    case Nil
    then have "json_value m (json_print v @ CHR 0x7D # rest) = Some (v, CHR 0x7D # rest)"
      using Cons.prems(4) n kv by (intro Cons.prems(1)) (auto simp: pr_def)
    with Nil n k kv show ?thesis by (simp add: pr_def quote_def skip_ws_Cons)
  next
    case (Cons kv2 kvs2)
    let ?r = "join_commas (map pr kvs) @ CHR 0x7D # rest"
    have "json_value m (json_print v @ CHR '','' # ?r) = Some (v, CHR '','' # ?r)"
      using Cons.prems(4) n kv Cons by (intro Cons.prems(1)) (auto simp: pr_def)
    moreover have "json_members m ?r = Some (kvs, rest)"
    proof (rule Cons.IH)
      show "utf8_valid k" if "(k, v) \<in> set kvs" for k v using Cons.prems(2) [of k v] that by simp
      show "2 * length (join_commas (map pr kvs)) + 1 \<le> m" using Cons.prems(4) n Cons by simp
      show "json_value n (json_print v @ rest) = Some (v, rest)"
        if "(k, v) \<in> set kvs" "2 * length (json_print v) \<le> n" "json_end rest" for k v n rest
        using that by (intro Cons.prems(1) [of k]) simp_all
    qed (use Cons in simp_all)
    moreover have "join_commas (map pr (kv # kvs)) @ CHR 0x7D # rest =
        CHR 0x22 # json_escape k @ CHR 0x22 # CHR '':'' # json_print v @ CHR '','' # ?r"
      using Cons kv by (simp add: pr_def quote_def)
    ultimately show ?thesis using n k kv by (simp add: skip_ws_Cons)
  qed
qed simp

lemma join_commas_hd: "xs \<noteq> [] \<Longrightarrow> \<exists>r. join_commas (map f xs) = f (hd xs) @ r"
  by (cases xs; cases "tl xs") auto

lemma json_value_array:
  assumes "json_elements m (join_commas (map json_print xs) @ CHR '']'' # rest) = Some (xs, rest)"
    and "xs \<noteq> []" and "json_wf (hd xs)"
  shows "json_value (Suc m) (json_print (JArr xs) @ rest) = Some (JArr xs, rest)"
proof -
  obtain r c r' where r: "join_commas (map json_print xs) = json_print (hd xs) @ r"
    and c: "json_print (hd xs) = c # r'" "\<not> ws c" "c \<noteq> CHR '']''"
    using join_commas_hd [OF assms(2)] json_print_hd [OF assms(3)] by blast
  have "skip_ws (join_commas (map json_print xs) @ CHR '']'' # rest) = c # r' @ r @ CHR '']'' # rest"
    unfolding r c append_Cons append_assoc by (rule skip_ws_Cons [OF c(2)])
  with assms(1) c(3) show ?thesis by (simp add: skip_ws_Cons)
qed

lemma json_value_object:
  assumes "json_members m (join_commas (map (\<lambda>(k, v). quote k @ CHR '':'' # json_print v) kvs) @ CHR 0x7D # rest) =
      Some (kvs, rest)" and "kvs \<noteq> []"
  shows "json_value (Suc m) (json_print (JObj kvs) @ rest) = Some (JObj kvs, rest)"
proof -
  obtain r where "join_commas (map (\<lambda>(k, v). quote k @ CHR '':'' # json_print v) kvs) =
      (case hd kvs of (k, v) \<Rightarrow> quote k @ CHR '':'' # json_print v) @ r"
    using join_commas_hd [OF assms(2)] by blast
  then obtain r' where r: "join_commas (map (\<lambda>(k, v). quote k @ CHR '':'' # json_print v) kvs) @ CHR 0x7D # rest = CHR 0x22 # r'"
    by (simp add: quote_def split_def)
  with assms(1) have "json_members m (CHR 0x22 # r') = Some (kvs, rest)" by simp
  with r show ?thesis by (simp add: skip_ws_Cons)
qed

lemma length_array: "Suc (length (join_commas (map json_print xs))) < length (json_print (JArr xs))"
  and length_object: "Suc (length (join_commas (map (\<lambda>(k, v). quote k @ CHR '':'' # json_print v) kvs))) <
    length (json_print (JObj kvs))"
  by simp_all

lemma json_value_print:
  "json_wf j \<Longrightarrow> 2 * length (json_print j) \<le> n \<Longrightarrow> json_end rest \<Longrightarrow>
   json_value n (json_print j @ rest) = Some (j, rest)"
proof (induction j arbitrary: n rest)
  case JNull
  then obtain m where "n = Suc m" by (cases n) auto
  then show ?case by (simp add: skip_ws_Cons literals_def)
next
  case (JBool b)
  then obtain m where "n = Suc m" by (cases n) (auto split: if_splits)
  then show ?case by (cases b) (simp_all add: skip_ws_Cons literals_def)
next
  case (JNum s)
  obtain m where "n = Suc m" using JNum.prems valid_number_hd [of s] by (cases n) auto
  with JNum show ?case using json_value_number by simp
next
  case (JStr s)
  obtain m where "n = Suc m" using JStr.prems by (cases n) (auto simp: quote_def)
  with JStr show ?case by (simp add: quote_def skip_ws_Cons parse_json_escape)
next
  case (JArr xs)
  obtain m where n: "n = Suc m" using JArr.prems by (cases n) auto
  show ?case
  proof (cases "xs = []")
    case True
    with n show ?thesis by (simp add: skip_ws_Cons)
  next
    case False
    have wf: "json_wf x" if "x \<in> set xs" for x using JArr.prems(1) that by (simp add: list_all_iff)
    have "json_elements m (join_commas (map json_print xs) @ CHR '']'' # rest) = Some (xs, rest)"
      using JArr.IH wf False length_array [of xs] JArr.prems(2) n
      by (intro json_elements_print) simp_all
    then show ?thesis unfolding n using False wf by (intro json_value_array) simp_all
  qed
next
  case (JObj kvs)
  obtain m where n: "n = Suc m" using JObj.prems by (cases n) auto
  show ?case
  proof (cases "kvs = []")
    case True
    with n show ?thesis by (simp add: skip_ws_Cons)
  next
    case False
    have wf: "utf8_valid k \<and> json_wf v" if "(k, v) \<in> set kvs" for k v
      using JObj.prems(1) that by (auto simp: list_all_iff)
    have val: "json_value n (json_print v @ rest) = Some (v, rest)"
      if "(k, v) \<in> set kvs" "2 * length (json_print v) \<le> n" "json_end rest" for k v n rest
      using JObj.IH [OF that(1), of v n rest] wf [OF that(1)] that by simp
    show ?thesis unfolding n
      using wf False length_object [of kvs] JObj.prems(2) n
      by (intro json_value_object json_members_print val) auto
  qed
qed

theorem json_parse_print:
  assumes "json_wf j" and "json_depth j \<le> 10000"
  shows "json_parse (json_print j) = Some j"
proof -
  have "json_value (2 * length (json_print j) + 2) (json_print j @ []) = Some (j, [])"
    using assms(1) by (intro json_value_print) simp_all
  with assms(2) show ?thesis by (simp add: json_parse_def skip_ws_def)
qed

section \<open>Decoding into Go values\<close>

text \<open>
  Decoding overwrites a value in place: a decoder gets the value so far. \<open>null\<close> leaves it as
  it is, and the first value that does not fit its type is the error of the whole.
\<close>

type_synonym 'a decoder = "json \<Rightarrow> 'a \<Rightarrow> go_error + 'a"

definition UnmarshalTypeError :: go_error where
  "UnmarshalTypeError = PlainErr ''json: cannot unmarshal''"
definition SyntaxError :: go_error where
  "SyntaxError = PlainErr ''json: invalid input''"
definition MarshalerError :: go_error where
  "MarshalerError = PlainErr ''json: error calling MarshalJSON''"

definition dec_string :: "bytes decoder" where
  "dec_string j old = (case j of JStr s \<Rightarrow> Inr s | JNull \<Rightarrow> Inr old | _ \<Rightarrow> Inl UnmarshalTypeError)"

definition dec_int :: "int decoder" where
  "dec_int j old = (case j of
     JNum s \<Rightarrow> (case ParseInt s of (i, None) \<Rightarrow> Inr i | _ \<Rightarrow> Inl UnmarshalTypeError)
   | JNull \<Rightarrow> Inr old | _ \<Rightarrow> Inl UnmarshalTypeError)"

definition dec_u64 :: "u64 decoder" where
  "dec_u64 j old = (case j of
     JNum s \<Rightarrow> (case ParseUint s of (i, None) \<Rightarrow> Inr i | _ \<Rightarrow> Inl UnmarshalTypeError)
   | JNull \<Rightarrow> Inr old | _ \<Rightarrow> Inl UnmarshalTypeError)"

definition dec_time :: "gotime decoder" where
  "dec_time j old = (case j of
     JStr s \<Rightarrow> (case parse_RFC3339 s of Some t \<Rightarrow> Inr t | None \<Rightarrow> Inl UnmarshalTypeError)
   | JNull \<Rightarrow> Inr old | _ \<Rightarrow> Inl UnmarshalTypeError)"

primrec dec_all :: "'a decoder \<Rightarrow> 'a \<Rightarrow> json list \<Rightarrow> go_error + 'a list" where
  "dec_all dec zero [] = Inr []"
| "dec_all dec zero (j # js) =
     (case dec j zero of Inl e \<Rightarrow> Inl e
      | Inr x \<Rightarrow> (case dec_all dec zero js of Inl e \<Rightarrow> Inl e | Inr xs \<Rightarrow> Inr (x # xs)))"

definition dec_list :: "'a decoder \<Rightarrow> 'a \<Rightarrow> 'a list decoder" where
  "dec_list dec zero j old = (case j of
     JArr js \<Rightarrow> dec_all dec zero js | JNull \<Rightarrow> Inr [] | _ \<Rightarrow> Inl UnmarshalTypeError)"

text \<open>
  A key finds the field of that name or else, ignoring case, the first one; the Kelvin sign
  and the long s are the only characters outside ASCII that fold to a letter of a name.
\<close>

fun fold_name :: "bytes \<Rightarrow> bytes" where
  "fold_name [] = []"
| "fold_name (c # s) =
     (if prefix (utf8_encode 8490) (c # s) then CHR ''K'' # fold_name (drop 2 s)
      else if prefix (utf8_encode 383) (c # s) then CHR ''S'' # fold_name (drop 1 s)
      else (if byte_in 97 122 c then char_of (byte c - 32) else c) # fold_name s)"

definition find_field :: "(bytes \<times> 'f) list \<Rightarrow> bytes \<Rightarrow> 'f option" where
  "find_field fs k = (case map_of fs k of Some f \<Rightarrow> Some f
     | None \<Rightarrow> map_option snd (find (\<lambda>(name, _). fold_name name = fold_name k) fs))"

fun dec_fields :: "(bytes \<times> 'r decoder) list \<Rightarrow> (bytes \<times> json) list \<Rightarrow> 'r \<Rightarrow> go_error + 'r" where
  "dec_fields fs [] r = Inr r"
| "dec_fields fs ((k, j) # kvs) r =
     (case find_field fs k of None \<Rightarrow> dec_fields fs kvs r
      | Some dec \<Rightarrow> (case dec j r of Inl e \<Rightarrow> Inl e | Inr r' \<Rightarrow> dec_fields fs kvs r'))"

definition dec_struct :: "(bytes \<times> 'r decoder) list \<Rightarrow> 'r decoder" where
  "dec_struct fs j old = (case j of JObj kvs \<Rightarrow> dec_fields fs kvs old | JNull \<Rightarrow> Inr old | _ \<Rightarrow> Inl UnmarshalTypeError)"

text \<open>A field of a record, by its selector and its update.\<close>

definition field :: "('r \<Rightarrow> 'a) \<Rightarrow> (('a \<Rightarrow> 'a) \<Rightarrow> 'r \<Rightarrow> 'r) \<Rightarrow> 'a decoder \<Rightarrow> 'r decoder" where
  "field get upd dec j r = (case dec j (get r) of Inl e \<Rightarrow> Inl e | Inr x \<Rightarrow> Inr (upd (\<lambda>_. x) r))"

definition Unmarshal :: "'a decoder \<Rightarrow> 'a \<Rightarrow> bytes \<Rightarrow> go_error + 'a" where
  "Unmarshal dec zero s = (case json_parse s of None \<Rightarrow> Inl SyntaxError | Some j \<Rightarrow> dec j zero)"

section \<open>Encoding\<close>

definition enc_int :: "int \<Rightarrow> json" where
  "enc_int i = JNum (FormatInt i)"
definition enc_u64 :: "u64 \<Rightarrow> json" where
  "enc_u64 w = JNum (FormatUint w)"

text \<open>A slice that has no elements is taken for nil, which is written as \<open>null\<close>.\<close>

definition enc_slice :: "('a \<Rightarrow> json) \<Rightarrow> 'a list \<Rightarrow> json" where
  "enc_slice enc xs = (if xs = [] then JNull else JArr (map enc xs))"

text \<open>A time that its text cannot hold fails the whole value.\<close>

definition enc_time :: "gotime \<Rightarrow> go_error + json" where
  "enc_time t = (case RFC3339Nano t of Some s \<Rightarrow> Inr (JStr s) | None \<Rightarrow> Inl MarshalerError)"

primrec enc_all :: "('a \<Rightarrow> go_error + json) \<Rightarrow> 'a list \<Rightarrow> go_error + json list" where
  "enc_all enc [] = Inr []"
| "enc_all enc (x # xs) = (case enc x of Inl e \<Rightarrow> Inl e
     | Inr j \<Rightarrow> (case enc_all enc xs of Inl e \<Rightarrow> Inl e | Inr js \<Rightarrow> Inr (j # js)))"

definition Marshal :: "go_error + json \<Rightarrow> go_error + bytes" where
  "Marshal r = (case r of Inl e \<Rightarrow> Inl e | Inr j \<Rightarrow> Inr (json_print j))"

lemma dec_enc_basic [simp]:
  "dec_string (JStr s) old = Inr s"
  "- (2 ^ 63) \<le> i \<Longrightarrow> i < 2 ^ 63 \<Longrightarrow> dec_int (enc_int i) n = Inr i"
  "dec_u64 (enc_u64 w) m = Inr w"
  by (simp_all add: dec_string_def dec_int_def dec_u64_def enc_int_def enc_u64_def)

lemma dec_enc_time: "enc_time t = Inr j \<Longrightarrow> dec_time j old = Inr t"
  by (auto simp: enc_time_def dec_time_def parse_RFC3339Nano split: option.splits)

lemma dec_enc_all:
  assumes "enc_all enc xs = Inr js" and "\<And>x j. x \<in> set xs \<Longrightarrow> enc x = Inr j \<Longrightarrow> dec j zero = Inr x"
  shows "dec_all dec zero js = Inr xs"
  using assms
proof (induction xs arbitrary: js)
  case (Cons x xs)
  then obtain j js' where j: "enc x = Inr j" "enc_all enc xs = Inr js'" "js = j # js'"
    by (auto split: sum.splits)
  then have "dec j zero = Inr x" "dec_all dec zero js' = Inr xs"
    using Cons by auto
  with j show ?case by simp
qed simp

lemma enc_all_Inr:
  assumes "\<And>x. x \<in> set xs \<Longrightarrow> \<exists>j. enc x = Inr j"
  shows "\<exists>js. enc_all enc xs = Inr js"
  using assms by (induction xs) (fastforce split: sum.splits)+

lemma enc_all_members:
  "enc_all enc xs = Inr js \<Longrightarrow> j \<in> set js \<Longrightarrow> \<exists>x \<in> set xs. enc x = Inr j"
  by (induction xs arbitrary: js) (auto split: sum.splits)

lemma dec_all_map:
  "(\<And>x. x \<in> set xs \<Longrightarrow> dec (enc x) zero = Inr x) \<Longrightarrow> dec_all dec zero (map enc xs) = Inr xs"
  by (induction xs) auto

lemma dec_enc_slice:
  "(\<And>x. x \<in> set xs \<Longrightarrow> dec (enc x) zero = Inr x) \<Longrightarrow> dec_list dec zero (enc_slice enc xs) old = Inr xs"
  by (auto simp: dec_list_def enc_slice_def dec_all_map)

lemma find_field_exact: "map_of fs k = Some f \<Longrightarrow> find_field fs k = Some f"
  by (simp add: find_field_def)

text \<open>Decimal numbers are numbers of JSON.\<close>

lemma hd_dec_digits_pos: "0 < n \<Longrightarrow> hd (dec_digits n) \<noteq> CHR ''0''"
proof (induction n rule: dec_digits.induct)
  case (1 n)
  show ?case
  proof (cases "n < 10")
    case True
    then have "byte (digit_char n) = 48 + n" by simp
    moreover have "byte (CHR ''0'') = 48" by simp
    ultimately have "digit_char n \<noteq> CHR ''0''" using "1.prems" by (metis add_cancel_left_right not_gr_zero)
    with True show ?thesis by (simp add: dec_digits.simps [of n])
  next
    case False
    then have "hd (dec_digits n) = hd (dec_digits (n div 10))"
      by (simp add: dec_digits.simps [of n] hd_append)
    with False 1 show ?thesis by simp
  qed
qed

lemma takeWhile_dec_digits:
  "takeWhile is_digit (dec_digits n) = dec_digits n" "dropWhile is_digit (dec_digits n) = []"
  using dec_digits_is_digit by (auto simp: takeWhile_eq_all_conv dropWhile_eq_Nil_conv)

lemma valid_dec_digits: "valid_number (dec_digits n)" "valid_number (CHR ''-'' # dec_digits n)"
proof -
  obtain c cs where d: "dec_digits n = c # cs" by (cases "dec_digits n") simp_all
  have "c \<noteq> CHR ''-''" using hd_dec_digits_no_sign(1) [of n] d by simp
  moreover have "c = CHR ''0'' \<longrightarrow> length (dec_digits n) = 1"
    using hd_dec_digits_pos [of n] d by (cases "n = 0") (auto simp: dec_digits.simps [of 0])
  moreover have "is_digit (CHR ''0'')" by (simp add: is_digit_def)
  moreover have "is_digit c" using dec_digits_is_digit [of c n] d by simp
  ultimately show "valid_number (dec_digits n)" "valid_number (CHR ''-'' # dec_digits n)"
    using takeWhile_dec_digits [of n] d
    by (simp_all del: takeWhile_eq_all_conv dropWhile_eq_Nil_conv dropWhile_eq_self_iff
        add: valid_number_def valid_fraction_def Let_def)
qed

lemma json_wf_numbers [simp]: "json_wf (enc_int i)" "json_wf (enc_u64 w)"
  by (simp_all add: enc_int_def enc_u64_def FormatInt_def FormatUint_def valid_dec_digits)

lemma json_depth_numbers [simp]: "json_depth (enc_int i) = 0" "json_depth (enc_u64 w) = 0"
  by (simp_all add: enc_int_def enc_u64_def)

lemma json_depth_array: "(\<And>x. x \<in> set xs \<Longrightarrow> json_depth x \<le> d) \<Longrightarrow> json_depth (JArr xs) \<le> Suc d"
proof -
  assume *: "\<And>x. x \<in> set xs \<Longrightarrow> json_depth x \<le> d"
  have "fold max (map json_depth xs) m \<le> d" if "m \<le> d" for m
    using that * by (induction xs arbitrary: m) simp_all
  then show ?thesis by simp
qed

lemma json_depth_slice:
  "(\<And>x. x \<in> set xs \<Longrightarrow> json_depth (enc x) \<le> d) \<Longrightarrow> json_depth (enc_slice enc xs) \<le> Suc d"
  using json_depth_array [of "map enc xs" d] by (auto simp: enc_slice_def simp del: json_depth.simps(1))

end
