(* ===== verification/Game_Entity.thy ===== *)
theory Game_Entity
  imports Contract Go_Json
begin

text \<open>
  The data of the game service: \<open>services/game_app/service/entity.go\<close>, \<open>param.go\<close> and
  \<open>helper.go\<close>. A Go struct is a record with the fields in the same order; what its \<open>json\<close>
  tags say is a pair of functions, the value of \<open>encoding/json\<close> it is written as and the
  decoder that reads it back. The second part shows that the questions of a game survive
  their way through Redis.
\<close>

section \<open>Entities\<close>

type_synonym game_Category = string
type_synonym game_Difficulty = string
type_synonym GameStatus = string

definition game_CategoryTypeSport :: game_Category where "game_CategoryTypeSport = ''SPORT''"
definition game_CategoryTypeMusic :: game_Category where "game_CategoryTypeMusic = ''MUSIC''"
definition game_CategoryTypeTech :: game_Category where "game_CategoryTypeTech = ''TECH''"
definition game_CategoryTypeUnknown :: game_Category where "game_CategoryTypeUnknown = ''UNKNOWN''"

lemmas game_category_defs = game_CategoryTypeSport_def game_CategoryTypeMusic_def game_CategoryTypeTech_def
  game_CategoryTypeUnknown_def

definition game_DifficultEasy :: game_Difficulty where "game_DifficultEasy = ''EASY''"
definition game_DifficultMedium :: game_Difficulty where "game_DifficultMedium = ''MEDIUM''"
definition game_DifficultHard :: game_Difficulty where "game_DifficultHard = ''HARD''"
definition game_DifficultUnknown :: game_Difficulty where "game_DifficultUnknown = ''UNKNOWN''"

lemmas game_difficulty_defs = game_DifficultEasy_def game_DifficultMedium_def game_DifficultHard_def
  game_DifficultUnknown_def

definition GameStatusInitialized :: GameStatus where "GameStatusInitialized = ''INITIALIZED''"
definition GameStatusPending :: GameStatus where "GameStatusPending = ''PENDING''"
definition GameStatusCreated :: GameStatus where "GameStatusCreated = ''CREATED''"
definition GameStatusStarted :: GameStatus where "GameStatusStarted = ''STARTED''"
definition GameStatusFinished :: GameStatus where "GameStatusFinished = ''FINISHED''"
definition GameStatusUnknown :: GameStatus where "GameStatusUnknown = ''UNKNOWN''"

lemmas game_status_defs = GameStatusInitialized_def GameStatusPending_def GameStatusCreated_def
  GameStatusStarted_def GameStatusFinished_def GameStatusUnknown_def

definition GetGameStatus :: "GameStatus list" where
  "GetGameStatus = [GameStatusCreated, GameStatusPending, GameStatusStarted, GameStatusFinished]"

definition MapToGameStatus :: "string \<Rightarrow> GameStatus" where
  "MapToGameStatus status =
     (if status = ''PENDING'' then GameStatusPending
      else if status = ''CREATED'' then GameStatusCreated
      else if status = ''STARTED'' then GameStatusStarted
      else if status = ''FINISHED'' then GameStatusFinished
      else GameStatusUnknown)"

definition game_GetCategories :: "game_Category list" where
  "game_GetCategories = [game_CategoryTypeSport, game_CategoryTypeMusic, game_CategoryTypeTech]"

definition game_MapToCategory :: "string \<Rightarrow> game_Category" where
  "game_MapToCategory category =
     (if category = ''SPORT'' then game_CategoryTypeSport
      else if category = ''MUSIC'' then game_CategoryTypeMusic
      else if category = ''TECH'' then game_CategoryTypeTech
      else game_CategoryTypeUnknown)"

definition MapToDifficulty :: "string \<Rightarrow> game_Difficulty" where
  "MapToDifficulty difficulty =
     (if difficulty = ''EASY'' then game_DifficultEasy
      else if difficulty = ''MEDIUM'' then game_DifficultMedium
      else if difficulty = ''HARD'' then game_DifficultHard
      else game_DifficultUnknown)"

primrec MapFromCategories :: "game_Category list \<Rightarrow> string list" where
  "MapFromCategories [] = []"
| "MapFromCategories (category # categories) = category # MapFromCategories categories"

record game_Question =
  q_Id :: string
  q_Content :: string
  q_CorrectAnswer :: string
  q_Status :: string
  q_Choices :: "string list"
  q_Category :: game_Category
  q_ValidAnswerTime :: gotime
  q_Difficulty :: game_Difficulty

record GameQuestions =
  gq_Questions :: "game_Question list"
  gq_Players :: "u64 list"
  gq_CurrentQuestionIndex :: int

record Game =
  g_Id :: "string option"
  g_Players :: "u64 list"
  g_MatchId :: string
  g_Category :: "game_Category list"
  g_Status :: GameStatus
  g_Question :: "game_Question list option"
  g_CreatedAt :: gotime
  g_UpdatedAt :: gotime

record PlayerAnswer =
  pa_GameId :: string
  pa_QuestionIDs :: string
  pa_PlayerID :: string
  pa_PlayerChoice :: string
  pa_CorrectChoice :: string
  pa_AnswerTime :: gotime
  pa_ValidTimeToAnswer :: gotime
  pa_TimeDiff :: duration
  pa_Options :: "string list"
  pa_Point :: int
  pa_Category :: game_Category

record QuestionCorrectness =
  qc_QuestionId :: string
  qc_PlayerChoice :: string
  qc_CorrectChoice :: string
  qc_IsCorrect :: bool

record PlayerPoint =
  pp_PlayerId :: string
  pp_Point :: int
  pp_QuestionCorrectness :: "QuestionCorrectness list"

record LeaderBoard =
  lb_GameId :: string
  lb_PlayersPoint :: "PlayerPoint list"

record game_MatchedUsers =
  gm_MatchId :: string
  gm_GameId :: string
  gm_Category :: "game_Category list"
  gm_UserId :: "u64 list"

text \<open>The zero values of the structs that the code declares before it decodes into them.\<close>

definition zero_Question :: game_Question where
  "zero_Question = \<lparr>q_Id = [], q_Content = [], q_CorrectAnswer = [], q_Status = [], q_Choices = [],
     q_Category = [], q_ValidAnswerTime = zero_time, q_Difficulty = []\<rparr>"
definition zero_GameQuestions :: GameQuestions where
  "zero_GameQuestions = \<lparr>gq_Questions = [], gq_Players = [], gq_CurrentQuestionIndex = 0\<rparr>"
definition zero_PlayerAnswer :: PlayerAnswer where
  "zero_PlayerAnswer = \<lparr>pa_GameId = [], pa_QuestionIDs = [], pa_PlayerID = [], pa_PlayerChoice = [],
     pa_CorrectChoice = [], pa_AnswerTime = zero_time, pa_ValidTimeToAnswer = zero_time, pa_TimeDiff = 0,
     pa_Options = [], pa_Point = 0, pa_Category = []\<rparr>"
definition zero_Game :: Game where
  "zero_Game = \<lparr>g_Id = None, g_Players = [], g_MatchId = [], g_Category = [], g_Status = [],
     g_Question = None, g_CreatedAt = zero_time, g_UpdatedAt = zero_time\<rparr>"
definition zero_LeaderBoard :: LeaderBoard where
  "zero_LeaderBoard = \<lparr>lb_GameId = [], lb_PlayersPoint = []\<rparr>"

section \<open>Messages from the other services\<close>

definition game_MapFromProtoMessageToEntity :: "PbAllMatchedUsers \<Rightarrow> game_MatchedUsers list" where
  "game_MapFromProtoMessageToEntity users =
     map (\<lambda>user. \<lparr>gm_MatchId = pb_MatchId user, gm_GameId = [],
       gm_Category = map game_MapToCategory (pb_Category user), gm_UserId = pb_UserId user\<rparr>) (pb_Users users)"

definition MapFromProtoMessageToQuestionsEntity :: "PbQuestions \<Rightarrow> game_Question list \<times> string" where
  "MapFromProtoMessageToQuestionsEntity questions =
     (map (\<lambda>question. \<lparr>q_Id = pb_QuestionId question, q_Content = pb_Content question,
        q_CorrectAnswer = pb_CorrectAnswer question, q_Status = [], q_Choices = pb_Choices question,
        q_Category = game_MapToCategory (pb_QuestionCategory question), q_ValidAnswerTime = zero_time,
        q_Difficulty = MapToDifficulty (pb_Difficulty question)\<rparr>) (pb_Questions questions),
      pb_QuestionsMatchId questions)"

definition MapWaitingListRequestToProtoMessage :: "u64 \<Rightarrow> string \<Rightarrow> PbAddToWaitingList" where
  "MapWaitingListRequestToProtoMessage userId category =
     \<lparr>pb_WaitingUserId = userId, pb_WaitingCategory = category\<rparr>"

section \<open>Questions as JSON\<close>

definition enc_Question :: "game_Question \<Rightarrow> go_error + json" where
  "enc_Question q =
     (case enc_time (q_ValidAnswerTime q) of
        Inl e \<Rightarrow> Inl e
      | Inr t \<Rightarrow> Inr (JObj [(''id'', JStr (q_Id q)), (''content'', JStr (q_Content q)),
          (''correctAnswer'', JStr (q_CorrectAnswer q)), (''status'', JStr (q_Status q)),
          (''choices'', enc_slice JStr (q_Choices q)), (''category'', JStr (q_Category q)),
          (''validAnswerTime'', t), (''difficulty'', JStr (q_Difficulty q))]))"

definition dec_Question :: "game_Question decoder" where
  "dec_Question = dec_struct
     [(''id'', field q_Id q_Id_update dec_string), (''content'', field q_Content q_Content_update dec_string),
      (''correctAnswer'', field q_CorrectAnswer q_CorrectAnswer_update dec_string),
      (''status'', field q_Status q_Status_update dec_string),
      (''choices'', field q_Choices q_Choices_update (dec_list dec_string [])),
      (''category'', field q_Category q_Category_update dec_string),
      (''validAnswerTime'', field q_ValidAnswerTime q_ValidAnswerTime_update dec_time),
      (''difficulty'', field q_Difficulty q_Difficulty_update dec_string)]"

text \<open>The index has a \<open>bson\<close> tag only, so JSON knows it by the name of the field.\<close>

definition enc_GameQuestions :: "GameQuestions \<Rightarrow> go_error + json" where
  "enc_GameQuestions gq =
     (case enc_all enc_Question (gq_Questions gq) of
        Inl e \<Rightarrow> Inl e
      | Inr qs \<Rightarrow> Inr (JObj [(''questions'', JArr qs), (''players'', enc_slice enc_u64 (gq_Players gq)),
          (''CurrentQuestionIndex'', enc_int (gq_CurrentQuestionIndex gq))]))"

definition dec_GameQuestions :: "GameQuestions decoder" where
  "dec_GameQuestions = dec_struct
     [(''questions'', field gq_Questions gq_Questions_update (dec_list dec_Question zero_Question)),
      (''players'', field gq_Players gq_Players_update (dec_list dec_u64 0)),
      (''CurrentQuestionIndex'', field gq_CurrentQuestionIndex gq_CurrentQuestionIndex_update dec_int)]"

text \<open>A question whose texts are UTF-8; what is written of it reads back.\<close>

definition question_wf :: "game_Question \<Rightarrow> bool" where
  "question_wf q \<longleftrightarrow> list_all utf8_valid [q_Id q, q_Content q, q_CorrectAnswer q, q_Status q, q_Category q, q_Difficulty q] \<and>
     list_all utf8_valid (q_Choices q)"

definition index_ok :: "int \<Rightarrow> bool" where
  "index_ok i \<longleftrightarrow> - (2 ^ 63) \<le> i \<and> i < 2 ^ 63"

lemma RFC3339Nano_ascii:
  assumes "RFC3339Nano t = Some s"
  shows "utf8_valid s"
proof (rule utf8_valid_ascii)
  fix c assume c: "c \<in> set s"
  have dig: "is_digit c \<Longrightarrow> byte c < 128" by (simp add: is_digit_def)
  have frac: "c \<in> set (fraction_text n) \<Longrightarrow> is_digit c \<or> c = CHR ''.''" for n
    using strip_zeros_is_digit [OF pad_list_all, of 9 n]
    by (auto simp: fraction_text_def list_all_iff split: if_splits)
  obtain y m d where "date_of_day (t div nanosecond_per_second div seconds_per_day + unix_epoch_day) = (y, m, d)"
    by (cases "date_of_day (t div nanosecond_per_second div seconds_per_day + unix_epoch_day)")
  then have "is_digit c \<or> c \<in> set ''-T:Z.''"
    using assms c by (auto simp: RFC3339Nano_def Let_def dest: pad_is_digit dest!: frac split: if_splits)
  then show "byte c < 128" using dig by auto
qed

lemma enc_time_wf: "enc_time t = Inr j \<Longrightarrow> json_wf j \<and> json_depth j = 0"
  by (auto simp: enc_time_def RFC3339Nano_ascii split: option.splits)

lemma dec_enc_Question:
  assumes "enc_Question q = Inr j"
  shows "dec_Question j zero_Question = Inr q"
proof -
  obtain t where t: "enc_time (q_ValidAnswerTime q) = Inr t"
    using assms by (auto simp: enc_Question_def split: sum.splits)
  have "dec_list dec_string [] (enc_slice JStr (q_Choices q)) old = Inr (q_Choices q)" for old
    by (rule dec_enc_slice) simp
  then show ?thesis
    using assms t dec_enc_time [OF t]
    by (auto simp: enc_Question_def dec_Question_def dec_struct_def find_field_def field_def zero_Question_def)
qed

lemma enc_slice_str_wf: "list_all utf8_valid xs \<Longrightarrow> json_wf (enc_slice JStr xs) \<and> json_depth (enc_slice JStr xs) \<le> 1"
  using json_depth_slice [of xs JStr 0] by (auto simp: enc_slice_def list_all_iff)

lemma enc_Question_wf:
  assumes "enc_Question q = Inr j" and "question_wf q"
  shows "json_wf j \<and> json_depth j \<le> 2"
proof -
  obtain t where t: "enc_time (q_ValidAnswerTime q) = Inr t"
    using assms(1) by (auto simp: enc_Question_def split: sum.splits)
  have names: "list_all utf8_valid [''id'', ''content'', ''correctAnswer'', ''status'', ''choices'', ''category'',
      ''validAnswerTime'', ''difficulty'']"
    unfolding list_all_iff by (intro ballI utf8_valid_ascii) auto
  show ?thesis
    using assms t enc_time_wf [OF t] enc_slice_str_wf [of "q_Choices q"] names
    by (auto simp: enc_Question_def question_wf_def)
qed

lemma enc_GameQuestions_round_trip:
  assumes "enc_GameQuestions gq = Inr j" and "list_all question_wf (gq_Questions gq)"
    and "index_ok (gq_CurrentQuestionIndex gq)"
  shows "json_wf j" "json_depth j \<le> 10000" "dec_GameQuestions j zero_GameQuestions = Inr gq"
proof -
  obtain qs where qs: "enc_all enc_Question (gq_Questions gq) = Inr qs"
    using assms(1) by (auto simp: enc_GameQuestions_def split: sum.splits)
  then have j: "j = JObj [(''questions'', JArr qs), (''players'', enc_slice enc_u64 (gq_Players gq)),
      (''CurrentQuestionIndex'', enc_int (gq_CurrentQuestionIndex gq))]"
    using assms(1) by (simp add: enc_GameQuestions_def)
  have "json_wf x \<and> json_depth x \<le> 2" if "x \<in> set qs" for x
    using enc_all_members [OF qs that] enc_Question_wf assms(2) by (auto simp: list_all_iff)
  then have 1: "json_wf (JArr qs)" "json_depth (JArr qs) \<le> 3"
    using json_depth_array [of qs 2] by (auto simp: list_all_iff)
  have 2: "json_wf (enc_slice enc_u64 (gq_Players gq))" "json_depth (enc_slice enc_u64 (gq_Players gq)) \<le> 1"
    using json_depth_slice [of "gq_Players gq" enc_u64 0] by (auto simp: enc_slice_def list_all_iff)
  have names: "list_all utf8_valid [''questions'', ''players'', ''CurrentQuestionIndex'']"
    unfolding list_all_iff by (intro ballI utf8_valid_ascii) auto
  show "json_wf j" using 1 2 names by (simp add: j)
  show "json_depth j \<le> 10000" using 1 2 by (simp add: j)
  have "dec_list dec_Question zero_Question (JArr qs) old = Inr (gq_Questions gq)" for old
    using dec_enc_all [OF qs] dec_enc_Question by (simp add: dec_list_def)
  moreover have "dec_list dec_u64 0 (enc_slice enc_u64 (gq_Players gq)) old = Inr (gq_Players gq)" for old
    by (rule dec_enc_slice) simp
  ultimately show "dec_GameQuestions j zero_GameQuestions = Inr gq"
    using assms(3) by (simp add: j dec_GameQuestions_def dec_struct_def find_field_def field_def index_ok_def zero_GameQuestions_def)
qed

end
