(* ===== verification/Game_Repository.thy ===== *)
theory Game_Repository
  imports Game_Entity Redis_Adapter
begin

text \<open>
  The repository of the game service: \<open>services/game_app/repository\<close>. The questions of a
  game, the players that are ready and the status of a user live in Redis, as JSON; games
  and answers live in MongoDB. The MongoDB driver is the record \<open>mongo\<close> with one operation per
  query the code makes, on arbitrary data; an object id is a number. Iterating over a Go
  map visits its entries in an arbitrary order, which is the argument \<open>ge_range\<close>.
\<close>

section \<open>The database and the configuration\<close>

record 'w mongo =
  mg_FromHex :: "string \<Rightarrow> go_error + nat"
  mg_Hex :: "nat \<Rightarrow> string"
  mg_InsertGame :: "Game \<Rightarrow> ('w, go_error + nat) state"
  mg_UpdateQuestions :: "string \<Rightarrow> gotime \<Rightarrow> game_Question list \<Rightarrow> ('w, go_error + int) state"
  mg_FindByMatchId :: "string \<Rightarrow> ('w, go_error + nat \<times> u64 list) state"
  mg_FindById :: "nat \<Rightarrow> ('w, go_error + Game) state"
  mg_FindAnswer :: "string \<Rightarrow> string \<Rightarrow> string \<Rightarrow> ('w, go_error + PlayerAnswer) state"
  mg_InsertAnswer :: "PlayerAnswer \<Rightarrow> ('w, go_error option) state"
  mg_FindAnswers :: "string \<Rightarrow> ('w, go_error + nat) state"
  mg_CursorAll :: "nat \<Rightarrow> ('w, go_error + PlayerAnswer list) state"

record 'w game_env =
  ge_redis :: "'w redis_client"
  ge_mongo :: "'w mongo"
  ge_Now :: "('w, gotime) state"
  ge_range :: "(string \<times> PlayerPoint) list \<Rightarrow> (string \<times> PlayerPoint) list"
  ge_sort :: "(PlayerPoint \<Rightarrow> PlayerPoint \<Rightarrow> bool) \<Rightarrow> PlayerPoint list \<Rightarrow> PlayerPoint list"

record game_ScoreConfig =
  sc_BaseScore :: int
  sc_MaxBonus :: int
  sc_BonusDeadline :: duration

record game_repo_config =
  rc_QuestionsTimeOut :: duration
  rc_GameStatusTimeOut :: duration
  rc_ValidAnswerTimeOut :: duration
  rc_ScoreConfig :: game_ScoreConfig

definition QuestionsPrefix :: string where "QuestionsPrefix = ''game_questions_''"
definition GameUserStatusPrefix :: string where "GameUserStatusPrefix = ''game_user_status_''"
definition GameStatusPrefix :: string where "GameStatusPrefix = ''game_game_status_''"

lemmas prefix_defs = QuestionsPrefix_def GameUserStatusPrefix_def GameStatusPrefix_def

section \<open>Questions\<close>

definition GetQuestionsByGameId :: "'w game_env \<Rightarrow> string \<Rightarrow> ('w, go_error + GameQuestions) state" where
  "GetQuestionsByGameId env gameId = do {
     r \<leftarrow> redis_Get (ge_redis env) (QuestionsPrefix @ gameId);
     case r of Inl err \<Rightarrow> ret (Inl err)
     | Inr value \<Rightarrow> ret (Unmarshal dec_GameQuestions zero_GameQuestions value) }"

definition GetQuestionsByMatchId :: "'w game_env \<Rightarrow> string \<Rightarrow> ('w, go_error + GameQuestions) state" where
  "GetQuestionsByMatchId env matchId = do {
     r \<leftarrow> redis_Get (ge_redis env) (QuestionsPrefix @ matchId);
     case r of Inl err \<Rightarrow> ret (Inl err)
     | Inr value \<Rightarrow> ret (Unmarshal dec_GameQuestions zero_GameQuestions value) }"

definition saveQuestionByGameId :: "game_repo_config \<Rightarrow> 'w game_env \<Rightarrow> string \<Rightarrow> GameQuestions \<Rightarrow>
    ('w, go_error option) state" where
  "saveQuestionByGameId cfg env gameId gameQuestions =
     (case Marshal (enc_GameQuestions gameQuestions) of
        Inl err \<Rightarrow> ret (Some err)
      | Inr gs \<Rightarrow> redis_Set (ge_redis env) (QuestionsPrefix @ gameId) gs (rc_QuestionsTimeOut cfg))"

text \<open>
  The first half of \<open>SaveQuestionsByMatchId\<close> stores the questions with the game. Without a
  game of that match they go to Redis under the match id; should that fail, the log line
  asks the update for its error, of which there is none, and panics.
\<close>

definition store_by_match :: "game_repo_config \<Rightarrow> 'w game_env \<Rightarrow> string \<Rightarrow> game_Question list \<Rightarrow> bytes \<Rightarrow>
    ('w, unit outcome) state" where
  "store_by_match cfg env matchId questions res = do {
     now \<leftarrow> ge_Now env;
     updateResult \<leftarrow> mg_UpdateQuestions (ge_mongo env) matchId now questions;
     case updateResult of
       Inl err \<Rightarrow> do {
         redisErr \<leftarrow> redis_Set (ge_redis env) (QuestionsPrefix @ matchId) res (rc_QuestionsTimeOut cfg);
         ret (Returned ()) }
     | Inr matchedCount \<Rightarrow>
         if matchedCount = 0 then do {
           redisErr \<leftarrow> redis_Set (ge_redis env) (QuestionsPrefix @ matchId) res (rc_QuestionsTimeOut cfg);
           ret (case redisErr of Some _ \<Rightarrow> Panicked NilDereference | None \<Rightarrow> Returned ()) }
         else ret (Returned ()) }"

definition SaveQuestionsByMatchId :: "game_repo_config \<Rightarrow> 'w game_env \<Rightarrow> string \<Rightarrow> game_Question list \<Rightarrow>
    ('w, go_error option outcome) state" where
  "SaveQuestionsByMatchId cfg env matchId questions =
     (let gQ = \<lparr>gq_Questions = questions, gq_Players = [], gq_CurrentQuestionIndex = 0\<rparr> in
      case Marshal (enc_GameQuestions gQ) of
        Inl err \<Rightarrow> ret (Returned (Some err))
      | Inr res \<Rightarrow> do {
          r \<leftarrow> store_by_match cfg env matchId questions res;
          case r of
            Panicked p \<Rightarrow> ret (Panicked p)
          | Returned _ \<Rightarrow> do {
              found \<leftarrow> mg_FindByMatchId (ge_mongo env) matchId;
              let (ID, Players) = (case found of Inl err \<Rightarrow> (0, []) | Inr sel \<Rightarrow> sel);
              case Marshal (enc_GameQuestions (gQ\<lparr>gq_Players := Players\<rparr>)) of
                Inl err \<Rightarrow> ret (Returned (Some err))
              | Inr gqJson \<Rightarrow> do {
                  err \<leftarrow> redis_Set (ge_redis env) (QuestionsPrefix @ mg_Hex (ge_mongo env) ID) gqJson (rc_QuestionsTimeOut cfg);
                  ret (Returned err) } } })"

section \<open>Games\<close>

definition CreateGame :: "'w game_env \<Rightarrow> Game \<Rightarrow> ('w, go_error + string) state" where
  "CreateGame env game = do {
     r \<leftarrow> GetQuestionsByMatchId env (g_MatchId game);
     let game = (case r of Inl err \<Rightarrow> game | Inr questions \<Rightarrow> game\<lparr>g_Question := Some (gq_Questions questions)\<rparr>);
     result \<leftarrow> mg_InsertGame (ge_mongo env) game;
     case result of
       Inl err \<Rightarrow> ret (Inl (AppErr (Wrap ''game.CreateGame'' (Some err) ErrInternal)))
     | Inr insertedID \<Rightarrow> ret (Inr (mg_Hex (ge_mongo env) insertedID)) }"

text \<open>
  \<open>GetGame\<close> starts a goroutine that puts the questions of the game back into Redis, from
  the first one on; it is returned next to the game. It dereferences the questions, which
  a game need not have.
\<close>

definition cache_questions :: "game_repo_config \<Rightarrow> 'w game_env \<Rightarrow> string \<Rightarrow> Game \<Rightarrow> ('w, unit outcome) state" where
  "cache_questions cfg env gameId game =
     (case g_Question game of
        None \<Rightarrow> ret (Panicked NilDereference)
      | Some questions \<Rightarrow> do {
          err \<leftarrow> saveQuestionByGameId cfg env gameId
            \<lparr>gq_Questions = questions, gq_Players = g_Players game, gq_CurrentQuestionIndex = 0\<rparr>;
          ret (Returned ()) })"

definition GetGame :: "game_repo_config \<Rightarrow> 'w game_env \<Rightarrow> string \<Rightarrow>
    ('w, go_error + Game \<times> ('w, unit outcome) state) state" where
  "GetGame cfg env gameId =
     (case mg_FromHex (ge_mongo env) gameId of
        Inl err \<Rightarrow> ret (Inl err)
      | Inr objectId \<Rightarrow> do {
          r \<leftarrow> mg_FindById (ge_mongo env) objectId;
          case r of
            Inl err \<Rightarrow> ret (Inl err)
          | Inr game \<Rightarrow> ret (Inr (game, cache_questions cfg env gameId game)) })"

section \<open>The status of a user\<close>

definition UpsertUserStatus :: "game_repo_config \<Rightarrow> 'w game_env \<Rightarrow> u64 \<Rightarrow> GameStatus \<Rightarrow> ('w, go_error option) state" where
  "UpsertUserStatus cfg env userId status =
     redis_Set (ge_redis env) (GameUserStatusPrefix @ FormatUint userId) status (rc_GameStatusTimeOut cfg)"

definition GetUserStatus :: "'w game_env \<Rightarrow> u64 \<Rightarrow> ('w, go_error + GameStatus) state" where
  "GetUserStatus env userId = do {
     r \<leftarrow> redis_Get (ge_redis env) (GameUserStatusPrefix @ FormatUint userId);
     case r of Inl err \<Rightarrow> ret (Inl err) | Inr value \<Rightarrow> ret (Inr (MapToGameStatus value)) }"

section \<open>Players that are ready\<close>

record gameStatus =
  gs_ExpectedNumberOfPlayers :: int
  gs_Players :: "int list"

definition zero_gameStatus :: gameStatus where
  "zero_gameStatus = \<lparr>gs_ExpectedNumberOfPlayers = 0, gs_Players = []\<rparr>"

definition enc_gameStatus :: "gameStatus \<Rightarrow> json" where
  "enc_gameStatus gs = JObj [(''expectedNumberOfPlayers'', enc_int (gs_ExpectedNumberOfPlayers gs)),
     (''players'', JArr (map enc_int (gs_Players gs)))]"

definition dec_gameStatus :: "gameStatus decoder" where
  "dec_gameStatus = dec_struct
     [(''expectedNumberOfPlayers'', field gs_ExpectedNumberOfPlayers gs_ExpectedNumberOfPlayers_update dec_int),
      (''players'', field gs_Players gs_Players_update (dec_list dec_int 0))]"

text \<open>
  The error of a player who is ready already prints the address of the id, which is not
  modelled. An id is needed only if there are ready players to compare it with.
\<close>

definition ErrAlreadyReady :: go_error where
  "ErrAlreadyReady = PlainErr ''player is already member of ready players''"

definition UpsertReadyPlayer :: "game_repo_config \<Rightarrow> 'w game_env \<Rightarrow> string \<Rightarrow> int option \<Rightarrow> int option \<Rightarrow>
    ('w, (go_error + bool) outcome) state" where
  "UpsertReadyPlayer cfg env gameId playerId numberOfPlayers = do {
     r \<leftarrow> redis_Get (ge_redis env) (GameStatusPrefix @ gameId);
     case r of
       Inl _ \<Rightarrow> do {
         let players = (case numberOfPlayers of None \<Rightarrow> 2 | Some n \<Rightarrow> n);
         err \<leftarrow> redis_Set (ge_redis env) (GameStatusPrefix @ gameId)
           (json_print (enc_gameStatus \<lparr>gs_ExpectedNumberOfPlayers = players, gs_Players = []\<rparr>)) (rc_GameStatusTimeOut cfg);
         ret (Returned (case err of Some e \<Rightarrow> Inl e | None \<Rightarrow> Inr False)) }
     | Inr value \<Rightarrow>
         (case Unmarshal dec_gameStatus zero_gameStatus value of
            Inl err \<Rightarrow> ret (Returned (Inl err))
          | Inr gs \<Rightarrow>
              if wrap64 (gs_ExpectedNumberOfPlayers gs - int (length (gs_Players gs))) = 0 then ret (Returned (Inr True))
              else if gs_Players gs \<noteq> [] \<and> playerId = None then ret (Panicked NilDereference)
              else if \<exists>i \<in> set (gs_Players gs). playerId = Some i then ret (Returned (Inl ErrAlreadyReady))
              else do {
                let gs = (case playerId of None \<Rightarrow> gs | Some i \<Rightarrow> gs\<lparr>gs_Players := gs_Players gs @ [i]\<rparr>);
                err \<leftarrow> redis_Set (ge_redis env) (GameStatusPrefix @ gameId) (json_print (enc_gameStatus gs)) (rc_GameStatusTimeOut cfg);
                ret (Returned (case err of Some e \<Rightarrow> Inl e
                  | None \<Rightarrow> Inr (int (length (gs_Players gs)) = gs_ExpectedNumberOfPlayers gs))) }) }"

section \<open>Deadlines\<close>

definition IncreaseGameQuestionCurrentIndex :: "game_repo_config \<Rightarrow> 'w game_env \<Rightarrow> string \<Rightarrow>
    ('w, go_error option outcome) state" where
  "IncreaseGameQuestionCurrentIndex cfg env gameId = do {
     r \<leftarrow> GetQuestionsByGameId env gameId;
     case r of
       Inl err \<Rightarrow> ret (Returned (Some err))
     | Inr gameQuestions \<Rightarrow>
         let i = gq_CurrentQuestionIndex gameQuestions; qs = gq_Questions gameQuestions
         in do {
           now \<leftarrow> ge_Now env;
           if i < 0 \<or> int (length qs) \<le> i then ret (Panicked IndexOutOfRange)
           else do {
             let q = (qs ! nat i)\<lparr>q_ValidAnswerTime := time_Add now (rc_ValidAnswerTimeOut cfg)\<rparr>;
             err \<leftarrow> saveQuestionByGameId cfg env gameId
               (gameQuestions\<lparr>gq_Questions := qs[nat i := q], gq_CurrentQuestionIndex := wrap64 (i + 1)\<rparr>);
             ret (Returned err) } } }"

text \<open>The loop over the questions: deadline \<open>i\<close> is \<open>i + 1\<close> answer times from now.\<close>

primrec set_deadlines :: "game_repo_config \<Rightarrow> 'w game_env \<Rightarrow> nat \<Rightarrow> duration \<Rightarrow> game_Question list \<Rightarrow>
    ('w, game_Question list \<times> duration) state" where
  "set_deadlines cfg env i finalTTL [] = ret ([], finalTTL)"
| "set_deadlines cfg env i finalTTL (q # qs) =
     (let ttl = wrap64 (rc_ValidAnswerTimeOut cfg * int (i + 1)) in do {
        now \<leftarrow> ge_Now env;
        (qs', final) \<leftarrow> set_deadlines cfg env (Suc i) (wrap64 (finalTTL + ttl)) qs;
        ret (q\<lparr>q_ValidAnswerTime := time_Add now ttl\<rparr> # qs', final) })"

definition SetValidAnswerTimeForQuestions :: "game_repo_config \<Rightarrow> 'w game_env \<Rightarrow> string \<Rightarrow>
    ('w, duration \<times> go_error option) state" where
  "SetValidAnswerTimeForQuestions cfg env gameId = do {
     r \<leftarrow> GetQuestionsByGameId env gameId;
     case r of
       Inl err \<Rightarrow> ret (0, Some err)
     | Inr gameQuestions \<Rightarrow> do {
         (qs, finalTTL) \<leftarrow> set_deadlines cfg env 0 0 (gq_Questions gameQuestions);
         err \<leftarrow> saveQuestionByGameId cfg env gameId (gameQuestions\<lparr>gq_Questions := qs\<rparr>);
         case err of Some e \<Rightarrow> ret (0, Some e) | None \<Rightarrow> ret (finalTTL, None) } }"

section \<open>Answers and points\<close>

definition CalculateScore :: "game_repo_config \<Rightarrow> bool \<Rightarrow> gotime \<Rightarrow> gotime \<Rightarrow> int" where
  "CalculateScore cfg isCorrect answerTime validAnswerTime =
     (if \<not> isCorrect \<or> After answerTime validAnswerTime then 0
      else
        let sc = rc_ScoreConfig cfg;
            timeDiff = Seconds (time_Sub validAnswerTime answerTime);
            bonus = (if Seconds (sc_BonusDeadline sc) \<le> timeDiff then sc_MaxBonus sc
              else int_of_float64 (fmul (float64_of_int (sc_MaxBonus sc)) (fdiv timeDiff (Seconds (sc_BonusDeadline sc)))))
        in wrap64 (sc_BaseScore sc + bonus))"

definition ErrAnsweredQuickly :: go_error where
  "ErrAnsweredQuickly = AppErr (New ''game.SavePlayerAnswer'' ''INVALID_ANSWER'' ''answered to question quickly'' 400
     codes_InvalidArgument [])"

definition too_early :: "game_repo_config \<Rightarrow> game_Question \<Rightarrow> PlayerAnswer \<Rightarrow> bool" where
  "too_early cfg q ans \<longleftrightarrow>
     Milliseconds (rc_ValidAnswerTimeOut cfg) < Milliseconds (time_Sub (q_ValidAnswerTime q) (pa_AnswerTime ans))"

definition graded :: "game_repo_config \<Rightarrow> game_Question \<Rightarrow> PlayerAnswer \<Rightarrow> PlayerAnswer" where
  "graded cfg q ans = ans\<lparr>
     pa_CorrectChoice := q_CorrectAnswer q, pa_Options := q_Choices q, pa_Category := q_Category q,
     pa_ValidTimeToAnswer := q_ValidAnswerTime q,
     pa_TimeDiff := int_of_float64 (Seconds (time_Sub (q_ValidAnswerTime q) (pa_AnswerTime ans))),
     pa_Point := CalculateScore cfg (pa_PlayerChoice ans = q_CorrectAnswer q) (pa_AnswerTime ans) (q_ValidAnswerTime q)\<rparr>"

text \<open>The loop over the questions; the flag says whether the question has been found.\<close>

primrec grade_loop :: "game_repo_config \<Rightarrow> bool \<Rightarrow> PlayerAnswer \<Rightarrow> game_Question list \<Rightarrow> go_error + PlayerAnswer" where
  "grade_loop cfg found ans [] = Inr ans"
| "grade_loop cfg found ans (q # qs) =
     (if \<not> found \<and> pa_QuestionIDs ans = q_Id q then
        if too_early cfg q ans then Inl ErrAnsweredQuickly else grade_loop cfg True (graded cfg q ans) qs
      else grade_loop cfg found ans qs)"

definition ErrAlreadyAnswered :: "PlayerAnswer \<Rightarrow> go_error" where
  "ErrAlreadyAnswered ans = PlainErr (''player '' @ pa_PlayerID ans @ '' already answered this question '' @ pa_QuestionIDs ans)"

definition SavePlayerAnswer :: "game_repo_config \<Rightarrow> 'w game_env \<Rightarrow> string \<Rightarrow> PlayerAnswer \<Rightarrow> ('w, go_error option) state" where
  "SavePlayerAnswer cfg env gameId playerAnswer = do {
     r \<leftarrow> GetQuestionsByGameId env gameId;
     case r of
       Inl err \<Rightarrow> ret (Some err)
     | Inr gameQuestion \<Rightarrow>
         (case grade_loop cfg False playerAnswer (gq_Questions gameQuestion) of
            Inl err \<Rightarrow> ret (Some err)
          | Inr ans \<Rightarrow> do {
              r \<leftarrow> mg_FindAnswer (ge_mongo env) gameId (pa_PlayerID ans) (pa_QuestionIDs ans);
              let stored = (case r of Inl err \<Rightarrow> zero_PlayerAnswer | Inr a \<Rightarrow> a);
              if pa_PlayerID stored = pa_PlayerID ans \<and> pa_GameId stored = pa_GameId ans \<and>
                 pa_QuestionIDs stored = pa_QuestionIDs ans
              then ret (Some (ErrAlreadyAnswered ans))
              else do {
                err \<leftarrow> mg_InsertAnswer (ge_mongo env) ans;
                case err of
                  Some e \<Rightarrow> ret (Some (AppErr (Wrap ''game.SavePlayerAnswer'' (Some e) ErrInternal)))
                | None \<Rightarrow> ret None } }) }"

section \<open>The leader board\<close>

text \<open>The Go map from players to points is an association list in order of insertion.\<close>

definition correctness_of :: "PlayerAnswer \<Rightarrow> QuestionCorrectness" where
  "correctness_of ans = \<lparr>qc_QuestionId = [], qc_PlayerChoice = pa_PlayerChoice ans,
     qc_CorrectChoice = pa_CorrectChoice ans, qc_IsCorrect = (0 < pa_TimeDiff ans \<and> 0 < pa_Point ans)\<rparr>"

fun add_answer :: "PlayerAnswer \<Rightarrow> (string \<times> PlayerPoint) list \<Rightarrow> (string \<times> PlayerPoint) list" where
  "add_answer ans [] = [(pa_PlayerID ans, \<lparr>pp_PlayerId = pa_PlayerID ans, pp_Point = pa_Point ans,
     pp_QuestionCorrectness = [correctness_of ans]\<rparr>)]"
| "add_answer ans ((id', p) # m) =
     (if id' = pa_PlayerID ans
      then (id', p\<lparr>pp_Point := wrap64 (pp_Point p + pa_Point ans),
                   pp_QuestionCorrectness := pp_QuestionCorrectness p @ [correctness_of ans]\<rparr>) # m
      else (id', p) # add_answer ans m)"

definition add_player :: "u64 \<Rightarrow> (string \<times> PlayerPoint) list \<Rightarrow> (string \<times> PlayerPoint) list" where
  "add_player player m =
     (let playerId = FormatInt (sint player)
      in if playerId \<in> fst ` set m then m
         else m @ [(playerId, \<lparr>pp_PlayerId = playerId, pp_Point = 0, pp_QuestionCorrectness = []\<rparr>)])"

definition player_points :: "PlayerAnswer list \<Rightarrow> u64 list \<Rightarrow> (string \<times> PlayerPoint) list" where
  "player_points answers players = fold add_player players (fold add_answer answers [])"

definition more_points :: "PlayerPoint \<Rightarrow> PlayerPoint \<Rightarrow> bool" where
  "more_points p q \<longleftrightarrow> pp_Point q < pp_Point p"

definition GetLeaderBoard :: "'w game_env \<Rightarrow> string \<Rightarrow> ('w, go_error + LeaderBoard) state" where
  "GetLeaderBoard env gameId =
     (case mg_FromHex (ge_mongo env) gameId of
        Inl err \<Rightarrow> ret (Inl err)
      | Inr objectId \<Rightarrow> do {
          r \<leftarrow> mg_FindById (ge_mongo env) objectId;
          case r of
            Inl err \<Rightarrow> ret (Inl err)
          | Inr storedGame \<Rightarrow> do {
              r \<leftarrow> mg_FindAnswers (ge_mongo env) gameId;
              case r of
                Inl err \<Rightarrow> ret (Inl err)
              | Inr cursor \<Rightarrow> do {
                  r \<leftarrow> mg_CursorAll (ge_mongo env) cursor;
                  case r of
                    Inl err \<Rightarrow> ret (Inl err)
                  | Inr answers \<Rightarrow>
                      let entries = map (\<lambda>(player, point). \<lparr>pp_PlayerId = player, pp_Point = pp_Point point,
                            pp_QuestionCorrectness = pp_QuestionCorrectness point\<rparr>)
                          (ge_range env (player_points answers (g_Players storedGame)))
                      in ret (Inr \<lparr>lb_GameId = gameId, lb_PlayersPoint = ge_sort env more_points entries\<rparr>) } } })"

end
