(* ===== verification/Game_Score.thy ===== *)
theory Game_Score
  imports Game_Repository
begin

text \<open>
  The points for an answer, \<open>CalculateScore\<close>: nothing for a wrong or late one, and for the
  others the base score and a bonus that grows with the time left. The computation is in
  \<open>float64\<close>; what is shown holds of the rounded results.
\<close>

text \<open>A configuration whose numbers are exact in \<open>float64\<close> and whose sum does not wrap around.\<close>

definition score_config_ok :: "game_ScoreConfig \<Rightarrow> bool" where
  "score_config_ok sc \<longleftrightarrow> 0 \<le> sc_BaseScore sc \<and> sc_BaseScore sc \<le> 2 ^ 53 \<and> 0 \<le> sc_MaxBonus sc \<and> sc_MaxBonus sc \<le> 2 ^ 53 \<and>
     0 < sc_BonusDeadline sc \<and> sc_BonusDeadline sc < 2 ^ 63"

text \<open>The bonus for a duration that is left.\<close>

definition bonus_for :: "game_ScoreConfig \<Rightarrow> duration \<Rightarrow> int" where
  "bonus_for sc d = (if Seconds (sc_BonusDeadline sc) \<le> Seconds d then sc_MaxBonus sc
     else int_of_float64 (fmul (float64_of_int (sc_MaxBonus sc)) (fdiv (Seconds d) (Seconds (sc_BonusDeadline sc)))))"

lemma Score_def':
  "CalculateScore cfg c a v = (if \<not> c \<or> v < a then 0
     else wrap64 (sc_BaseScore (rc_ScoreConfig cfg) + bonus_for (rc_ScoreConfig cfg) (time_Sub v a)))"
  by (simp add: CalculateScore_def After_def bonus_for_def Let_def)

lemma bonus_fraction:
  assumes "0 \<le> x" and "x \<le> y" and "y < z"
  shows "0 \<le> fdiv x z" "fdiv x z \<le> fdiv y z" "fdiv y z \<le> 1"
proof -
  have z: "0 < z" using assms by simp
  then show "0 \<le> fdiv x z" using assms by (simp add: fdiv_def round53_nonneg)
  show "fdiv x z \<le> fdiv y z"
    using assms z by (simp add: fdiv_def round53_mono divide_right_mono)
  have "0 \<le> y / z" "y / z \<le> of_int 1" using assms z by simp_all
  from round53_le_int [OF this] show "fdiv y z \<le> 1" by (simp add: fdiv_def)
qed

lemma bonus_for_mono:
  assumes ok: "score_config_ok sc" and d: "0 \<le> d" "d \<le> e" "e < 2 ^ 63"
  shows "0 \<le> bonus_for sc d" "bonus_for sc d \<le> bonus_for sc e" "bonus_for sc e \<le> sc_MaxBonus sc"
proof -
  let ?M = "sc_MaxBonus sc" and ?D = "Seconds (sc_BonusDeadline sc)"
  let ?b = "\<lambda>d. int_of_float64 (fmul (float64_of_int ?M) (fdiv (Seconds d) ?D))"
  have M: "float64_of_int ?M = of_int ?M" "0 \<le> ?M" "?M \<le> 2 ^ 53"
    using ok by (simp_all add: score_config_ok_def float64_of_int_exact)
  have le: "0 \<le> ?b d \<and> ?b d \<le> ?b e \<and> ?b e \<le> ?M" if "0 \<le> d" "d \<le> e" "e < 2 ^ 63" "Seconds e < ?D" for d e
  proof -
    note f = bonus_fraction [OF Seconds_nonneg [OF that(1)] Seconds_mono [OF that(1-3)] that(4)]
    have M0: "0 \<le> (of_int ?M :: rat)" using M(2) by simp
    have p: "0 \<le> of_int ?M * fdiv (Seconds d) ?D"
      "of_int ?M * fdiv (Seconds d) ?D \<le> of_int ?M * fdiv (Seconds e) ?D"
      using f M0 by (simp_all add: mult_left_mono)
    have q: "of_int ?M * fdiv (Seconds e) ?D \<le> of_int ?M"
      using mult_left_mono [OF f(3) M0] by simp
    have r: "0 \<le> round53 (of_int ?M * fdiv (Seconds d) ?D)"
      "round53 (of_int ?M * fdiv (Seconds d) ?D) \<le> round53 (of_int ?M * fdiv (Seconds e) ?D)"
      "round53 (of_int ?M * fdiv (Seconds e) ?D) \<le> of_int ?M"
      using p q M by (auto intro: round53_nonneg round53_mono round53_le_int)
    have "int_of_float64 x \<le> n" if "0 \<le> x" "x \<le> of_int n" for x n
      using floor_mono [OF that(2)] that(1) by (simp add: int_of_float64_def)
    moreover have "0 \<le> int_of_float64 x" if "0 \<le> x" for x using that by (simp add: int_of_float64_def)
    ultimately show ?thesis
      unfolding M(1) fmul_def using int_of_float64_mono [OF r(1,2)] r order.trans [OF r(1,2)] by blast
  qed
  have mono: "Seconds d \<le> Seconds e" using d by (rule Seconds_mono)
  show "0 \<le> bonus_for sc d"
    using le [of d d] d M(2) by (auto simp: bonus_for_def)
  show "bonus_for sc e \<le> ?M"
    using le [of e e] d by (auto simp: bonus_for_def)
  show "bonus_for sc d \<le> bonus_for sc e"
    using le [of d e] le [of d d] d mono by (auto simp: bonus_for_def)
qed

lemma time_Sub_bound: "time_Sub v a < 2 ^ 63"
  by (simp add: time_Sub_def)

lemma score_no_wrap:
  assumes "score_config_ok (rc_ScoreConfig cfg)" and "a \<le> v"
  shows "CalculateScore cfg True a v = sc_BaseScore (rc_ScoreConfig cfg) + bonus_for (rc_ScoreConfig cfg) (time_Sub v a)"
proof -
  let ?sc = "rc_ScoreConfig cfg" and ?b = "bonus_for (rc_ScoreConfig cfg) (time_Sub v a)"
  have "0 \<le> ?b" "?b \<le> sc_MaxBonus ?sc"
    using bonus_for_mono [OF assms(1) time_Sub_nonneg [OF assms(2)] order_refl time_Sub_bound] by simp_all
  then have "wrap64 (sc_BaseScore ?sc + ?b) = sc_BaseScore ?sc + ?b"
    using assms(1) by (intro wrap64_id) (auto simp: score_config_ok_def)
  with assms(2) show ?thesis by (simp add: Score_def')
qed

lemma score_bounds':
  assumes "score_config_ok (rc_ScoreConfig cfg)"
  shows "(CalculateScore cfg c a v = 0 \<and> (\<not> c \<or> v < a)) \<or>
    (c \<and> a \<le> v \<and> sc_BaseScore (rc_ScoreConfig cfg) \<le> CalculateScore cfg c a v \<and>
     CalculateScore cfg c a v \<le> sc_BaseScore (rc_ScoreConfig cfg) + sc_MaxBonus (rc_ScoreConfig cfg) \<and>
     (v - a \<ge> sc_BonusDeadline (rc_ScoreConfig cfg) \<longrightarrow>
        CalculateScore cfg c a v = sc_BaseScore (rc_ScoreConfig cfg) + sc_MaxBonus (rc_ScoreConfig cfg)))"
proof (cases "\<not> c \<or> v < a")
  case False
  let ?sc = "rc_ScoreConfig cfg"
  have av: "a \<le> v" and c: "c = True" using False by simp_all
  note b = bonus_for_mono [OF assms time_Sub_nonneg [OF av] order_refl time_Sub_bound]
  have "bonus_for ?sc (time_Sub v a) = sc_MaxBonus ?sc" if "v - a \<ge> sc_BonusDeadline ?sc"
  proof -
    have "sc_BonusDeadline ?sc \<le> time_Sub v a" "0 \<le> sc_BonusDeadline ?sc"
      using that assms by (auto simp: time_Sub_def score_config_ok_def)
    then have "Seconds (sc_BonusDeadline ?sc) \<le> Seconds (time_Sub v a)"
      using time_Sub_bound by (intro Seconds_mono) simp_all
    then show ?thesis by (simp add: bonus_for_def)
  qed
  then show ?thesis using b av by (simp add: c score_no_wrap [OF assms])
qed (auto simp: Score_def')

text \<open>
  C37. An answer that is wrong or late earns nothing; a right one in time earns the base score
  and at most the maximal bonus, and all of it if at least the bonus deadline is left.
\<close>

theorem score_bounds:
  assumes "score_config_ok (rc_ScoreConfig cfg)"
  shows "(CalculateScore cfg c a v = 0 \<and> (\<not> c \<or> v < a)) \<or>
    (c \<and> a \<le> v \<and> sc_BaseScore (rc_ScoreConfig cfg) \<le> CalculateScore cfg c a v \<and>
     CalculateScore cfg c a v \<le> sc_BaseScore (rc_ScoreConfig cfg) + sc_MaxBonus (rc_ScoreConfig cfg) \<and>
     (v - a \<ge> sc_BonusDeadline (rc_ScoreConfig cfg) \<longrightarrow>
        CalculateScore cfg c a v = sc_BaseScore (rc_ScoreConfig cfg) + sc_MaxBonus (rc_ScoreConfig cfg)))"
  using assms by (rule score_bounds')

definition ref_repo_config :: game_repo_config where
  "ref_repo_config = \<lparr>rc_QuestionsTimeOut = 300 * nanosecond_per_second, rc_GameStatusTimeOut = 300 * nanosecond_per_second,
     rc_ValidAnswerTimeOut = 120 * nanosecond_per_second,
     rc_ScoreConfig = \<lparr>sc_BaseScore = 5, sc_MaxBonus = 10, sc_BonusDeadline = 115 * nanosecond_per_second\<rparr>\<rparr>"

lemma score_bounds_witness:
  "CalculateScore ref_repo_config True 0 (120 * nanosecond_per_second) = 15 \<and>
   CalculateScore ref_repo_config False 0 (120 * nanosecond_per_second) = 0"
proof -
  have ok: "score_config_ok (rc_ScoreConfig ref_repo_config)"
    by (simp add: score_config_ok_def ref_repo_config_def)
  show ?thesis
    using score_bounds [OF ok, of True 0 "120 * nanosecond_per_second"]
      score_bounds [OF ok, of False 0 "120 * nanosecond_per_second"]
    by (simp add: ref_repo_config_def)
qed

text \<open>
  Who answers a question correctly and earlier never earns less.
\<close>

theorem faster_scores_no_less:
  assumes "score_config_ok (rc_ScoreConfig cfg)" and "a \<le> b" and "b \<le> v"
  shows "CalculateScore cfg True b v \<le> CalculateScore cfg True a v"
  using bonus_for_mono(2) [OF assms(1) time_Sub_nonneg [OF assms(3)] time_Sub_mono [OF assms(2)] time_Sub_bound]
    assms by (simp add: score_no_wrap)

lemma faster_scores_no_less_witness:
  "CalculateScore ref_repo_config True 60000000000 120000000000 \<le> CalculateScore ref_repo_config True 30000000000 120000000000"
  by (rule faster_scores_no_less) (simp_all add: score_config_ok_def ref_repo_config_def)

end
