(* ===== verification/Game_Laws.thy ===== *)
theory Game_Laws
  imports Game_Repository Game_Score
begin

text \<open>
  What the game service may rely on. The first part states what the documentation promises
  of a MongoDB that answers, as predicates on the driver and on views of the outside world:
  \<open>games\<close>, the documents of the collection \<open>game\<close>, and \<open>answers\<close>, those of
  \<open>player_answers\<close>. BSON keeps times to the millisecond and refuses a \<open>uint64\<close> above the
  signed range. The second part is the contract of a store that maps keys to values, which
  the questions of a game and the status of a user meet.
\<close>

section \<open>MongoDB\<close>

definition bson_time :: "gotime \<Rightarrow> gotime" where
  "bson_time t = t div 1000000 * 1000000"

definition bson_question :: "game_Question \<Rightarrow> game_Question" where
  "bson_question q = q\<lparr>q_ValidAnswerTime := bson_time (q_ValidAnswerTime q)\<rparr>"

definition bson_game :: "Game \<Rightarrow> Game" where
  "bson_game g = g\<lparr>g_Question := map_option (map bson_question) (g_Question g),
     g_CreatedAt := bson_time (g_CreatedAt g), g_UpdatedAt := bson_time (g_UpdatedAt g)\<rparr>"

definition bson_answer :: "PlayerAnswer \<Rightarrow> PlayerAnswer" where
  "bson_answer a = a\<lparr>pa_AnswerTime := bson_time (pa_AnswerTime a), pa_ValidTimeToAnswer := bson_time (pa_ValidTimeToAnswer a)\<rparr>"

definition bson_players :: "u64 list \<Rightarrow> bool" where
  "bson_players ids \<longleftrightarrow> list_all (\<lambda>i. unat i < 2 ^ 63) ids"

text \<open>A document id is a positive number, and there is always a new one.\<close>

definition object_id :: "nat \<Rightarrow> bool" where
  "object_id i \<longleftrightarrow> 0 < i"

definition mongo_ids :: "'w mongo \<Rightarrow> bool" where
  "mongo_ids M \<longleftrightarrow> (\<forall>i. mg_FromHex M (mg_Hex M i) = Inr i)"

definition mongo_games :: "'w mongo \<Rightarrow> ('w \<Rightarrow> nat \<Rightarrow> Game option) \<Rightarrow> ('w \<Rightarrow> 'o) \<Rightarrow> bool" where
  "mongo_games M games other \<longleftrightarrow>
     (\<forall>g w. if bson_players (g_Players g)
        then \<exists>i w'. run_state (mg_InsertGame M g) w = (Inr i, w') \<and> object_id i \<and> games w i = None \<and>
               games w' = (games w)(i \<mapsto> bson_game g) \<and> other w' = other w
        else \<exists>e w'. run_state (mg_InsertGame M g) w = (Inl e, w') \<and> games w' = games w \<and> other w' = other w) \<and>
     (\<forall>mid now qs w. if (\<exists>i g. games w i = Some g \<and> g_MatchId g = mid)
        then \<exists>i g w'. run_state (mg_UpdateQuestions M mid now qs) w = (Inr 1, w') \<and> games w i = Some g \<and> g_MatchId g = mid \<and>
               games w' = (games w)(i \<mapsto> g\<lparr>g_Question := Some (map bson_question qs), g_UpdatedAt := bson_time now\<rparr>) \<and>
               other w' = other w
        else \<exists>w'. run_state (mg_UpdateQuestions M mid now qs) w = (Inr 0, w') \<and> games w' = games w \<and> other w' = other w) \<and>
     (\<forall>mid w. if (\<exists>i g. games w i = Some g \<and> g_MatchId g = mid)
        then \<exists>i g w'. run_state (mg_FindByMatchId M mid) w = (Inr (i, g_Players g), w') \<and> games w i = Some g \<and>
               g_MatchId g = mid \<and> games w' = games w \<and> other w' = other w
        else \<exists>e w'. run_state (mg_FindByMatchId M mid) w = (Inl e, w') \<and> games w' = games w \<and> other w' = other w) \<and>
     (\<forall>i w. (case games w i of
          Some g \<Rightarrow> \<exists>w'. run_state (mg_FindById M i) w = (Inr g, w') \<and> games w' = games w \<and> other w' = other w
        | None \<Rightarrow> \<exists>e w'. run_state (mg_FindById M i) w = (Inl e, w') \<and> games w' = games w \<and> other w' = other w))"

lemma mongo_games_insert:
  assumes "mongo_games M games other" and "bson_players (g_Players g)"
  shows "\<exists>i w'. run_state (mg_InsertGame M g) w = (Inr i, w') \<and> object_id i \<and> games w i = None \<and>
    games w' = (games w)(i \<mapsto> bson_game g) \<and> other w' = other w"
  using conjunct1 [OF assms(1) [unfolded mongo_games_def], THEN spec, THEN spec, of g w] assms(2) by simp

lemma mongo_games_refuses:
  assumes "mongo_games M games other" and "\<not> bson_players (g_Players g)"
  shows "\<exists>e w'. run_state (mg_InsertGame M g) w = (Inl e, w') \<and> games w' = games w \<and> other w' = other w"
  using conjunct1 [OF assms(1) [unfolded mongo_games_def], THEN spec, THEN spec, of g w] assms(2) by simp

lemma mongo_games_update:
  assumes "mongo_games M games other"
  shows "if (\<exists>i g. games w i = Some g \<and> g_MatchId g = mid)
    then \<exists>i g w'. run_state (mg_UpdateQuestions M mid now qs) w = (Inr 1, w') \<and> games w i = Some g \<and> g_MatchId g = mid \<and>
      games w' = (games w)(i \<mapsto> g\<lparr>g_Question := Some (map bson_question qs), g_UpdatedAt := bson_time now\<rparr>) \<and>
      other w' = other w
    else \<exists>w'. run_state (mg_UpdateQuestions M mid now qs) w = (Inr 0, w') \<and> games w' = games w \<and> other w' = other w"
  using conjunct1 [OF conjunct2 [OF assms [unfolded mongo_games_def]], THEN spec, THEN spec, THEN spec, THEN spec] .

lemma mongo_games_by_match:
  assumes "mongo_games M games other"
  shows "if (\<exists>i g. games w i = Some g \<and> g_MatchId g = mid)
    then \<exists>i g w'. run_state (mg_FindByMatchId M mid) w = (Inr (i, g_Players g), w') \<and> games w i = Some g \<and>
      g_MatchId g = mid \<and> games w' = games w \<and> other w' = other w
    else \<exists>e w'. run_state (mg_FindByMatchId M mid) w = (Inl e, w') \<and> games w' = games w \<and> other w' = other w"
  using conjunct1 [OF conjunct2 [OF conjunct2 [OF assms [unfolded mongo_games_def]]], THEN spec, THEN spec] .

lemma mongo_games_by_id:
  assumes "mongo_games M games other"
  shows "case games w i of
      Some g \<Rightarrow> \<exists>w'. run_state (mg_FindById M i) w = (Inr g, w') \<and> games w' = games w \<and> other w' = other w
    | None \<Rightarrow> \<exists>e w'. run_state (mg_FindById M i) w = (Inl e, w') \<and> games w' = games w \<and> other w' = other w"
  using conjunct2 [OF conjunct2 [OF conjunct2 [OF assms [unfolded mongo_games_def]]], THEN spec, THEN spec] .

text \<open>The answers in order of insertion; a query without a match is an error.\<close>

definition answer_matches :: "string \<Rightarrow> string \<Rightarrow> string \<Rightarrow> PlayerAnswer \<Rightarrow> bool" where
  "answer_matches gid pid qid a \<longleftrightarrow> pa_GameId a = gid \<and> pa_PlayerID a = pid \<and> pa_QuestionIDs a = qid"

definition mongo_answers :: "'w mongo \<Rightarrow> ('w \<Rightarrow> PlayerAnswer list) \<Rightarrow> ('w \<Rightarrow> 'o) \<Rightarrow> bool" where
  "mongo_answers M answers other \<longleftrightarrow>
     (\<forall>gid pid qid w. \<exists>w'. answers w' = answers w \<and> other w' = other w \<and>
        (case find (answer_matches gid pid qid) (answers w) of
           Some a \<Rightarrow> run_state (mg_FindAnswer M gid pid qid) w = (Inr a, w')
         | None \<Rightarrow> \<exists>e. run_state (mg_FindAnswer M gid pid qid) w = (Inl e, w'))) \<and>
     (\<forall>a w. \<exists>w'. run_state (mg_InsertAnswer M a) w = (None, w') \<and> answers w' = answers w @ [bson_answer a] \<and>
        other w' = other w) \<and>
     (\<forall>gid w. \<exists>c w1 w2. run_state (mg_FindAnswers M gid) w = (Inr c, w1) \<and>
        run_state (mg_CursorAll M c) w1 = (Inr (filter (\<lambda>a. pa_GameId a = gid) (answers w)), w2) \<and>
        answers w1 = answers w \<and> other w1 = other w \<and> answers w2 = answers w \<and> other w2 = other w)"

section \<open>The clock\<close>

text \<open>A reading changes nothing but the clock itself, which never goes back.\<close>

definition clock_reads :: "'w game_env \<Rightarrow> ('w \<Rightarrow> gotime) \<Rightarrow> ('w \<Rightarrow> 'o) \<Rightarrow> bool" where
  "clock_reads env clock other \<longleftrightarrow>
     (\<forall>w. \<exists>w'. run_state (ge_Now env) w = (clock w, w') \<and> clock w \<le> clock w' \<and> other w' = other w)"

lemma clock_readsD:
  "clock_reads env clock other \<Longrightarrow> \<exists>w'. run_state (ge_Now env) w = (clock w, w') \<and> clock w \<le> clock w' \<and> other w' = other w"
  by (simp add: clock_reads_def)

text \<open>Redis leaves the rest of the outside world alone.\<close>

definition redis_frame :: "'w redis_client \<Rightarrow> ('w \<Rightarrow> 'o) \<Rightarrow> bool" where
  "redis_frame a other \<longleftrightarrow> (\<forall>key v ttl. keeps other (rc_Set a key v ttl)) \<and> (\<forall>key. keeps other (rc_Get a key))"

lemma redis_Set_frame:
  assumes "redis_strings a kv" and "redis_frame a other"
  shows "\<exists>w'. run_state (redis_Set a key v ttl) w = (None, w') \<and> kv w' = (kv w)(key \<mapsto> v) \<and> other w' = other w"
proof -
  obtain w' where "run_state (redis_Set a key v ttl) w = (None, w')" "kv w' = (kv w)(key \<mapsto> v)"
    using redis_Set_ok [OF assms(1)] by blast
  moreover have "keeps other (redis_Set a key v ttl)" using assms(2) by (simp add: redis_frame_def redis_Set_def)
  ultimately show ?thesis using keepsD [of other "redis_Set a key v ttl" w] by auto
qed

lemma redis_Get_frame:
  assumes "redis_strings a kv" and "redis_frame a other"
  shows "\<exists>w'. kv w' = kv w \<and> other w' = other w \<and> (case kv w key of
      Some v \<Rightarrow> run_state (redis_Get a key) w = (Inr v, w') | None \<Rightarrow> \<exists>e. run_state (redis_Get a key) w = (Inl e, w'))"
proof -
  have "keeps other (redis_Get a key)" using assms(2) by (simp add: redis_frame_def redis_Get_def)
  note keep = keepsD [OF this, of w]
  show ?thesis
  proof (cases "kv w key")
    case None
    then obtain e w' where "run_state (redis_Get a key) w = (Inl e, w')" "kv w' = kv w"
      using redis_Get_None [OF assms(1)] by blast
    with None keep show ?thesis by auto
  next
    case (Some v)
    then obtain w' where "run_state (redis_Get a key) w = (Inr v, w')" "kv w' = kv w"
      using redis_Get_Some [OF assms(1)] by blast
    with Some keep show ?thesis by auto
  qed
qed

section \<open>A store of values under keys\<close>

locale keyed_store =
  fixes get :: "'k \<Rightarrow> ('w, go_error + 'v) state" and put :: "'k \<Rightarrow> 'v \<Rightarrow> ('w, go_error option) state"
    and stored :: "'w \<Rightarrow> 'k \<Rightarrow> 'v option" and valid :: "'v \<Rightarrow> bool" and up :: "'w \<Rightarrow> bool"
  assumes get_run: "up w \<Longrightarrow> stored w k = Some v \<Longrightarrow>
      \<exists>w'. run_state (get k) w = (Inr v, w') \<and> stored w' = stored w \<and> up w'"
    and put_run: "up w \<Longrightarrow> valid v \<Longrightarrow>
      \<exists>w'. run_state (put k v) w = (None, w') \<and> stored w' = (stored w)(k \<mapsto> v) \<and> up w'"
begin

lemma put_get:
  assumes "up w" and "valid v"
  shows "\<exists>w' w''. run_state (put k v) w = (None, w') \<and> run_state (get k) w' = (Inr v, w'') \<and>
    stored w'' = (stored w)(k \<mapsto> v) \<and> up w''"
proof -
  obtain w' where 1: "run_state (put k v) w = (None, w')" "stored w' = (stored w)(k \<mapsto> v)" "up w'"
    using put_run [OF assms] by blast
  then obtain w'' where "run_state (get k) w' = (Inr v, w'')" "stored w'' = stored w'" "up w''"
    using get_run [of w' k v] by auto
  with 1 show ?thesis by auto
qed

lemma put_get_other:
  assumes "up w" and "valid v" and "k' \<noteq> k" and "stored w k' = Some v'"
  shows "\<exists>w' w''. run_state (put k v) w = (None, w') \<and> run_state (get k') w' = (Inr v', w'')"
proof -
  obtain w' where 1: "run_state (put k v) w = (None, w')" "stored w' = (stored w)(k \<mapsto> v)" "up w'"
    using put_run [OF assms(1,2)] by blast
  then have "stored w' k' = Some v'" using assms(3,4) by simp
  with 1 show ?thesis using get_run [of w' k' v'] by blast
qed

text \<open>Storing many values leaves the last one of each key.\<close>

lemma put_each:
  assumes "up w" and "\<And>k v. (k, v) \<in> set kvs \<Longrightarrow> valid v"
  shows "up (snd (run_state (for_each kvs (\<lambda>(k, v). do { _ \<leftarrow> put k v; ret () })) w)) \<and>
    stored (snd (run_state (for_each kvs (\<lambda>(k, v). do { _ \<leftarrow> put k v; ret () })) w)) =
      (\<lambda>x. case map_of (rev kvs) x of Some v \<Rightarrow> Some v | None \<Rightarrow> stored w x)"
  using assms
proof (induction kvs arbitrary: w)
  case (Cons kv kvs)
  obtain k v where kv: "kv = (k, v)" by (cases kv)
  obtain w' where w': "run_state (put k v) w = (None, w')" "stored w' = (stored w)(k \<mapsto> v)" "up w'"
    using put_run [of w v k] Cons.prems kv by auto
  have "(case map_of (rev kvs) x of Some v \<Rightarrow> Some v | None \<Rightarrow> stored w' x) =
      (case map_of (rev (kv # kvs)) x of Some v \<Rightarrow> Some v | None \<Rightarrow> stored w x)" for x
    by (auto simp: kv w'(2) map_add_def split: option.splits)
  moreover have "valid v'" if "(k', v') \<in> set kvs" for k' v' using Cons.prems(2) [of k' v'] that by simp
  ultimately show ?case
    using Cons.IH [OF w'(3)] w'(1) kv by (simp add: bb_run)
qed simp

end

section \<open>The questions of a game in Redis\<close>

definition questions_valid :: "GameQuestions \<Rightarrow> bool" where
  "questions_valid gq \<longleftrightarrow> list_all question_wf (gq_Questions gq) \<and> index_ok (gq_CurrentQuestionIndex gq) \<and>
     list_all (\<lambda>q. zero_time \<le> q_ValidAnswerTime q \<and> q_ValidAnswerTime q < year_10000) (gq_Questions gq)"

definition stored_questions :: "(string \<rightharpoonup> string) \<Rightarrow> string \<rightharpoonup> GameQuestions" where
  "stored_questions m gameId = (case m (QuestionsPrefix @ gameId) of None \<Rightarrow> None
     | Some bs \<Rightarrow> (case Unmarshal dec_GameQuestions zero_GameQuestions bs of Inl _ \<Rightarrow> None | Inr gq \<Rightarrow> Some gq))"

lemma enc_Question_defined:
  assumes "zero_time \<le> q_ValidAnswerTime q" and "q_ValidAnswerTime q < year_10000"
  shows "\<exists>j. enc_Question q = Inr j"
  using RFC3339Nano_defined [OF assms] by (auto simp: enc_Question_def enc_time_def)

lemma Marshal_questions:
  assumes "questions_valid gq"
  shows "\<exists>bs. Marshal (enc_GameQuestions gq) = Inr bs \<and> Unmarshal dec_GameQuestions zero_GameQuestions bs = Inr gq"
proof -
  have "\<exists>qs. enc_all enc_Question (gq_Questions gq) = Inr qs"
    using assms enc_Question_defined by (intro enc_all_Inr) (auto simp: questions_valid_def list_all_iff)
  then obtain j where j: "enc_GameQuestions gq = Inr j" by (auto simp: enc_GameQuestions_def)
  have "list_all question_wf (gq_Questions gq)" "index_ok (gq_CurrentQuestionIndex gq)"
    using assms by (simp_all add: questions_valid_def)
  note rt = enc_GameQuestions_round_trip [OF j this]
  show ?thesis using json_parse_print [OF rt(1,2)] rt(3) j by (simp add: Marshal_def Unmarshal_def)
qed

lemma saveQuestion_run:
  assumes "redis_strings (ge_redis env) kv" and "questions_valid gq"
  shows "\<exists>w' bs. run_state (saveQuestionByGameId cfg env gid gq) w = (None, w') \<and>
    kv w' = (kv w)(QuestionsPrefix @ gid \<mapsto> bs) \<and> Marshal (enc_GameQuestions gq) = Inr bs \<and>
    stored_questions (kv w') = (stored_questions (kv w))(gid \<mapsto> gq)"
proof -
  obtain bs where t: "Marshal (enc_GameQuestions gq) = Inr bs"
      "Unmarshal dec_GameQuestions zero_GameQuestions bs = Inr gq"
    using Marshal_questions [OF assms(2)] by blast
  obtain w' where "run_state (redis_Set (ge_redis env) (QuestionsPrefix @ gid) bs (rc_QuestionsTimeOut cfg)) w = (None, w')"
      "kv w' = (kv w)(QuestionsPrefix @ gid \<mapsto> bs)"
    using redis_Set_ok [OF assms(1)] by blast
  with t show ?thesis
    by (intro exI [of _ w'] exI [of _ bs]) (simp add: saveQuestionByGameId_def fun_eq_iff stored_questions_def)
qed

lemma getQuestions_run:
  assumes "redis_strings (ge_redis env) kv" and "stored_questions (kv w) gid = Some gq"
  shows "\<exists>w'. run_state (GetQuestionsByGameId env gid) w = (Inr gq, w') \<and> kv w' = kv w"
proof -
  obtain bs where t: "kv w (QuestionsPrefix @ gid) = Some bs"
      "Unmarshal dec_GameQuestions zero_GameQuestions bs = Inr gq"
    using assms(2) by (auto simp: stored_questions_def split: option.splits sum.splits)
  from redis_Get_Some [OF assms(1) t(1)] show ?thesis
    using t(2) by (auto simp: GetQuestionsByGameId_def bb_run)
qed

lemma getQuestions_none:
  assumes "redis_strings (ge_redis env) kv" and "kv w (QuestionsPrefix @ gid) = None"
  shows "\<exists>e w'. run_state (GetQuestionsByGameId env gid) w = (Inl e, w') \<and> kv w' = kv w"
  using redis_Get_None [OF assms] by (auto simp: GetQuestionsByGameId_def bb_run)

lemma ByMatchId_is_ByGameId: "GetQuestionsByMatchId = GetQuestionsByGameId"
  by (simp add: fun_eq_iff GetQuestionsByMatchId_def GetQuestionsByGameId_def)

interpretation questions: keyed_store "GetQuestionsByGameId env" "saveQuestionByGameId cfg env"
    "\<lambda>w. stored_questions (kv w)" questions_valid "\<lambda>_. redis_strings (ge_redis env) kv" for cfg env kv
proof unfold_locales
  show "\<exists>w'. run_state (GetQuestionsByGameId env k) w = (Inr v, w') \<and> stored_questions (kv w') = stored_questions (kv w) \<and>
      redis_strings (ge_redis env) kv" if "redis_strings (ge_redis env) kv" "stored_questions (kv w) k = Some v" for w k v
    using getQuestions_run [OF that] that(1) by auto
  show "\<exists>w'. run_state (saveQuestionByGameId cfg env k v) w = (None, w') \<and>
      stored_questions (kv w') = (stored_questions (kv w))(k \<mapsto> v) \<and> redis_strings (ge_redis env) kv"
    if "redis_strings (ge_redis env) kv" "questions_valid v" for w v k
    using saveQuestion_run [OF that, of cfg k w] that(1) by auto
qed

section \<open>The status of a user in Redis\<close>

definition stored_status :: "(string \<rightharpoonup> string) \<Rightarrow> u64 \<rightharpoonup> GameStatus" where
  "stored_status m userId = map_option MapToGameStatus (m (GameUserStatusPrefix @ FormatUint userId))"

text \<open>The statuses that survive being stored: all that are in use but INITIALIZED.\<close>

definition status_kept :: "GameStatus \<Rightarrow> bool" where
  "status_kept s \<longleftrightarrow> s \<in> set GetGameStatus \<or> s = GameStatusUnknown"

lemma MapToGameStatus_kept: "status_kept s \<Longrightarrow> MapToGameStatus s = s"
  by (auto simp: status_kept_def GetGameStatus_def game_status_defs MapToGameStatus_def)

lemma UpsertUserStatus_run:
  assumes "redis_strings (ge_redis env) kv"
  shows "\<exists>w'. run_state (UpsertUserStatus cfg env u s) w = (None, w') \<and>
    kv w' = (kv w)(GameUserStatusPrefix @ FormatUint u \<mapsto> s) \<and>
    stored_status (kv w') = (stored_status (kv w))(u \<mapsto> MapToGameStatus s)"
  using redis_Set_ok [OF assms, of "GameUserStatusPrefix @ FormatUint u" s "rc_GameStatusTimeOut cfg" w]
  by (auto simp: UpsertUserStatus_def fun_eq_iff stored_status_def)

lemma GetUserStatus_run:
  assumes "redis_strings (ge_redis env) kv"
  shows "\<exists>w'. kv w' = kv w \<and> (case stored_status (kv w) u of
      Some s \<Rightarrow> run_state (GetUserStatus env u) w = (Inr s, w')
    | None \<Rightarrow> \<exists>e. run_state (GetUserStatus env u) w = (Inl e, w'))"
proof (cases "kv w (GameUserStatusPrefix @ FormatUint u)")
  case None
  from redis_Get_None [OF assms None] show ?thesis
    using None by (auto simp: GetUserStatus_def bb_run stored_status_def)
next
  case (Some v)
  from redis_Get_Some [OF assms Some] show ?thesis
    using Some by (auto simp: GetUserStatus_def bb_run stored_status_def)
qed

interpretation statuses: keyed_store "GetUserStatus env" "UpsertUserStatus cfg env"
    "\<lambda>w. stored_status (kv w)" status_kept "\<lambda>_. redis_strings (ge_redis env) kv" for cfg env kv
proof unfold_locales
  show "\<exists>w'. run_state (GetUserStatus env k) w = (Inr v, w') \<and> stored_status (kv w') = stored_status (kv w) \<and>
      redis_strings (ge_redis env) kv" if "redis_strings (ge_redis env) kv" "stored_status (kv w) k = Some v" for w k v
    using GetUserStatus_run [OF that(1), of w k] that by auto
  show "\<exists>w'. run_state (UpsertUserStatus cfg env k v) w = (None, w') \<and>
      stored_status (kv w') = (stored_status (kv w))(k \<mapsto> v) \<and> redis_strings (ge_redis env) kv"
    if "redis_strings (ge_redis env) kv" "status_kept v" for w v k
    using UpsertUserStatus_run [OF that(1), of cfg k v w] that MapToGameStatus_kept by auto
qed

end
