(* ===== verification/Game_Questions.thy ===== *)
theory Game_Questions
  imports Game_Laws
begin

text \<open>
  The questions of a game: they survive Redis, get their deadlines when the game starts, and
  reach the game only if the game was there first. The messages of the match service and of
  the question service travel in different topics, so both orders occur.
\<close>

section \<open>Through Redis and back\<close>

text \<open>
  What is saved under the id of a game is what is read under it, and the questions of the
  other games stay as they are.
\<close>

theorem game_questions_round_trip:
  assumes "redis_strings (ge_redis env) kv" and "questions_valid gq"
  shows "\<exists>w' w''. run_state (saveQuestionByGameId cfg env gid gq) w = (None, w') \<and>
    run_state (GetQuestionsByGameId env gid) w' = (Inr gq, w'') \<and>
    stored_questions (kv w'') = (stored_questions (kv w))(gid \<mapsto> gq)"
  using questions.put_get [where kv = kv, OF assms, of cfg gid w] by blast

section \<open>Deadlines\<close>

primrec ttl_sum :: "int \<Rightarrow> nat \<Rightarrow> nat \<Rightarrow> int" where
  "ttl_sum T i 0 = 0"
| "ttl_sum T i (Suc n) = T * int (i + 1) + ttl_sum T (Suc i) n"

lemma ttl_sum_closed: "2 * ttl_sum T i n = T * int (n * (2 * i + n + 1))"
proof (induction n arbitrary: i)
  case (Suc n)
  have "2 * ttl_sum T i (Suc n) = 2 * (T * int (i + 1)) + 2 * ttl_sum T (Suc i) n" by simp
  also have "\<dots> = T * (2 * int (i + 1) + int (n * (2 * Suc i + n + 1)))"
    unfolding Suc.IH by (simp only: distrib_left mult.left_commute)
  also have "2 * int (i + 1) + int (n * (2 * Suc i + n + 1)) = int (Suc n * (2 * i + Suc n + 1))"
    by (simp add: algebra_simps)
  finally show ?case .
qed simp

lemma ttl_sum_nonneg: "0 \<le> T \<Longrightarrow> 0 \<le> ttl_sum T i n"
  by (induction n arbitrary: i) simp_all

lemma ttl_sum_last: "0 \<le> T \<Longrightarrow> k < n \<Longrightarrow> T * int (i + k + 1) \<le> ttl_sum T i n"
proof (induction n arbitrary: i k)
  case (Suc n)
  show ?case
  proof (cases k)
    case 0
    then show ?thesis using Suc.prems ttl_sum_nonneg [of T "Suc i" n] by simp
  next
    case (Suc m)
    then have "T * int (Suc i + m + 1) \<le> ttl_sum T (Suc i) n" using Suc.prems Suc.IH [of m "Suc i"] by simp
    moreover have "0 \<le> T * int (i + 1)" using Suc.prems by simp
    ultimately show ?thesis using Suc by (simp add: add.assoc)
  qed
qed simp

primrec with_deadlines :: "int \<Rightarrow> nat \<Rightarrow> gotime list \<Rightarrow> game_Question list \<Rightarrow> game_Question list" where
  "with_deadlines T i ts [] = []"
| "with_deadlines T i ts (q # qs) = q\<lparr>q_ValidAnswerTime := hd ts + T * int (i + 1)\<rparr> # with_deadlines T (Suc i) (tl ts) qs"

lemma length_with_deadlines [simp]: "length (with_deadlines T i ts qs) = length qs"
  by (induction qs arbitrary: i ts) simp_all

lemma with_deadlines_nth:
  "k < length qs \<Longrightarrow> length ts = length qs \<Longrightarrow>
   with_deadlines T i ts qs ! k = (qs ! k)\<lparr>q_ValidAnswerTime := ts ! k + T * int (i + k + 1)\<rparr>"
proof (induction qs arbitrary: i k ts)
  case (Cons q qs)
  then obtain t ts' where ts: "ts = t # ts'" by (cases ts) auto
  show ?case
  proof (cases k)
    case (Suc m)
    then show ?thesis using Cons.IH [of m ts' "Suc i"] Cons.prems ts by (simp add: add.assoc)
  qed (simp add: ts)
qed simp

lemma question_wf_deadline: "question_wf (q\<lparr>q_ValidAnswerTime := t\<rparr>) = question_wf q"
  by (simp add: question_wf_def)

text \<open>What \<open>n\<close> readings of the clock in a row show.\<close>

primrec readings :: "('w, gotime) state \<Rightarrow> nat \<Rightarrow> 'w \<Rightarrow> gotime list" where
  "readings now 0 w = []"
| "readings now (Suc n) w = fst (run_state now w) # readings now n (snd (run_state now w))"

lemma length_readings [simp]: "length (readings now n w) = n"
  by (induction n arbitrary: w) simp_all

lemma readings_clock:
  assumes "clock_reads env clock other"
  shows "sorted (readings (ge_Now env) n w) \<and> (\<forall>t \<in> set (readings (ge_Now env) n w). clock w \<le> t \<and> t \<in> range clock)"
proof (induction n arbitrary: w)
  case (Suc n)
  obtain w1 where "run_state (ge_Now env) w = (clock w, w1)" "clock w \<le> clock w1" using clock_readsD [OF assms] by blast
  then show ?case using Suc [of w1] by auto
qed simp

lemma set_deadlines_run:
  assumes "clock_reads env clock kv" and T: "rc_ValidAnswerTimeOut cfg = T"
  shows "0 \<le> T \<Longrightarrow> ttl_sum T i (length qs) < 2 ^ 63 \<Longrightarrow> wrap64 acc = acc \<Longrightarrow>
    \<exists>w'. run_state (set_deadlines cfg env i acc qs) w =
        ((with_deadlines T i (readings (ge_Now env) (length qs) w) qs, wrap64 (acc + ttl_sum T i (length qs))), w') \<and> kv w' = kv w"
proof (induction qs arbitrary: i acc w)
  case (Cons q qs)
  obtain w1 where now: "run_state (ge_Now env) w = (clock w, w1)" "clock w \<le> clock w1" "kv w1 = kv w"
    using clock_readsD [OF assms(1)] by blast
  have "T * int (i + 1) \<le> ttl_sum T i (Suc (length qs))"
    using ttl_sum_last [of T 0 "Suc (length qs)" i] Cons.prems(1) by simp
  moreover have "0 \<le> T * int (i + 1)" using Cons.prems(1) by simp
  ultimately have ttl: "wrap64 (T * int (i + 1)) = T * int (i + 1)"
    using Cons.prems(2) by (intro wrap64_id) simp_all
  let ?acc = "wrap64 (acc + T * int (i + 1))"
  have "ttl_sum T (Suc i) (length qs) < 2 ^ 63" using Cons.prems(2) \<open>0 \<le> T * int (i + 1)\<close> by simp
  moreover have "wrap64 ?acc = ?acc" using wrap64_add_left [of _ 0] by simp
  ultimately obtain w' where w': "run_state (set_deadlines cfg env (Suc i) ?acc qs) w1 =
        ((with_deadlines T (Suc i) (readings (ge_Now env) (length qs) w1) qs, wrap64 (?acc + ttl_sum T (Suc i) (length qs))), w')"
      "kv w' = kv w1"
    using Cons.IH [OF Cons.prems(1), of "Suc i" ?acc w1] by blast
  then show ?case using now ttl by (intro exI [of _ w']) (simp add: T bb_run Let_def time_Add_def add.assoc)
qed simp

text \<open>The questions with deadline \<open>k\<close> at \<open>k + 1\<close> answer times from the \<open>k\<close>-th reading of the clock.\<close>

definition timed :: "int \<Rightarrow> gotime list \<Rightarrow> GameQuestions \<Rightarrow> GameQuestions" where
  "timed T ts gq = gq\<lparr>gq_Questions := map (\<lambda>k. (gq_Questions gq ! k)\<lparr>q_ValidAnswerTime := ts ! k + T * int (k + 1)\<rparr>)
     [0..<length (gq_Questions gq)]\<rparr>"

lemma deadlines_run:
  assumes T: "rc_ValidAnswerTimeOut cfg = T" "0 < T" "T * int (n * (n + 1)) < 2 ^ 63"
    and redis: "redis_strings (ge_redis env) kv" and clock: "clock_reads env clock kv"
    and stored: "stored_questions (kv w) gid = Some gq" "questions_valid gq" "length (gq_Questions gq) = n"
    and times: "\<And>w. zero_time \<le> clock w \<and> clock w + T * int n < year_10000"
  defines "ts \<equiv> readings (ge_Now env) n (snd (run_state (GetQuestionsByGameId env gid) w))"
  shows "\<exists>w' final. run_state (SetValidAnswerTimeForQuestions cfg env gid) w = ((final, None), w') \<and>
    2 * final = T * int (n * (n + 1)) \<and> T * int n \<le> final \<and> length ts = n \<and> sorted ts \<and>
    questions_valid (timed T ts gq) \<and> stored_questions (kv w') = (stored_questions (kv w))(gid \<mapsto> timed T ts gq)"
proof -
  let ?qs = "gq_Questions gq"
  have total: "2 * ttl_sum T 0 n = T * int (n * (n + 1))" using ttl_sum_closed [of T 0 n] by simp
  have half: "2 * s = p \<Longrightarrow> p < 2 ^ 63 \<Longrightarrow> 0 \<le> s \<Longrightarrow> s < 2 ^ 63" for s p :: int by simp
  have nonneg: "0 \<le> ttl_sum T 0 n" using T(2) by (simp add: ttl_sum_nonneg)
  note small = half [OF total T(3) nonneg] nonneg
  obtain w1 where w1: "run_state (GetQuestionsByGameId env gid) w = (Inr gq, w1)" "kv w1 = kv w"
    using getQuestions_run [OF redis stored(1)] by blast
  have "wrap64 0 = 0" by (simp add: wrap64_def)
  note sd = set_deadlines_run [OF clock T(1) order.strict_implies_order [OF T(2)], of 0 ?qs 0 w1, unfolded stored(3),
      OF small(1) this]
  have "- (2 ^ 63) \<le> ttl_sum T 0 n" by (rule order.trans [OF _ nonneg]) simp
  from wrap64_id [OF this small(1)] have W: "wrap64 (0 + ttl_sum T 0 n) = ttl_sum T 0 n"
    by (simp only: add_0)
  have ts_def': "ts = readings (ge_Now env) n w1" by (simp add: ts_def w1(1))
  have ts: "length ts = n" "sorted ts" "\<forall>t \<in> set ts. clock w1 \<le> t \<and> t \<in> range clock"
    using readings_clock [OF clock, of n w1] by (simp_all add: ts_def')
  obtain w2 where w2: "run_state (set_deadlines cfg env 0 0 ?qs) w1 = ((with_deadlines T 0 ts ?qs, ttl_sum T 0 n), w2)"
      and kv2: "kv w2 = kv w1"
    using sd unfolding W ts_def' [symmetric] by blast
  let ?qs' = "with_deadlines T 0 ts ?qs"
  have qs': "?qs' = map (\<lambda>k. (?qs ! k)\<lparr>q_ValidAnswerTime := ts ! k + T * int (k + 1)\<rparr>) [0..<n]"
    using ts(1) stored(3) by (intro nth_equalityI) (simp_all add: with_deadlines_nth)
  have "zero_time \<le> ts ! k + T * int (k + 1) \<and> ts ! k + T * int (k + 1) < year_10000"
    if "k < n" for k
  proof -
    have "ts ! k \<in> set ts" using ts(1) that by simp
    then obtain w3 where "ts ! k = clock w3" using ts(3) by auto
    moreover have "0 \<le> T * int (k + 1)" "T * int (k + 1) \<le> T * int n"
      using mult_left_mono [of "int (k + 1)" "int n" T] T(2) that by simp_all
    ultimately show ?thesis using times [of w3] by linarith
  qed
  then have valid: "questions_valid (gq\<lparr>gq_Questions := ?qs'\<rparr>)"
    using stored(2,3) unfolding qs' questions_valid_def list_all_iff by (simp add: question_wf_deadline)
  from saveQuestion_run [OF redis valid, of cfg gid w2]
  obtain w' where w': "run_state (saveQuestionByGameId cfg env gid (gq\<lparr>gq_Questions := ?qs'\<rparr>)) w2 = (None, w')"
      "stored_questions (kv w') = (stored_questions (kv w2))(gid \<mapsto> gq\<lparr>gq_Questions := ?qs'\<rparr>)"
    by blast
  have "run_state (SetValidAnswerTimeForQuestions cfg env gid) w = ((ttl_sum T 0 n, None), w')"
    unfolding SetValidAnswerTimeForQuestions_def by (simp add: bb_run w1(1) w2 w'(1))
  moreover have "T * int n \<le> ttl_sum T 0 n"
    using ttl_sum_last [of T "n - 1" n 0] T(2) by (cases n) simp_all
  ultimately show ?thesis
    using total ts(1,2) w'(2) valid unfolding kv2 w1(2) qs' timed_def stored(3) by (intro exI conjI)
qed

text \<open>
  C22. Starting a game of \<open>n\<close> questions gives question \<open>k\<close> the deadline of \<open>k + 1\<close> answer
  times from the moment the loop reached it, the \<open>k\<close>-th of \<open>n\<close> readings of the clock after the questions
  were fetched, leaves everything else of the questions as it
  was, and returns the sum of these spans, \<open>n * (n + 1) / 2\<close> answer times. That is never less
  than the last span, so the completion comes after every deadline.
\<close>

theorem deadlines_set:
  assumes T: "rc_ValidAnswerTimeOut cfg = T" "0 < T" "T * int (n * (n + 1)) < 2 ^ 63"
    and redis: "redis_strings (ge_redis env) kv" and clock: "clock_reads env clock kv"
    and stored: "stored_questions (kv w) gid = Some gq" "questions_valid gq" "length (gq_Questions gq) = n"
    and times: "\<And>w. zero_time \<le> clock w \<and> clock w + T * int n < year_10000"
  shows "\<exists>w' final. run_state (SetValidAnswerTimeForQuestions cfg env gid) w = ((final, None), w') \<and>
    2 * final = T * int (n * (n + 1)) \<and> T * int n \<le> final \<and>
    stored_questions (kv w') = (stored_questions (kv w))(gid \<mapsto>
      timed T (readings (ge_Now env) n (snd (run_state (GetQuestionsByGameId env gid) w))) gq) \<and>
    sorted (readings (ge_Now env) n (snd (run_state (GetQuestionsByGameId env gid) w)))"
  using deadlines_run [OF assms] by blast

section \<open>Before and after the game\<close>

definition with_early_questions :: "(string \<rightharpoonup> string) \<Rightarrow> Game \<Rightarrow> Game" where
  "with_early_questions m g = (case stored_questions m (g_MatchId g) of None \<Rightarrow> g
     | Some gq \<Rightarrow> g\<lparr>g_Question := Some (gq_Questions gq)\<rparr>)"

lemma CreateGame_run:
  assumes redis: "redis_strings (ge_redis env) kv" "redis_frame (ge_redis env) games"
    and mongo: "mongo_games (ge_mongo env) games kv" and players: "bson_players (g_Players g)"
  shows "\<exists>i w'. run_state (CreateGame env g) w = (Inr (mg_Hex (ge_mongo env) i), w') \<and> object_id i \<and> games w i = None \<and>
    games w' = (games w)(i \<mapsto> bson_game (with_early_questions (kv w) g)) \<and> kv w' = kv w"
proof -
  obtain w1 where w1: "kv w1 = kv w" "games w1 = games w" and get: "case kv w (QuestionsPrefix @ g_MatchId g) of
      Some v \<Rightarrow> run_state (redis_Get (ge_redis env) (QuestionsPrefix @ g_MatchId g)) w = (Inr v, w1)
    | None \<Rightarrow> \<exists>e. run_state (redis_Get (ge_redis env) (QuestionsPrefix @ g_MatchId g)) w = (Inl e, w1)"
    using redis_Get_frame [OF redis] by blast
  then obtain r where r: "run_state (GetQuestionsByMatchId env (g_MatchId g)) w = (r, w1)"
    and g': "with_early_questions (kv w) g = (case r of Inl _ \<Rightarrow> g | Inr gq \<Rightarrow> g\<lparr>g_Question := Some (gq_Questions gq)\<rparr>)"
    by (cases "kv w (QuestionsPrefix @ g_MatchId g)")
      (auto simp: GetQuestionsByMatchId_def bb_run with_early_questions_def stored_questions_def split: sum.split)
  let ?g = "with_early_questions (kv w) g"
  have "bson_players (g_Players ?g)" using players by (simp add: g' split: sum.split)
  from mongo_games_insert [OF mongo this] obtain i w' where "run_state (mg_InsertGame (ge_mongo env) ?g) w1 = (Inr i, w')"
    "object_id i" "games w1 i = None" "games w' = (games w1)(i \<mapsto> bson_game ?g)" "kv w' = kv w1" by blast
  then show ?thesis using r w1 unfolding g' by (intro exI [of _ i] exI [of _ w']) (simp add: CreateGame_def bb_run)
qed

lemma questions_valid_players: "questions_valid (gq\<lparr>gq_Players := ps\<rparr>) = questions_valid gq"
  by (simp add: questions_valid_def)

text \<open>The two ways of \<open>SaveQuestionsByMatchId\<close>: with a game of the match and without one.\<close>

lemma SaveQuestions_found:
  assumes redis: "redis_strings (ge_redis env) kv" "redis_frame (ge_redis env) games"
    and mongo: "mongo_games (ge_mongo env) games kv" and clock: "clock_reads env clock (\<lambda>w. (kv w, games w))"
    and game: "games w i = Some g" "g_MatchId g = mid" "\<forall>j h. games w j = Some h \<longrightarrow> g_MatchId h = mid \<longrightarrow> j = i"
    and valid: "questions_valid \<lparr>gq_Questions = qs, gq_Players = [], gq_CurrentQuestionIndex = 0\<rparr>"
  shows "\<exists>w'. run_state (SaveQuestionsByMatchId cfg env mid qs) w = (Returned None, w') \<and>
    stored_questions (kv w') = (stored_questions (kv w))(mg_Hex (ge_mongo env) i \<mapsto>
      \<lparr>gq_Questions = qs, gq_Players = g_Players g, gq_CurrentQuestionIndex = 0\<rparr>) \<and>
    (\<exists>h. games w' = (games w)(i \<mapsto> h) \<and> g_Question h = Some (map bson_question qs) \<and> g_Players h = g_Players g \<and>
      g_MatchId h = g_MatchId g)"
proof -
  let ?gQ = "\<lambda>ps. \<lparr>gq_Questions = qs, gq_Players = ps, gq_CurrentQuestionIndex = 0\<rparr>"
  have valid': "questions_valid (?gQ ps)" for ps using valid by (simp add: questions_valid_def)
  obtain res where res: "Marshal (enc_GameQuestions (?gQ [])) = Inr res" using Marshal_questions [OF valid] by blast
  obtain w1 where w1: "run_state (ge_Now env) w = (clock w, w1)" "kv w1 = kv w" "games w1 = games w"
    using clock_readsD [OF clock, of w] by auto
  have some: "\<exists>i g. games w1 i = Some g \<and> g_MatchId g = mid" using game(1,2) w1(3) by auto
  obtain j h w2 where u: "run_state (mg_UpdateQuestions (ge_mongo env) mid (clock w) qs) w1 = (Inr 1, w2)" "games w1 j = Some h"
      "g_MatchId h = mid" "games w2 = (games w1)(j \<mapsto> h\<lparr>g_Question := Some (map bson_question qs), g_UpdatedAt := bson_time (clock w)\<rparr>)"
      "kv w2 = kv w1"
    using mongo_games_update [OF mongo, of w1 mid "clock w" qs] some by auto
  have j: "j = i" "h = g" using game(3) u(2,3) game(1) w1(3) by auto
  let ?g = "g\<lparr>g_Question := Some (map bson_question qs), g_UpdatedAt := bson_time (clock w)\<rparr>"
  have g2: "games w2 = (games w)(i \<mapsto> ?g)" using u(4) w1(3) j by simp
  then have "\<exists>i g. games w2 i = Some g \<and> g_MatchId g = mid" using game(2) by auto
  with mongo_games_by_match [OF mongo, of w2 mid] obtain k h' w3 where
      f: "run_state (mg_FindByMatchId (ge_mongo env) mid) w2 = (Inr (k, g_Players h'), w3)" "games w2 k = Some h'" "g_MatchId h' = mid"
      "games w3 = games w2" "kv w3 = kv w2"
    by auto
  have k: "k = i" using f(2,3) g2 game(3) by (auto split: if_splits)
  then have ps: "g_Players h' = g_Players g" using f(2) g2 by auto
  obtain gj where gj: "Marshal (enc_GameQuestions (?gQ (g_Players g))) = Inr gj"
      "Unmarshal dec_GameQuestions zero_GameQuestions gj = Inr (?gQ (g_Players g))"
    using Marshal_questions [OF valid'] by blast
  obtain w4 where w4: "run_state (redis_Set (ge_redis env) (QuestionsPrefix @ mg_Hex (ge_mongo env) i) gj (rc_QuestionsTimeOut cfg)) w3 = (None, w4)"
      "kv w4 = (kv w3)(QuestionsPrefix @ mg_Hex (ge_mongo env) i \<mapsto> gj)" "games w4 = games w3"
    using redis_Set_frame [OF redis] by blast
  have "run_state (SaveQuestionsByMatchId cfg env mid qs) w = (Returned None, w4)"
    by (simp add: SaveQuestionsByMatchId_def store_by_match_def bb_run res w1 u(1) f(1) k ps gj(1) w4(1))
  moreover have "stored_questions (kv w4) = (stored_questions (kv w))(mg_Hex (ge_mongo env) i \<mapsto> ?gQ (g_Players g))"
    using w4(2) f(5) u(5) w1(2) gj(2) by (simp add: fun_eq_iff stored_questions_def)
  moreover have "games w4 = (games w)(i \<mapsto> ?g)" using w4(3) f(4) g2 by simp
  ultimately show ?thesis by (intro exI [of _ w4] conjI exI [of _ ?g]) simp_all
qed

lemma SaveQuestions_missing:
  assumes redis: "redis_strings (ge_redis env) kv" "redis_frame (ge_redis env) games"
    and mongo: "mongo_games (ge_mongo env) games kv" and clock: "clock_reads env clock (\<lambda>w. (kv w, games w))"
    and none: "\<forall>j h. games w j = Some h \<longrightarrow> g_MatchId h \<noteq> mid"
    and valid: "questions_valid \<lparr>gq_Questions = qs, gq_Players = [], gq_CurrentQuestionIndex = 0\<rparr>"
  shows "\<exists>w' bs. run_state (SaveQuestionsByMatchId cfg env mid qs) w = (Returned None, w') \<and> games w' = games w \<and>
    kv w' = (kv w)(QuestionsPrefix @ mid \<mapsto> bs, QuestionsPrefix @ mg_Hex (ge_mongo env) 0 \<mapsto> bs) \<and>
    Unmarshal dec_GameQuestions zero_GameQuestions bs = Inr \<lparr>gq_Questions = qs, gq_Players = [], gq_CurrentQuestionIndex = 0\<rparr>"
proof -
  let ?gQ = "\<lparr>gq_Questions = qs, gq_Players = [], gq_CurrentQuestionIndex = 0\<rparr>"
  obtain bs where bs: "Marshal (enc_GameQuestions ?gQ) = Inr bs" "Unmarshal dec_GameQuestions zero_GameQuestions bs = Inr ?gQ"
    using Marshal_questions [OF valid] by blast
  obtain w1 where w1: "run_state (ge_Now env) w = (clock w, w1)" "kv w1 = kv w" "games w1 = games w"
    using clock_readsD [OF clock, of w] by auto
  have no: "\<not> (\<exists>i g. games w1 i = Some g \<and> g_MatchId g = mid)" using none w1(3) by auto
  obtain w2 where w2: "run_state (mg_UpdateQuestions (ge_mongo env) mid (clock w) qs) w1 = (Inr 0, w2)"
      "games w2 = games w1" "kv w2 = kv w1"
    using mongo_games_update [OF mongo, of w1 mid "clock w" qs] unfolding if_not_P [OF no] by blast
  obtain w3 where w3: "run_state (redis_Set (ge_redis env) (QuestionsPrefix @ mid) bs (rc_QuestionsTimeOut cfg)) w2 = (None, w3)"
      "kv w3 = (kv w2)(QuestionsPrefix @ mid \<mapsto> bs)" "games w3 = games w2"
    using redis_Set_frame [OF redis] by blast
  obtain e w4 where w4: "run_state (mg_FindByMatchId (ge_mongo env) mid) w3 = (Inl e, w4)" "games w4 = games w3" "kv w4 = kv w3"
    using mongo_games_by_match [OF mongo, of w3 mid] unfolding w3(3) w2(2) if_not_P [OF no] by blast
  obtain w5 where w5: "run_state (redis_Set (ge_redis env) (QuestionsPrefix @ mg_Hex (ge_mongo env) 0) bs (rc_QuestionsTimeOut cfg)) w4 = (None, w5)"
      "kv w5 = (kv w4)(QuestionsPrefix @ mg_Hex (ge_mongo env) 0 \<mapsto> bs)" "games w5 = games w4"
    using redis_Set_frame [OF redis] by blast
  have "run_state (SaveQuestionsByMatchId cfg env mid qs) w = (Returned None, w5)"
    by (simp add: SaveQuestionsByMatchId_def store_by_match_def bb_run bs w1 w2(1) w3(1) w4(1) w5(1))
  then show ?thesis using bs w1 w2 w3 w4 w5 by (intro exI [of _ w5] exI [of _ bs]) simp
qed

text \<open>
  When the questions of a match arrive after its game was created, they reach it: they are
  stored with the game, and Redis has them under the id of the game with its players.
\<close>

theorem questions_meet_game:
  assumes redis: "redis_strings (ge_redis env) kv" "redis_frame (ge_redis env) games"
    and mongo: "mongo_games (ge_mongo env) games kv" and clock: "clock_reads env clock (\<lambda>w. (kv w, games w))"
    and new: "\<forall>j h. games w j = Some h \<longrightarrow> g_MatchId h \<noteq> g_MatchId g" and players: "bson_players (g_Players g)"
    and valid: "questions_valid \<lparr>gq_Questions = qs, gq_Players = [], gq_CurrentQuestionIndex = 0\<rparr>"
  shows "\<exists>i w1 w2 h. run_state (CreateGame env g) w = (Inr (mg_Hex (ge_mongo env) i), w1) \<and>
    run_state (SaveQuestionsByMatchId cfg env (g_MatchId g) qs) w1 = (Returned None, w2) \<and>
    stored_questions (kv w2) (mg_Hex (ge_mongo env) i) =
      Some \<lparr>gq_Questions = qs, gq_Players = g_Players g, gq_CurrentQuestionIndex = 0\<rparr> \<and>
    games w2 i = Some h \<and> g_Question h = Some (map bson_question qs) \<and> g_Players h = g_Players g"
proof -
  obtain i w1 where c: "run_state (CreateGame env g) w = (Inr (mg_Hex (ge_mongo env) i), w1)"
      "games w1 = (games w)(i \<mapsto> bson_game (with_early_questions (kv w) g))"
    using CreateGame_run [OF redis mongo players] by blast
  let ?g = "bson_game (with_early_questions (kv w) g)"
  have g: "games w1 i = Some ?g" "g_MatchId ?g = g_MatchId g" "g_Players ?g = g_Players g"
    using c(2) by (simp_all add: bson_game_def with_early_questions_def split: option.split)
  have "\<forall>j h. games w1 j = Some h \<longrightarrow> g_MatchId h = g_MatchId g \<longrightarrow> j = i"
    using new c(2) by (auto split: if_splits)
  from SaveQuestions_found [OF redis mongo clock g(1,2) this valid] obtain w2 h where
      "run_state (SaveQuestionsByMatchId cfg env (g_MatchId g) qs) w1 = (Returned None, w2)"
      "stored_questions (kv w2) = (stored_questions (kv w1))(mg_Hex (ge_mongo env) i \<mapsto>
        \<lparr>gq_Questions = qs, gq_Players = g_Players ?g, gq_CurrentQuestionIndex = 0\<rparr>)"
      "games w2 = (games w1)(i \<mapsto> h)" "g_Question h = Some (map bson_question qs)" "g_Players h = g_Players ?g"
    by blast
  with c(1) g(3) show ?thesis
    by (intro exI [of _ i] exI [of _ w1] exI [of _ w2] exI [of _ h]) simp
qed

text \<open>
  C32. When they arrive first, the game gets them in the database only: Redis keeps them under the
  id of the match and, without players, under the zero id, but not under the id of the game,
  and starting the game fails.
\<close>

theorem early_questions_lost:
  assumes redis: "redis_strings (ge_redis env) kv" "redis_frame (ge_redis env) games"
    and mongo: "mongo_games (ge_mongo env) games kv" "mongo_ids (ge_mongo env)"
    and clock: "clock_reads env clock (\<lambda>w. (kv w, games w))"
    and new: "\<forall>j h. games w j = Some h \<longrightarrow> g_MatchId h \<noteq> g_MatchId g" and players: "bson_players (g_Players g)"
    and valid: "questions_valid \<lparr>gq_Questions = qs, gq_Players = [], gq_CurrentQuestionIndex = 0\<rparr>"
    and ids: "\<And>i. mg_Hex (ge_mongo env) i \<noteq> g_MatchId g"
    and fresh: "\<And>i. object_id i \<Longrightarrow> games w i = None \<Longrightarrow> kv w (QuestionsPrefix @ mg_Hex (ge_mongo env) i) = None"
  shows "\<exists>i w1 w2 h e w3. run_state (SaveQuestionsByMatchId cfg env (g_MatchId g) qs) w = (Returned None, w1) \<and>
    run_state (CreateGame env g) w1 = (Inr (mg_Hex (ge_mongo env) i), w2) \<and>
    games w2 i = Some h \<and> g_Question h = Some (map bson_question qs) \<and>
    run_state (SetValidAnswerTimeForQuestions cfg env (mg_Hex (ge_mongo env) i)) w2 = ((0, Some e), w3)"
proof -
  let ?hex = "mg_Hex (ge_mongo env)"
  obtain w1 bs where s: "run_state (SaveQuestionsByMatchId cfg env (g_MatchId g) qs) w = (Returned None, w1)"
      "games w1 = games w" "kv w1 = (kv w)(QuestionsPrefix @ g_MatchId g \<mapsto> bs, QuestionsPrefix @ ?hex 0 \<mapsto> bs)"
      "Unmarshal dec_GameQuestions zero_GameQuestions bs = Inr \<lparr>gq_Questions = qs, gq_Players = [], gq_CurrentQuestionIndex = 0\<rparr>"
    using SaveQuestions_missing [OF redis mongo(1) clock new valid] by blast
  have early: "with_early_questions (kv w1) g = g\<lparr>g_Question := Some qs\<rparr>"
    using s(3,4) ids [of 0] by (simp add: with_early_questions_def stored_questions_def)
  obtain i w2 where c: "run_state (CreateGame env g) w1 = (Inr (?hex i), w2)" "object_id i" "games w1 i = None"
      "games w2 = (games w1)(i \<mapsto> bson_game (g\<lparr>g_Question := Some qs\<rparr>))" "kv w2 = kv w1"
    using CreateGame_run [OF redis mongo(1) players, of w1] unfolding early by blast
  have "?hex i \<noteq> ?hex 0"
  proof
    assume "?hex i = ?hex 0"
    moreover have "mg_FromHex (ge_mongo env) (?hex j) = Inr j" for j
      using mongo(2) by (simp only: mongo_ids_def)
    ultimately have "Inr i = (Inr 0 :: go_error + nat)" by metis
    then show False using c(2) by (simp add: object_id_def)
  qed
  then have "kv w2 (QuestionsPrefix @ ?hex i) = None"
    using c(5) s(2,3) ids [of i] fresh [OF c(2)] c(3) by simp
  from getQuestions_none [OF redis(1) this] obtain e w3 where
      "run_state (GetQuestionsByGameId env (?hex i)) w2 = (Inl e, w3)" by blast
  then have "run_state (SetValidAnswerTimeForQuestions cfg env (?hex i)) w2 = ((0, Some e), w3)"
    by (simp add: SetValidAnswerTimeForQuestions_def bb_run)
  then show ?thesis using s(1) c(1,4)
    by (intro exI [of _ i] exI [of _ w1] exI [of _ w2] exI [of _ "bson_game (g\<lparr>g_Question := Some qs\<rparr>)"] exI [of _ e] exI [of _ w3])
      (simp add: bson_game_def)
qed

text \<open>
  Saving the questions panics in exactly one case, for every database and every Redis: the
  update finds no game and the first write to Redis fails, since the log line asks the update
  for its error.
\<close>

theorem SaveQuestions_panics_iff:
  assumes "Marshal (enc_GameQuestions \<lparr>gq_Questions = qs, gq_Players = [], gq_CurrentQuestionIndex = 0\<rparr>) = Inr res"
  shows "(\<exists>p. fst (run_state (SaveQuestionsByMatchId cfg env mid qs) w) = Panicked p) \<longleftrightarrow>
    (\<exists>now w1 w2 e. run_state (ge_Now env) w = (now, w1) \<and>
      run_state (mg_UpdateQuestions (ge_mongo env) mid now qs) w1 = (Inr 0, w2) \<and>
      fst (run_state (redis_Set (ge_redis env) (QuestionsPrefix @ mid) res (rc_QuestionsTimeOut cfg)) w2) = Some e)"
proof -
  obtain now w1 where now: "run_state (ge_Now env) w = (now, w1)" by (cases "run_state (ge_Now env) w")
  obtain u w2 where u: "run_state (mg_UpdateQuestions (ge_mongo env) mid now qs) w1 = (u, w2)"
    by (cases "run_state (mg_UpdateQuestions (ge_mongo env) mid now qs) w1")
  obtain r w3 where r: "run_state (redis_Set (ge_redis env) (QuestionsPrefix @ mid) res (rc_QuestionsTimeOut cfg)) w2 = (r, w3)"
    by (cases "run_state (redis_Set (ge_redis env) (QuestionsPrefix @ mid) res (rc_QuestionsTimeOut cfg)) w2")
  have store: "fst (run_state (store_by_match cfg env mid qs res) w) =
      (if u = Inr 0 \<and> r \<noteq> None then Panicked NilDereference else Returned ())"
    by (cases u) (simp_all add: store_by_match_def bb_run now u r split: option.split)
  have "(\<exists>p. fst (run_state (SaveQuestionsByMatchId cfg env mid qs) w) = Panicked p) \<longleftrightarrow>
      (\<exists>p. fst (run_state (store_by_match cfg env mid qs res) w) = Panicked p)"
    using assms by (cases "fst (run_state (store_by_match cfg env mid qs res) w)")
      (simp_all add: SaveQuestionsByMatchId_def bb_run case_prod_beta Let_def split: sum.split)
  also have "\<dots> \<longleftrightarrow> u = Inr 0 \<and> r \<noteq> None" by (simp add: store)
  finally show ?thesis by (auto simp: now u r)
qed

end
