(* ===== verification/Game_Ready.thy ===== *)
theory Game_Ready
  imports Game_Laws
begin

text \<open>
  The ready protocol of a game, \<open>UpsertReadyPlayer\<close>. The service calls it for two events: a
  game was created for \<open>n\<close> players, and a player is ready. The step relation \<open>ready_step\<close> is
  the protocol on the data itself, without JSON and Redis; the code refines it, and the
  invariant and the results of whole runs are proved on it.
\<close>

section \<open>The protocol\<close>

datatype ready_event = GameCreated int | PlayerReady int

type_synonym ready_state = "(int \<times> int list) option"

text \<open>
  The last event that has no step is a creation when some but not all players are ready.
\<close>

inductive ready_step :: "ready_state \<Rightarrow> ready_event \<Rightarrow> go_error + bool \<Rightarrow> ready_state \<Rightarrow> bool" where
  Create: "ready_step None (GameCreated n) (Inr False) (Some (n, []))"
| Early: "ready_step None (PlayerReady p) (Inr False) (Some (2, []))"
| Full: "n = int (length ps) \<Longrightarrow> ready_step (Some (n, ps)) e (Inr True) (Some (n, ps))"
| Again: "n \<noteq> int (length ps) \<Longrightarrow> p \<in> set ps \<Longrightarrow>
    ready_step (Some (n, ps)) (PlayerReady p) (Inl ErrAlreadyReady) (Some (n, ps))"
| Join: "n \<noteq> int (length ps) \<Longrightarrow> p \<notin> set ps \<Longrightarrow>
    ready_step (Some (n, ps)) (PlayerReady p) (Inr (int (length ps) + 1 = n)) (Some (n, ps @ [p]))"
| Recreate: "n \<noteq> 0 \<Longrightarrow> ready_step (Some (n, [])) (GameCreated m) (Inr False) (Some (n, []))"

inductive_cases ready_step_NoneE: "ready_step None e r s"
inductive_cases ready_step_SomeE: "ready_step (Some (n, ps)) e r s"

inductive_simps ready_step_created: "ready_step (Some (n, ps)) (GameCreated m) r s"
inductive_simps ready_step_ready: "ready_step (Some (n, ps)) (PlayerReady p) r s"

inductive ready_reach :: "ready_state \<Rightarrow> bool" where
  Start: "ready_reach None"
| Step: "ready_reach s \<Longrightarrow> ready_step s e r s' \<Longrightarrow> ready_reach s'"

lemma ready_step_deterministic: "ready_step s e r s' \<Longrightarrow> ready_step s e r' s'' \<Longrightarrow> r' = r \<and> s'' = s'"
  by (induction rule: ready_step.induct) (auto elim: ready_step_NoneE ready_step_SomeE)

text \<open>A player is counted once, and no more players than expected are.\<close>

definition ready_inv :: "ready_state \<Rightarrow> bool" where
  "ready_inv s \<longleftrightarrow> (case s of None \<Rightarrow> True | Some (n, ps) \<Rightarrow> distinct ps \<and> (0 \<le> n \<longrightarrow> int (length ps) \<le> n))"

lemma ready_step_inv: "ready_step s e r s' \<Longrightarrow> ready_inv s \<Longrightarrow> ready_inv s'"
  by (induction rule: ready_step.induct) (auto simp: ready_inv_def)

lemma ready_reach_inv: "ready_reach s \<Longrightarrow> ready_inv s"
  by (induction rule: ready_reach.induct) (auto simp: ready_inv_def dest: ready_step_inv)

section \<open>The code refines it\<close>

definition ready_status :: "(string \<rightharpoonup> string) \<Rightarrow> string \<Rightarrow> ready_state \<Rightarrow> bool" where
  "ready_status m gid s \<longleftrightarrow> (case s of
     None \<Rightarrow> m (GameStatusPrefix @ gid) = None
   | Some (n, ps) \<Rightarrow> \<exists>bs. m (GameStatusPrefix @ gid) = Some bs \<and>
       Unmarshal dec_gameStatus zero_gameStatus bs = Inr \<lparr>gs_ExpectedNumberOfPlayers = n, gs_Players = ps\<rparr>)"

definition ready_event_run :: "game_repo_config \<Rightarrow> 'w game_env \<Rightarrow> string \<Rightarrow> ready_event \<Rightarrow>
    ('w, (go_error + bool) outcome) state" where
  "ready_event_run cfg env gid e = (case e of
     GameCreated n \<Rightarrow> UpsertReadyPlayer cfg env gid None (Some n)
   | PlayerReady p \<Rightarrow> UpsertReadyPlayer cfg env gid (Some p) None)"

definition event_ok :: "ready_event \<Rightarrow> bool" where
  "event_ok e \<longleftrightarrow> (case e of GameCreated n \<Rightarrow> index_ok n | PlayerReady p \<Rightarrow> index_ok p)"

definition status_ok :: "ready_state \<Rightarrow> bool" where
  "status_ok s \<longleftrightarrow> (case s of None \<Rightarrow> True
     | Some (n, ps) \<Rightarrow> index_ok n \<and> list_all index_ok ps \<and> - (2 ^ 62) < n \<and> int (length ps) < 2 ^ 62)"

lemma gameStatus_round_trip:
  assumes "index_ok n" and "list_all index_ok ps"
  shows "Unmarshal dec_gameStatus zero_gameStatus (json_print (enc_gameStatus \<lparr>gs_ExpectedNumberOfPlayers = n, gs_Players = ps\<rparr>)) =
    Inr \<lparr>gs_ExpectedNumberOfPlayers = n, gs_Players = ps\<rparr>"
proof -
  let ?j = "enc_gameStatus \<lparr>gs_ExpectedNumberOfPlayers = n, gs_Players = ps\<rparr>"
  have names: "list_all utf8_valid [''expectedNumberOfPlayers'', ''players'']"
    unfolding list_all_iff by (intro ballI utf8_valid_ascii) auto
  have "json_depth (JArr (map enc_int ps)) \<le> Suc 0"
    by (rule json_depth_array) auto
  then have "json_parse (json_print ?j) = Some ?j"
    using names by (intro json_parse_print) (auto simp: enc_gameStatus_def list_all_iff)
  moreover have "dec_all dec_int 0 (map enc_int ps) = Inr ps"
    using assms(2) by (intro dec_all_map) (auto simp: list_all_iff index_ok_def)
  then have "dec_gameStatus ?j zero_gameStatus = Inr \<lparr>gs_ExpectedNumberOfPlayers = n, gs_Players = ps\<rparr>"
    using assms(1) by (simp add: enc_gameStatus_def dec_gameStatus_def dec_struct_def find_field_def field_def index_ok_def
        dec_list_def zero_gameStatus_def)
  ultimately show ?thesis by (simp add: Unmarshal_def)
qed

lemma set_ready_status:
  assumes "redis_strings (ge_redis env) kv" and "index_ok n" and "list_all index_ok ps"
  shows "\<exists>w'. run_state (redis_Set (ge_redis env) (GameStatusPrefix @ gid)
      (json_print (enc_gameStatus \<lparr>gs_ExpectedNumberOfPlayers = n, gs_Players = ps\<rparr>)) ttl) w = (None, w') \<and>
    ready_status (kv w') gid (Some (n, ps))"
  using redis_Set_ok [OF assms(1)] gameStatus_round_trip [OF assms(2,3)]
  by (fastforce simp: ready_status_def)

lemmas set_ready_status_empty = set_ready_status [where ps = "[]", OF _ _ list.pred_inject(1)]

lemma wrap64_difference:
  assumes "status_ok (Some (n, ps))"
  shows "wrap64 (n - int (length ps)) = 0 \<longleftrightarrow> n = int (length ps)"
  using assms by (subst wrap64_id) (auto simp: status_ok_def index_ok_def)

lemma UpsertReadyPlayer_step:
  assumes redis: "redis_strings (ge_redis env) kv" and s: "ready_status (kv w) gid s" "status_ok s" and e: "event_ok e"
  shows "\<exists>w'. (\<exists>r s'. run_state (ready_event_run cfg env gid e) w = (Returned r, w') \<and> ready_step s e r s' \<and>
        ready_status (kv w') gid s') \<or>
    run_state (ready_event_run cfg env gid e) w = (Panicked NilDereference, w') \<and> kv w' = kv w \<and> (\<nexists>r s'. ready_step s e r s')"
proof (cases s)
  case None
  let ?n = "case e of GameCreated n \<Rightarrow> n | PlayerReady _ \<Rightarrow> 2"
  have n: "index_ok ?n" using e by (auto simp: event_ok_def index_ok_def split: ready_event.splits)
  obtain err w1 where get: "run_state (redis_Get (ge_redis env) (GameStatusPrefix @ gid)) w = (Inl err, w1)"
    using redis_Get_None [OF redis] s(1) None by (force simp: ready_status_def)
  obtain w2 where put: "run_state (redis_Set (ge_redis env) (GameStatusPrefix @ gid)
        (json_print (enc_gameStatus \<lparr>gs_ExpectedNumberOfPlayers = ?n, gs_Players = []\<rparr>)) (rc_GameStatusTimeOut cfg)) w1 = (None, w2)"
      "ready_status (kv w2) gid (Some (?n, []))"
    using set_ready_status_empty [OF redis n] by blast
  have "run_state (ready_event_run cfg env gid e) w = (Returned (Inr False), w2)"
    using get put(1) by (cases e) (simp_all add: ready_event_run_def UpsertReadyPlayer_def bb_run)
  moreover have "ready_step s e (Inr False) (Some (?n, []))"
    using None by (cases e) (auto intro: ready_step.intros)
  ultimately show ?thesis using put(2) by blast
next
  case (Some np)
  obtain n ps where np: "np = (n, ps)" by (cases np)
  obtain bs where bs: "kv w (GameStatusPrefix @ gid) = Some bs"
      "Unmarshal dec_gameStatus zero_gameStatus bs = Inr \<lparr>gs_ExpectedNumberOfPlayers = n, gs_Players = ps\<rparr>"
    using s(1) Some np by (auto simp: ready_status_def)
  obtain w1 where get: "run_state (redis_Get (ge_redis env) (GameStatusPrefix @ gid)) w = (Inr bs, w1)" "kv w1 = kv w"
    using redis_Get_Some [OF redis bs(1)] by blast
  have st: "status_ok (Some (n, ps))" using s(2) Some np by simp
  have ok: "index_ok n" "list_all index_ok ps" using st by (simp_all add: status_ok_def)
  have same: "ready_status (kv w1) gid (Some (n, ps))" using s(1) Some np get(2) by simp
  note run = ready_event_run_def UpsertReadyPlayer_def bb_run Let_def get(1) bs(2) wrap64_difference [OF st]
  show ?thesis
  proof (cases "n = int (length ps)")
    case True
    then have "run_state (ready_event_run cfg env gid e) w = (Returned (Inr True), w1)"
      using wrap64_difference [OF st] by (cases e) (simp_all add: run)
    with True same Some np show ?thesis by (auto intro: Full)
  next
    case notfull: False
    then have neq: "wrap64 (n - int (length ps)) \<noteq> 0" using wrap64_difference [OF st] by simp
    show ?thesis
    proof (cases e)
      case (GameCreated m)
      show ?thesis
      proof (cases "ps = []")
        case True
        obtain w2 where put: "run_state (redis_Set (ge_redis env) (GameStatusPrefix @ gid)
              (json_print (enc_gameStatus \<lparr>gs_ExpectedNumberOfPlayers = n, gs_Players = []\<rparr>)) (rc_GameStatusTimeOut cfg)) w1 = (None, w2)"
            "ready_status (kv w2) gid (Some (n, []))"
          using set_ready_status_empty [OF redis ok(1)] by blast
        have "run_state (ready_event_run cfg env gid e) w = (Returned (Inr False), w2)"
          using put(1) True notfull neq GameCreated by (simp add: run)
        with put(2) True notfull Some np GameCreated show ?thesis by (auto intro: Recreate)
      next
        case False
        then have "run_state (ready_event_run cfg env gid e) w = (Panicked NilDereference, w1)"
          using neq GameCreated notfull by (simp add: run)
        with False notfull get(2) Some np GameCreated show ?thesis by (auto simp: ready_step_created)
      qed
    next
      case (PlayerReady p)
      show ?thesis
      proof (cases "p \<in> set ps")
        case True
        then have "run_state (ready_event_run cfg env gid e) w = (Returned (Inl ErrAlreadyReady), w1)"
          using neq PlayerReady notfull by (simp add: run)
        with True notfull same Some np PlayerReady show ?thesis by (auto intro: Again)
      next
        case False
        have "list_all index_ok (ps @ [p])" using ok(2) e PlayerReady by (simp add: event_ok_def)
        then obtain w2 where put: "run_state (redis_Set (ge_redis env) (GameStatusPrefix @ gid)
              (json_print (enc_gameStatus \<lparr>gs_ExpectedNumberOfPlayers = n, gs_Players = ps @ [p]\<rparr>)) (rc_GameStatusTimeOut cfg)) w1 = (None, w2)"
            "ready_status (kv w2) gid (Some (n, ps @ [p]))"
          using set_ready_status [OF redis ok(1)] by blast
        have "run_state (ready_event_run cfg env gid e) w = (Returned (Inr (int (length ps) + 1 = n)), w2)"
          using put(1) False notfull neq PlayerReady by (simp add: run add.commute)
        with put(2) False notfull Some np PlayerReady show ?thesis by (auto intro: Join)
      qed
    qed
  qed
qed

text \<open>
  C21. What \<open>UpsertReadyPlayer\<close> does to the status in Redis is a step of the protocol, with the
  same result; it panics if and only if the protocol has no step for the event.
\<close>

theorem UpsertReadyPlayer_refines:
  assumes redis: "redis_strings (ge_redis env) kv" and s: "ready_status (kv w) gid s" "status_ok s" and e: "event_ok e"
  shows "\<exists>w'. (\<exists>r s'. run_state (ready_event_run cfg env gid e) w = (Returned r, w') \<and> ready_step s e r s' \<and>
        ready_status (kv w') gid s') \<or>
    run_state (ready_event_run cfg env gid e) w = (Panicked NilDereference, w') \<and> kv w' = kv w \<and> (\<nexists>r s'. ready_step s e r s')"
  using assms by (rule UpsertReadyPlayer_step)

section \<open>Whole runs\<close>

primrec ready_events :: "game_repo_config \<Rightarrow> 'w game_env \<Rightarrow> string \<Rightarrow> ready_event list \<Rightarrow>
    ('w, (go_error + bool) list outcome) state" where
  "ready_events cfg env gid [] = ret (Returned [])"
| "ready_events cfg env gid (e # es) = do {
     r \<leftarrow> ready_event_run cfg env gid e;
     case r of
       Panicked p \<Rightarrow> ret (Panicked p)
     | Returned x \<Rightarrow> do {
         rs \<leftarrow> ready_events cfg env gid es;
         ret (case rs of Panicked p \<Rightarrow> Panicked p | Returned xs \<Rightarrow> Returned (x # xs)) } }"

text \<open>The counted players, and how much room is left for more events.\<close>

definition status_room :: "ready_state \<Rightarrow> nat \<Rightarrow> bool" where
  "status_room s k \<longleftrightarrow> status_ok s \<and> (case s of None \<Rightarrow> k < 2 ^ 62 | Some (n, ps) \<Rightarrow> length ps + k < 2 ^ 62)"

lemma ready_step_room:
  assumes "ready_step s e r s'" and "status_room s (Suc k)" and "event_ok e"
    and "\<And>n. e = GameCreated n \<Longrightarrow> - (2 ^ 62) < n"
  shows "status_room s' k"
  using assms by (induction rule: ready_step.induct)
    (auto simp: status_room_def status_ok_def event_ok_def index_ok_def)

lemma ready_event_step:
  assumes "redis_strings (ge_redis env) kv" and "ready_status (kv w) gid s" and "status_ok s" and "event_ok e"
    and "ready_step s e r s'"
  shows "\<exists>w'. run_state (ready_event_run cfg env gid e) w = (Returned r, w') \<and> ready_status (kv w') gid s'"
  using UpsertReadyPlayer_step [OF assms(1-4), of cfg] ready_step_deterministic [OF assms(5)] assms(5) by blast

lemma ready_events_reach:
  assumes redis: "redis_strings (ge_redis env) kv"
  shows "ready_status (kv w) gid s \<Longrightarrow> ready_reach s \<Longrightarrow> status_room s (length es) \<Longrightarrow>
    (\<And>e. e \<in> set es \<Longrightarrow> event_ok e) \<Longrightarrow> (\<And>n. GameCreated n \<in> set es \<Longrightarrow> - (2 ^ 62) < n) \<Longrightarrow>
    run_state (ready_events cfg env gid es) w = (Returned rs, w') \<Longrightarrow>
    \<exists>s'. ready_status (kv w') gid s' \<and> ready_reach s'"
proof (induction es arbitrary: w s rs)
  case (Cons e es)
  have ok: "status_ok s" "event_ok e" using Cons.prems(3,4) by (simp_all add: status_room_def)
  from UpsertReadyPlayer_step [OF redis Cons.prems(1) ok, of cfg] Cons.prems(6)
  obtain r s1 w1 where step: "run_state (ready_event_run cfg env gid e) w = (Returned r, w1)" "ready_step s e r s1"
      "ready_status (kv w1) gid s1"
    by (auto simp: bb_run)
  obtain rs1 where rest: "run_state (ready_events cfg env gid es) w1 = (Returned rs1, w')"
    using Cons.prems(6) step(1)
    by (cases "run_state (ready_events cfg env gid es) w1") (auto simp: bb_run split: outcome.splits)
  have "ready_reach s1" using Cons.prems(2) step(2) by (rule ready_reach.Step)
  moreover have "status_room s1 (length es)"
    using ready_step_room [OF step(2), of "length es"] Cons.prems(3,5) ok(2) by auto
  ultimately show ?case
    using Cons.IH [OF step(3) _ _ _ _ rest] Cons.prems(4,5) by auto
qed (auto simp: bb_run)

text \<open>
  C24. However the calls for one game are ordered, if none of them panics, the status in Redis
  is one the protocol reaches: no player is counted twice, and no more than are expected.
\<close>

theorem ready_invariant:
  assumes "redis_strings (ge_redis env) kv" and "kv w (GameStatusPrefix @ gid) = None" and "length es < 2 ^ 62"
    and "\<And>e. e \<in> set es \<Longrightarrow> event_ok e" and "\<And>n. GameCreated n \<in> set es \<Longrightarrow> 0 \<le> n"
    and "run_state (ready_events cfg env gid es) w = (Returned rs, w')"
  shows "\<exists>s. ready_status (kv w') gid s \<and> ready_reach s \<and>
    (\<forall>n ps. s = Some (n, ps) \<longrightarrow> distinct ps \<and> (0 \<le> n \<longrightarrow> int (length ps) \<le> n))"
proof -
  have "ready_status (kv w) gid None" "status_room None (length es)"
    using assms(2,3) by (simp_all add: ready_status_def status_room_def status_ok_def)
  moreover have "- (2 ^ 62) < n" if "GameCreated n \<in> set es" for n
    using assms(5) [OF that] by simp
  ultimately obtain s where "ready_status (kv w') gid s" "ready_reach s"
    using ready_events_reach [OF assms(1) _ ready_reach.Start _ assms(4) _ assms(6)] by blast
  then show ?thesis using ready_reach_inv [of s] by (auto simp: ready_inv_def)
qed

text \<open>What a player is told who is ready after the players \<open>seen\<close> were.\<close>

definition ready_answer :: "nat \<Rightarrow> int list \<Rightarrow> int \<Rightarrow> go_error + bool" where
  "ready_answer n seen p =
     (if n \<le> card (set seen) then Inr True
      else if p \<in> set seen then Inl ErrAlreadyReady
      else Inr (card (set seen) + 1 = n))"

primrec ready_answers :: "nat \<Rightarrow> int list \<Rightarrow> int list \<Rightarrow> (go_error + bool) list" where
  "ready_answers n seen [] = []"
| "ready_answers n seen (p # ps) = ready_answer n seen p # ready_answers n (seen @ [p]) ps"

text \<open>The players that are counted after \<open>seen\<close>.\<close>

definition counted :: "nat \<Rightarrow> int list \<Rightarrow> int list \<Rightarrow> bool" where
  "counted n seen ps \<longleftrightarrow> distinct ps \<and> set ps \<subseteq> set seen \<and> length ps \<le> n \<and> (length ps < n \<longrightarrow> set ps = set seen)"

lemma counted_full:
  assumes "counted n seen ps"
  shows "length ps = n \<longleftrightarrow> n \<le> card (set seen)"
proof -
  have c: "card (set ps) = length ps" using assms by (simp add: counted_def distinct_card)
  have "card (set ps) \<le> card (set seen)" using assms by (intro card_mono) (simp_all add: counted_def)
  with c assms show ?thesis by (cases "length ps < n") (auto simp: counted_def)
qed

lemma counted_step:
  assumes c: "counted n seen ps"
  shows "\<exists>ps'. ready_step (Some (int n, ps)) (PlayerReady p) (ready_answer n seen p) (Some (int n, ps')) \<and>
    counted n (seen @ [p]) ps' \<and> length ps' \<le> Suc (length ps)"
proof (cases "length ps = n")
  case True
  then show ?thesis
    using c counted_full [OF c] ready_step.Full [of "int n" ps]
    by (intro exI [of _ ps]) (auto simp: ready_answer_def counted_def)
next
  case False
  then have less: "length ps < n" and eq: "set ps = set seen" using c by (auto simp: counted_def)
  have card: "card (set seen) = length ps" using c eq by (metis counted_def distinct_card)
  have neq: "int n \<noteq> int (length ps)" using False by simp
  show ?thesis
  proof (cases "p \<in> set ps")
    case True
    then show ?thesis
      using c eq card less ready_step.Again [OF neq True]
      by (intro exI [of _ ps]) (auto simp: ready_answer_def counted_def insert_absorb)
  next
    case False
    have "ready_answer n seen p = Inr (int (length ps) + 1 = int n)"
      using False eq card less by (auto simp: ready_answer_def)
    then show ?thesis
      using c eq less False ready_step.Join [OF neq False]
      by (intro exI [of _ "ps @ [p]"]) (auto simp: counted_def)
  qed
qed

lemma ready_events_answers:
  assumes redis: "redis_strings (ge_redis env) kv" and n: "index_ok (int n)"
  shows "ready_status (kv w) gid (Some (int n, ps)) \<Longrightarrow> counted n seen ps \<Longrightarrow> list_all index_ok (ps @ rs) \<Longrightarrow>
    length (ps @ rs) < 2 ^ 62 \<Longrightarrow>
    \<exists>w'. run_state (ready_events cfg env gid (map PlayerReady rs)) w = (Returned (ready_answers n seen rs), w')"
proof (induction rs arbitrary: w ps seen)
  case (Cons p rs)
  obtain ps' where step: "ready_step (Some (int n, ps)) (PlayerReady p) (ready_answer n seen p) (Some (int n, ps'))"
      "counted n (seen @ [p]) ps'" "length ps' \<le> Suc (length ps)"
    using counted_step [OF Cons.prems(2)] by blast
  have "status_ok (Some (int n, ps))" "event_ok (PlayerReady p)"
    using n Cons.prems(3,4) by (auto simp: status_ok_def event_ok_def intro: less_le_trans [of _ 0])
  from ready_event_step [OF redis Cons.prems(1) this step(1)] obtain w1 where
      w1: "run_state (ready_event_run cfg env gid (PlayerReady p)) w = (Returned (ready_answer n seen p), w1)"
        "ready_status (kv w1) gid (Some (int n, ps'))" by blast
  have "set ps' \<subseteq> insert p (set ps)" using step(1) by (auto elim: ready_step_SomeE)
  then have "list_all index_ok (ps' @ rs)" using Cons.prems(3) by (auto simp: list_all_iff)
  moreover have "length (ps' @ rs) < 2 ^ 62" using Cons.prems(4) step(3) by simp
  ultimately obtain w' where "run_state (ready_events cfg env gid (map PlayerReady rs)) w1 =
      (Returned (ready_answers n (seen @ [p]) rs), w')"
    using Cons.IH [OF w1(2) step(2)] by blast
  with w1(1) show ?case by (simp add: bb_run)
qed (simp add: bb_run)

lemma ready_round_run:
  assumes redis: "redis_strings (ge_redis env) kv" and new: "kv w (GameStatusPrefix @ gid) = None"
    and n: "n < 2 ^ 62" and rs: "list_all index_ok rs" "length rs < 2 ^ 62"
  shows "\<exists>w'. run_state (ready_events cfg env gid (GameCreated (int n) # map PlayerReady rs)) w =
    (Returned (Inr False # ready_answers n [] rs), w')"
proof -
  have ok: "index_ok (int n)"
  proof -
    have "int n < 2 ^ 62" using n by (metis of_nat_less_numeral_power_cancel_iff)
    then show ?thesis by (simp add: index_ok_def)
  qed
  have "ready_status (kv w) gid None" "status_ok None" "event_ok (GameCreated (int n))"
    using new ok by (simp_all add: ready_status_def status_ok_def event_ok_def)
  from ready_event_step [OF redis this ready_step.Create] obtain w1 where
      w1: "run_state (ready_event_run cfg env gid (GameCreated (int n))) w = (Returned (Inr False), w1)"
        "ready_status (kv w1) gid (Some (int n, []))" by blast
  have "counted n [] []" by (simp add: counted_def)
  from ready_events_answers [OF redis ok w1(2) this, of rs] rs obtain w' where
      "run_state (ready_events cfg env gid (map PlayerReady rs)) w1 = (Returned (ready_answers n [] rs), w')" by auto
  with w1(1) show ?thesis by (simp add: bb_run)
qed

text \<open>
  C25. When a game was created for \<open>n\<close> players before anyone was ready, the call for a player
  reports that the game can start exactly if that player completes the \<open>n\<close> different ones or
  they are complete already; a player who is ready again before that gets an error.
\<close>

theorem ready_round:
  assumes redis: "redis_strings (ge_redis env) kv" and new: "kv w (GameStatusPrefix @ gid) = None"
    and n: "n < 2 ^ 62" and rs: "list_all index_ok rs" "length rs < 2 ^ 62"
  shows "\<exists>w'. run_state (ready_events cfg env gid (GameCreated (int n) # map PlayerReady rs)) w =
    (Returned (Inr False # ready_answers n [] rs), w')"
  using assms by (rule ready_round_run)

text \<open>
  A player who is ready before the game status exists is forgotten: the two players of a
  game can both be ready and the game does not start. If both were early, the creation that
  follows panics.
\<close>

theorem early_ready_lost:
  assumes redis: "redis_strings (ge_redis env) kv" and new: "kv w (GameStatusPrefix @ gid) = None"
    and ids: "index_ok p" "index_ok q" "p \<noteq> q"
  shows "(\<exists>w'. run_state (ready_events cfg env gid [PlayerReady p, GameCreated 2, PlayerReady q]) w =
      (Returned [Inr False, Inr False, Inr False], w')) \<and>
    (\<exists>w'. run_state (ready_events cfg env gid [PlayerReady p, PlayerReady q, GameCreated 2]) w = (Panicked NilDereference, w'))"
proof -
  have i2: "index_ok 2" by (simp add: index_ok_def)
  have ok: "event_ok (PlayerReady p)" "event_ok (PlayerReady q)" "event_ok (GameCreated 2)"
    "status_ok None" "status_ok (Some (2, []))" "status_ok (Some (2, [q]))"
    using ids i2 by (simp_all add: event_ok_def status_ok_def)
  have "ready_status (kv w) gid None" using new by (simp add: ready_status_def)
  from ready_event_step [OF redis this ok(4) ok(1) ready_step.Early, of cfg] obtain w1 where
      w1: "run_state (ready_event_run cfg env gid (PlayerReady p)) w = (Returned (Inr False), w1)"
        "ready_status (kv w1) gid (Some (2, []))" by blast
  have join: "ready_step (Some (2, [])) (PlayerReady q) (Inr False) (Some (2, [q]))"
    using ready_step.Join [of 2 "[]" q] by simp
  have again: "ready_step (Some (2, [])) (GameCreated 2) (Inr False) (Some (2, []))"
    by (rule ready_step.Recreate) simp
  from ready_event_step [OF redis w1(2) ok(5) ok(3) again, of cfg] obtain w2 where
      w2: "run_state (ready_event_run cfg env gid (GameCreated 2)) w1 = (Returned (Inr False), w2)"
        "ready_status (kv w2) gid (Some (2, []))" by blast
  from ready_event_step [OF redis w2(2) ok(5) ok(2) join, of cfg] obtain w3 where
      w3: "run_state (ready_event_run cfg env gid (PlayerReady q)) w2 = (Returned (Inr False), w3)" by blast
  from ready_event_step [OF redis w1(2) ok(5) ok(2) join, of cfg] obtain w4 where
      w4: "run_state (ready_event_run cfg env gid (PlayerReady q)) w1 = (Returned (Inr False), w4)"
        "ready_status (kv w4) gid (Some (2, [q]))" by blast
  from UpsertReadyPlayer_step [OF redis w4(2) ok(6) ok(3), of cfg] obtain w5 where
      w5: "run_state (ready_event_run cfg env gid (GameCreated 2)) w4 = (Panicked NilDereference, w5)"
    by (auto simp: ready_step_created)
  show ?thesis using w1(1) w2(1) w3 w4(1) w5 by (simp add: bb_run)
qed

end
