(* ===== verification/Game_Answers.thy ===== *)
theory Game_Answers
  imports Game_Laws
begin

text \<open>
  Answers and the leader board. An answer is graded by the question of that id, and stored at
  most once per player and question; the leader board adds up what is stored. The properties
  are over the collection of answers that MongoDB holds.
\<close>

section \<open>Grading\<close>

text \<open>The loop grades by the first question with the id of the answer.\<close>

definition question_of :: "PlayerAnswer \<Rightarrow> game_Question list \<Rightarrow> game_Question option" where
  "question_of ans qs = find (\<lambda>q. pa_QuestionIDs ans = q_Id q) qs"

lemma grade_loop_found: "grade_loop cfg True ans qs = Inr ans"
  by (induction qs) simp_all

lemma grade_loop_eq:
  "grade_loop cfg False ans qs = (case question_of ans qs of None \<Rightarrow> Inr ans
     | Some q \<Rightarrow> if too_early cfg q ans then Inl ErrAnsweredQuickly else Inr (graded cfg q ans))"
  by (induction qs) (simp_all add: question_of_def grade_loop_found)

definition graded_by :: "game_repo_config \<Rightarrow> PlayerAnswer \<Rightarrow> game_Question list \<Rightarrow> PlayerAnswer" where
  "graded_by cfg ans qs = (case question_of ans qs of None \<Rightarrow> ans | Some q \<Rightarrow> graded cfg q ans)"

definition answered_quickly :: "game_repo_config \<Rightarrow> PlayerAnswer \<Rightarrow> game_Question list \<Rightarrow> bool" where
  "answered_quickly cfg ans qs = (case question_of ans qs of None \<Rightarrow> False | Some q \<Rightarrow> too_early cfg q ans)"

lemma grade_loop_cases:
  "grade_loop cfg False ans qs = (if answered_quickly cfg ans qs then Inl ErrAnsweredQuickly else Inr (graded_by cfg ans qs))"
  by (simp add: grade_loop_eq graded_by_def answered_quickly_def split: option.split)

lemma graded_by_key [simp]:
  "pa_GameId (graded_by cfg ans qs) = pa_GameId ans" "pa_PlayerID (graded_by cfg ans qs) = pa_PlayerID ans"
  "pa_QuestionIDs (graded_by cfg ans qs) = pa_QuestionIDs ans" "pa_PlayerChoice (graded_by cfg ans qs) = pa_PlayerChoice ans"
  by (simp_all add: graded_by_def graded_def split: option.split)

lemma bson_answer_simps [simp]:
  "pa_GameId (bson_answer a) = pa_GameId a" "pa_PlayerID (bson_answer a) = pa_PlayerID a"
  "pa_QuestionIDs (bson_answer a) = pa_QuestionIDs a" "pa_Point (bson_answer a) = pa_Point a"
  "pa_PlayerChoice (bson_answer a) = pa_PlayerChoice a" "pa_CorrectChoice (bson_answer a) = pa_CorrectChoice a"
  "pa_TimeDiff (bson_answer a) = pa_TimeDiff a"
  by (simp_all add: bson_answer_def)

section \<open>Storing an answer\<close>

lemma mongo_find_answer:
  assumes "mongo_answers M answers other"
  shows "\<exists>r w'. run_state (mg_FindAnswer M gid pid qid) w = (r, w') \<and> answers w' = answers w \<and> other w' = other w \<and>
    (case find (answer_matches gid pid qid) (answers w) of Some a \<Rightarrow> r = Inr a | None \<Rightarrow> \<exists>e. r = Inl e)"
proof -
  have "\<exists>w'. answers w' = answers w \<and> other w' = other w \<and> (case find (answer_matches gid pid qid) (answers w) of
         Some a \<Rightarrow> run_state (mg_FindAnswer M gid pid qid) w = (Inr a, w')
       | None \<Rightarrow> \<exists>e. run_state (mg_FindAnswer M gid pid qid) w = (Inl e, w'))"
    using conjunct1 [OF assms [unfolded mongo_answers_def], THEN spec, THEN spec, THEN spec, THEN spec] .
  then show ?thesis by (auto split: option.splits)
qed

lemma mongo_insert_answer:
  assumes "mongo_answers M answers other"
  shows "\<exists>w'. run_state (mg_InsertAnswer M a) w = (None, w') \<and> answers w' = answers w @ [bson_answer a] \<and> other w' = other w"
  using conjunct1 [OF conjunct2 [OF assms [unfolded mongo_answers_def]], THEN spec, THEN spec] .

lemma mongo_all_answers:
  assumes "mongo_answers M answers other"
  shows "\<exists>c w1 w2. run_state (mg_FindAnswers M gid) w = (Inr c, w1) \<and>
    run_state (mg_CursorAll M c) w1 = (Inr (filter (\<lambda>a. pa_GameId a = gid) (answers w)), w2) \<and>
    answers w1 = answers w \<and> other w1 = other w \<and> answers w2 = answers w \<and> other w2 = other w"
  using conjunct2 [OF conjunct2 [OF assms [unfolded mongo_answers_def]], THEN spec, THEN spec] .

text \<open>What the driver leaves alone, it leaves alone in every view.\<close>

lemma mongo_answers_view:
  assumes "mongo_answers M answers other" and f: "\<And>w w'. other w' = other w \<Longrightarrow> view w' = view w"
  shows "mongo_answers M answers view"
  unfolding mongo_answers_def
proof (intro conjI allI)
  fix gid pid qid w
  show "\<exists>w'. answers w' = answers w \<and> view w' = view w \<and> (case find (answer_matches gid pid qid) (answers w) of
      Some a \<Rightarrow> run_state (mg_FindAnswer M gid pid qid) w = (Inr a, w')
    | None \<Rightarrow> \<exists>e. run_state (mg_FindAnswer M gid pid qid) w = (Inl e, w'))"
  proof -
    obtain r w' where w': "run_state (mg_FindAnswer M gid pid qid) w = (r, w')" "answers w' = answers w" "other w' = other w"
        and r: "case find (answer_matches gid pid qid) (answers w) of Some a \<Rightarrow> r = Inr a | None \<Rightarrow> \<exists>e. r = Inl e"
      using mongo_find_answer [OF assms(1), of gid pid qid w] by (elim exE conjE)
    have "view w' = view w" using f [OF w'(3)] .
    with w' r show ?thesis by (intro exI [of _ w']) (simp split: option.splits)
  qed
next
  fix a w
  show "\<exists>w'. run_state (mg_InsertAnswer M a) w = (None, w') \<and> answers w' = answers w @ [bson_answer a] \<and> view w' = view w"
  proof -
    obtain w' where w': "run_state (mg_InsertAnswer M a) w = (None, w')" "answers w' = answers w @ [bson_answer a]"
        "other w' = other w"
      using mongo_insert_answer [OF assms(1), of a w] by (elim exE conjE)
    show ?thesis by (rule exI [of _ w']) (simp add: w' f [OF w'(3)])
  qed
next
  fix gid w
  show "\<exists>c w1 w2. run_state (mg_FindAnswers M gid) w = (Inr c, w1) \<and>
      run_state (mg_CursorAll M c) w1 = (Inr (filter (\<lambda>a. pa_GameId a = gid) (answers w)), w2) \<and>
      answers w1 = answers w \<and> view w1 = view w \<and> answers w2 = answers w \<and> view w2 = view w"
  proof -
    obtain c w1 w2 where r: "run_state (mg_FindAnswers M gid) w = (Inr c, w1)"
        "run_state (mg_CursorAll M c) w1 = (Inr (filter (\<lambda>a. pa_GameId a = gid) (answers w)), w2)"
        "answers w1 = answers w" "other w1 = other w" "answers w2 = answers w" "other w2 = other w"
      using mongo_all_answers [OF assms(1), of gid w] by (elim exE conjE)
    show ?thesis by (intro exI [of _ c] exI [of _ w1] exI [of _ w2]) (simp add: r f [OF r(4)] f [OF r(6)])
  qed
qed

lemma keeps_view:
  assumes "keeps other c" and view: "\<And>w w'. other w' = other w \<Longrightarrow> view w' = view w"
  shows "keeps view c"
  unfolding keeps_def
proof
  fix w show "view (snd (run_state c w)) = view w" by (rule view [OF keepsD [OF assms(1)]])
qed

lemma redis_frame_view:
  assumes "redis_frame a other" and view: "\<And>w w'. other w' = other w \<Longrightarrow> view w' = view w"
  shows "redis_frame a view"
proof -
  note frame = assms(1) [unfolded redis_frame_def]
  show ?thesis
    unfolding redis_frame_def
    by (intro conjI allI keeps_view [OF frame [THEN conjunct1, rule_format] view]
      keeps_view [OF frame [THEN conjunct2, rule_format] view])
qed

lemma redis_Get_view:
  assumes "redis_strings a kv" and "redis_frame a (\<lambda>w. (f w, g w))" and "kv w key = Some v"
  shows "\<exists>w'. run_state (redis_Get a key) w = (Inr v, w') \<and> kv w' = kv w \<and> f w' = f w \<and> g w' = g w"
proof -
  obtain w' where "kv w' = kv w" "(f w', g w') = (f w, g w)" and run: "case kv w key of Some v \<Rightarrow>
      run_state (redis_Get a key) w = (Inr v, w') | None \<Rightarrow> \<exists>e. run_state (redis_Get a key) w = (Inl e, w')"
    using redis_Get_frame [OF assms(1,2), of w key] by (elim exE conjE)
  moreover have "run_state (redis_Get a key) w = (Inr v, w')" using run unfolding assms(3) option.case .
  ultimately show ?thesis by (intro exI [of _ w']) simp
qed

text \<open>What the stored answers and the result of a call are, in all cases.\<close>

definition answer_result :: "game_repo_config \<Rightarrow> PlayerAnswer \<Rightarrow> game_Question list \<Rightarrow> PlayerAnswer list \<Rightarrow>
    go_error option \<times> PlayerAnswer list" where
  "answer_result cfg ans qs stored =
     (if answered_quickly cfg ans qs then (Some ErrAnsweredQuickly, stored)
      else if \<exists>a \<in> set stored. answer_matches (pa_GameId ans) (pa_PlayerID ans) (pa_QuestionIDs ans) a
      then (Some (ErrAlreadyAnswered (graded_by cfg ans qs)), stored)
      else (None, stored @ [bson_answer (graded_by cfg ans qs)]))"

lemma SavePlayerAnswer_run_view:
  assumes redis: "redis_strings (ge_redis env) kv" "redis_frame (ge_redis env) (\<lambda>w. (answers w, view w))"
    and mongo: "mongo_answers (ge_mongo env) answers (\<lambda>w. (kv w, view w))"
    and stored: "stored_questions (kv w) (pa_GameId ans) = Some gq" and pid: "pa_PlayerID ans \<noteq> []"
  shows "\<exists>w'. run_state (SavePlayerAnswer cfg env (pa_GameId ans) ans) w =
      (fst (answer_result cfg ans (gq_Questions gq) (answers w)), w') \<and>
    answers w' = snd (answer_result cfg ans (gq_Questions gq) (answers w)) \<and> kv w' = kv w \<and> view w' = view w"
proof -
  let ?qs = "gq_Questions gq" and ?g = "pa_GameId ans"
  obtain bs where bs: "kv w (QuestionsPrefix @ ?g) = Some bs" "Unmarshal dec_GameQuestions zero_GameQuestions bs = Inr gq"
    using stored by (auto simp: stored_questions_def split: option.splits sum.splits)
  obtain w1 where w1: "run_state (redis_Get (ge_redis env) (QuestionsPrefix @ ?g)) w = (Inr bs, w1)" "kv w1 = kv w" "answers w1 = answers w" "view w1 = view w"
    using redis_Get_view [OF redis bs(1)] by (elim exE conjE)
  have get: "run_state (GetQuestionsByGameId env ?g) w = (Inr gq, w1)"
    using w1(1) bs(2) by (simp add: GetQuestionsByGameId_def bb_run)
  show ?thesis
  proof (cases "answered_quickly cfg ans ?qs")
    case True
    then show ?thesis using get w1
      by (intro exI [of _ w1]) (simp add: SavePlayerAnswer_def bb_run grade_loop_cases answer_result_def)
  next
    case False
    let ?a = "graded_by cfg ans ?qs" and ?P = "answer_matches ?g (pa_PlayerID ans) (pa_QuestionIDs ans)"
    obtain r w2 where w2: "run_state (mg_FindAnswer (ge_mongo env) ?g (pa_PlayerID ans) (pa_QuestionIDs ans)) w1 = (r, w2)"
        "answers w2 = answers w1" "kv w2 = kv w1" "view w2 = view w1" and r: "case find ?P (answers w1) of Some a \<Rightarrow> r = Inr a | None \<Rightarrow> \<exists>e. r = Inl e"
      using mongo_find_answer [OF mongo, of ?g "pa_PlayerID ans" "pa_QuestionIDs ans" w1]
      unfolding prod.inject by (elim exE conjE)
    obtain w3 where w3: "run_state (mg_InsertAnswer (ge_mongo env) ?a) w2 = (None, w3)"
        "answers w3 = answers w2 @ [bson_answer ?a]" "kv w3 = kv w2" "view w3 = view w2"
      using mongo_insert_answer [OF mongo, of ?a w2] unfolding prod.inject by (elim exE conjE)
    note run = SavePlayerAnswer_def bb_run get grade_loop_cases False w2(1) Let_def answer_result_def
    show ?thesis
    proof (cases "find ?P (answers w1)")
      case None
      then have "\<not> (\<exists>a \<in> set (answers w). ?P a)" using w1(3) by (simp add: find_None_iff)
      with None r pid w1 w2 w3 show ?thesis
        by (intro exI [of _ w3]) (auto simp: run zero_PlayerAnswer_def)
    next
      case (Some b)
      then have "b \<in> set (answers w)" "?P b" using w1(3) by (auto simp: find_Some_iff)
      moreover have "r = Inr b" using r Some by simp
      ultimately show ?thesis using w1 w2
        by (intro exI [of _ w2]) (auto simp: run answer_matches_def)
    qed
  qed
qed

lemma SavePlayerAnswer_run:
  assumes redis: "redis_strings (ge_redis env) kv" "redis_frame (ge_redis env) answers"
    and mongo: "mongo_answers (ge_mongo env) answers kv"
    and stored: "stored_questions (kv w) (pa_GameId ans) = Some gq" and pid: "pa_PlayerID ans \<noteq> []"
  shows "\<exists>w'. run_state (SavePlayerAnswer cfg env (pa_GameId ans) ans) w =
      (fst (answer_result cfg ans (gq_Questions gq) (answers w)), w') \<and>
    answers w' = snd (answer_result cfg ans (gq_Questions gq) (answers w)) \<and> kv w' = kv w"
proof -
  have "redis_frame (ge_redis env) (\<lambda>w. (answers w, ()))" using redis(2) by (rule redis_frame_view) simp
  moreover have "mongo_answers (ge_mongo env) answers (\<lambda>w. (kv w, ()))" using mongo by (rule mongo_answers_view) simp
  ultimately show ?thesis using SavePlayerAnswer_run_view [OF redis(1) _ _ stored pid, of answers "\<lambda>_. ()" cfg] by auto
qed

text \<open>
  C23. The complete behaviour of \<open>SavePlayerAnswer\<close> for a game whose questions are in Redis: an
  answer to a question whose time has not come is refused, a second answer of the player to
  the question is refused, and any other is graded and stored; a refused one stores nothing.
\<close>

theorem SavePlayerAnswer_outcome:
  assumes redis: "redis_strings (ge_redis env) kv" "redis_frame (ge_redis env) answers"
    and mongo: "mongo_answers (ge_mongo env) answers kv"
    and stored: "stored_questions (kv w) (pa_GameId ans) = Some gq" and pid: "pa_PlayerID ans \<noteq> []"
  shows "\<exists>w'. kv w' = kv w \<and>
    run_state (SavePlayerAnswer cfg env (pa_GameId ans) ans) w =
      (if answered_quickly cfg ans (gq_Questions gq) then Some ErrAnsweredQuickly
       else if \<exists>a \<in> set (answers w). answer_matches (pa_GameId ans) (pa_PlayerID ans) (pa_QuestionIDs ans) a
       then Some (ErrAlreadyAnswered (graded_by cfg ans (gq_Questions gq))) else None, w') \<and>
    answers w' = answers w @ (if answered_quickly cfg ans (gq_Questions gq) \<or>
        (\<exists>a \<in> set (answers w). answer_matches (pa_GameId ans) (pa_PlayerID ans) (pa_QuestionIDs ans) a)
      then [] else [bson_answer (graded_by cfg ans (gq_Questions gq))])"
  using SavePlayerAnswer_run [OF assms, of cfg] by (auto simp: answer_result_def split: if_splits)

section \<open>The collection of answers\<close>

definition answer_key :: "PlayerAnswer \<Rightarrow> string \<times> string \<times> string" where
  "answer_key a = (pa_GameId a, pa_PlayerID a, pa_QuestionIDs a)"

text \<open>Points are within the configured range, and only for right answers in time.\<close>

definition fair :: "game_repo_config \<Rightarrow> PlayerAnswer \<Rightarrow> bool" where
  "fair cfg a \<longleftrightarrow> pa_Point a = 0 \<or>
     pa_PlayerChoice a = pa_CorrectChoice a \<and> pa_AnswerTime a \<le> pa_ValidTimeToAnswer a \<and>
     sc_BaseScore (rc_ScoreConfig cfg) \<le> pa_Point a \<and>
     pa_Point a \<le> sc_BaseScore (rc_ScoreConfig cfg) + sc_MaxBonus (rc_ScoreConfig cfg)"

definition answers_ok :: "game_repo_config \<Rightarrow> PlayerAnswer list \<Rightarrow> bool" where
  "answers_ok cfg as \<longleftrightarrow> distinct (map answer_key as) \<and> list_all (fair cfg) as"

lemma fair_graded:
  assumes "score_config_ok (rc_ScoreConfig cfg)" and "pa_Point ans = 0"
  shows "fair cfg (bson_answer (graded_by cfg ans qs))"
proof (cases "question_of ans qs")
  case None
  with assms(2) show ?thesis by (simp add: graded_by_def fair_def bson_answer_def)
next
  case (Some q)
  let ?c = "pa_PlayerChoice ans = q_CorrectAnswer q"
  have "bson_time s \<le> bson_time t" if "s \<le> t" for s t
    using zdiv_mono1 [OF that, of 1000000] by (simp add: bson_time_def)
  with Some show ?thesis
    using score_bounds' [OF assms(1), of ?c "pa_AnswerTime ans" "q_ValidAnswerTime q"]
    by (auto simp: graded_by_def fair_def bson_answer_def graded_def)
qed

primrec save_answers :: "game_repo_config \<Rightarrow> 'w game_env \<Rightarrow> PlayerAnswer list \<Rightarrow> ('w, go_error option list) state" where
  "save_answers cfg env [] = ret []"
| "save_answers cfg env (a # as) = do {
     e \<leftarrow> SavePlayerAnswer cfg env (pa_GameId a) a;
     es \<leftarrow> save_answers cfg env as;
     ret (e # es) }"

lemma SavePlayerAnswer_ok:
  assumes redis: "redis_strings (ge_redis env) kv" "redis_frame (ge_redis env) answers"
    and mongo: "mongo_answers (ge_mongo env) answers kv" and cfg: "score_config_ok (rc_ScoreConfig cfg)"
    and ans: "pa_PlayerID ans \<noteq> []" "pa_Point ans = 0" "stored_questions (kv w) (pa_GameId ans) \<noteq> None"
    and ok: "answers_ok cfg (answers w)"
  shows "\<exists>r w'. run_state (SavePlayerAnswer cfg env (pa_GameId ans) ans) w = (r, w') \<and>
    answers_ok cfg (answers w') \<and> kv w' = kv w"
proof -
  obtain gq where gq: "stored_questions (kv w) (pa_GameId ans) = Some gq" using ans(3) by blast
  let ?a = "bson_answer (graded_by cfg ans (gq_Questions gq))"
  have key: "answer_key ?a = (pa_GameId ans, pa_PlayerID ans, pa_QuestionIDs ans)" by (simp add: answer_key_def)
  have "answers_ok cfg (answers w @ [?a])"
    if "\<not> (\<exists>a \<in> set (answers w). answer_matches (pa_GameId ans) (pa_PlayerID ans) (pa_QuestionIDs ans) a)"
    using that ok fair_graded [OF cfg ans(2)] by (auto simp: answers_ok_def answer_key_def answer_matches_def)
  then have "answers_ok cfg (snd (answer_result cfg ans (gq_Questions gq) (answers w)))"
    using ok by (simp add: answer_result_def)
  then show ?thesis using SavePlayerAnswer_run [OF redis mongo gq ans(1), of cfg] by auto
qed

text \<open>
  C13. Whatever answers come in, for any games and players and in any order, the collection
  holds at most one answer of a player to a question of a game, and no points but those a
  right answer in time has earned.
\<close>

theorem answers_invariant:
  assumes redis: "redis_strings (ge_redis env) kv" "redis_frame (ge_redis env) answers"
    and mongo: "mongo_answers (ge_mongo env) answers kv" and cfg: "score_config_ok (rc_ScoreConfig cfg)"
    and as: "\<forall>a \<in> set as. pa_PlayerID a \<noteq> [] \<and> pa_Point a = 0 \<and> stored_questions (kv w) (pa_GameId a) \<noteq> None"
    and ok: "distinct (map answer_key (answers w))" "list_all (fair cfg) (answers w)"
  shows "distinct (map answer_key (answers (snd (run_state (save_answers cfg env as) w)))) \<and>
    list_all (fair cfg) (answers (snd (run_state (save_answers cfg env as) w)))"
proof -
  have "answers_ok cfg (answers w) \<Longrightarrow>
      \<forall>a \<in> set as. pa_PlayerID a \<noteq> [] \<and> pa_Point a = 0 \<and> stored_questions (kv w) (pa_GameId a) \<noteq> None \<Longrightarrow>
      answers_ok cfg (answers (snd (run_state (save_answers cfg env as) w)))"
  proof (induction as arbitrary: w)
    case (Cons a as)
    obtain r w1 where w1: "run_state (SavePlayerAnswer cfg env (pa_GameId a) a) w = (r, w1)"
        "answers_ok cfg (answers w1)" "kv w1 = kv w"
      using SavePlayerAnswer_ok [OF redis mongo cfg, of a w] Cons.prems by auto
    then show ?case using Cons.IH [OF w1(2)] Cons.prems(2) by (simp add: bb_run case_prod_beta)
  qed simp
  with as ok show ?thesis by (simp add: answers_ok_def)
qed

end
