(* ===== verification/Game_Board.thy ===== *)
theory Game_Board
  imports Game_Answers
begin

text \<open>
  The leader board, \<open>GetLeaderBoard\<close>: one entry per player of the game and per player who
  answered, the sums of their points, in descending order, whatever the order in which the
  Go map is visited and whatever sorting does with equal points.
\<close>

section \<open>Adding up\<close>

definition of_player :: "string \<Rightarrow> PlayerAnswer list \<Rightarrow> PlayerAnswer list" where
  "of_player pid as = filter (\<lambda>a. pa_PlayerID a = pid) as"

definition board_entry :: "PlayerAnswer list \<Rightarrow> string \<Rightarrow> PlayerPoint" where
  "board_entry as pid = \<lparr>pp_PlayerId = pid, pp_Point = wrap64 (sum_list (map pa_Point (of_player pid as))),
     pp_QuestionCorrectness = map correctness_of (of_player pid as)\<rparr>"

lemma of_player_snoc [simp]: "of_player pid (as @ [a]) = of_player pid as @ (if pa_PlayerID a = pid then [a] else [])"
  by (simp add: of_player_def)

lemma of_player_Nil_iff: "of_player pid as = [] \<longleftrightarrow> pid \<notin> pa_PlayerID ` set as"
  by (auto simp: of_player_def filter_empty_conv)

lemma fst_add_answer: "fst ` set (add_answer a m) = insert (pa_PlayerID a) (fst ` set m)"
  by (induction a m rule: add_answer.induct) auto

lemma distinct_add_answer: "distinct (map fst m) \<Longrightarrow> distinct (map fst (add_answer a m))"
proof (induction a m rule: add_answer.induct)
  case (2 ans id' p m)
  have "fst ` set (add_answer ans m) = insert (pa_PlayerID ans) (fst ` set m)" by (rule fst_add_answer)
  with 2 show ?case by auto
qed simp

lemma map_of_add_answer:
  "map_of (add_answer a m) = (map_of m)(pa_PlayerID a \<mapsto> (case map_of m (pa_PlayerID a) of
     None \<Rightarrow> \<lparr>pp_PlayerId = pa_PlayerID a, pp_Point = pa_Point a, pp_QuestionCorrectness = [correctness_of a]\<rparr>
   | Some p \<Rightarrow> p\<lparr>pp_Point := wrap64 (pp_Point p + pa_Point a),
       pp_QuestionCorrectness := pp_QuestionCorrectness p @ [correctness_of a]\<rparr>))"
  by (induction a m rule: add_answer.induct) (auto simp: fun_eq_iff)

lemma wrap64_index: "index_ok i \<Longrightarrow> wrap64 i = i"
  by (simp add: index_ok_def wrap64_id)

lemma answers_added:
  fixes as :: "PlayerAnswer list"
  assumes "list_all (\<lambda>a. index_ok (pa_Point a)) as"
  defines "m \<equiv> fold add_answer as []"
  shows "distinct (map fst m) \<and> fst ` set m = pa_PlayerID ` set as \<and>
    (\<forall>pid. map_of m pid = (if of_player pid as = [] then None else Some (board_entry as pid)))"
  using assms(1) unfolding m_def
proof (induction as rule: rev_induct)
  case (snoc a as)
  let ?m = "fold add_answer as []"
  have ih: "distinct (map fst ?m)" "fst ` set ?m = pa_PlayerID ` set as"
    "map_of ?m pid = (if of_player pid as = [] then None else Some (board_entry as pid))" for pid
    using snoc by simp_all
  have "wrap64 (pa_Point a) = pa_Point a" using snoc.prems wrap64_index by simp
  then have "map_of (add_answer a ?m) pid = (if of_player pid (as @ [a]) = [] then None else Some (board_entry (as @ [a]) pid))" for pid
    by (simp add: map_of_add_answer ih(3) board_entry_def of_player_def)
  then show ?case using ih(1,2) by (simp add: distinct_add_answer fst_add_answer)
qed (simp add: of_player_def)

lemma players_added:
  fixes players :: "u64 list"
  assumes "distinct (map fst m)"
  defines "m' \<equiv> fold add_player players m"
  shows "distinct (map fst m') \<and> fst ` set m' = fst ` set m \<union> (\<lambda>u. FormatInt (sint u)) ` set players \<and>
    (\<forall>(pid, p) \<in> set m'. (pid, p) \<in> set m \<or>
       pid \<notin> fst ` set m \<and> p = \<lparr>pp_PlayerId = pid, pp_Point = 0, pp_QuestionCorrectness = []\<rparr>)"
  unfolding m'_def
proof (induction players rule: rev_induct)
  case (snoc u players)
  let ?m = "fold add_player players m" and ?pid = "FormatInt (sint u)"
  show ?case
  proof (cases "?pid \<in> fst ` set ?m")
    case True
    then have "fold add_player (players @ [u]) m = ?m" by (simp add: add_player_def)
    then show ?thesis using snoc True by auto
  next
    case False
    then have "fold add_player (players @ [u]) m =
        ?m @ [(?pid, \<lparr>pp_PlayerId = ?pid, pp_Point = 0, pp_QuestionCorrectness = []\<rparr>)]" by (simp add: add_player_def Let_def)
    moreover have "?pid \<notin> fst ` set m" using False snoc by auto
    ultimately show ?thesis using snoc False by auto
  qed
qed (use assms(1) in auto)

lemma player_points_entries:
  assumes "list_all (\<lambda>a. index_ok (pa_Point a)) as"
  shows "distinct (map fst (player_points as players)) \<and>
    fst ` set (player_points as players) = pa_PlayerID ` set as \<union> (\<lambda>u. FormatInt (sint u)) ` set players \<and>
    (\<forall>(pid, p) \<in> set (player_points as players). p = board_entry as pid)"
proof -
  let ?m = "fold add_answer as []"
  have m: "distinct (map fst ?m)" "fst ` set ?m = pa_PlayerID ` set as"
    "map_of ?m pid = (if of_player pid as = [] then None else Some (board_entry as pid))" for pid
    using answers_added [OF assms] by simp_all
  have p: "p = board_entry as pid" if p: "(pid, p) \<in> set (player_points as players)" for pid p
  proof -
    consider "(pid, p) \<in> set ?m" | "pid \<notin> fst ` set ?m" "p = \<lparr>pp_PlayerId = pid, pp_Point = 0, pp_QuestionCorrectness = []\<rparr>"
      using bspec [OF conjunct2 [OF conjunct2 [OF players_added [OF m(1), of players]]], of "(pid, p)"] p
      unfolding player_points_def by blast
    then show ?thesis
    proof cases
      case 1
      then have "map_of ?m pid = Some p" using m(1) by simp
      with m(3) [of pid] show ?thesis by (simp split: if_splits)
    next
      case 2
      then have "of_player pid as = []" using m(2) by (simp add: of_player_Nil_iff)
      with 2(2) show ?thesis by (simp add: board_entry_def wrap64_def)
    qed
  qed
  then show ?thesis using players_added [OF m(1), of players] m(2) by (auto simp: player_points_def)
qed

section \<open>The board\<close>

text \<open>Visiting a Go map lists its entries in some order.\<close>

definition range_ok :: "'w game_env \<Rightarrow> bool" where
  "range_ok env \<longleftrightarrow> (\<forall>m. mset (ge_range env m) = mset m)"

lemma range_okD: "range_ok env \<Longrightarrow> mset (ge_range env m) = mset m"
  by (simp add: range_ok_def)

lemma GetLeaderBoard_run:
  assumes mongo: "mongo_games (ge_mongo env) games answers" "mongo_answers (ge_mongo env) answers other"
    and game: "mg_FromHex (ge_mongo env) gid = Inr i" "games w i = Some g"
  shows "\<exists>w'. run_state (GetLeaderBoard env gid) w = (Inr \<lparr>lb_GameId = gid, lb_PlayersPoint = ge_sort env more_points
      (map (\<lambda>(player, point). \<lparr>pp_PlayerId = player, pp_Point = pp_Point point, pp_QuestionCorrectness = pp_QuestionCorrectness point\<rparr>)
        (ge_range env (player_points (filter (\<lambda>a. pa_GameId a = gid) (answers w)) (g_Players g))))\<rparr>, w') \<and> answers w' = answers w"
proof -
  obtain w1 where w1: "run_state (mg_FindById (ge_mongo env) i) w = (Inr g, w1)" "answers w1 = answers w"
    using mongo_games_by_id [OF mongo(1), of i w] game(2) by auto
  obtain c w2 w3 where w3: "run_state (mg_FindAnswers (ge_mongo env) gid) w1 = (Inr c, w2)"
      "run_state (mg_CursorAll (ge_mongo env) c) w2 = (Inr (filter (\<lambda>a. pa_GameId a = gid) (answers w1)), w3)"
      "answers w3 = answers w1"
    using mongo_all_answers [OF mongo(2), of gid w1] by (elim exE conjE) simp
  with w1 game(1) show ?thesis
    by (intro exI [of _ w3]) (simp add: GetLeaderBoard_def bb_run Let_def)
qed

lemma leader_board':
  assumes mongo: "mongo_games (ge_mongo env) games answers" "mongo_answers (ge_mongo env) answers other"
    and game: "mg_FromHex (ge_mongo env) gid = Inr i" "games w i = Some g"
    and order: "range_ok env" "slice_sort more_points (ge_sort env)"
    and points: "list_all (\<lambda>a. index_ok (pa_Point a)) (answers w)"
  shows "\<exists>w' pts. run_state (GetLeaderBoard env gid) w = (Inr \<lparr>lb_GameId = gid, lb_PlayersPoint = pts\<rparr>, w') \<and>
    sorted_wrt (\<lambda>p q. pp_Point q \<le> pp_Point p) pts \<and> distinct (map pp_PlayerId pts) \<and>
    pp_PlayerId ` set pts = pa_PlayerID ` {a \<in> set (answers w). pa_GameId a = gid} \<union> (\<lambda>u. FormatInt (sint u)) ` set (g_Players g) \<and>
    (\<forall>p \<in> set pts. p = board_entry (filter (\<lambda>a. pa_GameId a = gid) (answers w)) (pp_PlayerId p))"
proof -
  let ?as = "filter (\<lambda>a. pa_GameId a = gid) (answers w)"
  let ?m = "player_points ?as (g_Players g)"
  let ?f = "\<lambda>(player, point). \<lparr>pp_PlayerId = player, pp_Point = pp_Point point, pp_QuestionCorrectness = pp_QuestionCorrectness point\<rparr>"
  let ?pts = "ge_sort env more_points (map ?f (ge_range env ?m))"
  have "\<forall>(pid, p) \<in> set ?m. p = board_entry ?as pid" and keys: "distinct (map fst ?m)"
    "fst ` set ?m = pa_PlayerID ` set ?as \<union> (\<lambda>u. FormatInt (sint u)) ` set (g_Players g)"
    using player_points_entries [of ?as "g_Players g"] points by (auto simp: list_all_iff)
  then have f: "?f e = board_entry ?as (fst e)" if "e \<in> set ?m" for e
    using that by (auto simp: board_entry_def)
  have r: "set (ge_range env ?m) = set ?m" "distinct (map fst (ge_range env ?m))"
    using range_okD [OF order(1), of ?m] keys(1) mset_eq_setD [of "ge_range env ?m" ?m]
      mset_eq_imp_distinct_iff [of "map fst (ge_range env ?m)" "map fst ?m"] by simp_all
  have names: "map pp_PlayerId (map ?f (ge_range env ?m)) = map fst (ge_range env ?m)" by (simp add: split_def)
  have set_pts: "set ?pts = ?f ` set ?m" using r(1) by (simp add: slice_sort.srt_set [OF order(2)])
  obtain w' where "run_state (GetLeaderBoard env gid) w = (Inr \<lparr>lb_GameId = gid, lb_PlayersPoint = ?pts\<rparr>, w')"
    using GetLeaderBoard_run [OF mongo game] by blast
  moreover have "sorted_wrt (\<lambda>p q. pp_Point q \<le> pp_Point p) ?pts"
    using slice_sort.srt_sorted [OF order(2)] by (simp add: more_points_def linorder_not_less)
  moreover have "distinct (map pp_PlayerId ?pts)"
    using r(2) names by (simp only: slice_sort.srt_distinct_map [OF order(2)])
  moreover have "pp_PlayerId ` set ?pts = fst ` set ?m"
    unfolding set_pts by (simp add: image_image split_def)
  moreover have "p = board_entry ?as (pp_PlayerId p)" if p: "p \<in> set ?pts" for p
  proof -
    obtain e where "e \<in> set ?m" "p = ?f e" using p unfolding set_pts by blast
    then show ?thesis using f [of e] by (simp add: board_entry_def)
  qed
  ultimately show ?thesis using keys(2) by (intro exI [of _ w'] exI [of _ ?pts]) simp
qed

text \<open>
  C8. The leader board of a game has one entry for each of its players and for each player with
  a stored answer, with the sum of the points and the verdicts of their answers, and no entry
  has more points than the one before it.
\<close>

theorem leader_board:
  assumes mongo: "mongo_games (ge_mongo env) games answers" "mongo_answers (ge_mongo env) answers other"
    and game: "mg_FromHex (ge_mongo env) gid = Inr i" "games w i = Some g"
    and order: "range_ok env" "slice_sort more_points (ge_sort env)"
    and points: "list_all (\<lambda>a. index_ok (pa_Point a)) (answers w)"
  shows "\<exists>w' pts. run_state (GetLeaderBoard env gid) w = (Inr \<lparr>lb_GameId = gid, lb_PlayersPoint = pts\<rparr>, w') \<and>
    sorted_wrt (\<lambda>p q. pp_Point q \<le> pp_Point p) pts \<and> distinct (map pp_PlayerId pts) \<and>
    pp_PlayerId ` set pts = pa_PlayerID ` {a \<in> set (answers w). pa_GameId a = gid} \<union> (\<lambda>u. FormatInt (sint u)) ` set (g_Players g) \<and>
    (\<forall>p \<in> set pts. p = board_entry (filter (\<lambda>a. pa_GameId a = gid) (answers w)) (pp_PlayerId p))"
  using assms by (rule leader_board')

text \<open>
  Nothing ties an answer to the players of its game: any user's answer to a question of the
  game is stored, and the board of the game lists that user.
\<close>

theorem outsider_on_leader_board:
  assumes redis: "redis_strings (ge_redis env) kv" "redis_frame (ge_redis env) (\<lambda>w. (games w, answers w))"
    and mongo: "mongo_games (ge_mongo env) games answers" "mongo_answers (ge_mongo env) answers (\<lambda>w. (kv w, games w))"
    and game: "mg_FromHex (ge_mongo env) (pa_GameId ans) = Inr i" "games w i = Some g"
      "pa_PlayerID ans \<notin> (\<lambda>u. FormatInt (sint u)) ` set (g_Players g)"
    and order: "range_ok env" "slice_sort more_points (ge_sort env)"
    and stored: "stored_questions (kv w) (pa_GameId ans) = Some gq" "pa_PlayerID ans \<noteq> []"
    and fresh: "\<not> answered_quickly cfg ans (gq_Questions gq)"
      "\<forall>a \<in> set (answers w). \<not> answer_matches (pa_GameId ans) (pa_PlayerID ans) (pa_QuestionIDs ans) a"
    and points: "list_all (\<lambda>a. index_ok (pa_Point a)) (answers w)" "index_ok (pa_Point (graded_by cfg ans (gq_Questions gq)))"
  shows "\<exists>w1 w2 pts. run_state (SavePlayerAnswer cfg env (pa_GameId ans) ans) w = (None, w1) \<and>
    run_state (GetLeaderBoard env (pa_GameId ans)) w1 = (Inr \<lparr>lb_GameId = pa_GameId ans, lb_PlayersPoint = pts\<rparr>, w2) \<and>
    pa_PlayerID ans \<in> pp_PlayerId ` set pts"
proof -
  let ?a = "graded_by cfg ans (gq_Questions gq)"
  have "redis_frame (ge_redis env) (\<lambda>w. (answers w, games w))" using redis(2) by (rule redis_frame_view) simp
  from SavePlayerAnswer_run_view [OF redis(1) this mongo(2) stored, of cfg] fresh obtain w1 where
      w1: "run_state (SavePlayerAnswer cfg env (pa_GameId ans) ans) w = (None, w1)"
        "answers w1 = answers w @ [bson_answer ?a]" "games w1 = games w"
    by (auto simp: answer_result_def)
  have g: "games w1 i = Some g" using w1(3) game(2) by simp
  have "list_all (\<lambda>a. index_ok (pa_Point a)) (answers w1)" using w1(2) points by simp
  from leader_board' [OF mongo(1) mongo(2) game(1) g order this] obtain w2 pts where
      "run_state (GetLeaderBoard env (pa_GameId ans)) w1 = (Inr \<lparr>lb_GameId = pa_GameId ans, lb_PlayersPoint = pts\<rparr>, w2)"
      "pp_PlayerId ` set pts = pa_PlayerID ` {a \<in> set (answers w1). pa_GameId a = pa_GameId ans} \<union> (\<lambda>u. FormatInt (sint u)) ` set (g_Players g)"
    by blast
  moreover have "bson_answer ?a \<in> {a \<in> set (answers w1). pa_GameId a = pa_GameId ans}" using w1(2) by simp
  then have "pa_PlayerID ans \<in> pa_PlayerID ` {a \<in> set (answers w1). pa_GameId a = pa_GameId ans}" using imageI [of "bson_answer ?a" _ pa_PlayerID] by simp
  ultimately show ?thesis using w1(1) by blast
qed

end
