(* ===== verification/Game_World.thy ===== *)
theory Game_World
  imports Game_Questions Game_Ready Game_Board Reference_World
begin

text \<open>
  The concrete world of the witnesses, extended by a MongoDB with the games and the answers as
  plain data. It meets the laws that the theorems about the game service assume.
\<close>

record game_world = world +
  gw_games :: "(nat \<times> Game) list"
  gw_answers :: "PlayerAnswer list"
  gw_cursor :: string

definition game_world0 :: game_world where
  "game_world0 = world.extend world0 \<lparr>gw_games = [], gw_answers = [], gw_cursor = []\<rparr>"

lemma game_world0_simps [simp]:
  "w_kv game_world0 = []" "gw_games game_world0 = []" "gw_answers game_world0 = []" "w_clock game_world0 = 0"
  by (simp_all add: game_world0_def world.defs world0_def)

definition ref_games :: "'z game_world_scheme \<Rightarrow> nat \<Rightarrow> Game option" where
  "ref_games w = map_of (gw_games w)"

definition game_of_match :: "string \<Rightarrow> (nat \<times> Game) list \<Rightarrow> (nat \<times> Game) option" where
  "game_of_match mid l = find (\<lambda>(i, g). g_MatchId g = mid) (AList.clearjunk l)"

definition no_document :: go_error where
  "no_document = PlainErr ''mongo: no documents in result''"

definition ref_mongo :: "'z game_world_scheme mongo" where
  "ref_mongo = \<lparr>
     mg_FromHex = (\<lambda>s. Inr (read_nat s)), mg_Hex = dec_digits,
     mg_InsertGame = (\<lambda>g. State (\<lambda>w. if bson_players (g_Players g)
       then let i = Suc (sum_list (map fst (gw_games w))) in (Inr i, w\<lparr>gw_games := (i, bson_game g) # gw_games w\<rparr>)
       else (Inl (PlainErr ''out of range''), w))),
     mg_UpdateQuestions = (\<lambda>mid now qs. State (\<lambda>w. case game_of_match mid (gw_games w) of
       Some (i, g) \<Rightarrow> (Inr 1, w\<lparr>gw_games := (i, g\<lparr>g_Question := Some (map bson_question qs), g_UpdatedAt := bson_time now\<rparr>) # gw_games w\<rparr>)
     | None \<Rightarrow> (Inr 0, w))),
     mg_FindByMatchId = (\<lambda>mid. State (\<lambda>w. (case game_of_match mid (gw_games w) of
       Some (i, g) \<Rightarrow> Inr (i, g_Players g) | None \<Rightarrow> Inl no_document, w))),
     mg_FindById = (\<lambda>i. State (\<lambda>w. (case map_of (gw_games w) i of Some g \<Rightarrow> Inr g | None \<Rightarrow> Inl no_document, w))),
     mg_FindAnswer = (\<lambda>gid pid qid. State (\<lambda>w. (case find (answer_matches gid pid qid) (gw_answers w) of
       Some a \<Rightarrow> Inr a | None \<Rightarrow> Inl no_document, w))),
     mg_InsertAnswer = (\<lambda>a. effect None (\<lambda>w. w\<lparr>gw_answers := gw_answers w @ [bson_answer a]\<rparr>)),
     mg_FindAnswers = (\<lambda>gid. effect (Inr 0) (\<lambda>w. w\<lparr>gw_cursor := gid\<rparr>)),
     mg_CursorAll = (\<lambda>c. State (\<lambda>w. (Inr (filter (\<lambda>a. pa_GameId a = gw_cursor w) (gw_answers w)), w)))\<rparr>"

lemma game_of_match_Some:
  "game_of_match mid l = Some (i, g) \<Longrightarrow> map_of l i = Some g \<and> g_MatchId g = mid"
proof -
  assume "game_of_match mid l = Some (i, g)"
  then have "(i, g) \<in> set (AList.clearjunk l)" "g_MatchId g = mid"
    by (auto simp: game_of_match_def find_Some_iff in_set_conv_nth)
  then show ?thesis
    using map_of_eq_Some_iff [OF distinct_clearjunk, of l i g] by (simp add: map_of_clearjunk)
qed

lemma game_of_match_None:
  "game_of_match mid l = None \<longleftrightarrow> \<not> (\<exists>i g. map_of l i = Some g \<and> g_MatchId g = mid)"
proof -
  have "(i, g) \<in> set (AList.clearjunk l) \<longleftrightarrow> map_of l i = Some g" for i g
    using map_of_eq_Some_iff [OF distinct_clearjunk, of l i g] by (simp add: map_of_clearjunk)
  then show ?thesis by (auto simp: game_of_match_def find_None_iff)
qed

lemma map_of_fresh: "map_of l (Suc (sum_list (map fst l))) = (None :: 'v option)"
proof -
  have "x \<le> sum_list (map fst l)" if "x \<in> fst ` set l" for x :: nat
    using that by (intro member_le_sum_list) auto
  then have "Suc (sum_list (map fst l)) \<notin> fst ` set l" using not_less_eq_eq by blast
  then show ?thesis by (simp add: map_of_eq_None_iff)
qed

text \<open>The views the driver and Redis leave alone.\<close>

lemma ref_mongo_games:
  assumes "\<And>w g. other (w\<lparr>gw_games := g\<rparr>) = other w"
  shows "mongo_games ref_mongo ref_games other"
  unfolding mongo_games_def
proof (intro conjI allI)
  fix g w
  show "if bson_players (g_Players g)
      then \<exists>i w'. run_state (mg_InsertGame ref_mongo g) w = (Inr i, w') \<and> object_id i \<and> ref_games w i = None \<and>
        ref_games w' = (ref_games w)(i \<mapsto> bson_game g) \<and> other w' = other w
      else \<exists>e w'. run_state (mg_InsertGame ref_mongo g) w = (Inl e, w') \<and> ref_games w' = ref_games w \<and> other w' = other w"
    using map_of_fresh [of "gw_games w"] by (simp add: ref_mongo_def ref_games_def Let_def object_id_def assms)
next
  fix mid now qs w
  show "if \<exists>i g. ref_games w i = Some g \<and> g_MatchId g = mid
      then \<exists>i g w'. run_state (mg_UpdateQuestions ref_mongo mid now qs) w = (Inr 1, w') \<and> ref_games w i = Some g \<and> g_MatchId g = mid \<and>
        ref_games w' = (ref_games w)(i \<mapsto> g\<lparr>g_Question := Some (map bson_question qs), g_UpdatedAt := bson_time now\<rparr>) \<and> other w' = other w
      else \<exists>w'. run_state (mg_UpdateQuestions ref_mongo mid now qs) w = (Inr 0, w') \<and> ref_games w' = ref_games w \<and> other w' = other w"
  proof (cases "game_of_match mid (gw_games w)")
    case None
    then show ?thesis using game_of_match_None [of mid "gw_games w"]
      by (simp add: ref_games_def ref_mongo_def)
  next
    case (Some ig)
    obtain i g where ig: "ig = (i, g)" by (cases ig)
    have "ref_games w i = Some g \<and> g_MatchId g = mid" using game_of_match_Some Some ig by (simp add: ref_games_def)
    moreover have "run_state (mg_UpdateQuestions ref_mongo mid now qs) w = (Inr 1,
        w\<lparr>gw_games := (i, g\<lparr>g_Question := Some (map bson_question qs), g_UpdatedAt := bson_time now\<rparr>) # gw_games w\<rparr>)"
      using Some ig by (simp add: ref_mongo_def)
    ultimately show ?thesis by (auto simp: assms ref_games_def)
  qed
next
  fix mid w
  show "if \<exists>i g. ref_games w i = Some g \<and> g_MatchId g = mid
      then \<exists>i g w'. run_state (mg_FindByMatchId ref_mongo mid) w = (Inr (i, g_Players g), w') \<and> ref_games w i = Some g \<and>
        g_MatchId g = mid \<and> ref_games w' = ref_games w \<and> other w' = other w
      else \<exists>e w'. run_state (mg_FindByMatchId ref_mongo mid) w = (Inl e, w') \<and> ref_games w' = ref_games w \<and> other w' = other w"
  proof (cases "game_of_match mid (gw_games w)")
    case None
    then show ?thesis using game_of_match_None [of mid "gw_games w"]
      by (simp add: ref_games_def ref_mongo_def)
  next
    case (Some ig)
    obtain i g where ig: "ig = (i, g)" by (cases ig)
    have "ref_games w i = Some g \<and> g_MatchId g = mid" using game_of_match_Some Some ig by (simp add: ref_games_def)
    moreover have "run_state (mg_FindByMatchId ref_mongo mid) w = (Inr (i, g_Players g), w)"
      using Some ig by (simp add: ref_mongo_def)
    ultimately show ?thesis by auto
  qed
next
  fix i w
  show "case ref_games w i of
      Some g \<Rightarrow> \<exists>w'. run_state (mg_FindById ref_mongo i) w = (Inr g, w') \<and> ref_games w' = ref_games w \<and> other w' = other w
    | None \<Rightarrow> \<exists>e w'. run_state (mg_FindById ref_mongo i) w = (Inl e, w') \<and> ref_games w' = ref_games w \<and> other w' = other w"
    by (simp add: ref_mongo_def ref_games_def split: option.split)
qed

lemma ref_mongo_answers:
  assumes "\<And>w a. other (w\<lparr>gw_answers := a\<rparr>) = other w" and "\<And>w c. other (w\<lparr>gw_cursor := c\<rparr>) = other w"
  shows "mongo_answers ref_mongo gw_answers other"
  unfolding mongo_answers_def
proof (intro conjI allI)
  fix gid pid qid w
  show "\<exists>w'. gw_answers w' = gw_answers w \<and> other w' = other w \<and> (case find (answer_matches gid pid qid) (gw_answers w) of
      Some a \<Rightarrow> run_state (mg_FindAnswer ref_mongo gid pid qid) w = (Inr a, w')
    | None \<Rightarrow> \<exists>e. run_state (mg_FindAnswer ref_mongo gid pid qid) w = (Inl e, w'))"
    by (intro exI [of _ w]) (simp add: ref_mongo_def split: option.split)
qed (auto simp: ref_mongo_def assms)

lemma ref_mongo_ids: "mongo_ids ref_mongo"
  by (simp add: mongo_ids_def ref_mongo_def)

lemma ref_redis_frame:
  assumes "\<And>w kv. other (w\<lparr>w_kv := kv\<rparr>) = other w"
  shows "redis_frame ref_redis other"
  by (simp add: redis_frame_def keeps_def ref_redis_def assms split: option.split)

section \<open>The environment of the game service\<close>

definition ref_game_env :: "'z game_world_scheme game_env" where
  "ref_game_env = \<lparr>ge_redis = ref_redis, ge_mongo = ref_mongo, ge_Now = ref_Now_frozen 0,
     ge_range = rev, ge_sort = insertion_sort\<rparr>"

lemma ref_game_env_simps [simp]:
  "ge_redis ref_game_env = ref_redis" "ge_mongo ref_game_env = ref_mongo" "ge_Now ref_game_env = ref_Now_frozen 0"
  "ge_range ref_game_env = rev" "ge_sort ref_game_env = insertion_sort"
  by (simp_all add: ref_game_env_def)

lemma ref_clock_reads: "clock_reads ref_game_env (\<lambda>_. 0) other"
  by (simp add: clock_reads_def ref_Now_frozen_def)

lemma ref_range_ok: "range_ok ref_game_env"
  by (simp add: range_ok_def)

interpretation points_sort: slice_sort more_points insertion_sort
  by (rule insertion_sort_slice_sort [where key = "\<lambda>p. - pp_Point p"]) (simp add: more_points_def)

lemmas ref_sort_ok = points_sort.slice_sort_axioms

lemmas ref_strings = ref_redis_strings

lemma ref_games_views [simp]:
  "ref_games (w\<lparr>w_kv := kv\<rparr>) = ref_games w" "ref_games (w\<lparr>gw_answers := a\<rparr>) = ref_games w"
  "ref_games (w\<lparr>gw_cursor := c\<rparr>) = ref_games w"
  "ref_kv (w\<lparr>gw_games := g\<rparr>) = ref_kv w" "ref_kv (w\<lparr>gw_answers := a\<rparr>) = ref_kv w" "ref_kv (w\<lparr>gw_cursor := c\<rparr>) = ref_kv w"
  by (simp_all add: ref_games_def ref_kv_def)

end
