(* ===== verification/Game_Witnesses.thy ===== *)
theory Game_Witnesses
  imports Game_World
begin

text \<open>
  The theorems about the game repository applied to the concrete world: one game of two
  players with one question, and a Redis that refuses to write.
\<close>

section \<open>A game and its question\<close>

definition ref_game_question :: game_Question where
  "ref_game_question = \<lparr>q_Id = ''q1'', q_Content = ''2 + 2'', q_CorrectAnswer = ''4'', q_Status = [], q_Choices = [''3'', ''4''],
     q_Category = ''TECH'', q_ValidAnswerTime = 120000000000, q_Difficulty = ''EASY''\<rparr>"

definition ref_game_questions :: GameQuestions where
  "ref_game_questions = \<lparr>gq_Questions = [ref_game_question], gq_Players = [1, 2], gq_CurrentQuestionIndex = 0\<rparr>"

definition ref_game :: Game where
  "ref_game = \<lparr>g_Id = None, g_Players = [1, 2], g_MatchId = ''m1'', g_Category = [''TECH''], g_Status = ''CREATED'',
     g_Question = None, g_CreatedAt = 0, g_UpdatedAt = 0\<rparr>"

definition ref_answer :: "string \<Rightarrow> PlayerAnswer" where
  "ref_answer player = zero_PlayerAnswer\<lparr>pa_GameId := ''1'', pa_QuestionIDs := ''q1'', pa_PlayerID := player,
     pa_PlayerChoice := ''4'', pa_AnswerTime := 5000000000\<rparr>"

lemma ref_question_valid: "questions_valid \<lparr>gq_Questions = [ref_game_question], gq_Players = ps, gq_CurrentQuestionIndex = 0\<rparr>"
proof -
  have "list_all utf8_valid [''q1'', ''2 + 2'', ''4'', [], ''TECH'', ''EASY'', ''3'']"
    unfolding list_all_iff by (intro ballI utf8_valid_ascii) auto
  then show ?thesis
    by (simp add: questions_valid_def ref_game_question_def question_wf_def index_ok_def zero_time_def year_10000_def)
qed

lemma ref_questions_valid: "questions_valid ref_game_questions"
  unfolding ref_game_questions_def by (rule ref_question_valid)

lemma ref_bson_players: "bson_players (g_Players ref_game)"
  by (simp add: bson_players_def ref_game_def)

lemma ref_bson_players': "bson_players [1, 2]"
  by (simp add: bson_players_def)

lemma ref_hex [simp]: "mg_Hex ref_mongo = dec_digits"
  by (simp add: ref_mongo_def)

lemma small_digits [simp]: "dec_digits (Suc 0) = ''1''" "dec_digits 2 = ''2''" "dec_digits 7 = ''7''"
  by (simp_all add: dec_digits.simps digit_char_def char_of_def bit_0)

lemma ref_game_fields: "g_Players ref_game = [1, 2]" "g_MatchId ref_game = ''m1''"
  by (simp_all add: ref_game_def)

definition game_world1 :: game_world where
  "game_world1 = snd (run_state (saveQuestionByGameId ref_repo_config ref_game_env ''1'' ref_game_questions)
     (game_world0\<lparr>gw_games := [(1, ref_game)]\<rparr>))"

lemma game_world1_stored: "stored_questions (ref_kv game_world1) ''1'' = Some ref_game_questions"
  using saveQuestion_run [of ref_game_env ref_kv ref_game_questions ref_repo_config "''1''" "game_world0\<lparr>gw_games := [(1, ref_game)]\<rparr>"]
    ref_questions_valid by (auto simp: game_world1_def ref_strings)

lemma game_world1_simps [simp]: "gw_games game_world1 = [(1, ref_game)]" "gw_answers game_world1 = []"
  by (simp_all add: game_world1_def saveQuestionByGameId_def redis_Set_def ref_redis_def bb_run split: sum.split)

section \<open>Questions\<close>

lemma game_questions_round_trip_witness:
  "\<exists>w' w''. run_state (saveQuestionByGameId ref_repo_config ref_game_env ''1'' ref_game_questions) game_world0 = (None, w') \<and>
    run_state (GetQuestionsByGameId ref_game_env ''1'') w' = (Inr ref_game_questions, w'') \<and>
    stored_questions (ref_kv w'') = (stored_questions (ref_kv game_world0))(''1'' \<mapsto> ref_game_questions)"
  by (rule game_questions_round_trip) (simp_all add: ref_strings ref_questions_valid)

lemma deadlines_set_witness:
  "\<exists>w' final. run_state (SetValidAnswerTimeForQuestions ref_repo_config ref_game_env ''1'') game_world1 = ((final, None), w') \<and>
    2 * final = 240000000000 \<and> 120000000000 \<le> final \<and>
    stored_questions (ref_kv w') = (stored_questions (ref_kv game_world1))(''1'' \<mapsto> timed 120000000000 [0] ref_game_questions)"
  using deadlines_set [of ref_repo_config 120000000000 1 ref_game_env ref_kv "\<lambda>_. 0" game_world1 "''1''" ref_game_questions]
  by (simp add: ref_Now_frozen_def ref_strings ref_clock_reads game_world1_stored ref_questions_valid ref_question_valid ref_repo_config_def ref_game_questions_def zero_time_def year_10000_def)

lemma questions_meet_game_witness:
  "\<exists>i w1 w2 h. run_state (CreateGame ref_game_env ref_game) game_world0 = (Inr (dec_digits i), w1) \<and>
    run_state (SaveQuestionsByMatchId ref_repo_config ref_game_env ''m1'' [ref_game_question]) w1 = (Returned None, w2) \<and>
    stored_questions (ref_kv w2) (dec_digits i) = Some \<lparr>gq_Questions = [ref_game_question], gq_Players = [1, 2], gq_CurrentQuestionIndex = 0\<rparr> \<and>
    ref_games w2 i = Some h \<and> g_Question h = Some (map bson_question [ref_game_question]) \<and> g_Players h = [1, 2]"
  using questions_meet_game [of ref_game_env ref_kv ref_games "\<lambda>_. 0" game_world0 ref_game "[ref_game_question]" ref_repo_config]
  by (simp add: ref_strings ref_redis_frame ref_mongo_games ref_clock_reads ref_games_def [of game_world0] ref_bson_players'
      ref_question_valid ref_game_fields)

lemma dec_digits_not_match: "dec_digits i \<noteq> ''m1''"
  using dec_digits_is_digit [of "CHR ''m''" i] by (auto simp: is_digit_def)

lemma early_questions_lost_witness:
  "\<exists>i w1 w2 h e w3. run_state (SaveQuestionsByMatchId ref_repo_config ref_game_env ''m1'' [ref_game_question]) game_world0 = (Returned None, w1) \<and>
    run_state (CreateGame ref_game_env ref_game) w1 = (Inr (dec_digits i), w2) \<and>
    ref_games w2 i = Some h \<and> g_Question h = Some (map bson_question [ref_game_question]) \<and>
    run_state (SetValidAnswerTimeForQuestions ref_repo_config ref_game_env (dec_digits i)) w2 = ((0, Some e), w3)"
  using early_questions_lost [of ref_game_env ref_kv ref_games "\<lambda>_. 0" game_world0 ref_game "[ref_game_question]" ref_repo_config]
  by (simp add: ref_strings ref_redis_frame ref_mongo_games ref_mongo_ids ref_clock_reads ref_games_def [of game_world0] ref_bson_players'
      ref_question_valid ref_game_fields dec_digits_not_match ref_kv_def)

definition ref_env_down :: "game_world game_env" where
  "ref_env_down = ref_game_env\<lparr>ge_redis := ref_redis\<lparr>rc_Set := (\<lambda>_ _ _. ret (Some (PlainErr ''refused'')))\<rparr>\<rparr>"

lemma SaveQuestions_panics_iff_witness:
  "\<exists>p. fst (run_state (SaveQuestionsByMatchId ref_repo_config ref_env_down ''m1'' [ref_game_question]) game_world0) = Panicked p"
proof -
  obtain res where "Marshal (enc_GameQuestions \<lparr>gq_Questions = [ref_game_question], gq_Players = [], gq_CurrentQuestionIndex = 0\<rparr>) = Inr res"
    using Marshal_questions [OF ref_question_valid] by blast
  from SaveQuestions_panics_iff [OF this, of ref_repo_config ref_env_down "''m1''" game_world0] show ?thesis
    by (simp add: ref_env_down_def ref_Now_frozen_def ref_mongo_def game_of_match_def redis_Set_def bb_run)
qed

section \<open>Ready players\<close>

lemma no_ready_status: "ref_kv game_world0 key = None"
  by (simp add: ref_kv_def)

lemma UpsertReadyPlayer_refines_witness:
  "\<exists>w'. (\<exists>r s'. run_state (ready_event_run ref_repo_config ref_game_env ''1'' (GameCreated 2)) game_world0 = (Returned r, w') \<and>
        ready_step None (GameCreated 2) r s' \<and> ready_status (ref_kv w') ''1'' s') \<or>
    run_state (ready_event_run ref_repo_config ref_game_env ''1'' (GameCreated 2)) game_world0 = (Panicked NilDereference, w') \<and>
      ref_kv w' = ref_kv game_world0 \<and> (\<nexists>r s'. ready_step None (GameCreated 2) r s')"
  by (rule UpsertReadyPlayer_refines)
    (simp_all add: ref_strings ready_status_def no_ready_status status_ok_def event_ok_def index_ok_def)

lemma ready_invariant_witness:
  "\<exists>s. ready_status (ref_kv (snd (run_state (ready_events ref_repo_config ref_game_env ''1''
      [GameCreated 2, PlayerReady 7, PlayerReady 7, PlayerReady 8]) game_world0))) ''1'' s \<and> ready_reach s \<and>
    (\<forall>n ps. s = Some (n, ps) \<longrightarrow> distinct ps \<and> (0 \<le> n \<longrightarrow> int (length ps) \<le> n))"
proof -
  obtain w' where "run_state (ready_events ref_repo_config ref_game_env ''1''
      (GameCreated (int 2) # map PlayerReady [7, 7, 8])) game_world0 = (Returned (Inr False # ready_answers 2 [] [7, 7, 8]), w')"
    using ready_round_run [of ref_game_env ref_kv game_world0 "''1''" 2 "[7, 7, 8]" ref_repo_config]
    by (auto simp: ref_strings no_ready_status index_ok_def)
  then have run: "run_state (ready_events ref_repo_config ref_game_env ''1''
      [GameCreated 2, PlayerReady 7, PlayerReady 7, PlayerReady 8]) game_world0 = (Returned (Inr False # ready_answers 2 [] [7, 7, 8]), w')"
    by simp
  have "event_ok e" if "e \<in> set [GameCreated 2, PlayerReady 7, PlayerReady 7, PlayerReady 8]" for e
    using that by (auto simp: event_ok_def index_ok_def)
  from ready_invariant [OF _ _ _ this _ run, of ref_kv] show ?thesis
    unfolding run snd_conv by (simp add: ref_strings no_ready_status)
qed

lemma ready_round_witness:
  "\<exists>w'. run_state (ready_events ref_repo_config ref_game_env ''1''
      [GameCreated 2, PlayerReady 7, PlayerReady 7, PlayerReady 8]) game_world0 =
    (Returned [Inr False, Inr False, Inl ErrAlreadyReady, Inr True], w')"
  using ready_round [of ref_game_env ref_kv game_world0 "''1''" 2 "[7, 7, 8]" ref_repo_config]
  by (simp add: ref_strings no_ready_status index_ok_def ready_answer_def)

lemma early_ready_lost_witness:
  "\<exists>w'. run_state (ready_events ref_repo_config ref_game_env ''1'' [PlayerReady 7, GameCreated 2, PlayerReady 8]) game_world0 =
    (Returned [Inr False, Inr False, Inr False], w')"
  using early_ready_lost [of ref_game_env ref_kv game_world0 "''1''" 7 8 ref_repo_config]
  by (simp add: ref_strings no_ready_status index_ok_def)

section \<open>Answers\<close>

lemma ref_answer_simps [simp]:
  "pa_GameId (ref_answer p) = ''1''" "pa_PlayerID (ref_answer p) = p" "pa_QuestionIDs (ref_answer p) = ''q1''"
  "pa_Point (ref_answer p) = 0"
  by (simp_all add: ref_answer_def zero_PlayerAnswer_def)

lemma ref_answer_in_time: "\<not> answered_quickly ref_repo_config (ref_answer p) (gq_Questions ref_game_questions)"
  by (simp add: answered_quickly_def question_of_def ref_game_questions_def ref_game_question_def too_early_def
      ref_answer_def zero_PlayerAnswer_def Milliseconds_def go_div_def time_Sub_def ref_repo_config_def)

lemma SavePlayerAnswer_outcome_witness:
  "\<exists>w'. run_state (SavePlayerAnswer ref_repo_config ref_game_env ''1'' (ref_answer ''7'')) game_world1 = (None, w') \<and>
    gw_answers w' = [bson_answer (graded_by ref_repo_config (ref_answer ''7'') [ref_game_question])]"
  using SavePlayerAnswer_outcome [of ref_game_env ref_kv gw_answers game_world1 "ref_answer ''7''" ref_game_questions ref_repo_config]
  by (auto simp: ref_strings ref_redis_frame ref_mongo_answers game_world1_stored ref_answer_in_time)
    (simp add: ref_game_questions_def)

lemma answers_invariant_witness:
  "distinct (map answer_key (gw_answers (snd (run_state (save_answers ref_repo_config ref_game_env
      [ref_answer ''7'', ref_answer ''7'', ref_answer ''8'']) game_world1)))) \<and>
    list_all (fair ref_repo_config) (gw_answers (snd (run_state (save_answers ref_repo_config ref_game_env
      [ref_answer ''7'', ref_answer ''7'', ref_answer ''8'']) game_world1)))"
  by (rule answers_invariant [where kv = ref_kv])
    (simp_all add: ref_strings ref_redis_frame ref_mongo_answers game_world1_stored score_config_ok_def ref_repo_config_def)

section \<open>The leader board\<close>

lemma ref_hex_1: "mg_FromHex ref_mongo ''1'' = Inr 1"
  by (simp add: ref_mongo_def read_nat_def digit_val_def)

lemma game_world1_game: "ref_games game_world1 (Suc 0) = Some ref_game"
  by (simp add: ref_games_def)

lemma ref_score_ok: "score_config_ok (rc_ScoreConfig ref_repo_config)"
  by (simp add: score_config_ok_def ref_repo_config_def)

lemma ref_graded_index:
  assumes "pa_Point a = 0"
  shows "index_ok (pa_Point (graded_by ref_repo_config a qs))"
proof -
  have "index_ok (CalculateScore ref_repo_config c a v)" for c a v
    using score_bounds' [OF ref_score_ok, of c a v] by (auto simp: index_ok_def ref_repo_config_def)
  then show ?thesis using assms by (simp add: graded_by_def graded_def index_ok_def split: option.split)
qed

lemma ref_points: "index_ok (pa_Point (graded_by ref_repo_config (ref_answer p) qs))"
  by (simp add: ref_graded_index)

lemma leader_board_witness:
  "\<exists>w' pts. run_state (GetLeaderBoard ref_game_env ''1'') game_world1 = (Inr \<lparr>lb_GameId = ''1'', lb_PlayersPoint = pts\<rparr>, w') \<and>
    pp_PlayerId ` set pts = {''1'', ''2''}"
proof -
  have "mongo_games (ge_mongo ref_game_env) ref_games gw_answers" "mongo_answers (ge_mongo ref_game_env) gw_answers ref_kv"
    by (simp_all add: ref_mongo_games ref_mongo_answers)
  note board = leader_board [OF this, of "''1''" 1 game_world1 ref_game]
  have "mg_FromHex (ge_mongo ref_game_env) ''1'' = Inr 1" "ref_games game_world1 1 = Some ref_game"
    "slice_sort more_points (ge_sort ref_game_env)" "list_all (\<lambda>a. index_ok (pa_Point a)) (gw_answers game_world1)"
    by (simp_all add: ref_hex_1 game_world1_game ref_sort_ok)
  from board [OF this(1,2) ref_range_ok this(3,4)] obtain w' pts where
      "run_state (GetLeaderBoard ref_game_env ''1'') game_world1 = (Inr \<lparr>lb_GameId = ''1'', lb_PlayersPoint = pts\<rparr>, w')"
      "pp_PlayerId ` set pts = pa_PlayerID ` {a \<in> set (gw_answers game_world1). pa_GameId a = ''1''} \<union>
        (\<lambda>u. FormatInt (sint u)) ` set (g_Players ref_game)"
    by (elim exE conjE)
  moreover have "(\<lambda>u. FormatInt (sint u)) ` set (g_Players ref_game) = {''1'', ''2''}"
    by (simp add: ref_game_fields FormatInt_def)
  ultimately show ?thesis by (intro exI [of _ w'] exI [of _ pts]) simp
qed

lemma outsider_on_leader_board_witness:
  "\<exists>w1 w2 pts. run_state (SavePlayerAnswer ref_repo_config ref_game_env ''1'' (ref_answer ''7'')) game_world1 = (None, w1) \<and>
    run_state (GetLeaderBoard ref_game_env ''1'') w1 = (Inr \<lparr>lb_GameId = ''1'', lb_PlayersPoint = pts\<rparr>, w2) \<and>
    ''7'' \<in> pp_PlayerId ` set pts"
  using outsider_on_leader_board [of ref_game_env ref_kv ref_games gw_answers "ref_answer ''7''" 1 game_world1 ref_game
      ref_game_questions ref_repo_config]
  by (simp add: ref_strings ref_redis_frame ref_mongo_games ref_mongo_answers ref_hex_1 game_world1_game ref_range_ok ref_sort_ok
      ref_answer_in_time ref_points game_world1_stored ref_game_fields FormatInt_def)

end
