(* ===== verification/Web_Socket.thy ===== *)
theory Web_Socket
  imports App_Error
begin

text \<open>
  \<open>adapter/websocket\<close>: the three operations over the functions of the library gobwas/ws, the
  record \<open>gobwas\<close>. A connection is a number; where the code may hold the nil connection, an
  option. An upgrade without an error gives a connection.
\<close>

type_synonym OpCode = "8 word"
type_synonym conn = nat

definition OpContinuation :: OpCode where "OpContinuation = 0x0"
definition OpText :: OpCode where "OpText = 0x1"
definition OpBinary :: OpCode where "OpBinary = 0x2"
definition OpClose :: OpCode where "OpClose = 0x8"
definition OpPing :: OpCode where "OpPing = 0x9"
definition OpPong :: OpCode where "OpPong = 0xa"

record Handshake =
  Protocol :: string

record 'w gobwas =
  gb_UpgradeHTTP :: "('w, go_error + conn \<times> string) state"
  gb_ReadClientData :: "conn \<Rightarrow> ('w, bytes \<times> OpCode \<times> go_error option) state"
  gb_WriteServerMessage :: "conn option \<Rightarrow> OpCode \<Rightarrow> bytes \<Rightarrow> ('w, go_error option outcome) state"
  gb_Close :: "conn \<Rightarrow> ('w, go_error option) state"

record 'w websocket =
  ws_Upgrade :: "('w, go_error + conn \<times> Handshake) state"
  ws_ReadClientData :: "conn \<Rightarrow> ('w, string \<times> OpCode \<times> go_error option) state"
  ws_WriteServerData :: "conn option \<Rightarrow> OpCode \<Rightarrow> string \<Rightarrow> ('w, go_error option outcome) state"
  ws_conn_Close :: "conn \<Rightarrow> ('w, go_error option) state"

definition WS_Upgrade :: "'w gobwas \<Rightarrow> ('w, go_error + conn \<times> Handshake) state" where
  "WS_Upgrade lib = do {
     r \<leftarrow> gb_UpgradeHTTP lib;
     case r of Inl err \<Rightarrow> ret (Inl err) | Inr (conn, protocol) \<Rightarrow> ret (Inr (conn, \<lparr>Protocol = protocol\<rparr>)) }"

definition WS_ReadClientData :: "'w gobwas \<Rightarrow> conn \<Rightarrow> ('w, string \<times> OpCode \<times> go_error option) state" where
  "WS_ReadClientData lib rw = do {
     (msg, opCode, err) \<leftarrow> gb_ReadClientData lib rw;
     ret (msg, opCode, err) }"

definition WS_WriteServerData :: "'w gobwas \<Rightarrow> conn option \<Rightarrow> OpCode \<Rightarrow> string \<Rightarrow> ('w, go_error option outcome) state" where
  "WS_WriteServerData lib rw code message = gb_WriteServerMessage lib rw code message"

definition WS :: "'w gobwas \<Rightarrow> 'w websocket" where
  "WS lib = \<lparr>ws_Upgrade = WS_Upgrade lib, ws_ReadClientData = WS_ReadClientData lib,
     ws_WriteServerData = WS_WriteServerData lib, ws_conn_Close = gb_Close lib\<rparr>"

lemma WS_simps [simp]: "ws_WriteServerData (WS lib) = gb_WriteServerMessage lib" "ws_conn_Close (WS lib) = gb_Close lib"
  by (simp_all add: WS_def WS_WriteServerData_def fun_eq_iff)

end
