(* ===== verification/Task_Queue.thy ===== *)
theory Task_Queue
  imports Go_Json
begin

text \<open>
  \<open>adapter/task-queue\<close>: options, publishing and the wrapper around the handlers of a worker.
  The client and the server of the asynq library are the record \<open>asynq\<close>; its own options are
  the datatype \<open>asynq_option\<close>.
\<close>

section \<open>Options\<close>

text \<open>The tag of an option, and what its method \<open>Value\<close> returns as an \<open>interface{}\<close>.\<close>

datatype OptionType = MaxRetryOpt | QueueOpt | TimeoutOpt | DeadlineOpt | UniqueOpt | ProcessAtOpt
  | ProcessInOpt | TaskIDOpt | RetentionOpt | GroupOpt

datatype option_value = IntValue int | TimeValue gotime | DurationValue duration

text \<open>The interface \<open>Option\<close>: any value with these two methods can be passed.\<close>

record TaskOption =
  Option_Type :: OptionType
  Option_Value :: option_value

definition retryOption :: "int \<Rightarrow> TaskOption" where
  "retryOption n = \<lparr>Option_Type = MaxRetryOpt, Option_Value = IntValue n\<rparr>"
definition processAtOption :: "gotime \<Rightarrow> TaskOption" where
  "processAtOption t = \<lparr>Option_Type = ProcessAtOpt, Option_Value = TimeValue t\<rparr>"
definition processInOption :: "duration \<Rightarrow> TaskOption" where
  "processInOption d = \<lparr>Option_Type = ProcessInOpt, Option_Value = DurationValue d\<rparr>"

definition MaxRetry :: "int \<Rightarrow> TaskOption" where
  "MaxRetry n = (let n = (if n < 0 then 0 else n) in retryOption n)"
definition ProcessAt :: "gotime \<Rightarrow> TaskOption" where
  "ProcessAt t = processAtOption t"
definition ProcessIn :: "duration \<Rightarrow> TaskOption" where
  "ProcessIn d = processInOption d"

section \<open>Publishing\<close>

datatype asynq_option = asynq_MaxRetry int | asynq_ProcessAt gotime | asynq_ProcessIn duration

record 'w asynq =
  aq_EnqueueContext :: "string \<Rightarrow> bytes \<Rightarrow> asynq_option list \<Rightarrow> ('w, go_error + string) state"

text \<open>The loop over the options; an option of a type with the wrong value fails the type assertion.\<close>

primrec asynq_options :: "TaskOption list \<Rightarrow> (go_error + asynq_option list) outcome" where
  "asynq_options [] = Returned (Inr [])"
| "asynq_options (opt # opts) =
     (let add = (\<lambda>a. case asynq_options opts of
          Panicked p \<Rightarrow> Panicked p | Returned (Inl e) \<Rightarrow> Returned (Inl e) | Returned (Inr as) \<Rightarrow> Returned (Inr (a # as)))
      in case (Option_Type opt, Option_Value opt) of
           (MaxRetryOpt, IntValue n) \<Rightarrow> add (asynq_MaxRetry n)
         | (MaxRetryOpt, _) \<Rightarrow> Panicked TypeAssertion
         | (ProcessAtOpt, TimeValue t) \<Rightarrow> add (asynq_ProcessAt t)
         | (ProcessAtOpt, _) \<Rightarrow> Panicked TypeAssertion
         | (ProcessInOpt, DurationValue d) \<Rightarrow> add (asynq_ProcessIn d)
         | (ProcessInOpt, _) \<Rightarrow> Panicked TypeAssertion
         | _ \<Rightarrow> Returned (Inl (PlainErr ''unknow option type'')))"

text \<open>The payload is given by its JSON.\<close>

definition asynq_Publish :: "'w asynq \<Rightarrow> string \<Rightarrow> go_error + json \<Rightarrow> TaskOption list \<Rightarrow>
    ('w, (go_error + string) outcome) state" where
  "asynq_Publish client taskType payload options =
     (case Marshal payload of
        Inl err \<Rightarrow> ret (Returned (Inl err))
      | Inr data \<Rightarrow>
          (case asynq_options options of
             Panicked p \<Rightarrow> ret (Panicked p)
           | Returned (Inl err) \<Rightarrow> ret (Returned (Inl err))
           | Returned (Inr asynqOptions) \<Rightarrow> do {
               r \<leftarrow> aq_EnqueueContext client taskType data asynqOptions;
               ret (Returned r) }))"

record 'w task_publisher =
  tp_Publish :: "string \<Rightarrow> go_error + json \<Rightarrow> TaskOption list \<Rightarrow> ('w, (go_error + string) outcome) state"

definition AsynqTaskQueuePublisher :: "'w asynq \<Rightarrow> 'w task_publisher" where
  "AsynqTaskQueuePublisher client = \<lparr>tp_Publish = asynq_Publish client\<rparr>"

section \<open>Processing\<close>

text \<open>A payload is decoded into a map; a later member of the same name wins.\<close>

type_synonym payload = "bytes \<rightharpoonup> json"

definition dec_payload :: "payload decoder" where
  "dec_payload j old = (case j of JObj kvs \<Rightarrow> Inr (old ++ map_of (rev kvs)) | JNull \<Rightarrow> Inr Map.empty
     | _ \<Rightarrow> Inl UnmarshalTypeError)"

text \<open>
  \<open>Process\<close> registers with the multiplexer of the library, for each task type, a function that
  decodes the payload and calls the handler; the server runs with that.
\<close>

definition task_handler :: "(payload \<Rightarrow> ('s, go_error option outcome) state) \<Rightarrow> bytes \<Rightarrow> ('s, go_error option outcome) state" where
  "task_handler handler data =
     (case Unmarshal dec_payload Map.empty data of
        Inl err \<Rightarrow> ret (Returned (Some err))
      | Inr payload \<Rightarrow> handler payload)"

definition asynq_Process :: "((string \<rightharpoonup> (bytes \<Rightarrow> ('s, go_error option outcome) state)) \<Rightarrow> ('s, go_error option) state) \<Rightarrow>
    (string \<rightharpoonup> (payload \<Rightarrow> ('s, go_error option outcome) state)) \<Rightarrow> ('s, go_error option) state" where
  "asynq_Process server_Run handlers = server_Run (\<lambda>taskType. map_option task_handler (handlers taskType))"

text \<open>Where the clients connect to, and how the server shares its ten workers among the queues.\<close>

record queue_RedisConfig =
  qrc_Host :: string
  qrc_Port :: string

definition NewPublisherAsynq :: "(string \<Rightarrow> 'w asynq) \<Rightarrow> queue_RedisConfig \<Rightarrow> 'w task_publisher" where
  "NewPublisherAsynq NewClient config = AsynqTaskQueuePublisher (NewClient (qrc_Host config @ '':'' @ qrc_Port config))"

record asynq_Config =
  aqc_Concurrency :: int
  aqc_Queues :: "string \<rightharpoonup> int"

definition NewWorkerAsynq :: "(string \<Rightarrow> asynq_Config \<Rightarrow> 'server) \<Rightarrow> queue_RedisConfig \<Rightarrow> 'server" where
  "NewWorkerAsynq NewServer config = NewServer (qrc_Host config @ '':'' @ qrc_Port config)
     \<lparr>aqc_Concurrency = 10, aqc_Queues = [''default'' \<mapsto> 6, ''critical'' \<mapsto> 3, ''low'' \<mapsto> 1]\<rparr>"

section \<open>Properties of the options\<close>

lemma asynq_options_simps [simp]:
  "asynq_options [MaxRetry n, ProcessIn d] = Returned (Inr [asynq_MaxRetry (max 0 n), asynq_ProcessIn d])"
  by (simp add: MaxRetry_def ProcessIn_def retryOption_def processInOption_def max_def)

text \<open>What is published decodes to the same members on the other side.\<close>

lemma task_handler_payload:
  assumes "json_wf (JObj kvs)" and "json_depth (JObj kvs) \<le> 10000"
  shows "task_handler handler (json_print (JObj kvs)) = handler (map_of (rev kvs))"
  using json_parse_print [OF assms] by (simp add: task_handler_def Unmarshal_def dec_payload_def)

end
