(* ===== verification/Game_Messages.thy ===== *)
theory Game_Messages
  imports Game_Repository Web_Socket Task_Queue
begin

text \<open>
  \<open>services/game_app/service/param.go\<close>: what the players send and receive over their
  connections, with its JSON. A nil slice is written as \<open>null\<close>.
\<close>

section \<open>Commands and events\<close>

type_synonym Command = string
type_synonym Event = string

definition CommandReady :: Command where "CommandReady = ''READY''"
definition CommandAnswer :: Command where "CommandAnswer = ''ANSWER''"
definition CommandUnknownCommand :: Command where "CommandUnknownCommand = ''UNKNOWN''"
definition CommandGetCategories :: Command where "CommandGetCategories = ''GET_CATEGORIES''"
definition CommandAddToWaitingList :: Command where "CommandAddToWaitingList = ''ADD_TO_WAITING_LIST''"

lemmas command_defs = CommandReady_def CommandAnswer_def CommandUnknownCommand_def CommandGetCategories_def
  CommandAddToWaitingList_def

definition EventError :: Event where "EventError = ''ERROR''"
definition EventMatchCreated :: Event where "EventMatchCreated = ''MATCH_CREATED''"
definition AnswerAccepted :: Event where "AnswerAccepted = ''ANSWER_ACCEPTED''"
definition NewQuestion :: Event where "NewQuestion = ''QUESTIONS_PUBLISHED''"
definition AddedToWaitingList :: Event where "AddedToWaitingList = ''ADDED_TO_WAITING_LIST''"
definition EventCompleted :: Event where "EventCompleted = ''COMPLETED''"

section \<open>Requests\<close>

record ProcessGameAnswer =
  ga_GameId :: string
  ga_QuestionId :: string
  ga_Answer :: string

record ProcessGameMessageRequest =
  mq_MatchId :: string
  mq_GameId :: string
  mq_Command :: Command
  mq_Category :: string
  mq_NumberOfPlayers :: int
  mq_GameAnswer :: ProcessGameAnswer

definition zero_MessageRequest :: ProcessGameMessageRequest where
  "zero_MessageRequest = \<lparr>mq_MatchId = [], mq_GameId = [], mq_Command = [], mq_Category = [], mq_NumberOfPlayers = 0,
     mq_GameAnswer = \<lparr>ga_GameId = [], ga_QuestionId = [], ga_Answer = []\<rparr>\<rparr>"

definition dec_Answer :: "ProcessGameAnswer decoder" where
  "dec_Answer = dec_struct
     [(''gameId'', field ga_GameId ga_GameId_update dec_string),
      (''questionId'', field ga_QuestionId ga_QuestionId_update dec_string),
      (''choice'', field ga_Answer ga_Answer_update dec_string)]"

definition dec_MessageRequest :: "ProcessGameMessageRequest decoder" where
  "dec_MessageRequest = dec_struct
     [(''matchId'', field mq_MatchId mq_MatchId_update dec_string),
      (''gameId'', field mq_GameId mq_GameId_update dec_string),
      (''command'', field mq_Command mq_Command_update dec_string),
      (''category'', field mq_Category mq_Category_update dec_string),
      (''players'', field mq_NumberOfPlayers mq_NumberOfPlayers_update dec_int),
      (''answer'', field mq_GameAnswer mq_GameAnswer_update dec_Answer)]"

section \<open>Responses\<close>

record GameInitResponse =
  gi_Categories :: "string list"
  gi_NumberOfPlayers :: "int list"

record ProcessGameQuestion =
  pq_Id :: string
  pq_Content :: string
  pq_Choices :: "string list"
  pq_Difficulty :: game_Difficulty
  pq_TTL :: gotime

record ProcessGameAnswerResult =
  ar_QuestionId :: string
  ar_CorrectAnswer :: string
  ar_PlayerAnswer :: string
  ar_IsCorrect :: bool

record ProcessGamePlayerPoint =
  gp_PlayerId :: string
  gp_Point :: int
  gp_Answers :: "ProcessGameAnswerResult list"

record ProcessGameLeaderBoard =
  gl_GameId :: string
  gl_PlayerPoint :: "ProcessGamePlayerPoint list"

record ProcessGameMetaDataResponse =
  md_GameId :: string
  md_Questions :: "ProcessGameQuestion list"
  md_Answer :: ProcessGameLeaderBoard

record ProcessGameMessageResponse =
  mr_Success :: bool
  mr_Event :: Event
  mr_Message :: string
  mr_MetaData :: ProcessGameMetaDataResponse

definition zero_GameLeaderBoard :: ProcessGameLeaderBoard where
  "zero_GameLeaderBoard = \<lparr>gl_GameId = [], gl_PlayerPoint = []\<rparr>"
definition zero_MetaData :: ProcessGameMetaDataResponse where
  "zero_MetaData = \<lparr>md_GameId = [], md_Questions = [], md_Answer = zero_GameLeaderBoard\<rparr>"

text \<open>A response that carries nothing but an event and a text.\<close>

definition plain_response :: "bool \<Rightarrow> Event \<Rightarrow> string \<Rightarrow> ProcessGameMessageResponse" where
  "plain_response success event message =
     \<lparr>mr_Success = success, mr_Event = event, mr_Message = message, mr_MetaData = zero_MetaData\<rparr>"

definition enc_GameInit :: "GameInitResponse \<Rightarrow> json" where
  "enc_GameInit r = JObj [(''categories'', enc_slice JStr (gi_Categories r)),
     (''numberOfPlayers'', enc_slice enc_int (gi_NumberOfPlayers r))]"

definition enc_ProcessGameQuestion :: "ProcessGameQuestion \<Rightarrow> go_error + json" where
  "enc_ProcessGameQuestion q =
     (case enc_time (pq_TTL q) of
        Inl e \<Rightarrow> Inl e
      | Inr t \<Rightarrow> Inr (JObj [(''id'', JStr (pq_Id q)), (''content'', JStr (pq_Content q)),
          (''choices'', enc_slice JStr (pq_Choices q)), (''difficulty'', JStr (pq_Difficulty q)), (''ttl'', t)]))"

definition enc_AnswerResult :: "ProcessGameAnswerResult \<Rightarrow> json" where
  "enc_AnswerResult a = JObj [(''questionId'', JStr (ar_QuestionId a)), (''correctAnswer'', JStr (ar_CorrectAnswer a)),
     (''playerAnswer'', JStr (ar_PlayerAnswer a)), (''isCorrect'', JBool (ar_IsCorrect a))]"

definition enc_PlayerPoint :: "ProcessGamePlayerPoint \<Rightarrow> json" where
  "enc_PlayerPoint p = JObj [(''playerId'', JStr (gp_PlayerId p)), (''point'', enc_int (gp_Point p)),
     (''answers'', enc_slice enc_AnswerResult (gp_Answers p))]"

definition enc_GameLeaderBoard :: "ProcessGameLeaderBoard \<Rightarrow> json" where
  "enc_GameLeaderBoard l = JObj [(''gameId'', JStr (gl_GameId l)),
     (''playerPoint'', enc_slice enc_PlayerPoint (gl_PlayerPoint l))]"

definition enc_MetaData :: "ProcessGameMetaDataResponse \<Rightarrow> go_error + json" where
  "enc_MetaData m =
     (case enc_all enc_ProcessGameQuestion (md_Questions m) of
        Inl e \<Rightarrow> Inl e
      | Inr qs \<Rightarrow> Inr (JObj [(''gameId'', JStr (md_GameId m)), (''questions'', if qs = [] then JNull else JArr qs),
          (''leaderBoard'', enc_GameLeaderBoard (md_Answer m))]))"

definition enc_MessageResponse :: "ProcessGameMessageResponse \<Rightarrow> go_error + json" where
  "enc_MessageResponse r =
     (case enc_MetaData (mr_MetaData r) of
        Inl e \<Rightarrow> Inl e
      | Inr md \<Rightarrow> Inr (JObj [(''success'', JBool (mr_Success r)), (''event'', JStr (mr_Event r)),
          (''message'', JStr (mr_Message r)), (''metaData'', md)]))"

text \<open>A response without questions is always written.\<close>

lemma Marshal_no_questions:
  "md_Questions (mr_MetaData r) = [] \<Longrightarrow> \<exists>j. enc_MessageResponse r = Inr j"
  by (simp add: enc_MessageResponse_def enc_MetaData_def)

lemma enc_plain_response: "\<exists>j. enc_MessageResponse (plain_response s e m) = Inr j"
  by (rule Marshal_no_questions) (simp add: plain_response_def zero_MetaData_def)

text \<open>With questions it is written if their times can be.\<close>

lemma enc_questions_defined:
  assumes "\<forall>q \<in> set (md_Questions (mr_MetaData r)). zero_time \<le> pq_TTL q \<and> pq_TTL q < year_10000"
  shows "\<exists>j. enc_MessageResponse r = Inr j"
proof -
  have "\<exists>j. enc_ProcessGameQuestion q = Inr j" if "q \<in> set (md_Questions (mr_MetaData r))" for q
    using RFC3339Nano_defined [of "pq_TTL q"] assms that by (auto simp: enc_ProcessGameQuestion_def enc_time_def)
  then obtain qs where "enc_all enc_ProcessGameQuestion (md_Questions (mr_MetaData r)) = Inr qs"
    using enc_all_Inr [of "md_Questions (mr_MetaData r)" enc_ProcessGameQuestion] by auto
  then show ?thesis by (simp add: enc_MessageResponse_def enc_MetaData_def)
qed

end
