(* ===== verification/Game_Service.thy ===== *)
theory Game_Service
  imports Game_Messages
begin

text \<open>
  The game service, \<open>services/game_app/service\<close>, and its HTTP handler. The service keeps the
  open connections of the players and starts goroutines; its state is the record \<open>game_svc\<close>
  around the outside world. A goroutine is a value of \<open>game_task\<close> that waits among the
  started ones until \<open>run_task\<close> runs it; between any two steps of the model others may run.
  A write to a missing connection may panic, so operations return an \<open>outcome\<close>.
\<close>

section \<open>State and interfaces\<close>

datatype 'w game_task =
    SaveUsersGameStatus "u64 list" GameStatus
  | SaveUserStatus u64 GameStatus
  | SaveGameStatus string "u64 option" "int option"
  | ReadLoop conn u64
  | RepositoryTask "('w, unit outcome) state"

record 'w game_svc =
  sv_world :: 'w
  sv_connections :: "u64 \<rightharpoonup> conn"
  sv_tasks :: "'w game_task list"

record 'w game_repo =
  gr_CreateGame :: "Game \<Rightarrow> ('w, go_error + string) state"
  gr_GetGame :: "string \<Rightarrow> ('w, go_error + Game \<times> ('w, unit outcome) state) state"
  gr_SaveQuestionsByMatchId :: "string \<Rightarrow> game_Question list \<Rightarrow> ('w, go_error option outcome) state"
  gr_GetQuestionsByGameId :: "string \<Rightarrow> ('w, go_error + GameQuestions) state"
  gr_GetQuestionsByMatchId :: "string \<Rightarrow> ('w, go_error + GameQuestions) state"
  gr_IncreaseGameQuestionCurrentIndex :: "string \<Rightarrow> ('w, go_error option outcome) state"
  gr_SetValidAnswerTimeForQuestions :: "string \<Rightarrow> ('w, duration \<times> go_error option) state"
  gr_SavePlayerAnswer :: "string \<Rightarrow> PlayerAnswer \<Rightarrow> ('w, go_error option) state"
  gr_GetLeaderBoard :: "string \<Rightarrow> ('w, go_error + LeaderBoard) state"
  gr_UpsertUserStatus :: "u64 \<Rightarrow> GameStatus \<Rightarrow> ('w, go_error option) state"
  gr_UpsertReadyPlayer :: "string \<Rightarrow> int option \<Rightarrow> int option \<Rightarrow> ('w, (go_error + bool) outcome) state"
  gr_GetUserStatus :: "u64 \<Rightarrow> ('w, go_error + GameStatus) state"

definition GameRepository :: "game_repo_config \<Rightarrow> 'w game_env \<Rightarrow> 'w game_repo" where
  "GameRepository cfg env = \<lparr>
     gr_CreateGame = CreateGame env, gr_GetGame = GetGame cfg env,
     gr_SaveQuestionsByMatchId = SaveQuestionsByMatchId cfg env,
     gr_GetQuestionsByGameId = GetQuestionsByGameId env, gr_GetQuestionsByMatchId = GetQuestionsByMatchId env,
     gr_IncreaseGameQuestionCurrentIndex = IncreaseGameQuestionCurrentIndex cfg env,
     gr_SetValidAnswerTimeForQuestions = SetValidAnswerTimeForQuestions cfg env,
     gr_SavePlayerAnswer = SavePlayerAnswer cfg env, gr_GetLeaderBoard = GetLeaderBoard env,
     gr_UpsertUserStatus = UpsertUserStatus cfg env, gr_UpsertReadyPlayer = UpsertReadyPlayer cfg env,
     gr_GetUserStatus = GetUserStatus env\<rparr>"

record 'w game_service =
  gs_repository :: "'w game_repo"
  gs_webSocket :: "'w websocket"
  gs_taskPublisher :: "'w task_publisher"
  gs_broker :: "'w broker"
  gs_proto :: proto_codec
  gs_Now :: "('w, gotime) state"

definition NewService :: "'w game_repo \<Rightarrow> 'w websocket \<Rightarrow> 'w broker \<Rightarrow> 'w task_publisher \<Rightarrow> proto_codec \<Rightarrow>
    ('w, gotime) state \<Rightarrow> 'w game_service" where
  "NewService repo webSocket b taskPublisher P now = \<lparr>gs_repository = repo, gs_webSocket = webSocket, gs_taskPublisher = taskPublisher,
     gs_broker = b, gs_proto = P, gs_Now = now\<rparr>"

lemma NewService_simps [simp]:
  "gs_repository (NewService repo webSocket b tp P now) = repo" "gs_webSocket (NewService repo webSocket b tp P now) = webSocket"
  "gs_broker (NewService repo webSocket b tp P now) = b" "gs_taskPublisher (NewService repo webSocket b tp P now) = tp"
  "gs_proto (NewService repo webSocket b tp P now) = P" "gs_Now (NewService repo webSocket b tp P now) = now"
  by (simp_all add: NewService_def)

section \<open>Programs over the state of the service\<close>

definition lift :: "('w, 'a) state \<Rightarrow> ('w game_svc, 'a) state" where
  "lift m = State (\<lambda>s. case run_state m (sv_world s) of (x, w) \<Rightarrow> (x, s\<lparr>sv_world := w\<rparr>))"

lemma run_lift [bb_run]: "run_state (lift m) s = (case run_state m (sv_world s) of (x, w) \<Rightarrow> (x, s\<lparr>sv_world := w\<rparr>))"
  by (simp add: lift_def)

definition go :: "'w game_task \<Rightarrow> ('w game_svc, unit) state" where
  "go t = State (\<lambda>s. ((), s\<lparr>sv_tasks := sv_tasks s @ [t]\<rparr>))"

definition connection_of :: "u64 \<Rightarrow> ('w game_svc, conn option) state" where
  "connection_of id' = State (\<lambda>s. (sv_connections s id', s))"

definition set_connection :: "u64 \<Rightarrow> conn option \<Rightarrow> ('w game_svc, unit) state" where
  "set_connection id' c = State (\<lambda>s. ((), s\<lparr>sv_connections := (sv_connections s)(id' := c)\<rparr>))"

lemma run_service [bb_run]:
  "run_state (go t) s = ((), s\<lparr>sv_tasks := sv_tasks s @ [t]\<rparr>)"
  "run_state (connection_of i) s = (sv_connections s i, s)"
  "run_state (set_connection i c) s = ((), s\<lparr>sv_connections := (sv_connections s)(i := c)\<rparr>)"
  by (simp_all add: go_def connection_of_def set_connection_def)

text \<open>A panic ends the function; the second form also ends it when there is an error.\<close>

definition obind :: "('s, 'a outcome) state \<Rightarrow> ('a \<Rightarrow> ('s, 'b outcome) state) \<Rightarrow> ('s, 'b outcome) state" where
  "obind m f = do { r \<leftarrow> m; case r of Panicked p \<Rightarrow> ret (Panicked p) | Returned x \<Rightarrow> f x }"

definition otry :: "('s, go_error option outcome) state \<Rightarrow> ('s, go_error option outcome) state \<Rightarrow>
    ('s, go_error option outcome) state" where
  "otry m k = obind m (\<lambda>err. case err of Some e \<Rightarrow> ret (Returned (Some e)) | None \<Rightarrow> k)"

lemma run_obind [bb_run]:
  "run_state (obind m f) s = (case run_state m s of (r, s') \<Rightarrow>
     (case r of Panicked p \<Rightarrow> (Panicked p, s') | Returned x \<Rightarrow> run_state (f x) s'))"
  by (simp add: obind_def State_Monad.run_state_bind split: prod.split outcome.split)

lemma run_otry [bb_run]:
  "run_state (otry m k) s = (case run_state m s of (r, s') \<Rightarrow>
     (case r of Panicked p \<Rightarrow> (Panicked p, s') | Returned (Some e) \<Rightarrow> (Returned (Some e), s') | Returned None \<Rightarrow> run_state k s'))"
  by (simp add: otry_def run_obind split: prod.split outcome.split option.split)

section \<open>Statuses\<close>

definition saveUsersGameStatus :: "u64 list \<Rightarrow> GameStatus \<Rightarrow> ('w game_svc, unit) state" where
  "saveUsersGameStatus userId status = for_each userId (\<lambda>id'. go (SaveUserStatus id' status))"

definition saveGameStatus :: "'w game_service \<Rightarrow> string \<Rightarrow> u64 option \<Rightarrow> int option \<Rightarrow>
    ('w game_svc, bool outcome) state" where
  "saveGameStatus svc gameId userId numberOfPlayers =
     (let id' = map_option sint userId in
      obind (lift (gr_UpsertReadyPlayer (gs_repository svc) gameId id' numberOfPlayers))
        (\<lambda>r. ret (Returned (case r of Inl err \<Rightarrow> False | Inr isGameReady \<Rightarrow> isGameReady))))"

definition getUsersGameStatus :: "'w game_service \<Rightarrow> u64 \<Rightarrow> ('w game_svc, GameStatus) state" where
  "getUsersGameStatus svc userId = do {
     r \<leftarrow> lift (gr_GetUserStatus (gs_repository svc) userId);
     ret (case r of Inl err \<Rightarrow> GameStatusUnknown | Inr status \<Rightarrow> status) }"

section \<open>Writing to players\<close>

text \<open>The reply on a connection: the response as JSON, with the code of the message.\<close>

definition respond :: "'w game_service \<Rightarrow> conn \<Rightarrow> OpCode \<Rightarrow> ProcessGameMessageResponse \<Rightarrow>
    ('w game_svc, go_error option outcome) state" where
  "respond svc conn code response =
     (case Marshal (enc_MessageResponse response) of
        Inl err \<Rightarrow> ret (Returned (Some err))
      | Inr s \<Rightarrow> lift (ws_WriteServerData (gs_webSocket svc) (Some conn) code s))"

text \<open>The loop of \<open>writeMessage\<close> ends with the first user without a connection.\<close>

definition ErrIdNotFound :: "u64 \<Rightarrow> go_error" where
  "ErrIdNotFound id' = PlainErr (''id: '' @ FormatUint id' @ '' not found'')"

primrec writeMessage :: "'w game_service \<Rightarrow> u64 list \<Rightarrow> ProcessGameMessageResponse \<Rightarrow>
    ('w game_svc, go_error option outcome) state" where
  "writeMessage svc [] msg = ret (Returned None)"
| "writeMessage svc (id' # ids) msg = do {
     c \<leftarrow> connection_of id';
     case c of
       None \<Rightarrow> ret (Returned (Some (ErrIdNotFound id')))
     | Some connection \<Rightarrow>
         obind (lift (ws_WriteServerData (gs_webSocket svc) (Some connection) OpText (buff_of (Marshal (enc_MessageResponse msg)))))
           (\<lambda>err. writeMessage svc ids msg) }"

text \<open>The loop over the players of \<open>sendQuestionToPlayer\<close> looks the connection up without a check.\<close>

primrec send_to_players :: "'w game_service \<Rightarrow> u64 list \<Rightarrow> string \<Rightarrow> ('w game_svc, unit outcome) state" where
  "send_to_players svc [] jsonQuestions = ret (Returned ())"
| "send_to_players svc (playerId # players) jsonQuestions = do {
     c \<leftarrow> connection_of playerId;
     obind (lift (ws_WriteServerData (gs_webSocket svc) c OpText jsonQuestions))
       (\<lambda>err. send_to_players svc players jsonQuestions) }"

definition question_response :: "game_Question \<Rightarrow> ProcessGameQuestion" where
  "question_response q = \<lparr>pq_Id = q_Id q, pq_Content = q_Content q, pq_Choices = q_Choices q,
     pq_Difficulty = q_Difficulty q, pq_TTL = q_ValidAnswerTime q\<rparr>"

definition questions_response :: "string \<Rightarrow> game_Question list \<Rightarrow> ProcessGameMessageResponse" where
  "questions_response gameId questions = \<lparr>mr_Success = True, mr_Event = NewQuestion, mr_Message = ''new question'',
     mr_MetaData = zero_MetaData\<lparr>md_GameId := gameId, md_Questions := map question_response questions\<rparr>\<rparr>"

definition sendQuestionToPlayer :: "'w game_service \<Rightarrow> string \<Rightarrow> ('w game_svc, go_error option outcome) state" where
  "sendQuestionToPlayer svc gameId = do {
     r \<leftarrow> lift (gr_GetQuestionsByGameId (gs_repository svc) gameId);
     case r of
       Inl err \<Rightarrow> ret (Returned (Some err))
     | Inr gameQuestions \<Rightarrow>
         (case Marshal (enc_MessageResponse (questions_response gameId (gq_Questions gameQuestions))) of
            Inl err \<Rightarrow> ret (Returned (Some err))
          | Inr jsonQuestions \<Rightarrow> obind (send_to_players svc (gq_Players gameQuestions) jsonQuestions)
              (\<lambda>_. ret (Returned None))) }"

section \<open>Answers\<close>

definition board_response :: "string \<Rightarrow> PlayerPoint list \<Rightarrow> ProcessGameLeaderBoard" where
  "board_response gameId points = \<lparr>gl_GameId = gameId, gl_PlayerPoint = map (\<lambda>playerPoint.
     \<lparr>gp_PlayerId = pp_PlayerId playerPoint, gp_Point = pp_Point playerPoint,
      gp_Answers = map (\<lambda>q. \<lparr>ar_QuestionId = qc_QuestionId q, ar_CorrectAnswer = qc_CorrectChoice q,
        ar_PlayerAnswer = qc_PlayerChoice q, ar_IsCorrect = qc_IsCorrect q\<rparr>) (pp_QuestionCorrectness playerPoint)\<rparr>) points\<rparr>"

definition player_answer :: "u64 \<Rightarrow> ProcessGameAnswer \<Rightarrow> gotime \<Rightarrow> PlayerAnswer" where
  "player_answer playerId answer now = zero_PlayerAnswer\<lparr>pa_GameId := ga_GameId answer, pa_QuestionIDs := ga_QuestionId answer,
     pa_PlayerID := FormatUint playerId, pa_PlayerChoice := ga_Answer answer, pa_AnswerTime := now\<rparr>"

definition savePlayerAnswer :: "'w game_service \<Rightarrow> u64 \<Rightarrow> ProcessGameAnswer \<Rightarrow>
    ('w game_svc, go_error + ProcessGameLeaderBoard) state" where
  "savePlayerAnswer svc playerId answer = do {
     now \<leftarrow> lift (gs_Now svc);
     err \<leftarrow> lift (gr_SavePlayerAnswer (gs_repository svc) (ga_GameId answer) (player_answer playerId answer now));
     case err of
       Some e \<Rightarrow> ret (Inl e)
     | None \<Rightarrow> do {
         r \<leftarrow> lift (gr_GetLeaderBoard (gs_repository svc) (ga_GameId answer));
         ret (case r of Inl e \<Rightarrow> Inl e | Inr leaderBoard \<Rightarrow> Inr (board_response (ga_GameId answer) (lb_PlayersPoint leaderBoard))) } }"

section \<open>Messages of the players\<close>

definition add_to_waiting_list :: "'w game_service \<Rightarrow> u64 \<Rightarrow> conn \<Rightarrow> OpCode \<Rightarrow> ProcessGameMessageRequest \<Rightarrow>
    ('w game_svc, go_error option outcome) state" where
  "add_to_waiting_list svc id' conn code req =
     otry (if game_MapToCategory (mq_Category req) = game_CategoryTypeUnknown
           then respond svc conn code (plain_response False EventError ''invalid category'')
           else ret (Returned None))
       (do {
          go (SaveUsersGameStatus [id'] GameStatusInitialized);
          let buff = buff_of (marshal_AddToWaitingList (gs_proto svc) (MapWaitingListRequestToProtoMessage id' (mq_Category req)));
          err \<leftarrow> lift (br_Publish (gs_broker svc) GAME_V1_JOIN_MATCH_QUEUE_REQUESTED buff);
          otry (case err of
              Some e \<Rightarrow> respond svc conn code (plain_response False EventError ''internal server error'')
            | None \<Rightarrow> ret (Returned None))
            (respond svc conn code (plain_response True AddedToWaitingList ''added to waiting list successfully'')) })"

text \<open>The payload of the task that completes the game.\<close>

definition completion_payload :: "string \<Rightarrow> json" where
  "completion_payload gameId = JObj [(''gameId'', JStr gameId)]"

definition GameCompleted :: string where "GameCompleted = ''game:completed''"

definition player_ready :: "'w game_service \<Rightarrow> u64 \<Rightarrow> conn \<Rightarrow> OpCode \<Rightarrow> ProcessGameMessageRequest \<Rightarrow>
    ('w game_svc, go_error option outcome) state" where
  "player_ready svc id' conn code req =
     obind (saveGameStatus svc (mq_GameId req) (Some id') None) (\<lambda>isGameReady.
       if isGameReady then do {
         (finalTTL, err) \<leftarrow> lift (gr_SetValidAnswerTimeForQuestions (gs_repository svc) (mq_GameId req));
         otry (case err of
             Some e \<Rightarrow> respond svc conn code (plain_response False EventError ''internal server error'')
           | None \<Rightarrow> ret (Returned None))
           (obind (sendQuestionToPlayer svc (mq_GameId req)) (\<lambda>err.
             obind (lift (tp_Publish (gs_taskPublisher svc) GameCompleted (Inr (completion_payload (mq_GameId req)))
                 [MaxRetry 3, ProcessIn finalTTL]))
               (\<lambda>r. ret (Returned None)))) }
       else ret (Returned None))"

definition answer_message :: "'w game_service \<Rightarrow> u64 \<Rightarrow> conn \<Rightarrow> OpCode \<Rightarrow> ProcessGameMessageRequest \<Rightarrow>
    ('w game_svc, go_error option outcome) state" where
  "answer_message svc id' conn code req = do {
     r \<leftarrow> savePlayerAnswer svc id' (mq_GameAnswer req);
     case r of
       Inl err \<Rightarrow> otry (respond svc conn code (plain_response False EventError (Error err))) (ret (Returned None))
     | Inr playerResponse \<Rightarrow>
         otry (respond svc conn code \<lparr>mr_Success = True, mr_Event = AnswerAccepted, mr_Message = ''answer accepted'',
             mr_MetaData = zero_MetaData\<lparr>md_GameId := mq_GameId req, md_Answer := playerResponse\<rparr>\<rparr>)
           (ret (Returned None)) }"

definition readMessage :: "'w game_service \<Rightarrow> u64 \<Rightarrow> conn \<Rightarrow> OpCode \<Rightarrow> string \<Rightarrow>
    ('w game_svc, go_error option outcome) state" where
  "readMessage svc id' conn code message =
     (case Unmarshal dec_MessageRequest zero_MessageRequest message of
        Inl err \<Rightarrow> ret (Returned (Some err))
      | Inr req \<Rightarrow>
          if mq_Command req = CommandAddToWaitingList then add_to_waiting_list svc id' conn code req
          else if mq_Command req = CommandReady then player_ready svc id' conn code req
          else if mq_Command req = CommandGetCategories then ret (Returned None)
          else if mq_Command req = CommandAnswer then answer_message svc id' conn code req
          else otry (respond svc conn code (plain_response False EventError ''invalid command'')) (ret (Returned None)))"

section \<open>A connection\<close>

text \<open>What the deferred function of the read loop does.\<close>

definition close_connection :: "'w game_service \<Rightarrow> conn \<Rightarrow> u64 \<Rightarrow> ('w game_svc, unit) state" where
  "close_connection svc conn userID = do {
     _ \<leftarrow> lift (ws_conn_Close (gs_webSocket svc) conn);
     set_connection userID None }"

text \<open>
  At most \<open>n\<close> rounds of the read loop, which has no bound of its own: the result says whether
  the loop has ended. A failed read ends it, a failed message does not.
\<close>

primrec read_loop :: "'w game_service \<Rightarrow> nat \<Rightarrow> conn \<Rightarrow> u64 \<Rightarrow> ('w game_svc, bool outcome) state" where
  "read_loop svc 0 conn userID = ret (Returned False)"
| "read_loop svc (Suc n) conn userID = do {
     (msg, code, err) \<leftarrow> lift (ws_ReadClientData (gs_webSocket svc) conn);
     case err of
       Some e \<Rightarrow> do { close_connection svc conn userID; ret (Returned True) }
     | None \<Rightarrow> do {
         r \<leftarrow> readMessage svc userID conn code msg;
         case r of
           Panicked p \<Rightarrow> do { close_connection svc conn userID; ret (Panicked p) }
         | Returned _ \<Rightarrow> read_loop svc n conn userID } }"

definition getCategories :: GameInitResponse where
  "getCategories = \<lparr>gi_Categories = map (\<lambda>category. category) game_GetCategories, gi_NumberOfPlayers = [2]\<rparr>"

definition ErrProcessGame :: go_error where
  "ErrProcessGame = AppErr (Wrap ''game.processGame'' None ErrInternal)"

definition ProcessGame :: "'w game_service \<Rightarrow> string \<Rightarrow> ('w game_svc, go_error option outcome) state" where
  "ProcessGame svc request_Id = do {
     r \<leftarrow> lift (ws_Upgrade (gs_webSocket svc));
     case r of
       Inl err \<Rightarrow> ret (Returned (Some ErrProcessGame))
     | Inr (connection, _) \<Rightarrow>
         (case ParseUint request_Id of
            (_, Some err) \<Rightarrow> ret (Returned (Some ErrProcessGame))
          | (id', None) \<Rightarrow> do {
              set_connection id' (Some connection);
              status \<leftarrow> getUsersGameStatus svc id';
              otry (if status = GameStatusUnknown
                    then do {
                      initialConn \<leftarrow> connection_of id';
                      obind (lift (ws_WriteServerData (gs_webSocket svc) initialConn OpText (json_print (enc_GameInit getCategories))))
                        (\<lambda>err. ret (Returned (case err of Some e \<Rightarrow> Some ErrProcessGame | None \<Rightarrow> None))) }
                    else ret (Returned None))
                (do { go (ReadLoop connection id'); ret (Returned None) }) }) }"

definition ProcessGame_handler :: "'w game_service \<Rightarrow> string \<Rightarrow> ('w game_svc, unit http_response outcome) state" where
  "ProcessGame_handler svc userId =
     (if length userId < 1 then ret (Returned (ctx_JSON 400 (TextBody MessageMissingXUserId)))
      else obind (ProcessGame svc userId) (\<lambda>err.
        ret (Returned (case err of Some e \<Rightarrow> error_JSON e | None \<Rightarrow> ctx_JSON 200 (OkBody ())))))"

end
