(* ===== verification/Game_Consumers.thy ===== *)
theory Game_Consumers
  imports Game_Service
begin

text \<open>
  What the game service does without a player asking: the messages of the match service and
  of the question service, the task that completes a game, and the goroutines.
\<close>

section \<open>Matches\<close>

definition pending_game :: "game_MatchedUsers \<Rightarrow> gotime \<Rightarrow> gotime \<Rightarrow> Game" where
  "pending_game u created updated = \<lparr>g_Id = None, g_Players = gm_UserId u, g_MatchId = gm_MatchId u, g_Category = gm_Category u,
     g_Status = GameStatusPending, g_Question = None, g_CreatedAt = created, g_UpdatedAt = updated\<rparr>"

definition create_match :: "'w game_service \<Rightarrow> game_MatchedUsers \<Rightarrow> ('w game_svc, game_MatchedUsers list) state" where
  "create_match svc matchedUser = do {
     created \<leftarrow> lift (gs_Now svc);
     updated \<leftarrow> lift (gs_Now svc);
     r \<leftarrow> lift (gr_CreateGame (gs_repository svc) (pending_game matchedUser created updated));
     ret (case r of Inl err \<Rightarrow> [] | Inr result \<Rightarrow> [matchedUser\<lparr>gm_GameId := result\<rparr>]) }"

definition match_created_response :: "string \<Rightarrow> ProcessGameMessageResponse" where
  "match_created_response gameId = \<lparr>mr_Success = True, mr_Event = EventMatchCreated, mr_Message = ''match created'',
     mr_MetaData = zero_MetaData\<lparr>md_GameId := gameId\<rparr>\<rparr>"

primrec announce_matches :: "'w game_service \<Rightarrow> game_MatchedUsers list \<Rightarrow> ('w game_svc, unit outcome) state" where
  "announce_matches svc [] = ret (Returned ())"
| "announce_matches svc (createdMatch # ms) = do {
     go (SaveUsersGameStatus (gm_UserId createdMatch) GameStatusPending);
     go (SaveGameStatus (gm_GameId createdMatch) None (Some (int (length (gm_UserId createdMatch)))));
     obind (writeMessage svc (gm_UserId createdMatch) (match_created_response (gm_GameId createdMatch)))
       (\<lambda>err. announce_matches svc ms) }"

definition ConsumeMatchCreated :: "'w game_service \<Rightarrow> bytes \<Rightarrow> ('w game_svc, go_error option outcome) state" where
  "ConsumeMatchCreated svc message =
     (case unmarshal_AllMatchedUsers (gs_proto svc) message of
        Inl err \<Rightarrow> ret (Returned (Some err))
      | Inr users \<Rightarrow> do {
          createdMatches \<leftarrow> for_collect (game_MapFromProtoMessageToEntity users) (create_match svc);
          obind (announce_matches svc createdMatches) (\<lambda>_. ret (Returned None)) })"

section \<open>Questions\<close>

definition ConsumeQuestions :: "'w game_service \<Rightarrow> bytes \<Rightarrow> ('w game_svc, go_error option outcome) state" where
  "ConsumeQuestions svc message =
     (case unmarshal_Questions (gs_proto svc) message of
        Inl err \<Rightarrow> ret (Returned (Some err))
      | Inr protoQuestions \<Rightarrow>
          (case MapFromProtoMessageToQuestionsEntity protoQuestions of (questions, matchId) \<Rightarrow>
             obind (lift (gr_SaveQuestionsByMatchId (gs_repository svc) matchId questions)) (\<lambda>err. ret (Returned None))))"

text \<open>\<open>getTopics\<close>: the handler of each topic this service consumes.\<close>

definition game_getTopics :: "'w game_service \<Rightarrow>
    (string \<rightharpoonup> (bytes \<Rightarrow> ('w game_svc, go_error option outcome) state))" where
  "game_getTopics svc = [MATCH_V1_MATCH_USERS \<mapsto> ConsumeMatchCreated svc, QUESTION_V1_QUESTIONS \<mapsto> ConsumeQuestions svc]"

section \<open>Completion\<close>

text \<open>Without a leader board the players are told so; an error of a write is returned.\<close>

primrec report_failure :: "'w game_service \<Rightarrow> u64 list \<Rightarrow> ('w game_svc, go_error option outcome) state" where
  "report_failure svc [] = ret (Returned None)"
| "report_failure svc (playerId # players) = do {
     c \<leftarrow> connection_of playerId;
     (case Marshal (enc_MessageResponse (plain_response False EventCompleted ''internal server error'')) of
        Inl err \<Rightarrow> ret (Returned (Some err))
      | Inr jsonResponse \<Rightarrow> otry (lift (ws_WriteServerData (gs_webSocket svc) c OpText jsonResponse)) (report_failure svc players)) }"

definition completed_response :: "string \<Rightarrow> PlayerPoint list \<Rightarrow> ProcessGameMessageResponse" where
  "completed_response gameId points = \<lparr>mr_Success = True, mr_Event = EventCompleted, mr_Message = ''game completed'',
     mr_MetaData = zero_MetaData\<lparr>md_GameId := gameId, md_Answer := board_response gameId points\<rparr>\<rparr>"

text \<open>Each player on the board gets the result and is disconnected; the missing connection panics when closed.\<close>

primrec complete_players :: "'w game_service \<Rightarrow> string \<Rightarrow> string list \<Rightarrow> ('w game_svc, go_error option outcome) state" where
  "complete_players svc jsonResponse [] = ret (Returned None)"
| "complete_players svc jsonResponse (player # players) =
     (case ParseInt player of
        (_, Some err) \<Rightarrow> ret (Returned (Some (PlainErr ''strconv.ParseInt'')))
      | (playerId, None) \<Rightarrow> do {
          c \<leftarrow> connection_of (of_int playerId);
          otry (lift (ws_WriteServerData (gs_webSocket svc) c OpText jsonResponse)) (do {
            set_connection (of_int playerId) None;
            (case c of
               None \<Rightarrow> ret (Panicked NilDereference)
             | Some conn \<Rightarrow> do {
                 _ \<leftarrow> lift (ws_conn_Close (gs_webSocket svc) conn);
                 complete_players svc jsonResponse players }) }) })"

definition ProcessGameCompletion :: "'w game_service \<Rightarrow> payload \<Rightarrow> ('w game_svc, go_error option outcome) state" where
  "ProcessGameCompletion svc payload =
     (case payload ''gameId'' of
        Some (JStr gameId) \<Rightarrow> do {
          r \<leftarrow> lift (gr_GetLeaderBoard (gs_repository svc) gameId);
          (case r of
             Inl err \<Rightarrow> do {
               r \<leftarrow> lift (gr_GetGame (gs_repository svc) gameId);
               (case r of
                  Inl err \<Rightarrow> ret (Returned (Some err))
                | Inr (gameInfo, cache) \<Rightarrow> do {
                    go (RepositoryTask cache);
                    otry (report_failure svc (g_Players gameInfo)) (ret (Returned None)) }) }
           | Inr leaderBoard \<Rightarrow>
               complete_players svc (buff_of (Marshal (enc_MessageResponse (completed_response gameId (lb_PlayersPoint leaderBoard)))))
                 (map pp_PlayerId (lb_PlayersPoint leaderBoard))) }
      | _ \<Rightarrow> ret (Panicked TypeAssertion))"

text \<open>The worker runs the handlers of the tasks; its error is logged.\<close>

definition task_handlers :: "'w game_service \<Rightarrow> (string \<rightharpoonup> (payload \<Rightarrow> ('w game_svc, go_error option outcome) state))" where
  "task_handlers svc = [GameCompleted \<mapsto> ProcessGameCompletion svc]"

definition TaskWorker_Process ::
    "((string \<rightharpoonup> (bytes \<Rightarrow> ('w game_svc, go_error option outcome) state)) \<Rightarrow> ('w game_svc, go_error option) state) \<Rightarrow>
     'w game_service \<Rightarrow> ('w game_svc, unit) state" where
  "TaskWorker_Process server_Run svc = do {
     err \<leftarrow> asynq_Process server_Run (task_handlers svc);
     ret () }"

section \<open>Goroutines\<close>

text \<open>Running a goroutine to its end; \<open>n\<close> bounds the rounds of a read loop.\<close>

definition run_task :: "'w game_service \<Rightarrow> nat \<Rightarrow> 'w game_task \<Rightarrow> ('w game_svc, unit outcome) state" where
  "run_task svc n t = (case t of
     SaveUsersGameStatus ids status \<Rightarrow> do { saveUsersGameStatus ids status; ret (Returned ()) }
   | SaveUserStatus id' status \<Rightarrow> do { err \<leftarrow> lift (gr_UpsertUserStatus (gs_repository svc) id' status); ret (Returned ()) }
   | SaveGameStatus gameId userId numberOfPlayers \<Rightarrow> obind (saveGameStatus svc gameId userId numberOfPlayers) (\<lambda>_. ret (Returned ()))
   | ReadLoop conn userID \<Rightarrow> obind (read_loop svc n conn userID) (\<lambda>_. ret (Returned ()))
   | RepositoryTask m \<Rightarrow> lift m)"

text \<open>The started goroutines, in the order they were started, with those they start themselves.\<close>

primrec run_tasks :: "'w game_service \<Rightarrow> nat \<Rightarrow> ('w game_svc, unit outcome) state" where
  "run_tasks svc 0 = ret (Returned ())"
| "run_tasks svc (Suc n) = do {
     ts \<leftarrow> State (\<lambda>s. (sv_tasks s, s));
     (case ts of
        [] \<Rightarrow> ret (Returned ())
      | t # rest \<Rightarrow> do {
          State (\<lambda>s. ((), s\<lparr>sv_tasks := rest\<rparr>));
          obind (run_task svc n t) (\<lambda>_. run_tasks svc n) }) }"

end
