(* ===== verification/Game_Sockets.thy ===== *)
theory Game_Sockets
  imports Game_Consumers
begin

text \<open>
  The contract of the websockets, on what each connection has been sent and whether it is
  open, and what the loops of the game service over the connections of the players do under
  it. The adapter over the library meets the contract.
\<close>

section \<open>The contract\<close>

type_synonym frames = "conn \<Rightarrow> (OpCode \<times> string) list"

text \<open>What every connection has been sent after one message to each of these.\<close>

definition delivered :: "conn list \<Rightarrow> OpCode \<times> string \<Rightarrow> frames \<Rightarrow> frames" where
  "delivered cs m f = (\<lambda>c. f c @ replicate (count_list cs c) m)"

lemma delivered_Nil [simp]: "delivered [] m f = f"
  by (simp add: delivered_def)

lemma delivered_Cons: "delivered (c # cs) m f = delivered cs m (f(c := f c @ [m]))"
  by (auto simp: delivered_def fun_eq_iff)

lemma delivered_one: "delivered [c] m f = f(c := f c @ [m])"
  by (auto simp: delivered_def fun_eq_iff)

lemma delivered_distinct: "distinct cs \<Longrightarrow> delivered cs m f = (\<lambda>c. f c @ (if c \<in> set cs then [m] else []))"
  by (induction cs arbitrary: f) (auto simp: delivered_Cons)

locale sockets =
  fixes W :: "'w websocket" and sent :: "'w \<Rightarrow> frames" and alive :: "'w \<Rightarrow> conn \<Rightarrow> bool" and other :: "'w \<Rightarrow> 'o"
    and up :: "'w \<Rightarrow> bool"
  assumes write_alive: "up w \<Longrightarrow> alive w c \<Longrightarrow> \<exists>w'. run_state (ws_WriteServerData W (Some c) code m) w = (Returned None, w') \<and>
      sent w' = (sent w)(c := sent w c @ [(code, m)]) \<and> alive w' = alive w \<and> other w' = other w \<and> up w'"
    and write_dead: "up w \<Longrightarrow> \<not> alive w c \<Longrightarrow> \<exists>e w'. run_state (ws_WriteServerData W (Some c) code m) w = (Returned (Some e), w') \<and>
      sent w' = sent w \<and> alive w' = alive w \<and> other w' = other w \<and> up w'"
    and write_nil: "up w \<Longrightarrow> run_state (ws_WriteServerData W None code m) w = (Panicked NilDereference, w)"
    and close: "up w \<Longrightarrow> \<exists>r w'. run_state (ws_conn_Close W c) w = (r, w') \<and> sent w' = sent w \<and>
      alive w' = (alive w)(c := False) \<and> other w' = other w \<and> up w'"
begin

lemma write_any:
  assumes "up w"
  shows "\<exists>r w'. run_state (ws_WriteServerData W (Some c) code m) w = (Returned r, w') \<and> (r = None \<longleftrightarrow> alive w c) \<and>
    sent w' = delivered (filter (alive w) [c]) (code, m) (sent w) \<and> alive w' = alive w \<and> other w' = other w \<and> up w'"
proof (cases "alive w c")
  case True
  with write_alive [OF assms True, of code m] show ?thesis by (auto simp: delivered_one)
next
  case False
  with write_dead [OF assms False, of code m] show ?thesis by auto
qed

text \<open>\<open>respond\<close> writes the response to the connection of the message.\<close>

lemma respond_run:
  assumes "gs_webSocket svc = W" and "up (sv_world s)" and "alive (sv_world s) c" and "enc_MessageResponse r = Inr j"
  shows "\<exists>w'. run_state (respond svc c code r) s = (Returned None, s\<lparr>sv_world := w'\<rparr>) \<and>
    sent w' = delivered [c] (code, json_print j) (sent (sv_world s)) \<and> alive w' = alive (sv_world s) \<and>
    other w' = other (sv_world s) \<and> up w'"
  using write_alive [OF assms(2,3), of code "json_print j"] assms(1,4)
  by (auto simp: respond_def Marshal_def bb_run delivered_one)

text \<open>A loop without a check sends to every open connection, up to the first player without one.\<close>

lemma send_to_players_run:
  assumes W: "gs_webSocket svc = W"
  shows "up (sv_world s) \<Longrightarrow> map (sv_connections s) ps = map Some cs \<Longrightarrow>
    \<exists>w'. run_state (send_to_players svc ps m) s = (Returned (), s\<lparr>sv_world := w'\<rparr>) \<and>
      sent w' = delivered (filter (alive (sv_world s)) cs) (OpText, m) (sent (sv_world s)) \<and>
      alive w' = alive (sv_world s) \<and> other w' = other (sv_world s) \<and> up w'"
proof (induction ps arbitrary: s cs)
  case Nil
  then show ?case by (intro exI [of _ "sv_world s"]) (simp add: bb_run)
next
  case (Cons p ps)
  then obtain c cs' where cs: "cs = c # cs'" "sv_connections s p = Some c" "map (sv_connections s) ps = map Some cs'"
    by (cases cs) auto
  obtain r w1 where w1: "run_state (ws_WriteServerData W (Some c) OpText m) (sv_world s) = (Returned r, w1)"
      "sent w1 = delivered (filter (alive (sv_world s)) [c]) (OpText, m) (sent (sv_world s))"
      "alive w1 = alive (sv_world s)" "other w1 = other (sv_world s)" "up w1"
    using write_any [OF Cons.prems(1)] by blast
  have "\<exists>w'. run_state (send_to_players svc ps m) (s\<lparr>sv_world := w1\<rparr>) = (Returned (), s\<lparr>sv_world := w1, sv_world := w'\<rparr>) \<and>
      sent w' = delivered (filter (alive w1) cs') (OpText, m) (sent w1) \<and> alive w' = alive w1 \<and> other w' = other w1 \<and> up w'"
    using Cons.IH [of "s\<lparr>sv_world := w1\<rparr>" cs'] w1(5) cs(3) by simp
  then obtain w' where "run_state (send_to_players svc ps m) (s\<lparr>sv_world := w1\<rparr>) = (Returned (), s\<lparr>sv_world := w'\<rparr>)"
      "sent w' = delivered (filter (alive w1) cs') (OpText, m) (sent w1)" "alive w' = alive w1" "other w' = other w1" "up w'"
    by auto
  with cs w1 W show ?case
    by (intro exI [of _ w']) (simp add: bb_run delivered_Cons)
qed

lemma send_to_players_panics:
  assumes W: "gs_webSocket svc = W" and "up (sv_world s)" and "map (sv_connections s) xs = map Some cs" and "sv_connections s p = None"
  shows "\<exists>w'. run_state (send_to_players svc (xs @ p # ys) m) s = (Panicked NilDereference, s\<lparr>sv_world := w'\<rparr>) \<and>
    sent w' = delivered (filter (alive (sv_world s)) cs) (OpText, m) (sent (sv_world s)) \<and> other w' = other (sv_world s)"
  using assms(2-)
proof (induction xs arbitrary: s cs)
  case Nil
  then show ?case using W write_nil [of "sv_world s" OpText m]
    by (intro exI [of _ "sv_world s"]) (simp add: bb_run)
next
  case (Cons x xs)
  then obtain c cs' where cs: "cs = c # cs'" "sv_connections s x = Some c" "map (sv_connections s) xs = map Some cs'"
    by (cases cs) auto
  obtain r w1 where w1: "run_state (ws_WriteServerData W (Some c) OpText m) (sv_world s) = (Returned r, w1)"
      "sent w1 = delivered (filter (alive (sv_world s)) [c]) (OpText, m) (sent (sv_world s))"
      "alive w1 = alive (sv_world s)" "other w1 = other (sv_world s)" "up w1"
    using write_any [OF Cons.prems(1)] by blast
  have "\<exists>w'. run_state (send_to_players svc (xs @ p # ys) m) (s\<lparr>sv_world := w1\<rparr>) =
        (Panicked NilDereference, s\<lparr>sv_world := w1, sv_world := w'\<rparr>) \<and>
      sent w' = delivered (filter (alive w1) cs') (OpText, m) (sent w1) \<and> other w' = other w1"
    using Cons.IH [of "s\<lparr>sv_world := w1\<rparr>" cs'] w1(5) cs(3) Cons.prems(3) by simp
  then obtain w' where "run_state (send_to_players svc (xs @ p # ys) m) (s\<lparr>sv_world := w1\<rparr>) =
        (Panicked NilDereference, s\<lparr>sv_world := w'\<rparr>)"
      "sent w' = delivered (filter (alive w1) cs') (OpText, m) (sent w1)" "other w' = other w1"
    by auto
  with cs w1 W show ?case
    by (intro exI [of _ w']) (simp add: bb_run delivered_Cons)
qed

text \<open>The loop with a check ends without a panic at the first player without a connection.\<close>

lemma writeMessage_run:
  assumes W: "gs_webSocket svc = W"
  shows "up (sv_world s) \<Longrightarrow> map (sv_connections s) xs = map Some cs \<Longrightarrow> (case ys of [] \<Rightarrow> True | y # _ \<Rightarrow> sv_connections s y = None) \<Longrightarrow>
    \<exists>w'. run_state (writeMessage svc (xs @ ys) msg) s =
        (Returned (case ys of [] \<Rightarrow> None | y # _ \<Rightarrow> Some (ErrIdNotFound y)), s\<lparr>sv_world := w'\<rparr>) \<and>
      sent w' = delivered (filter (alive (sv_world s)) cs) (OpText, buff_of (Marshal (enc_MessageResponse msg))) (sent (sv_world s)) \<and>
      alive w' = alive (sv_world s) \<and> other w' = other (sv_world s) \<and> up w'"
proof (induction xs arbitrary: s cs)
  case Nil
  then show ?case by (intro exI [of _ "sv_world s"]) (auto simp: bb_run split: list.split)
next
  case (Cons p xs)
  let ?m = "buff_of (Marshal (enc_MessageResponse msg))"
  obtain c cs' where cs: "cs = c # cs'" "sv_connections s p = Some c" "map (sv_connections s) xs = map Some cs'"
    using Cons.prems(2) by (cases cs) auto
  obtain r w1 where w1: "run_state (ws_WriteServerData W (Some c) OpText ?m) (sv_world s) = (Returned r, w1)"
      "sent w1 = delivered (filter (alive (sv_world s)) [c]) (OpText, ?m) (sent (sv_world s))"
      "alive w1 = alive (sv_world s)" "other w1 = other (sv_world s)" "up w1"
    using write_any [OF Cons.prems(1)] by blast
  have "\<exists>w'. run_state (writeMessage svc (xs @ ys) msg) (s\<lparr>sv_world := w1\<rparr>) =
        (Returned (case ys of [] \<Rightarrow> None | y # _ \<Rightarrow> Some (ErrIdNotFound y)), s\<lparr>sv_world := w1, sv_world := w'\<rparr>) \<and>
      sent w' = delivered (filter (alive w1) cs') (OpText, ?m) (sent w1) \<and> alive w' = alive w1 \<and> other w' = other w1 \<and> up w'"
    using Cons.IH [of "s\<lparr>sv_world := w1\<rparr>" cs'] w1(5) cs(3) Cons.prems(3) by (cases ys) simp_all
  then obtain w' where "run_state (writeMessage svc (xs @ ys) msg) (s\<lparr>sv_world := w1\<rparr>) =
        (Returned (case ys of [] \<Rightarrow> None | y # _ \<Rightarrow> Some (ErrIdNotFound y)), s\<lparr>sv_world := w'\<rparr>)"
      "sent w' = delivered (filter (alive w1) cs') (OpText, ?m) (sent w1)" "alive w' = alive w1" "other w' = other w1" "up w'"
    by auto
  with cs w1 W show ?case
    by (intro exI [of _ w']) (simp add: bb_run delivered_Cons)
qed

end

section \<open>The adapter\<close>

text \<open>What the library promises: a write to an open connection is sent, one to the nil connection panics.\<close>

definition gobwas_ok :: "'w gobwas \<Rightarrow> ('w \<Rightarrow> frames) \<Rightarrow> ('w \<Rightarrow> conn \<Rightarrow> bool) \<Rightarrow> ('w \<Rightarrow> 'o) \<Rightarrow> bool" where
  "gobwas_ok lib sent alive other \<longleftrightarrow>
     (\<forall>c code m w. if alive w c
        then \<exists>w'. run_state (gb_WriteServerMessage lib (Some c) code m) w = (Returned None, w') \<and>
               sent w' = (sent w)(c := sent w c @ [(code, m)]) \<and> alive w' = alive w \<and> other w' = other w
        else \<exists>e w'. run_state (gb_WriteServerMessage lib (Some c) code m) w = (Returned (Some e), w') \<and>
               sent w' = sent w \<and> alive w' = alive w \<and> other w' = other w) \<and>
     (\<forall>code m w. run_state (gb_WriteServerMessage lib None code m) w = (Panicked NilDereference, w)) \<and>
     (\<forall>c w. \<exists>r w'. run_state (gb_Close lib c) w = (r, w') \<and> sent w' = sent w \<and> alive w' = (alive w)(c := False) \<and> other w' = other w)"

interpretation players: sockets "WS lib" sent alive other "\<lambda>_. gobwas_ok lib sent alive other" for lib sent alive other
proof unfold_locales
  fix w c code m
  assume law: "gobwas_ok lib sent alive other"
  note writes = conjunct1 [OF law [unfolded gobwas_ok_def], THEN spec, THEN spec, THEN spec, THEN spec, of w c code m]
  show "\<exists>w'. run_state (ws_WriteServerData (WS lib) (Some c) code m) w = (Returned None, w') \<and>
      sent w' = (sent w)(c := sent w c @ [(code, m)]) \<and> alive w' = alive w \<and> other w' = other w \<and> gobwas_ok lib sent alive other"
    if "alive w c" using writes that law by simp
  show "\<exists>e w'. run_state (ws_WriteServerData (WS lib) (Some c) code m) w = (Returned (Some e), w') \<and>
      sent w' = sent w \<and> alive w' = alive w \<and> other w' = other w \<and> gobwas_ok lib sent alive other"
    if "\<not> alive w c" using writes that law by simp
  show "run_state (ws_WriteServerData (WS lib) None code m) w = (Panicked NilDereference, w)"
    using law by (simp add: gobwas_ok_def)
  show "\<exists>r w'. run_state (ws_conn_Close (WS lib) c) w = (r, w') \<and> sent w' = sent w \<and>
      alive w' = (alive w)(c := False) \<and> other w' = other w \<and> gobwas_ok lib sent alive other"
    using conjunct2 [OF conjunct2 [OF law [unfolded gobwas_ok_def]], THEN spec, THEN spec, of c w] law by simp
qed

end
