(* ===== verification/Game_Start.thy ===== *)
theory Game_Start
  imports Game_Sockets Game_Questions Game_Ready
begin

text \<open>
  The start of a game: the message of the last player who is ready, through the repository,
  the websockets and the task queue.
\<close>

section \<open>The surroundings\<close>

text \<open>The task queue takes every task.\<close>

type_synonym queue = "(string \<times> bytes \<times> asynq_option list) list"

definition asynq_ok :: "'w asynq \<Rightarrow> ('w \<Rightarrow> queue) \<Rightarrow> ('w \<Rightarrow> 'o) \<Rightarrow> bool" where
  "asynq_ok client queue other \<longleftrightarrow> (\<forall>t d os w. \<exists>i w'. run_state (aq_EnqueueContext client t d os) w = (Inr i, w') \<and>
     queue w' = queue w @ [(t, d, os)] \<and> other w' = other w)"

text \<open>Redis, the clock, the connections and the queue answer, and none changes what the others hold.\<close>

definition game_up :: "'w game_env \<Rightarrow> 'w gobwas \<Rightarrow> 'w asynq \<Rightarrow> ('w \<Rightarrow> string \<rightharpoonup> string) \<Rightarrow> ('w \<Rightarrow> frames) \<Rightarrow>
    ('w \<Rightarrow> conn \<Rightarrow> bool) \<Rightarrow> ('w \<Rightarrow> queue) \<Rightarrow> ('w \<Rightarrow> gotime) \<Rightarrow> bool" where
  "game_up env lib client kv sent alive queue clock \<longleftrightarrow>
     redis_strings (ge_redis env) kv \<and> redis_frame (ge_redis env) (\<lambda>w. (sent w, alive w, queue w)) \<and>
     clock_reads env clock (\<lambda>w. (kv w, sent w, alive w, queue w)) \<and>
     gobwas_ok lib sent alive (\<lambda>w. (kv w, queue w)) \<and> asynq_ok client queue (\<lambda>w. (kv w, sent w, alive w))"

lemma game_upD:
  assumes "game_up env lib client kv sent alive queue clock"
  shows "redis_strings (ge_redis env) kv" "redis_frame (ge_redis env) (\<lambda>w. (sent w, alive w, queue w))"
    "clock_reads env clock kv" "keeps (\<lambda>w. (sent w, alive w, queue w)) (ge_Now env)"
    "gobwas_ok lib sent alive (\<lambda>w. (kv w, queue w))" "asynq_ok client queue (\<lambda>w. (kv w, sent w, alive w))"
proof -
  note all = assms [unfolded game_up_def]
  show "redis_strings (ge_redis env) kv" "redis_frame (ge_redis env) (\<lambda>w. (sent w, alive w, queue w))"
    "gobwas_ok lib sent alive (\<lambda>w. (kv w, queue w))" "asynq_ok client queue (\<lambda>w. (kv w, sent w, alive w))"
    using all by blast+
  have clock: "\<exists>w'. run_state (ge_Now env) w = (clock w, w') \<and> clock w \<le> clock w' \<and>
      (kv w', sent w', alive w', queue w') = (kv w, sent w, alive w, queue w)" for w
    using all unfolding clock_reads_def by blast
  then show "clock_reads env clock kv" unfolding clock_reads_def by blast
  show "keeps (\<lambda>w. (sent w, alive w, queue w)) (ge_Now env)"
    unfolding keeps_def
  proof
    fix w show "(sent (snd (run_state (ge_Now env) w)), alive (snd (run_state (ge_Now env) w)), queue (snd (run_state (ge_Now env) w))) =
        (sent w, alive w, queue w)"
      using clock [of w] by auto
  qed
qed

section \<open>What the repository leaves alone\<close>

lemma keeps_redis:
  assumes "redis_frame a other"
  shows "keeps other (redis_Set a key v ttl)" "keeps other (redis_Get a key)"
  using assms by (simp_all add: redis_frame_def redis_Set_def redis_Get_def)

lemma keeps_saveQuestion: "redis_frame (ge_redis env) other \<Longrightarrow> keeps other (saveQuestionByGameId cfg env gid gq)"
  by (auto simp: saveQuestionByGameId_def keeps_redis split: sum.split)

lemma keeps_GetQuestions: "redis_frame (ge_redis env) other \<Longrightarrow> keeps other (GetQuestionsByGameId env gid)"
  by (auto simp: GetQuestionsByGameId_def intro!: keeps_bind keeps_redis split: sum.split)

lemma keeps_set_deadlines: "keeps other (ge_Now env) \<Longrightarrow> keeps other (set_deadlines cfg env i acc qs)"
  by (induction qs arbitrary: i acc) (auto simp: Let_def case_prod_beta intro!: keeps_bind)

lemma keeps_SetValidAnswerTime:
  "redis_frame (ge_redis env) other \<Longrightarrow> keeps other (ge_Now env) \<Longrightarrow> keeps other (SetValidAnswerTimeForQuestions cfg env gid)"
  by (auto simp: SetValidAnswerTimeForQuestions_def case_prod_beta intro!: keeps_bind keeps_GetQuestions keeps_set_deadlines keeps_saveQuestion
      split: sum.split option.split)

lemma keeps_UpsertReadyPlayer: "redis_frame (ge_redis env) other \<Longrightarrow> keeps other (UpsertReadyPlayer cfg env gid p n)"
  by (auto simp: UpsertReadyPlayer_def Let_def intro!: keeps_bind keeps_redis split: sum.split option.split)

text \<open>Every other key of Redis included.\<close>

lemma keeps_other_key:
  assumes "redis_strings (ge_redis env) kv" and "k \<noteq> GameStatusPrefix @ gid"
  shows "keeps (\<lambda>w. kv w k) (UpsertReadyPlayer cfg env gid p n)"
proof -
  have put: "keeps (\<lambda>w. kv w k) (redis_Set (ge_redis env) (GameStatusPrefix @ gid) v ttl)" for v ttl
    unfolding keeps_def
  proof
    fix w show "kv (snd (run_state (redis_Set (ge_redis env) (GameStatusPrefix @ gid) v ttl) w)) k = kv w k"
      using redis_Set_ok [OF assms(1), of "GameStatusPrefix @ gid" v ttl w] assms(2) by auto
  qed
  have get: "keeps (\<lambda>w. kv w k) (redis_Get (ge_redis env) key)" for key
    unfolding keeps_def
  proof
    fix w show "kv (snd (run_state (redis_Get (ge_redis env) key) w)) k = kv w k"
      using redis_Get_None [OF assms(1), of w key] redis_Get_Some [OF assms(1), of w key]
      by (cases "kv w key") fastforce+
  qed
  show ?thesis
    by (auto simp: UpsertReadyPlayer_def Let_def intro!: keeps_bind put get split: sum.split option.split)
qed

lemma questions_kept:
  assumes "redis_strings (ge_redis env) kv" and "run_state (UpsertReadyPlayer cfg env gid p n) w = (r, w')"
  shows "stored_questions (kv w') gid' = stored_questions (kv w) gid'"
proof -
  have "QuestionsPrefix @ gid' \<noteq> GameStatusPrefix @ gid" by (simp add: QuestionsPrefix_def GameStatusPrefix_def)
  from keepsD [OF keeps_other_key [OF assms(1) this], of cfg p n w]
  have "kv w' (QuestionsPrefix @ gid') = kv w (QuestionsPrefix @ gid')" using assms(2) by simp
  then show ?thesis by (simp add: stored_questions_def)
qed

section \<open>Starting\<close>

text \<open>What the players are sent.\<close>

lemma questions_response_defined:
  assumes "questions_valid gq"
  shows "\<exists>j. enc_MessageResponse (questions_response gid (gq_Questions gq)) = Inr j"
  using assms by (intro enc_questions_defined)
    (auto simp: questions_valid_def questions_response_def zero_MetaData_def question_response_def list_all_iff)

lemma completion_task:
  assumes "asynq_ok client queue other"
  shows "\<exists>i w'. run_state (asynq_Publish client GameCompleted (Inr (completion_payload gid)) [MaxRetry 3, ProcessIn d]) w =
      (Returned (Inr i), w') \<and>
    queue w' = queue w @ [(GameCompleted, json_print (completion_payload gid), [asynq_MaxRetry 3, asynq_ProcessIn d])] \<and> other w' = other w"
proof -
  obtain i w' where "run_state (aq_EnqueueContext client GameCompleted (json_print (completion_payload gid))
        [asynq_MaxRetry 3, asynq_ProcessIn d]) w = (Inr i, w')"
      "queue w' = queue w @ [(GameCompleted, json_print (completion_payload gid), [asynq_MaxRetry 3, asynq_ProcessIn d])]" "other w' = other w"
    using assms unfolding asynq_ok_def by blast
  then show ?thesis by (intro exI [of _ i] exI [of _ w']) (simp add: asynq_Publish_def Marshal_def bb_run del: asynq_options.simps)
qed

text \<open>
  What follows when the repository says that the game can start. The last equation is about
  the queue; every completion task asks for the sum of the spans as its delay.
\<close>

text \<open>The world in which the deadlines are set: the player has been counted and the questions have been fetched.\<close>

definition start_world :: "game_repo_config \<Rightarrow> 'w game_env \<Rightarrow> string \<Rightarrow> u64 \<Rightarrow> 'w \<Rightarrow> 'w" where
  "start_world cfg env gid u w = snd (run_state (GetQuestionsByGameId env gid)
     (snd (run_state (UpsertReadyPlayer cfg env gid (Some (sint u)) None) w)))"

lemma start_game:
  assumes up: "game_up env lib client kv sent alive queue clock"
    and svc: "svc = NewService (GameRepository cfg env) (WS lib) b (AsynqTaskQueuePublisher client) P now"
    and T: "rc_ValidAnswerTimeOut cfg = T" "0 < T" "T * int (n * (n + 1)) < 2 ^ 63"
    and times: "\<And>w. zero_time \<le> clock w \<and> clock w + T * int n < year_10000"
    and stored: "stored_questions (kv (sv_world s)) (mq_GameId req) = Some gq" "questions_valid gq" "length (gq_Questions gq) = n"
    and conns: "map (sv_connections s) (gq_Players gq) = map Some cs"
    and ready: "run_state (UpsertReadyPlayer cfg env (mq_GameId req) (Some (sint u)) None) (sv_world s) = (Returned (Inr True), w1)"
  shows "\<exists>w' ts final j. run_state (player_ready svc u c code req) s = (Returned None, s\<lparr>sv_world := w'\<rparr>) \<and>
    2 * final = T * int (n * (n + 1)) \<and> T * int n \<le> final \<and> length ts = n \<and> sorted ts \<and>
    ts = readings (ge_Now env) n (start_world cfg env (mq_GameId req) u (sv_world s)) \<and>
    stored_questions (kv w') (mq_GameId req) = Some (timed T ts gq) \<and>
    enc_MessageResponse (questions_response (mq_GameId req) (gq_Questions (timed T ts gq))) = Inr j \<and>
    sent w' = delivered (filter (alive (sv_world s)) cs) (OpText, json_print j) (sent (sv_world s)) \<and>
    queue w' = queue (sv_world s) @
      [(GameCompleted, json_print (completion_payload (mq_GameId req)), [asynq_MaxRetry 3, asynq_ProcessIn final])]"
proof -
  let ?gid = "mq_GameId req" and ?w = "sv_world s"
  note up = game_upD [OF up]
  have k1: "sent w1 = sent ?w" "alive w1 = alive ?w" "queue w1 = queue ?w"
    using keepsD [OF keeps_UpsertReadyPlayer [OF up(2)], of cfg ?gid "Some (sint u)" None ?w] ready by simp_all
  have q1: "stored_questions (kv w1) ?gid = Some gq" using questions_kept [OF up(1) ready] stored(1) by simp
  define ts where "ts = readings (ge_Now env) n (snd (run_state (GetQuestionsByGameId env ?gid) w1))"
  have from_clock: "ts = readings (ge_Now env) n (start_world cfg env ?gid u ?w)" by (simp add: ts_def start_world_def ready)
  obtain w2 final where w2: "run_state (SetValidAnswerTimeForQuestions cfg env ?gid) w1 = ((final, None), w2)"
      and f: "2 * final = T * int (n * (n + 1))" "T * int n \<le> final" "length ts = n" "sorted ts"
      and gq: "questions_valid (timed T ts gq)" "stored_questions (kv w2) = (stored_questions (kv w1))(?gid \<mapsto> timed T ts gq)"
    using deadlines_run [OF T up(1) up(3) q1 stored(2,3) times] unfolding ts_def by (elim exE conjE)
  have k2: "sent w2 = sent ?w" "alive w2 = alive ?w" "queue w2 = queue ?w"
    using keepsD [OF keeps_SetValidAnswerTime [OF up(2,4)], of cfg ?gid w1] w2 k1 by simp_all
  have q2: "stored_questions (kv w2) ?gid = Some (timed T ts gq)" using gq(2) by simp
  obtain w3 where w3: "run_state (GetQuestionsByGameId env ?gid) w2 = (Inr (timed T ts gq), w3)" "kv w3 = kv w2"
    using getQuestions_run [OF up(1) q2] by blast
  have k3: "sent w3 = sent ?w" "alive w3 = alive ?w" "queue w3 = queue ?w"
    using keepsD [OF keeps_GetQuestions [OF up(2)], of ?gid w2] w3 k2 by simp_all
  obtain j where j: "enc_MessageResponse (questions_response ?gid (gq_Questions (timed T ts gq))) = Inr j"
    using questions_response_defined [OF gq(1)] by blast
  have ws: "gs_webSocket svc = WS lib" by (simp add: svc)
  have up3: "gobwas_ok lib sent alive (\<lambda>w. (kv w, queue w))" by (rule up(5))
  have "map (sv_connections (s\<lparr>sv_world := w3\<rparr>)) (gq_Players gq) = map Some cs" using conns by simp
  from players.send_to_players_run [OF ws up3 this, of "json_print j"] obtain w4 where
      w4: "run_state (send_to_players svc (gq_Players gq) (json_print j)) (s\<lparr>sv_world := w3\<rparr>) = (Returned (), s\<lparr>sv_world := w4\<rparr>)"
        "sent w4 = delivered (filter (alive w3) cs) (OpText, json_print j) (sent w3)" "kv w4 = kv w3" "queue w4 = queue w3"
    by auto
  obtain i w5 where w5: "run_state (asynq_Publish client GameCompleted (Inr (completion_payload ?gid)) [MaxRetry 3, ProcessIn final]) w4 =
        (Returned (Inr i), w5)"
      "queue w5 = queue w4 @ [(GameCompleted, json_print (completion_payload ?gid), [asynq_MaxRetry 3, asynq_ProcessIn final])]"
      "kv w5 = kv w4" "sent w5 = sent w4"
    using completion_task [OF up(6), of ?gid final w4] unfolding prod.inject by (elim exE conjE)
  have gp: "gq_Players (timed T ts gq) = gq_Players gq" by (simp add: timed_def)
  have "run_state (player_ready svc u c code req) s = (Returned None, s\<lparr>sv_world := w5\<rparr>)"
    using ready w2 w3(1) j w4(1) w5(1) gp
    by (simp add: player_ready_def saveGameStatus_def sendQuestionToPlayer_def svc GameRepository_def AsynqTaskQueuePublisher_def
        bb_run Let_def Marshal_def)
  with f from_clock j q2 w3(2) w4 w5 k3 show ?thesis
    by (intro exI [of _ w5] exI [of _ ts] exI [of _ final] exI [of _ j]) simp
qed


section \<open>The messages that start it\<close>

lemma readMessage_ready:
  assumes "Unmarshal dec_MessageRequest zero_MessageRequest message = Inr req" and "mq_Command req = CommandReady"
  shows "readMessage svc u c code message = player_ready svc u c code req"
  using assms by (simp add: readMessage_def command_defs)

lemma event_ok_user: "event_ok (PlayerReady (sint (u :: u64)))"
  using sint_lt [of u] sint_ge [of u] by (simp add: event_ok_def index_ok_def)

text \<open>A step of the ready protocol that says True, as the repository runs it.\<close>

lemma ready_True:
  assumes "redis_strings (ge_redis env) kv" and "ready_status (kv w) gid st" and "status_ok st"
    and "ready_step st (PlayerReady (sint (u :: u64))) (Inr True) st'"
  shows "\<exists>w1. run_state (UpsertReadyPlayer cfg env gid (Some (sint u)) None) w = (Returned (Inr True), w1)"
  using ready_event_step [OF assms(1-3) event_ok_user assms(4), of cfg] by (auto simp: ready_event_run_def)

text \<open>
  C7. The message of the last player to be ready starts the game: every question gets its
  deadline, counted from the time on the clock after the questions were fetched, every player with an open connection is sent the questions with these deadlines,
  and one task to complete the game is in the queue, to run when all deadlines have passed.
\<close>

theorem last_ready_starts_game:
  assumes up: "game_up env lib client kv sent alive queue clock"
    and svc: "svc = NewService (GameRepository cfg env) (WS lib) b (AsynqTaskQueuePublisher client) P now"
    and T: "rc_ValidAnswerTimeOut cfg = T" "0 < T" "T * int (n * (n + 1)) < 2 ^ 63"
    and times: "\<And>w. zero_time \<le> clock w \<and> clock w + T * int n < year_10000"
    and stored: "stored_questions (kv (sv_world s)) (mq_GameId req) = Some gq" "questions_valid gq" "length (gq_Questions gq) = n"
    and conns: "map (sv_connections s) (gq_Players gq) = map Some cs"
    and msg: "Unmarshal dec_MessageRequest zero_MessageRequest message = Inr req" "mq_Command req = CommandReady"
    and last: "ready_status (kv (sv_world s)) (mq_GameId req) (Some (m, ps))" "status_ok (Some (m, ps))"
      "int (length ps) + 1 = m" "sint u \<notin> set ps"
  shows "\<exists>w' ts final j. run_state (readMessage svc u c code message) s = (Returned None, s\<lparr>sv_world := w'\<rparr>) \<and>
    2 * final = T * int (n * (n + 1)) \<and> T * int n \<le> final \<and> length ts = n \<and> sorted ts \<and>
    ts = readings (ge_Now env) n (start_world cfg env (mq_GameId req) u (sv_world s)) \<and>
    stored_questions (kv w') (mq_GameId req) = Some (timed T ts gq) \<and>
    enc_MessageResponse (questions_response (mq_GameId req) (gq_Questions (timed T ts gq))) = Inr j \<and>
    sent w' = delivered (filter (alive (sv_world s)) cs) (OpText, json_print j) (sent (sv_world s)) \<and>
    queue w' = queue (sv_world s) @
      [(GameCompleted, json_print (completion_payload (mq_GameId req)), [asynq_MaxRetry 3, asynq_ProcessIn final])]"
proof -
  have "ready_step (Some (m, ps)) (PlayerReady (sint u)) (Inr True) (Some (m, ps @ [sint u]))"
    using ready_step.Join [of m ps "sint u"] last(3,4) by auto
  from ready_True [OF game_upD(1) [OF up] last(1,2) this, of cfg] obtain w1 where
      "run_state (UpsertReadyPlayer cfg env (mq_GameId req) (Some (sint u)) None) (sv_world s) = (Returned (Inr True), w1)" by blast
  from start_game [OF up svc T times stored conns this] show ?thesis unfolding readMessage_ready [OF msg] .
qed

text \<open>
  C29. Once all players are ready, any further such message, whoever sends it, starts the game
  again: all deadlines are moved, the questions are sent out once more, and there is a
  further task to complete the game.
\<close>

theorem ready_restarts_game:
  assumes up: "game_up env lib client kv sent alive queue clock"
    and svc: "svc = NewService (GameRepository cfg env) (WS lib) b (AsynqTaskQueuePublisher client) P now"
    and T: "rc_ValidAnswerTimeOut cfg = T" "0 < T" "T * int (n * (n + 1)) < 2 ^ 63"
    and times: "\<And>w. zero_time \<le> clock w \<and> clock w + T * int n < year_10000"
    and stored: "stored_questions (kv (sv_world s)) (mq_GameId req) = Some gq" "questions_valid gq" "length (gq_Questions gq) = n"
    and conns: "map (sv_connections s) (gq_Players gq) = map Some cs"
    and msg: "Unmarshal dec_MessageRequest zero_MessageRequest message = Inr req" "mq_Command req = CommandReady"
    and full: "ready_status (kv (sv_world s)) (mq_GameId req) (Some (m, ps))" "status_ok (Some (m, ps))" "int (length ps) = m"
  shows "\<exists>w' ts final j. run_state (readMessage svc u c code message) s = (Returned None, s\<lparr>sv_world := w'\<rparr>) \<and>
    2 * final = T * int (n * (n + 1)) \<and> T * int n \<le> final \<and> length ts = n \<and> sorted ts \<and>
    ts = readings (ge_Now env) n (start_world cfg env (mq_GameId req) u (sv_world s)) \<and>
    stored_questions (kv w') (mq_GameId req) = Some (timed T ts gq) \<and>
    enc_MessageResponse (questions_response (mq_GameId req) (gq_Questions (timed T ts gq))) = Inr j \<and>
    sent w' = delivered (filter (alive (sv_world s)) cs) (OpText, json_print j) (sent (sv_world s)) \<and>
    queue w' = queue (sv_world s) @
      [(GameCompleted, json_print (completion_payload (mq_GameId req)), [asynq_MaxRetry 3, asynq_ProcessIn final])]"
proof -
  have "ready_step (Some (m, ps)) (PlayerReady (sint u)) (Inr True) (Some (m, ps))"
    using full(3) by (intro ready_step.Full) simp
  from ready_True [OF game_upD(1) [OF up] full(1,2) this, of cfg] obtain w1 where
      "run_state (UpsertReadyPlayer cfg env (mq_GameId req) (Some (sint u)) None) (sv_world s) = (Returned (Inr True), w1)" by blast
  from start_game [OF up svc T times stored conns this] show ?thesis unfolding readMessage_ready [OF msg] .
qed

end
