(* ===== verification/Game_Finish.thy ===== *)
theory Game_Finish
  imports Game_Sockets Game_Board
begin

text \<open>
  The end of a game: the task from the queue, the leader board and the farewell to the
  players, and what happens when one of them has gone.
\<close>

section \<open>The loop over the board\<close>

abbreviation player_id :: "u64 \<Rightarrow> string" where
  "player_id u \<equiv> FormatInt (sint u)"

lemma ParseInt_player_id: "ParseInt (player_id u) = (sint u, None)"
  using sint_lt [of u] sint_ge [of u] by (intro ParseInt_FormatInt) simp_all

lemma inj_player_id: "inj player_id"
proof (rule injI)
  fix u v :: u64 assume "player_id u = player_id v"
  then have "ParseInt (player_id u) = ParseInt (player_id v)" by (rule arg_cong)
  then have "sint u = sint v" unfolding ParseInt_player_id prod.inject by blast
  then show "u = v" by (rule signed_word_eqI)
qed

context sockets
begin

lemma complete_players_run:
  assumes W: "gs_webSocket svc = W"
  shows "up (sv_world s) \<Longrightarrow> map (sv_connections s) us = map Some cs \<Longrightarrow> distinct us \<Longrightarrow> distinct cs \<Longrightarrow>
      \<forall>c \<in> set cs. alive (sv_world s) c \<Longrightarrow>
    \<exists>w'. run_state (complete_players svc m (map player_id us)) s =
        (Returned None, s\<lparr>sv_world := w', sv_connections := sv_connections s |` (- set us)\<rparr>) \<and>
      sent w' = delivered cs (OpText, m) (sent (sv_world s)) \<and> (\<forall>c. alive w' c \<longleftrightarrow> alive (sv_world s) c \<and> c \<notin> set cs) \<and>
      other w' = other (sv_world s) \<and> up w'"
proof (induction us arbitrary: s cs)
  case Nil
  then show ?case by (intro exI [of _ "sv_world s"]) (simp add: bb_run)
next
  case (Cons u us)
  then obtain c cs' where cs: "cs = c # cs'" "sv_connections s u = Some c" "map (sv_connections s) us = map Some cs'"
    by (cases cs) auto
  obtain w1 where w1: "run_state (ws_WriteServerData W (Some c) OpText m) (sv_world s) = (Returned None, w1)"
      "sent w1 = (sent (sv_world s))(c := sent (sv_world s) c @ [(OpText, m)])"
      "alive w1 = alive (sv_world s)" "other w1 = other (sv_world s)" "up w1"
    using write_alive [OF Cons.prems(1), of c OpText m] Cons.prems(5) cs(1) by auto
  obtain r w2 where w2: "run_state (ws_conn_Close W c) w1 = (r, w2)" "sent w2 = sent w1" "alive w2 = (alive w1)(c := False)"
      "other w2 = other w1" "up w2"
    using close [OF w1(5)] by blast
  let ?s = "s\<lparr>sv_connections := (sv_connections s)(u := None), sv_world := w2\<rparr>"
  have "map (sv_connections ?s) us = map Some cs'" "up (sv_world ?s)" "\<forall>c \<in> set cs'. alive (sv_world ?s) c"
      "distinct us" "distinct cs'"
    using cs(1,3) Cons.prems(3-5) w2(3,5) w1(3) by (auto simp: map_eq_conv)
  from Cons.IH [OF this(2,1,4,5,3)] obtain w' where w': "run_state (complete_players svc m (map player_id us)) ?s =
        (Returned None, ?s\<lparr>sv_world := w', sv_connections := sv_connections ?s |` (- set us)\<rparr>)"
      "sent w' = delivered cs' (OpText, m) (sent (sv_world ?s))" "\<forall>c. alive w' c \<longleftrightarrow> alive (sv_world ?s) c \<and> c \<notin> set cs'"
      "other w' = other (sv_world ?s)" "up w'"
    by blast
  have final: "?s\<lparr>sv_world := w', sv_connections := sv_connections ?s |` (- set us)\<rparr> =
      s\<lparr>sv_world := w', sv_connections := sv_connections s |` (- set (u # us))\<rparr>"
    by (cases s) (auto simp: restrict_map_def fun_eq_iff)
  have "run_state (complete_players svc m (map player_id (u # us))) s = run_state (complete_players svc m (map player_id us)) ?s"
    using cs(2) w1(1) w2(1) W by (simp add: bb_run ParseInt_player_id)
  then have "run_state (complete_players svc m (map player_id (u # us))) s =
      (Returned None, s\<lparr>sv_world := w', sv_connections := sv_connections s |` (- set (u # us))\<rparr>)"
    by (simp only: w'(1) final)
  moreover have "\<forall>x. alive w' x \<longleftrightarrow> alive (sv_world s) x \<and> x \<notin> set cs"
    using w'(3) w2(3) w1(3) cs(1) by auto
  ultimately show ?case using w'(2,4,5) w2(2,4) w1(2,4) cs(1)
    by (intro exI [of _ w']) (simp add: delivered_Cons)
qed

lemma complete_players_panics:
  assumes W: "gs_webSocket svc = W"
  shows "up (sv_world s) \<Longrightarrow> map (sv_connections s) xs = map Some cs \<Longrightarrow> distinct (xs @ [u]) \<Longrightarrow> distinct cs \<Longrightarrow>
      \<forall>c \<in> set cs. alive (sv_world s) c \<Longrightarrow> sv_connections s u = None \<Longrightarrow>
    \<exists>w'. run_state (complete_players svc m (map player_id (xs @ u # ys))) s =
        (Panicked NilDereference, s\<lparr>sv_world := w', sv_connections := sv_connections s |` (- set xs)\<rparr>) \<and>
      sent w' = delivered cs (OpText, m) (sent (sv_world s)) \<and> other w' = other (sv_world s)"
proof (induction xs arbitrary: s cs)
  case Nil
  then show ?case using W write_nil [of "sv_world s" OpText m]
    by (intro exI [of _ "sv_world s"]) (simp add: bb_run ParseInt_player_id)
next
  case (Cons x xs)
  then obtain c cs' where cs: "cs = c # cs'" "sv_connections s x = Some c" "map (sv_connections s) xs = map Some cs'"
    by (cases cs) auto
  obtain w1 where w1: "run_state (ws_WriteServerData W (Some c) OpText m) (sv_world s) = (Returned None, w1)"
      "sent w1 = (sent (sv_world s))(c := sent (sv_world s) c @ [(OpText, m)])"
      "alive w1 = alive (sv_world s)" "other w1 = other (sv_world s)" "up w1"
    using write_alive [OF Cons.prems(1), of c OpText m] Cons.prems(5) cs(1) by auto
  obtain r w2 where w2: "run_state (ws_conn_Close W c) w1 = (r, w2)" "sent w2 = sent w1" "alive w2 = (alive w1)(c := False)"
      "other w2 = other w1" "up w2"
    using close [OF w1(5)] by blast
  let ?s = "s\<lparr>sv_connections := (sv_connections s)(x := None), sv_world := w2\<rparr>"
  have "map (sv_connections ?s) xs = map Some cs'" "sv_connections ?s u = None" "up (sv_world ?s)"
      "\<forall>c \<in> set cs'. alive (sv_world ?s) c" "distinct (xs @ [u])" "distinct cs'"
    using cs(1,3) Cons.prems(3-6) w2(3,5) w1(3) by (auto simp: map_eq_conv)
  from Cons.IH [OF this(3,1,5,6,4,2)] obtain w' where w': "run_state (complete_players svc m (map player_id (xs @ u # ys))) ?s =
        (Panicked NilDereference, ?s\<lparr>sv_world := w', sv_connections := sv_connections ?s |` (- set xs)\<rparr>)"
      "sent w' = delivered cs' (OpText, m) (sent (sv_world ?s))" "other w' = other (sv_world ?s)"
    by blast
  have final: "?s\<lparr>sv_world := w', sv_connections := sv_connections ?s |` (- set xs)\<rparr> =
      s\<lparr>sv_world := w', sv_connections := sv_connections s |` (- set (x # xs))\<rparr>"
    by (cases s) (auto simp: restrict_map_def fun_eq_iff)
  have "run_state (complete_players svc m (map player_id ((x # xs) @ u # ys))) s = run_state (complete_players svc m (map player_id (xs @ u # ys))) ?s"
    using cs(2) w1(1) w2(1) W by (simp add: bb_run ParseInt_player_id)
  then have "run_state (complete_players svc m (map player_id ((x # xs) @ u # ys))) s =
      (Panicked NilDereference, s\<lparr>sv_world := w', sv_connections := sv_connections s |` (- set (x # xs))\<rparr>)"
    by (simp only: w'(1) final)
  then show ?case using w'(2,3) w2(2,4) w1(2,4) cs(1)
    by (intro exI [of _ w']) (simp add: delivered_Cons)
qed

lemma report_failure_run:
  assumes W: "gs_webSocket svc = W" and j: "enc_MessageResponse (plain_response False EventCompleted ''internal server error'') = Inr j"
  shows "up (sv_world s) \<Longrightarrow> map (sv_connections s) us = map Some cs \<Longrightarrow> \<forall>c \<in> set cs. alive (sv_world s) c \<Longrightarrow>
    \<exists>w'. run_state (report_failure svc us) s = (Returned None, s\<lparr>sv_world := w'\<rparr>) \<and>
      sent w' = delivered cs (OpText, json_print j) (sent (sv_world s)) \<and> up w'"
proof (induction us arbitrary: s cs)
  case Nil
  then show ?case by (intro exI [of _ "sv_world s"]) (simp add: bb_run)
next
  case (Cons u us)
  then obtain c cs' where cs: "cs = c # cs'" "sv_connections s u = Some c" "map (sv_connections s) us = map Some cs'"
    by (cases cs) auto
  obtain w1 where w1: "run_state (ws_WriteServerData W (Some c) OpText (json_print j)) (sv_world s) = (Returned None, w1)"
      "sent w1 = (sent (sv_world s))(c := sent (sv_world s) c @ [(OpText, json_print j)])"
      "alive w1 = alive (sv_world s)" "up w1"
    using write_alive [OF Cons.prems(1), of c OpText "json_print j"] Cons.prems(3) cs(1) by auto
  have "\<exists>w'. run_state (report_failure svc us) (s\<lparr>sv_world := w1\<rparr>) = (Returned None, s\<lparr>sv_world := w1, sv_world := w'\<rparr>) \<and>
      sent w' = delivered cs' (OpText, json_print j) (sent w1) \<and> up w'"
    using Cons.IH [of "s\<lparr>sv_world := w1\<rparr>" cs'] w1(3,4) cs(1,3) Cons.prems(3) by simp
  then obtain w' where "run_state (report_failure svc us) (s\<lparr>sv_world := w1\<rparr>) = (Returned None, s\<lparr>sv_world := w'\<rparr>)"
      "sent w' = delivered cs' (OpText, json_print j) (sent w1)" "up w'" by auto
  with cs w1 W j show ?case
    by (intro exI [of _ w']) (simp add: bb_run delivered_Cons Marshal_def)
qed

end


section \<open>The task\<close>

text \<open>What the service published is what the worker hands to it.\<close>

lemma completion_task_payload:
  assumes "utf8_valid gid"
  shows "task_handler h (json_print (completion_payload gid)) = h [''gameId'' \<mapsto> JStr gid]"
proof -
  have "utf8_valid ''gameId''" by (rule utf8_valid_ascii) auto
  then have "json_wf (completion_payload gid)" "json_depth (completion_payload gid) \<le> 10000"
    using assms by (simp_all add: completion_payload_def)
  then show ?thesis
    using task_handler_payload [of "[(''gameId'', JStr gid)]" h] by (simp add: completion_payload_def)
qed

text \<open>The queries of MongoDB do not touch the connections.\<close>

definition mongo_keeps :: "'w mongo \<Rightarrow> ('w \<Rightarrow> 'v) \<Rightarrow> bool" where
  "mongo_keeps M view \<longleftrightarrow> (\<forall>i. keeps view (mg_FindById M i)) \<and> (\<forall>gid. keeps view (mg_FindAnswers M gid)) \<and>
     (\<forall>c. keeps view (mg_CursorAll M c))"

lemma keeps_GetLeaderBoard: "mongo_keeps (ge_mongo env) view \<Longrightarrow> keeps view (GetLeaderBoard env gid)"
  by (auto simp: GetLeaderBoard_def mongo_keeps_def Let_def intro!: keeps_bind split: sum.split)

lemma completed_response_defined: "\<exists>j. enc_MessageResponse (completed_response gid pts) = Inr j"
  by (rule Marshal_no_questions) (simp add: completed_response_def zero_MetaData_def)

text \<open>Names that are all ids of players are the ids of a list of players.\<close>

lemma board_players:
  assumes "distinct names" and "set names = player_id ` A"
  shows "\<exists>us. names = map player_id us \<and> set us = A \<and> distinct us"
proof -
  have "\<forall>n \<in> set names. \<exists>u. n = player_id u" using assms(2) by auto
  then obtain us where us: "names = map player_id us" using ex_map_conv by metis
  have "set us = A" using assms(2) inj_image_eq_iff [OF inj_player_id] unfolding us by (simp only: set_map)
  moreover have "distinct us" using assms(1) unfolding us by (simp add: distinct_map)
  ultimately show ?thesis using us by blast
qed

text \<open>
  The leader board when all who answered are players of the game, with the players in its
  order; the connections stay as they are.
\<close>

lemma board_of_players:
  assumes mongo: "mongo_games (ge_mongo env) games answers" "mongo_answers (ge_mongo env) answers other"
      "mongo_keeps (ge_mongo env) view"
    and game: "mg_FromHex (ge_mongo env) gid = Inr i" "games w i = Some g"
    and order: "range_ok env" "slice_sort more_points (ge_sort env)"
    and points: "list_all (\<lambda>a. index_ok (pa_Point a)) (answers w)"
    and members: "\<forall>a \<in> set (answers w). pa_GameId a = gid \<longrightarrow> pa_PlayerID a \<in> player_id ` set (g_Players g)"
  shows "\<exists>w' pts us. run_state (GetLeaderBoard env gid) w = (Inr \<lparr>lb_GameId = gid, lb_PlayersPoint = pts\<rparr>, w') \<and>
    view w' = view w \<and> sorted_wrt (\<lambda>p q. pp_Point q \<le> pp_Point p) pts \<and> map pp_PlayerId pts = map player_id us \<and>
    set us = set (g_Players g) \<and> distinct us \<and>
    (\<forall>p \<in> set pts. p = board_entry (filter (\<lambda>a. pa_GameId a = gid) (answers w)) (pp_PlayerId p))"
proof -
  from leader_board' [OF mongo(1,2) game order points] obtain w' pts where
    run: "run_state (GetLeaderBoard env gid) w = (Inr \<lparr>lb_GameId = gid, lb_PlayersPoint = pts\<rparr>, w')"
    and pts: "sorted_wrt (\<lambda>p q. pp_Point q \<le> pp_Point p) pts" "distinct (map pp_PlayerId pts)"
      "pp_PlayerId ` set pts = pa_PlayerID ` {a \<in> set (answers w). pa_GameId a = gid} \<union> player_id ` set (g_Players g)"
      "\<forall>p \<in> set pts. p = board_entry (filter (\<lambda>a. pa_GameId a = gid) (answers w)) (pp_PlayerId p)"
    by (elim exE conjE)
  have "set (map pp_PlayerId pts) = player_id ` set (g_Players g)" using pts(3) members by auto
  from board_players [OF pts(2) this] obtain us where
    us: "map pp_PlayerId pts = map player_id us" "set us = set (g_Players g)" "distinct us" by blast
  have "view w' = view w" using keepsD [OF keeps_GetLeaderBoard [OF mongo(3)], of gid w] run by simp
  with run pts(1,4) us show ?thesis by (intro exI conjI)
qed

lemma completion_delivers':
  assumes svc: "gs_repository svc = GameRepository cfg env" "gs_webSocket svc = WS lib"
    and mongo: "mongo_games (ge_mongo env) games answers" "mongo_answers (ge_mongo env) answers other"
      "mongo_keeps (ge_mongo env) (\<lambda>w. (sent w, alive w))"
    and socks: "gobwas_ok lib sent alive (\<lambda>_. ())" and gid: "utf8_valid gid"
    and game: "mg_FromHex (ge_mongo env) gid = Inr i" "games (sv_world s) i = Some g"
    and order: "range_ok env" "slice_sort more_points (ge_sort env)"
    and points: "list_all (\<lambda>a. index_ok (pa_Point a)) (answers (sv_world s))"
    and members: "\<forall>a \<in> set (answers (sv_world s)). pa_GameId a = gid \<longrightarrow> pa_PlayerID a \<in> player_id ` set (g_Players g)"
    and conns: "inj_on (sv_connections s) (set (g_Players g))"
      "\<forall>u \<in> set (g_Players g). \<exists>c. sv_connections s u = Some c \<and> alive (sv_world s) c"
  shows "\<exists>w' pts j. run_state (task_handler (ProcessGameCompletion svc) (json_print (completion_payload gid))) s =
      (Returned None, s\<lparr>sv_world := w', sv_connections := sv_connections s |` (- set (g_Players g))\<rparr>) \<and>
    sorted_wrt (\<lambda>p q. pp_Point q \<le> pp_Point p) pts \<and> pp_PlayerId ` set pts = player_id ` set (g_Players g) \<and>
    (\<forall>p \<in> set pts. p = board_entry (filter (\<lambda>a. pa_GameId a = gid) (answers (sv_world s))) (pp_PlayerId p)) \<and>
    enc_MessageResponse (completed_response gid pts) = Inr j \<and>
    (\<forall>c. sent w' c = sent (sv_world s) c @
      (if Some c \<in> sv_connections s ` set (g_Players g) then [(OpText, json_print j)] else [])) \<and>
    (\<forall>c. alive w' c \<longleftrightarrow> alive (sv_world s) c \<and> Some c \<notin> sv_connections s ` set (g_Players g))"
proof -
  obtain w1 pts us where lb: "run_state (GetLeaderBoard env gid) (sv_world s) = (Inr \<lparr>lb_GameId = gid, lb_PlayersPoint = pts\<rparr>, w1)"
      "(sent w1, alive w1) = (sent (sv_world s), alive (sv_world s))"
      and pts: "sorted_wrt (\<lambda>p q. pp_Point q \<le> pp_Point p) pts" "map pp_PlayerId pts = map player_id us"
      "\<forall>p \<in> set pts. p = board_entry (filter (\<lambda>a. pa_GameId a = gid) (answers (sv_world s))) (pp_PlayerId p)"
      and us: "set us = set (g_Players g)" "distinct us"
    using board_of_players [OF mongo game order points members] by (elim exE conjE)
  have "\<forall>x \<in> set (map (sv_connections s) us). \<exists>c. x = Some c" using conns(2) us(1) by auto
  then obtain cs where cs: "map (sv_connections s) us = map Some cs" using ex_map_conv by metis
  have "distinct (map Some cs)" using conns(1) us by (simp add: cs [symmetric] distinct_map)
  then have dcs: "distinct cs" by (simp add: distinct_map)
  have set_cs: "Some c \<in> sv_connections s ` set (g_Players g) \<longleftrightarrow> c \<in> set cs" for c
    using arg_cong [OF cs, of set] us(1) by auto
  have "\<forall>c \<in> set cs. alive (sv_world s) c" using conns(2) set_cs by fastforce
  then have alive1: "\<forall>c \<in> set cs. alive (sv_world (s\<lparr>sv_world := w1\<rparr>)) c" using lb(2) by simp
  obtain j where j: "enc_MessageResponse (completed_response gid pts) = Inr j" using completed_response_defined by blast
  have cs1: "map (sv_connections (s\<lparr>sv_world := w1\<rparr>)) us = map Some cs" using cs by simp
  from players.complete_players_run [OF svc(2) socks cs1 us(2) dcs alive1, of "json_print j"] obtain w' where
      w': "run_state (complete_players svc (json_print j) (map player_id us)) (s\<lparr>sv_world := w1\<rparr>) =
          (Returned None, s\<lparr>sv_world := w', sv_connections := sv_connections s |` (- set us)\<rparr>)"
        "sent w' = delivered cs (OpText, json_print j) (sent w1)" "\<forall>c. alive w' c \<longleftrightarrow> alive w1 c \<and> c \<notin> set cs"
    by auto
  have "run_state (task_handler (ProcessGameCompletion svc) (json_print (completion_payload gid))) s =
      (Returned None, s\<lparr>sv_world := w', sv_connections := sv_connections s |` (- set (g_Players g))\<rparr>)"
    using lb(1) w'(1) j pts(2) us(1)
    by (simp add: completion_task_payload [OF gid] ProcessGameCompletion_def svc(1) GameRepository_def bb_run Marshal_def)
  moreover have "pp_PlayerId ` set pts = player_id ` set (g_Players g)"
    using arg_cong [OF pts(2), of set] us(1) by simp
  ultimately show ?thesis
    using pts(1,3) j w'(2,3) lb(2) delivered_distinct [OF dcs]
    by (intro exI [of _ w'] exI [of _ pts] exI [of _ j]) (simp add: set_cs)
qed

text \<open>
  C11. The task that completes a game sends every player the final leader board, with the points
  in descending order, and then closes and forgets their connections, when all players are
  connected and nobody else has answered.
\<close>

theorem completion_delivers:
  assumes svc: "gs_repository svc = GameRepository cfg env" "gs_webSocket svc = WS lib"
    and mongo: "mongo_games (ge_mongo env) games answers" "mongo_answers (ge_mongo env) answers other"
      "mongo_keeps (ge_mongo env) (\<lambda>w. (sent w, alive w))"
    and socks: "gobwas_ok lib sent alive (\<lambda>_. ())" and gid: "utf8_valid gid"
    and game: "mg_FromHex (ge_mongo env) gid = Inr i" "games (sv_world s) i = Some g"
    and order: "range_ok env" "slice_sort more_points (ge_sort env)"
    and points: "list_all (\<lambda>a. index_ok (pa_Point a)) (answers (sv_world s))"
    and members: "\<forall>a \<in> set (answers (sv_world s)). pa_GameId a = gid \<longrightarrow> pa_PlayerID a \<in> player_id ` set (g_Players g)"
    and conns: "inj_on (sv_connections s) (set (g_Players g))"
      "\<forall>u \<in> set (g_Players g). \<exists>c. sv_connections s u = Some c \<and> alive (sv_world s) c"
  shows "\<exists>w' pts j. run_state (task_handler (ProcessGameCompletion svc) (json_print (completion_payload gid))) s =
      (Returned None, s\<lparr>sv_world := w', sv_connections := sv_connections s |` (- set (g_Players g))\<rparr>) \<and>
    sorted_wrt (\<lambda>p q. pp_Point q \<le> pp_Point p) pts \<and> pp_PlayerId ` set pts = player_id ` set (g_Players g) \<and>
    (\<forall>p \<in> set pts. p = board_entry (filter (\<lambda>a. pa_GameId a = gid) (answers (sv_world s))) (pp_PlayerId p)) \<and>
    enc_MessageResponse (completed_response gid pts) = Inr j \<and>
    (\<forall>c. sent w' c = sent (sv_world s) c @
      (if Some c \<in> sv_connections s ` set (g_Players g) then [(OpText, json_print j)] else [])) \<and>
    (\<forall>c. alive w' c \<longleftrightarrow> alive (sv_world s) c \<and> Some c \<notin> sv_connections s ` set (g_Players g))"
  using assms by (rule completion_delivers')

text \<open>
  C30. If a player of the game has left, the completion panics at the first such player in the
  order of the board: those before get the result and are disconnected, those after get nothing.
\<close>

theorem completion_panics_at_missing_player:
  assumes svc: "gs_repository svc = GameRepository cfg env" "gs_webSocket svc = WS lib"
    and mongo: "mongo_games (ge_mongo env) games answers" "mongo_answers (ge_mongo env) answers other"
      "mongo_keeps (ge_mongo env) (\<lambda>w. (sent w, alive w))"
    and socks: "gobwas_ok lib sent alive (\<lambda>_. ())" and gid: "utf8_valid gid"
    and game: "mg_FromHex (ge_mongo env) gid = Inr i" "games (sv_world s) i = Some g"
    and order: "range_ok env" "slice_sort more_points (ge_sort env)"
    and points: "list_all (\<lambda>a. index_ok (pa_Point a)) (answers (sv_world s))"
    and members: "\<forall>a \<in> set (answers (sv_world s)). pa_GameId a = gid \<longrightarrow> pa_PlayerID a \<in> player_id ` set (g_Players g)"
    and conns: "inj_on (sv_connections s) (dom (sv_connections s))" "\<forall>c \<in> ran (sv_connections s). alive (sv_world s) c"
    and missing: "\<exists>u \<in> set (g_Players g). sv_connections s u = None"
  shows "\<exists>w' pts j xs u ys. map pp_PlayerId pts = map player_id (xs @ u # ys) \<and> set (xs @ u # ys) = set (g_Players g) \<and>
    sorted_wrt (\<lambda>p q. pp_Point q \<le> pp_Point p) pts \<and> sv_connections s u = None \<and> set xs \<subseteq> dom (sv_connections s) \<and>
    run_state (task_handler (ProcessGameCompletion svc) (json_print (completion_payload gid))) s =
      (Panicked NilDereference, s\<lparr>sv_world := w', sv_connections := sv_connections s |` (- set xs)\<rparr>) \<and>
    enc_MessageResponse (completed_response gid pts) = Inr j \<and>
    (\<forall>c. sent w' c = sent (sv_world s) c @ (if Some c \<in> sv_connections s ` set xs then [(OpText, json_print j)] else []))"
proof -
  obtain w1 pts us where lb: "run_state (GetLeaderBoard env gid) (sv_world s) = (Inr \<lparr>lb_GameId = gid, lb_PlayersPoint = pts\<rparr>, w1)"
      "(sent w1, alive w1) = (sent (sv_world s), alive (sv_world s))"
      and pts: "sorted_wrt (\<lambda>p q. pp_Point q \<le> pp_Point p) pts" "map pp_PlayerId pts = map player_id us"
      and us: "set us = set (g_Players g)" "distinct us"
    using board_of_players [OF mongo game order points members] by (elim exE conjE)
  obtain xs u ys where split: "us = xs @ u # ys" "sv_connections s u = None" "\<forall>x \<in> set xs. sv_connections s x \<noteq> None"
    using split_list_first_prop [of us "\<lambda>u. sv_connections s u = None"] missing us(1) by blast
  have "\<forall>x \<in> set (map (sv_connections s) xs). \<exists>c. x = Some c" using split(3) by auto
  then obtain cs where cs: "map (sv_connections s) xs = map Some cs" using ex_map_conv by metis
  have xs: "set xs \<subseteq> dom (sv_connections s)" using split(3) by auto
  have "distinct (map Some cs)"
    using us(2) split(1) inj_on_subset [OF conns(1) xs] by (simp add: cs [symmetric] distinct_map)
  then have dcs: "distinct cs" by (simp add: distinct_map)
  have set_cs: "Some c \<in> sv_connections s ` set xs \<longleftrightarrow> c \<in> set cs" for c
    using arg_cong [OF cs, of set] by auto
  have "c \<in> ran (sv_connections s)" if "c \<in> set cs" for c
    using that set_cs [of c] by (auto simp: ran_def)
  then have alive1: "\<forall>c \<in> set cs. alive (sv_world (s\<lparr>sv_world := w1\<rparr>)) c" using conns(2) lb(2) by simp
  obtain j where j: "enc_MessageResponse (completed_response gid pts) = Inr j" using completed_response_defined by blast
  have cs1: "map (sv_connections (s\<lparr>sv_world := w1\<rparr>)) xs = map Some cs"
    and u1: "sv_connections (s\<lparr>sv_world := w1\<rparr>) u = None" "distinct (xs @ [u])"
    using cs split us(2) by auto
  from players.complete_players_panics [OF svc(2) socks cs1 u1(2) dcs alive1 u1(1), of "json_print j" ys] obtain w' where
      w': "run_state (complete_players svc (json_print j) (map player_id us)) (s\<lparr>sv_world := w1\<rparr>) =
          (Panicked NilDereference, s\<lparr>sv_world := w', sv_connections := sv_connections s |` (- set xs)\<rparr>)"
        "sent w' = delivered cs (OpText, json_print j) (sent w1)"
    unfolding split(1) by auto
  have "run_state (task_handler (ProcessGameCompletion svc) (json_print (completion_payload gid))) s =
      (Panicked NilDereference, s\<lparr>sv_world := w', sv_connections := sv_connections s |` (- set xs)\<rparr>)"
    using lb(1) w'(1) j pts(2)
    by (simp add: completion_task_payload [OF gid] ProcessGameCompletion_def svc(1) GameRepository_def bb_run Marshal_def)
  moreover have "\<forall>c. sent w' c = sent (sv_world s) c @ (if Some c \<in> sv_connections s ` set xs then [(OpText, json_print j)] else [])"
    using w'(2) lb(2) delivered_distinct [OF dcs] by (simp add: set_cs)
  ultimately show ?thesis
    using pts(1) pts(2) [unfolded split(1)] us(1) [unfolded split(1)] split(2) xs j by (intro exI conjI)
qed

text \<open>
  C33. Without a leader board the players are told that the game ended with an error, but the task
  reports success, so the queue never tries it again, and the results are lost.
\<close>

theorem failed_completion_not_retried:
  assumes svc: "gs_webSocket svc = WS lib" and socks: "gobwas_ok lib sent alive (\<lambda>_. ())" and gid: "utf8_valid gid"
    and board: "run_state (gr_GetLeaderBoard (gs_repository svc) gid) (sv_world s) = (Inl e, w1)"
    and found: "run_state (gr_GetGame (gs_repository svc) gid) w1 = (Inr (g, cache), w2)"
    and conns: "map (sv_connections s) (g_Players g) = map Some cs" "\<forall>c \<in> set cs. alive w2 c"
  shows "\<exists>w' j. run_state (task_handler (ProcessGameCompletion svc) (json_print (completion_payload gid))) s =
      (Returned None, s\<lparr>sv_world := w', sv_tasks := sv_tasks s @ [RepositoryTask cache]\<rparr>) \<and>
    enc_MessageResponse (plain_response False EventCompleted ''internal server error'') = Inr j \<and>
    sent w' = delivered cs (OpText, json_print j) (sent w2)"
proof -
  obtain j where j: "enc_MessageResponse (plain_response False EventCompleted ''internal server error'') = Inr j"
    using enc_plain_response by blast
  let ?s = "s\<lparr>sv_world := w2, sv_tasks := sv_tasks s @ [RepositoryTask cache]\<rparr>"
  have "map (sv_connections ?s) (g_Players g) = map Some cs" "\<forall>c \<in> set cs. alive (sv_world ?s) c" using conns by simp_all
  from players.report_failure_run [OF svc j socks this] obtain w' where
      "run_state (report_failure svc (g_Players g)) ?s = (Returned None, ?s\<lparr>sv_world := w'\<rparr>)"
      "sent w' = delivered cs (OpText, json_print j) (sent (sv_world ?s))" by blast
  then show ?thesis using board found j
    by (intro exI [of _ w'] exI [of _ j]) (simp add: completion_task_payload [OF gid] ProcessGameCompletion_def bb_run)
qed

end
