(* ===== verification/Game_Lobby.thy ===== *)
theory Game_Lobby
  imports Game_Sockets Game_Questions Match_Properties
begin

text \<open>
  Before the game: a player connects, asks for a place in a waiting list, and hears of the
  match; and the loop that reads a connection until it breaks.
\<close>

section \<open>Connecting\<close>

lemma keeps_status: "redis_frame (ge_redis env) view \<Longrightarrow> keeps view (GetUserStatus env u)"
  by (auto simp: GetUserStatus_def redis_frame_def redis_Get_def intro!: keeps_bind split: sum.split)

text \<open>
  C35. A user who opens a connection is registered with it and gets a reading goroutine; whose
  status is not known is sent the categories first.
\<close>

theorem ProcessGame_opens:
  assumes svc: "gs_repository svc = GameRepository cfg env" "gs_webSocket svc = WS lib"
    and redis: "redis_strings (ge_redis env) kv" "redis_frame (ge_redis env) (\<lambda>w. (sent w, alive w))"
    and socks: "gobwas_ok lib sent alive (\<lambda>_. ())"
    and upgrade: "run_state (gb_UpgradeHTTP lib) (sv_world s) = (Inr (c, protocol), w1)" "alive w1 c"
  shows "\<exists>w'. run_state (ProcessGame svc (FormatUint u)) s =
      (Returned None, s\<lparr>sv_connections := (sv_connections s)(u \<mapsto> c), sv_world := w', sv_tasks := sv_tasks s @ [ReadLoop c u]\<rparr>) \<and>
    sent w' = (if stored_status (kv w1) u \<in> {None, Some GameStatusUnknown}
      then (sent w1)(c := sent w1 c @ [(OpText, json_print (enc_GameInit getCategories))]) else sent w1)"
proof -
  let ?m = "json_print (enc_GameInit getCategories)"
  obtain w2 where w2: "case stored_status (kv w1) u of Some st \<Rightarrow> run_state (GetUserStatus env u) w1 = (Inr st, w2)
      | None \<Rightarrow> \<exists>e. run_state (GetUserStatus env u) w1 = (Inl e, w2)"
    using GetUserStatus_run [OF redis(1), of w1 u] by blast
  then obtain r where r: "run_state (GetUserStatus env u) w1 = (r, w2)"
      "(case r of Inl _ \<Rightarrow> GameStatusUnknown | Inr st \<Rightarrow> st) = GameStatusUnknown \<longleftrightarrow>
        stored_status (kv w1) u \<in> {None, Some GameStatusUnknown}"
    by (auto split: option.splits)
  have k: "sent w2 = sent w1" "alive w2 = alive w1"
    using keepsD [OF keeps_status [OF redis(2)], of u w1] r(1) by simp_all
  obtain w3 where w3: "run_state (gb_WriteServerMessage lib (Some c) OpText ?m) w2 = (Returned None, w3)"
      "sent w3 = (sent w2)(c := sent w2 c @ [(OpText, ?m)])"
    using players.write_alive [OF socks, of w2 c OpText ?m] upgrade(2) k(2) by auto
  have up: "run_state (WS_Upgrade lib) (sv_world s) = (Inr (c, \<lparr>Protocol = protocol\<rparr>), w1)"
    using upgrade(1) by (simp add: WS_Upgrade_def bb_run)
  note run = ProcessGame_def svc GameRepository_def WS_def WS_WriteServerData_def getUsersGameStatus_def bb_run up r(1) w3(1)
  show ?thesis
  proof (cases "stored_status (kv w1) u \<in> {None, Some GameStatusUnknown}")
    case True
    with r(2) show ?thesis using w3(2) k unfolding if_P [OF True] by (intro exI [of _ w3]) (simp add: run)
  next
    case False
    have "(case r of Inl _ \<Rightarrow> GameStatusUnknown | Inr st \<Rightarrow> st) \<noteq> GameStatusUnknown" using r(2) False by simp
    then show ?thesis using k unfolding if_not_P [OF False] by (intro exI [of _ w2]) (simp add: run)
  qed
qed

section \<open>Asking for a place\<close>

lemma readMessage_join:
  assumes "Unmarshal dec_MessageRequest zero_MessageRequest message = Inr req" and "mq_Command req = CommandAddToWaitingList"
  shows "readMessage svc u c code message = add_to_waiting_list svc u c code req"
  using assms by (simp add: readMessage_def)

definition join_message :: "proto_codec \<Rightarrow> u64 \<Rightarrow> string \<Rightarrow> bytes" where
  "join_message P u category = buff_of (marshal_AddToWaitingList P (MapWaitingListRequestToProtoMessage u category))"

text \<open>What is sent for a request, by the category and by what the broker said.\<close>

definition join_replies :: "bool \<Rightarrow> bool \<Rightarrow> ProcessGameMessageResponse list" where
  "join_replies known published =
     (if known then [] else [plain_response False EventError ''invalid category'']) @
     (if published then [] else [plain_response False EventError ''internal server error'']) @
     [plain_response True AddedToWaitingList ''added to waiting list successfully'']"

definition reply_frames :: "OpCode \<Rightarrow> ProcessGameMessageResponse list \<Rightarrow> (OpCode \<times> string) list" where
  "reply_frames code rs = map (\<lambda>r. (code, buff_of (Marshal (enc_MessageResponse r)))) rs"

lemma respond_plain:
  assumes "gs_webSocket svc = WS lib" and "gobwas_ok lib sent alive other" and "alive (sv_world s) c"
  shows "\<exists>w'. run_state (respond svc c code (plain_response a b d)) s = (Returned None, s\<lparr>sv_world := w'\<rparr>) \<and>
    sent w' = (sent (sv_world s))(c := sent (sv_world s) c @ reply_frames code [plain_response a b d]) \<and>
    alive w' = alive (sv_world s) \<and> other w' = other (sv_world s)"
proof -
  obtain j where j: "enc_MessageResponse (plain_response a b d) = Inr j" using enc_plain_response by blast
  from players.respond_run [OF assms(1,2,3) j, of code] j show ?thesis
    by (auto simp: delivered_one reply_frames_def Marshal_def)
qed

lemma join_run:
  assumes svc: "gs_webSocket svc = WS lib" "gs_broker svc = KafkaBroker sar"
    and socks: "gobwas_ok lib sent alive topic_log" "alive (sv_world s) c"
    and kafka: "sarama_delivers sar topic_log (\<lambda>w. (sent w, alive w))"
    and accepts: "\<forall>w. fst (run_state (sr_SendMessage sar GAME_V1_JOIN_MATCH_QUEUE_REQUESTED
        (join_message (gs_proto svc) u (mq_Category req))) w) = None \<longleftrightarrow> accepts"
  shows "\<exists>w'. run_state (add_to_waiting_list svc u c code req) s =
      (Returned None, s\<lparr>sv_tasks := sv_tasks s @ [SaveUsersGameStatus [u] GameStatusInitialized], sv_world := w'\<rparr>) \<and>
    sent w' = (sent (sv_world s))(c := sent (sv_world s) c @
      reply_frames code (join_replies (game_MapToCategory (mq_Category req) \<noteq> game_CategoryTypeUnknown) accepts)) \<and>
    topic_log w' = (if accepts then (topic_log (sv_world s))(GAME_V1_JOIN_MATCH_QUEUE_REQUESTED :=
      topic_log (sv_world s) GAME_V1_JOIN_MATCH_QUEUE_REQUESTED @ [join_message (gs_proto svc) u (mq_Category req)]) else topic_log (sv_world s))"
proof -
  let ?known = "game_MapToCategory (mq_Category req) \<noteq> game_CategoryTypeUnknown"
  let ?m = "join_message (gs_proto svc) u (mq_Category req)" and ?t = "GAME_V1_JOIN_MATCH_QUEUE_REQUESTED"
  let ?task = "SaveUsersGameStatus [u] GameStatusInitialized"
  text \<open>The complaint about the category.\<close>
  obtain w1 where w1: "run_state (if game_MapToCategory (mq_Category req) = game_CategoryTypeUnknown
        then respond svc c code (plain_response False EventError ''invalid category'') else ret (Returned None)) s =
        (Returned None, s\<lparr>sv_world := w1\<rparr>)"
      "sent w1 = (sent (sv_world s))(c := sent (sv_world s) c @ reply_frames code (if ?known then [] else [plain_response False EventError ''invalid category'']))"
      "alive w1 = alive (sv_world s)" "topic_log w1 = topic_log (sv_world s)"
  proof (cases ?known)
    case True
    then show ?thesis by (intro that [of "sv_world s"]) (simp_all add: bb_run reply_frames_def)
  next
    case False
    with respond_plain [OF svc(1) socks, of code False EventError "''invalid category''"] show ?thesis
      by (auto intro: that)
  qed
  text \<open>The message to the match service.\<close>
  obtain err w2 where w2: "run_state (sr_SendMessage sar ?t ?m) w1 = (err, w2)" by (cases "run_state (sr_SendMessage sar ?t ?m) w1")
  have err: "err = None \<longleftrightarrow> accepts" using accepts w2 by (metis fst_conv)
  have k2: "topic_log w2 = (if accepts then (topic_log w1)(?t := topic_log w1 ?t @ [?m]) else topic_log w1)"
      "sent w2 = sent w1" "alive w2 = alive w1"
    using kafka w2 err unfolding sarama_delivers_def by (metis fst_conv snd_conv prod.inject)+
  let ?s2 = "s\<lparr>sv_tasks := sv_tasks s @ [?task], sv_world := w2\<rparr>"
  text \<open>The complaint about the broker.\<close>
  obtain w3 where w3: "run_state (case err of Some e \<Rightarrow> respond svc c code (plain_response False EventError ''internal server error'')
          | None \<Rightarrow> ret (Returned None)) ?s2 = (Returned None, ?s2\<lparr>sv_world := w3\<rparr>)"
      "sent w3 = (sent w2)(c := sent w2 c @ reply_frames code (if accepts then [] else [plain_response False EventError ''internal server error'']))"
      "alive w3 = alive w2" "topic_log w3 = topic_log w2"
  proof (cases err)
    case None
    with err show ?thesis by (intro that [of w2]) (simp_all add: bb_run reply_frames_def)
  next
    case (Some e)
    have "alive (sv_world ?s2) c" using socks(2) w1(3) k2(3) by simp
    from respond_plain [OF svc(1) socks(1) this, of code False EventError "''internal server error''"] Some err show ?thesis
      by (auto intro: that)
  qed
  text \<open>The confirmation.\<close>
  let ?s3 = "?s2\<lparr>sv_world := w3\<rparr>"
  have "alive (sv_world ?s3) c" using socks(2) w1(3) k2(3) w3(3) by simp
  from respond_plain [OF svc(1) socks(1) this, of code True AddedToWaitingList "''added to waiting list successfully''"] obtain w4 where
      w4: "run_state (respond svc c code (plain_response True AddedToWaitingList ''added to waiting list successfully'')) ?s3 =
          (Returned None, ?s3\<lparr>sv_world := w4\<rparr>)"
        "sent w4 = (sent w3)(c := sent w3 c @ reply_frames code [plain_response True AddedToWaitingList ''added to waiting list successfully''])"
        "topic_log w4 = topic_log w3"
    by auto
  have "run_state (add_to_waiting_list svc u c code req) s = (Returned None, s\<lparr>sv_tasks := sv_tasks s @ [?task], sv_world := w4\<rparr>)"
    using w1(1) w2 w3(1) w4(1)
    by (simp add: add_to_waiting_list_def svc(2) KafkaBroker_def run_Publish bb_run Let_def join_message_def [symmetric])
  with w1 k2 w3 w4 show ?thesis
    by (intro exI [of _ w4]) (auto simp: join_replies_def reply_frames_def)
qed

lemma game_category_known: "game_MapToCategory c \<noteq> game_CategoryTypeUnknown \<longleftrightarrow> c \<in> set GetCategories"
  by (auto simp: game_MapToCategory_def game_category_defs GetCategories_def CategoryTypeSport_def CategoryTypeMusic_def
      CategoryTypeTech_def)

text \<open>
  C15. From the game service to the match service: a player who asks for a known category is
  told so once, and the one message that this puts on the bus makes the match service enter
  the player into the waiting list of that category and no other.
\<close>

theorem join_over_kafka:
  assumes svc: "gs_webSocket svc = WS lib" "gs_broker svc = KafkaBroker sar"
    and socks: "gobwas_ok lib sent alive topic_log" "alive (sv_world s) c"
    and kafka: "sarama_delivers sar topic_log (\<lambda>w. (sent w, alive w))" "\<forall>t m w. fst (run_state (sr_SendMessage sar t m) w) = None"
    and codec: "proto_ok (gs_proto svc)" "me_proto env = gs_proto svc"
      "marshal_AddToWaitingList (gs_proto svc) \<lparr>pb_WaitingUserId = u, pb_WaitingCategory = mq_Category req\<rparr> = Inr m"
    and msg: "Unmarshal dec_MessageRequest zero_MessageRequest message = Inr req" "mq_Command req = CommandAddToWaitingList"
      "mq_Category req \<in> set GetCategories" "unat u < 2 ^ 63"
    and waiting: "redis_ready (me_Now env) cfg db zs v"
  shows "\<exists>w' v' t. run_state (readMessage svc u c code message) s =
      (Returned None, s\<lparr>sv_tasks := sv_tasks s @ [SaveUsersGameStatus [u] GameStatusInitialized], sv_world := w'\<rparr>) \<and>
    sent w' = (sent (sv_world s))(c := sent (sv_world s) c @
      reply_frames code [plain_response True AddedToWaitingList ''added to waiting list successfully'']) \<and>
    topic_log w' = (topic_log (sv_world s))(GAME_V1_JOIN_MATCH_QUEUE_REQUESTED :=
      topic_log (sv_world s) GAME_V1_JOIN_MATCH_QUEUE_REQUESTED @ [m]) \<and>
    run_state (ConsumeJoinMatchQueueRequest env (MatchMakingRepository (me_Now env) cfg db) m) v = (None, v') \<and>
    redis_waiting cfg zs v' = (redis_waiting cfg zs v)(mq_Category req := (redis_waiting cfg zs v (mq_Category req))(u \<mapsto> t))"
proof -
  have m: "join_message (gs_proto svc) u (mq_Category req) = m"
    using codec(3) by (simp add: join_message_def MapWaitingListRequestToProtoMessage_def)
  have "\<forall>w. fst (run_state (sr_SendMessage sar GAME_V1_JOIN_MATCH_QUEUE_REQUESTED
      (join_message (gs_proto svc) u (mq_Category req))) w) = None \<longleftrightarrow> True" using kafka(2) by simp
  from join_run [OF svc socks kafka(1) this, of code] obtain w' where
    "run_state (readMessage svc u c code message) s =
      (Returned None, s\<lparr>sv_tasks := sv_tasks s @ [SaveUsersGameStatus [u] GameStatusInitialized], sv_world := w'\<rparr>)"
    "sent w' = (sent (sv_world s))(c := sent (sv_world s) c @
      reply_frames code [plain_response True AddedToWaitingList ''added to waiting list successfully''])"
    "topic_log w' = (topic_log (sv_world s))(GAME_V1_JOIN_MATCH_QUEUE_REQUESTED :=
      topic_log (sv_world s) GAME_V1_JOIN_MATCH_QUEUE_REQUESTED @ [m])"
    using msg(3) by (auto simp: readMessage_join [OF msg(1,2)] game_category_known join_replies_def m)
  moreover have "proto_ok (me_proto env)" using codec(1,2) by simp
  from ConsumeJoin_run [OF waiting this _ msg(4), of "mq_Category req" m] codec(2,3) msg(3) obtain v' t where
    "run_state (ConsumeJoinMatchQueueRequest env (MatchMakingRepository (me_Now env) cfg db) m) v = (None, v')"
    "redis_waiting cfg zs v' = (redis_waiting cfg zs v)(mq_Category req := (redis_waiting cfg zs v (mq_Category req))(u \<mapsto> t))"
    by auto
  ultimately show ?thesis by (intro exI conjI)
qed

text \<open>
  C34. The last thing the player is told is always that the request succeeded, even after a
  complaint about the category or about the broker; the message for an unknown category is
  published all the same, and the match service drops it without an error.
\<close>

theorem join_always_reported_added:
  assumes svc: "gs_webSocket svc = WS lib" "gs_broker svc = KafkaBroker sar"
    and socks: "gobwas_ok lib sent alive topic_log" "alive (sv_world s) c"
    and kafka: "sarama_delivers sar topic_log (\<lambda>w. (sent w, alive w))"
      "\<forall>w. fst (run_state (sr_SendMessage sar GAME_V1_JOIN_MATCH_QUEUE_REQUESTED m) w) = None \<longleftrightarrow> accepts"
    and codec: "proto_ok (gs_proto svc)" "me_proto env = gs_proto svc"
      "marshal_AddToWaitingList (gs_proto svc) \<lparr>pb_WaitingUserId = u, pb_WaitingCategory = mq_Category req\<rparr> = Inr m"
    and msg: "Unmarshal dec_MessageRequest zero_MessageRequest message = Inr req" "mq_Command req = CommandAddToWaitingList"
  shows "\<exists>w' complaints. run_state (readMessage svc u c code message) s =
      (Returned None, s\<lparr>sv_tasks := sv_tasks s @ [SaveUsersGameStatus [u] GameStatusInitialized], sv_world := w'\<rparr>) \<and>
    sent w' c = sent (sv_world s) c @
      reply_frames code (complaints @ [plain_response True AddedToWaitingList ''added to waiting list successfully'']) \<and>
    length complaints = (if mq_Category req \<in> set GetCategories then 0 else 1) + (if accepts then 0 else 1) \<and>
    topic_log w' GAME_V1_JOIN_MATCH_QUEUE_REQUESTED =
      topic_log (sv_world s) GAME_V1_JOIN_MATCH_QUEUE_REQUESTED @ (if accepts then [m] else []) \<and>
    (mq_Category req \<notin> set GetCategories \<longrightarrow> run_state (ConsumeJoinMatchQueueRequest env repo m) v = (None, v))"
proof -
  have m: "join_message (gs_proto svc) u (mq_Category req) = m"
    using codec(3) by (simp add: join_message_def MapWaitingListRequestToProtoMessage_def)
  let ?known = "game_MapToCategory (mq_Category req) \<noteq> game_CategoryTypeUnknown"
  have "\<forall>w. fst (run_state (sr_SendMessage sar GAME_V1_JOIN_MATCH_QUEUE_REQUESTED
      (join_message (gs_proto svc) u (mq_Category req))) w) = None \<longleftrightarrow> accepts" using kafka(2) m by simp
  from join_run [OF svc socks kafka(1) this, of code] obtain w' where
    w': "run_state (readMessage svc u c code message) s =
      (Returned None, s\<lparr>sv_tasks := sv_tasks s @ [SaveUsersGameStatus [u] GameStatusInitialized], sv_world := w'\<rparr>)"
    "sent w' = (sent (sv_world s))(c := sent (sv_world s) c @ reply_frames code (join_replies ?known accepts))"
    "topic_log w' = (if accepts then (topic_log (sv_world s))(GAME_V1_JOIN_MATCH_QUEUE_REQUESTED :=
      topic_log (sv_world s) GAME_V1_JOIN_MATCH_QUEUE_REQUESTED @ [m]) else topic_log (sv_world s))"
    unfolding readMessage_join [OF msg] m by blast
  let ?cs = "(if ?known then [] else [plain_response False EventError ''invalid category'']) @
     (if accepts then [] else [plain_response False EventError ''internal server error''])"
  have "run_state (ConsumeJoinMatchQueueRequest env repo m) v = (None, v)" if no: "mq_Category req \<notin> set GetCategories"
  proof -
    have "unmarshal_AddToWaitingList (me_proto env) m = Inr \<lparr>pb_WaitingUserId = u, pb_WaitingCategory = mq_Category req\<rparr>"
      using proto_okD(2) [OF codec(1,3)] codec(2) by simp
    moreover have "MapToCategory (mq_Category req) = CategoryTypeUnknown" using no MapToCategory_cases(1) by blast
    ultimately show ?thesis
      by (simp add: ConsumeJoinMatchQueueRequest_def MapFromAddToWaitingListProtoToEntity_def)
  qed
  then show ?thesis using w' game_category_known
    by (intro exI [of _ w'] exI [of _ ?cs]) (auto simp: join_replies_def)
qed

section \<open>Reading until the connection breaks\<close>

text \<open>The operations of the outside world that a message can lead to, and what none of them changes.\<close>

definition outside_keeps :: "'w game_service \<Rightarrow> ('w \<Rightarrow> 'v) \<Rightarrow> bool" where
  "outside_keeps svc view \<longleftrightarrow>
     (\<forall>g p n. keeps view (gr_UpsertReadyPlayer (gs_repository svc) g p n)) \<and>
     (\<forall>g. keeps view (gr_SetValidAnswerTimeForQuestions (gs_repository svc) g)) \<and>
     (\<forall>g. keeps view (gr_GetQuestionsByGameId (gs_repository svc) g)) \<and>
     (\<forall>g a. keeps view (gr_SavePlayerAnswer (gs_repository svc) g a)) \<and>
     (\<forall>g. keeps view (gr_GetLeaderBoard (gs_repository svc) g)) \<and>
     (\<forall>c code m. keeps view (ws_WriteServerData (gs_webSocket svc) c code m)) \<and>
     (\<forall>t m. keeps view (br_Publish (gs_broker svc) t m)) \<and>
     (\<forall>t p os. keeps view (tp_Publish (gs_taskPublisher svc) t p os)) \<and> keeps view (gs_Now svc)"

abbreviation world_view :: "('w \<Rightarrow> 'v) \<Rightarrow> 'w game_svc \<Rightarrow> 'v" where
  "world_view view \<equiv> \<lambda>s. view (sv_world s)"

lemma keeps_service:
  "keeps view m \<Longrightarrow> keeps (world_view view) (lift m)"
  "keeps (world_view view) (go t)" "keeps (world_view view) (connection_of i)" "keeps (world_view view) (set_connection i x)"
  by (simp_all add: keeps_def bb_run split: prod.split) (metis snd_conv)

lemma keeps_obind: "keeps v m \<Longrightarrow> (\<And>x. keeps v (f x)) \<Longrightarrow> keeps v (obind m f)"
  unfolding obind_def by (rule keeps_bind) (simp_all split: outcome.split)

lemma keeps_otry: "keeps v m \<Longrightarrow> keeps v k \<Longrightarrow> keeps v (otry m k)"
  unfolding otry_def by (rule keeps_obind) (simp_all split: option.split)

lemma keeps_respond: "outside_keeps svc view \<Longrightarrow> keeps (world_view view) (respond svc c code r)"
  by (simp add: respond_def outside_keeps_def keeps_service split: sum.split)

lemma keeps_send_to_players: "outside_keeps svc view \<Longrightarrow> keeps (world_view view) (send_to_players svc ps m)"
  by (induction ps) (auto simp: outside_keeps_def intro!: keeps_bind keeps_obind keeps_service)

lemma keeps_readMessage:
  assumes "outside_keeps svc view"
  shows "keeps (world_view view) (readMessage svc u c code m)"
proof -
  note ops = assms [unfolded outside_keeps_def]
  have join: "keeps (world_view view) (add_to_waiting_list svc u c code req)" for req
    using ops by (auto simp: add_to_waiting_list_def Let_def intro!: keeps_otry keeps_bind keeps_respond [OF assms] keeps_service
        split: option.split)
  have send: "keeps (world_view view) (sendQuestionToPlayer svc gid)" for gid
    using ops by (auto simp: sendQuestionToPlayer_def intro!: keeps_bind keeps_obind keeps_service keeps_send_to_players [OF assms]
        split: sum.split)
  have ready: "keeps (world_view view) (player_ready svc u c code req)" for req
    using ops by (auto simp: player_ready_def saveGameStatus_def Let_def case_prod_beta
        intro!: keeps_obind keeps_bind keeps_otry keeps_respond [OF assms] keeps_service send split: option.split)
  have answer: "keeps (world_view view) (answer_message svc u c code req)" for req
    using ops by (auto simp: answer_message_def savePlayerAnswer_def intro!: keeps_bind keeps_otry keeps_respond [OF assms] keeps_service
        split: option.split sum.split)
  show ?thesis
    using join ready answer
    by (auto simp: readMessage_def intro!: keeps_otry keeps_respond [OF assms] split: sum.split)
qed

text \<open>The library hands over what the client has sent, in order, and fails when there is no more.\<close>

definition reads_inbox :: "'w websocket \<Rightarrow> conn \<Rightarrow> ('w \<Rightarrow> (string \<times> OpCode) list) \<Rightarrow> bool" where
  "reads_inbox W c inbox \<longleftrightarrow> (\<forall>w. case inbox w of
     [] \<Rightarrow> \<exists>m code e w'. run_state (ws_ReadClientData W c) w = ((m, code, Some e), w')
   | (m, code) # rest \<Rightarrow> \<exists>w'. run_state (ws_ReadClientData W c) w = ((m, code, None), w') \<and> inbox w' = rest)"

text \<open>
  C28. The goroutine of a connection ends: when the client has sent \<open>n\<close> messages and the
  connection breaks, the loop is over within \<open>n + 1\<close> rounds, whatever the messages were, and
  the user is no longer registered.
\<close>

theorem read_loop_ends:
  assumes "reads_inbox (gs_webSocket svc) c inbox"
    and "outside_keeps svc inbox"
    and "length (inbox (sv_world s)) < n"
  shows "\<exists>r s'. run_state (read_loop svc n c u) s = (r, s') \<and> (r = Returned True \<or> (\<exists>p. r = Panicked p)) \<and>
    sv_connections s' u = None"
  using assms(3)
proof (induction n arbitrary: s)
  case (Suc n)
  have closed: "\<exists>s2. run_state (close_connection svc c u) s' = ((), s2) \<and> sv_connections s2 u = None" for s'
    by (simp add: close_connection_def bb_run split: prod.split)
  note law = assms(1) [unfolded reads_inbox_def, THEN spec, of "sv_world s"]
  show ?case
  proof (cases "inbox (sv_world s)")
    case Nil
    with law obtain m code e w' where "run_state (ws_ReadClientData (gs_webSocket svc) c) (sv_world s) = ((m, code, Some e), w')"
      by auto
    moreover obtain s2 where "run_state (close_connection svc c u) (s\<lparr>sv_world := w'\<rparr>) = ((), s2)" "sv_connections s2 u = None"
      using closed by blast
    ultimately show ?thesis by (simp add: bb_run)
  next
    case (Cons x rest)
    obtain m code where x: "x = (m, code)" by (cases x)
    with law Cons obtain w' where w': "run_state (ws_ReadClientData (gs_webSocket svc) c) (sv_world s) = ((m, code, None), w')"
        "inbox w' = rest" by auto
    let ?r = "run_state (readMessage svc u c code m) (s\<lparr>sv_world := w'\<rparr>)"
    have "inbox (sv_world (snd ?r)) = rest"
      using keepsD [OF keeps_readMessage [OF assms(2)], of u c code m "s\<lparr>sv_world := w'\<rparr>"] w'(2) by simp
    then have "length (inbox (sv_world (snd ?r))) < n" using Suc.prems Cons by simp
    note ih = Suc.IH [OF this]
    obtain r s1 where r: "?r = (r, s1)" by (cases ?r)
    obtain s2 where "run_state (close_connection svc c u) s1 = ((), s2)" "sv_connections s2 u = None"
      using closed by blast
    then show ?thesis using ih w' r by (cases r) (simp_all add: bb_run)
  qed
qed simp

end
