(* ===== verification/Game_Play.thy ===== *)
theory Game_Play
  imports Game_Finish Game_Lobby
begin

text \<open>
  Playing: what a player is told of an answer. The command \<open>ANSWER\<close> goes from the message on the
  connection through the grading to the collection of answers, and comes back as the leader board.
\<close>

definition accepted_response :: "string \<Rightarrow> string \<Rightarrow> PlayerPoint list \<Rightarrow> ProcessGameMessageResponse" where
  "accepted_response gid answer_gid pts = \<lparr>mr_Success = True, mr_Event = AnswerAccepted, mr_Message = ''answer accepted'',
     mr_MetaData = zero_MetaData\<lparr>md_GameId := gid, md_Answer := board_response answer_gid pts\<rparr>\<rparr>"

lemma readMessage_answer:
  assumes "Unmarshal dec_MessageRequest zero_MessageRequest message = Inr req" and "mq_Command req = CommandAnswer"
  shows "readMessage svc u c code message = answer_message svc u c code req"
  using assms by (simp add: readMessage_def command_defs)

lemma player_answer_simps [simp]:
  "pa_GameId (player_answer u a t) = ga_GameId a" "pa_PlayerID (player_answer u a t) = FormatUint u"
  "pa_QuestionIDs (player_answer u a t) = ga_QuestionId a"
  by (simp_all add: player_answer_def)

text \<open>The reply, in terms of the leader board after the answer.\<close>

lemma respond_json:
  assumes "gs_webSocket svc = WS lib" and "gobwas_ok lib sent alive other" and "alive (sv_world s) c"
    and "enc_MessageResponse r = Inr j"
  shows "\<exists>w'. run_state (respond svc c code r) s = (Returned None, s\<lparr>sv_world := w'\<rparr>) \<and>
    sent w' = (sent (sv_world s))(c := sent (sv_world s) c @ reply_frames code [r]) \<and> other w' = other (sv_world s)"
  using players.respond_run [OF assms, of code] assms(4) by (auto simp: delivered_one reply_frames_def Marshal_def)

text \<open>
  C12. An answer over the connection: it is graded with the time it arrived; if it is too early or the
  player has answered before, the player gets the reason and nothing is stored; otherwise the
  answer is stored once and the player gets the leader board, which counts it already.
\<close>

theorem answer_over_connection:
  assumes svc: "gs_repository svc = GameRepository cfg env" "gs_webSocket svc = WS lib" "gs_Now svc = ge_Now env"
    and redis: "redis_strings (ge_redis env) kv" "redis_frame (ge_redis env) (\<lambda>w. (answers w, games w, sent w, alive w))"
    and mongo: "mongo_games (ge_mongo env) games answers" "mongo_answers (ge_mongo env) answers (\<lambda>w. (kv w, games w, sent w, alive w))"
      "mongo_keeps (ge_mongo env) (\<lambda>w. (answers w, sent w, alive w))"
    and clock: "clock_reads env clock (\<lambda>w. (kv w, answers w, games w, sent w, alive w))"
    and socks: "gobwas_ok lib sent alive answers" "alive (sv_world s) c"
    and msg: "Unmarshal dec_MessageRequest zero_MessageRequest message = Inr req" "mq_Command req = CommandAnswer"
    and answer: "a = player_answer u (mq_GameAnswer req) (clock (sv_world s))"
      "answer_result cfg a (gq_Questions gq) (answers (sv_world s)) = (err, as')"
    and game: "mg_FromHex (ge_mongo env) (pa_GameId a) = Inr i" "games (sv_world s) i = Some g"
      "stored_questions (kv (sv_world s)) (pa_GameId a) = Some gq"
    and order: "range_ok env" "slice_sort more_points (ge_sort env)"
    and points: "list_all (\<lambda>a. index_ok (pa_Point a)) as'"
  shows "\<exists>w' pts. run_state (readMessage svc u c code message) s = (Returned None, s\<lparr>sv_world := w'\<rparr>) \<and> answers w' = as' \<and>
    sent w' = (sent (sv_world s))(c := sent (sv_world s) c @ reply_frames code [case err of
        Some e \<Rightarrow> plain_response False EventError (Error e) | None \<Rightarrow> accepted_response (mq_GameId req) (pa_GameId a) pts]) \<and>
    sorted_wrt (\<lambda>p q. pp_Point q \<le> pp_Point p) pts \<and>
    (err = None \<longrightarrow> FormatUint u \<in> pp_PlayerId ` set pts \<and>
      (\<forall>p \<in> set pts. p = board_entry (filter (\<lambda>b. pa_GameId b = pa_GameId a) as') (pp_PlayerId p)))"
proof -
  let ?view = "\<lambda>w. (games w, sent w, alive w)"
  obtain w1 where now: "run_state (ge_Now env) (sv_world s) = (clock (sv_world s), w1)"
      "(kv w1, answers w1, games w1, sent w1, alive w1) = (kv (sv_world s), answers (sv_world s), games (sv_world s), sent (sv_world s), alive (sv_world s))"
    using clock_readsD [OF clock, of "sv_world s"] by auto
  have pid: "pa_PlayerID a \<noteq> []" and gid: "ga_GameId (mq_GameAnswer req) = pa_GameId a" using answer(1) FormatUint_not_Nil by simp_all
  have stored: "stored_questions (kv w1) (pa_GameId a) = Some gq" using now(2) game(3) by simp
  obtain w2 where save: "run_state (SavePlayerAnswer cfg env (pa_GameId a) a) w1 = (err, w2)" "answers w2 = as'" "?view w2 = ?view w1"
    using SavePlayerAnswer_run_view [OF redis mongo(2) stored pid, of cfg] now(2) answer(2) by auto
  note run = readMessage_answer [OF msg] answer_message_def savePlayerAnswer_def svc GameRepository_def bb_run now(1) answer(1) [symmetric] gid save(1)
  show ?thesis
  proof (cases err)
    case (Some e)
    obtain j where j: "enc_MessageResponse (plain_response False EventError (Error e)) = Inr j" using enc_plain_response by blast
    have "alive (sv_world (s\<lparr>sv_world := w2\<rparr>)) c" using socks(2) now(2) save(3) by simp
    from respond_json [OF svc(2) socks(1) this j, of code] obtain w' where
      "run_state (respond svc c code (plain_response False EventError (Error e))) (s\<lparr>sv_world := w2\<rparr>) = (Returned None, s\<lparr>sv_world := w'\<rparr>)"
      "sent w' = (sent w2)(c := sent w2 c @ reply_frames code [plain_response False EventError (Error e)])" "answers w' = answers w2"
      by auto
    then show ?thesis using Some save now(2) by (intro exI [of _ w'] exI [of _ "[]"]) (simp add: run)
  next
    case None
    have "games w2 i = Some g" using save(3) now(2) game(2) by simp
    from leader_board' [OF mongo(1,2) game(1) this order points [folded save(2)]] obtain w3 pts where
      lb: "run_state (GetLeaderBoard env (pa_GameId a)) w2 = (Inr \<lparr>lb_GameId = pa_GameId a, lb_PlayersPoint = pts\<rparr>, w3)"
        "sorted_wrt (\<lambda>p q. pp_Point q \<le> pp_Point p) pts"
        "pp_PlayerId ` set pts = pa_PlayerID ` {b \<in> set (answers w2). pa_GameId b = pa_GameId a} \<union> player_id ` set (g_Players g)"
        "\<forall>p \<in> set pts. p = board_entry (filter (\<lambda>b. pa_GameId b = pa_GameId a) (answers w2)) (pp_PlayerId p)"
      by (elim exE conjE)
    have k: "answers w3 = answers w2" "sent w3 = sent w2" "alive w3 = alive w2"
      using keepsD [OF keeps_GetLeaderBoard [OF mongo(3)], of "pa_GameId a" w2] lb(1) by simp_all
    have "as' = answers (sv_world s) @ [bson_answer (graded_by cfg a (gq_Questions gq))]"
      using answer(2) None by (auto simp: answer_result_def split: if_splits)
    then have "FormatUint u \<in> pp_PlayerId ` set pts"
      using lb(3) save(2) answer(1) by (auto simp: image_iff)
    moreover obtain j where j: "enc_MessageResponse (accepted_response (mq_GameId req) (pa_GameId a) pts) = Inr j"
      using Marshal_no_questions [of "accepted_response (mq_GameId req) (pa_GameId a) pts"] by (auto simp: accepted_response_def zero_MetaData_def)
    moreover have "alive (sv_world (s\<lparr>sv_world := w3\<rparr>)) c" using socks(2) now(2) save(3) k(3) by simp
    from respond_json [OF svc(2) socks(1) this j, of code] obtain w' where
      "run_state (respond svc c code (accepted_response (mq_GameId req) (pa_GameId a) pts)) (s\<lparr>sv_world := w3\<rparr>) = (Returned None, s\<lparr>sv_world := w'\<rparr>)"
      "sent w' = (sent w3)(c := sent w3 c @ reply_frames code [accepted_response (mq_GameId req) (pa_GameId a) pts])" "answers w' = answers w3"
      by auto
    ultimately show ?thesis using None save now(2) lb k
      by (intro exI [of _ w'] exI [of _ pts]) (simp add: run accepted_response_def)
  qed
qed

end
