(* ===== verification/Whole_Game.thy ===== *)
theory Whole_Game
  imports Game_Play
begin

text \<open>
  A game from its first answer to its end: the answers of its players come in over their
  connections, in any order and from any of them, and then the task completes the game.
\<close>

section \<open>One answer\<close>

text \<open>A message of a player, and the reading of it by the goroutine of its connection.\<close>

record answer_msg =
  am_User :: u64
  am_Conn :: conn
  am_Code :: OpCode
  am_Message :: string
  am_Answer :: ProcessGameAnswer

definition is_answer :: "answer_msg \<Rightarrow> bool" where
  "is_answer m \<longleftrightarrow> (\<exists>req. Unmarshal dec_MessageRequest zero_MessageRequest (am_Message m) = Inr req \<and>
     mq_Command req = CommandAnswer \<and> mq_GameAnswer req = am_Answer m)"

primrec read_all :: "'w game_service \<Rightarrow> answer_msg list \<Rightarrow> ('w game_svc, go_error option outcome) state" where
  "read_all svc [] = ret (Returned None)"
| "read_all svc (m # ms) = otry (readMessage svc (am_User m) (am_Conn m) (am_Code m) (am_Message m)) (read_all svc ms)"

text \<open>The times on the clock at which the messages are read: each when those before it have been dealt with.\<close>

definition read_times :: "'w game_service \<Rightarrow> ('w \<Rightarrow> gotime) \<Rightarrow> answer_msg list \<Rightarrow> 'w game_svc \<Rightarrow> gotime list" where
  "read_times svc clock ms s = map (\<lambda>k. clock (sv_world (snd (run_state (read_all svc (take k ms)) s)))) [0..<length ms]"

lemma read_times_Nil [simp]: "read_times svc clock [] s = []"
  by (simp add: read_times_def)

lemma read_times_Cons:
  assumes "run_state (readMessage svc (am_User m) (am_Conn m) (am_Code m) (am_Message m)) s = (Returned None, s1)"
  shows "read_times svc clock (m # ms) s = clock (sv_world s) # read_times svc clock ms s1"
proof -
  have "[0..<length (m # ms)] = 0 # map Suc [0..<length ms]" by (simp add: map_Suc_upt upt_conv_Cons del: upt_Suc)
  then show ?thesis using assms by (simp add: read_times_def comp_def bb_run del: upt_Suc)
qed

lemma answer_keeps_game:
  assumes svc: "gs_repository svc = GameRepository cfg env" "gs_webSocket svc = WS lib" "gs_Now svc = ge_Now env"
    and redis: "redis_strings (ge_redis env) kv" "redis_frame (ge_redis env) (\<lambda>w. (answers w, games w, sent w, alive w))"
    and mongo: "mongo_games (ge_mongo env) games answers" "mongo_answers (ge_mongo env) answers (\<lambda>w. (kv w, games w, sent w, alive w))"
      "mongo_keeps (ge_mongo env) (\<lambda>w. (kv w, games w, answers w, sent w, alive w))"
    and clock: "clock_reads env clock (\<lambda>w. (kv w, answers w, games w, sent w, alive w))"
    and socks: "gobwas_ok lib sent alive (\<lambda>w. (kv w, answers w, games w))" "alive (sv_world s) (am_Conn m)"
    and msg: "is_answer m" "ga_GameId (am_Answer m) = gid"
    and result: "answer_result cfg (player_answer (am_User m) (am_Answer m) (clock (sv_world s))) (gq_Questions gq) (answers (sv_world s)) = (err, as')"
    and game: "mg_FromHex (ge_mongo env) gid = Inr i" "games (sv_world s) i = Some g" "stored_questions (kv (sv_world s)) gid = Some gq"
    and order: "range_ok env" "slice_sort more_points (ge_sort env)"
    and points: "list_all (\<lambda>a. index_ok (pa_Point a)) as'"
  shows "\<exists>w'. run_state (readMessage svc (am_User m) (am_Conn m) (am_Code m) (am_Message m)) s = (Returned None, s\<lparr>sv_world := w'\<rparr>) \<and>
    answers w' = as' \<and> kv w' = kv (sv_world s) \<and> games w' = games (sv_world s) \<and> alive w' = alive (sv_world s)"
proof -
  let ?view = "\<lambda>w. (games w, sent w, alive w)" and ?c = "am_Conn m" and ?code = "am_Code m"
  let ?a = "player_answer (am_User m) (am_Answer m) (clock (sv_world s))"
  obtain req where req: "Unmarshal dec_MessageRequest zero_MessageRequest (am_Message m) = Inr req"
      "mq_Command req = CommandAnswer" "mq_GameAnswer req = am_Answer m"
    using msg(1) by (auto simp: is_answer_def)
  obtain w1 where now: "run_state (ge_Now env) (sv_world s) = (clock (sv_world s), w1)"
      "(kv w1, answers w1, games w1, sent w1, alive w1) = (kv (sv_world s), answers (sv_world s), games (sv_world s), sent (sv_world s), alive (sv_world s))"
    using clock_readsD [OF clock, of "sv_world s"] by auto
  have stored: "stored_questions (kv w1) (pa_GameId ?a) = Some gq" using now(2) game(3) msg(2) by simp
  have pid: "pa_PlayerID ?a \<noteq> []" by simp
  obtain w2 where save: "run_state (SavePlayerAnswer cfg env (pa_GameId ?a) ?a) w1 = (err, w2)" "answers w2 = as'" "?view w2 = ?view w1" "kv w2 = kv w1"
    using SavePlayerAnswer_run_view [OF redis mongo(2) stored pid, of cfg] now(2) result by auto
  note run = readMessage_answer [OF req(1,2)] answer_message_def savePlayerAnswer_def svc GameRepository_def bb_run now(1) req(3)
    save(1) [unfolded player_answer_simps]
  show ?thesis
  proof (cases err)
    case (Some e)
    obtain j where j: "enc_MessageResponse (plain_response False EventError (Error e)) = Inr j" using enc_plain_response by blast
    have "alive (sv_world (s\<lparr>sv_world := w2\<rparr>)) ?c" using socks(2) now(2) save(3) by simp
    from players.respond_run [OF svc(2) socks(1) this j, of ?code] obtain w' where
      "run_state (respond svc ?c ?code (plain_response False EventError (Error e))) (s\<lparr>sv_world := w2\<rparr>) = (Returned None, s\<lparr>sv_world := w'\<rparr>)"
      "alive w' = alive w2" "(kv w', answers w', games w') = (kv w2, answers w2, games w2)"
      by auto
    then show ?thesis using Some save now(2) by (intro exI [of _ w']) (simp add: run)
  next
    case None
    have "games w2 i = Some g" using save(3) now(2) game(2) by simp
    from leader_board' [OF mongo(1,2) game(1) this order points [folded save(2)]] obtain w3 pts where
      lb: "run_state (GetLeaderBoard env gid) w2 = (Inr \<lparr>lb_GameId = gid, lb_PlayersPoint = pts\<rparr>, w3)"
      by (elim exE conjE)
    have k: "(kv w3, games w3, answers w3, sent w3, alive w3) = (kv w2, games w2, answers w2, sent w2, alive w2)"
      using keepsD [OF keeps_GetLeaderBoard [OF mongo(3)], of gid w2] lb by simp
    obtain j where j: "enc_MessageResponse (accepted_response (mq_GameId req) gid pts) = Inr j"
      using Marshal_no_questions [of "accepted_response (mq_GameId req) gid pts"] by (auto simp: accepted_response_def zero_MetaData_def)
    have "alive (sv_world (s\<lparr>sv_world := w3\<rparr>)) ?c" using socks(2) now(2) save(3) k by simp
    from players.respond_run [OF svc(2) socks(1) this j, of ?code] obtain w' where
      "run_state (respond svc ?c ?code (accepted_response (mq_GameId req) gid pts)) (s\<lparr>sv_world := w3\<rparr>) = (Returned None, s\<lparr>sv_world := w'\<rparr>)"
      "alive w' = alive w3" "(kv w', answers w', games w') = (kv w3, answers w3, games w3)"
      by auto
    then show ?thesis using None save now(2) lb k msg(2) by (intro exI [of _ w']) (simp add: run accepted_response_def)
  qed
qed

section \<open>All answers\<close>

text \<open>Grading message after message, at the times at which they are read: what a referee would write down.\<close>

definition graded_all :: "game_repo_config \<Rightarrow> game_Question list \<Rightarrow> (answer_msg \<times> gotime) list \<Rightarrow> PlayerAnswer list \<Rightarrow> PlayerAnswer list" where
  "graded_all cfg qs mts stored =
     foldl (\<lambda>as (m, t). snd (answer_result cfg (player_answer (am_User m) (am_Answer m) t) qs as)) stored mts"

lemma graded_index:
  assumes "score_config_ok (rc_ScoreConfig cfg)" and "pa_Point a = 0"
  shows "index_ok (pa_Point (graded_by cfg a qs))"
proof -
  have "index_ok (CalculateScore cfg c x v)" for c x v
    using score_bounds' [OF assms(1), of c x v] assms(1) by (auto simp: index_ok_def score_config_ok_def)
  then show ?thesis using assms(2) by (simp add: graded_by_def graded_def index_ok_def split: option.split)
qed

lemma answer_result_set: "set (snd (answer_result cfg a qs as)) \<subseteq> insert (bson_answer (graded_by cfg a qs)) (set as)"
  by (auto simp: answer_result_def)

lemma graded_all_points:
  assumes "score_config_ok (rc_ScoreConfig cfg)" and "list_all (\<lambda>a. index_ok (pa_Point a)) as"
  shows "list_all (\<lambda>a. index_ok (pa_Point a)) (snd (answer_result cfg (player_answer u x t) qs as))"
  using assms(2) answer_result_set [of cfg "player_answer u x t" qs as] graded_index [OF assms(1), of "player_answer u x t" qs]
  by (auto simp: list_all_iff player_answer_def zero_PlayerAnswer_def)

lemma graded_all_members:
  assumes "\<forall>(m, t) \<in> set mts. FormatUint (am_User m) \<in> P" and "\<forall>a \<in> set as. pa_GameId a = gid \<longrightarrow> pa_PlayerID a \<in> P"
  shows "\<forall>a \<in> set (graded_all cfg qs mts as). pa_GameId a = gid \<longrightarrow> pa_PlayerID a \<in> P"
  using assms
proof (induction mts arbitrary: as)
  case (Cons mt mts)
  obtain m t where mt: "mt = (m, t)" by (cases mt)
  have "\<forall>a \<in> set (snd (answer_result cfg (player_answer (am_User m) (am_Answer m) t) qs as)). pa_GameId a = gid \<longrightarrow> pa_PlayerID a \<in> P"
    using Cons.prems answer_result_set [of cfg "player_answer (am_User m) (am_Answer m) t" qs as] by (auto simp: mt)
  with Cons.IH [OF _ this] Cons.prems(1) show ?case by (simp add: graded_all_def mt)
qed (simp add: graded_all_def)

text \<open>The libraries of the game service while a game is played.\<close>

definition play_ready where
  "play_ready svc cfg env lib kv games answers sent alive clock \<longleftrightarrow>
     gs_repository svc = GameRepository cfg env \<and> gs_webSocket svc = WS lib \<and> gs_Now svc = ge_Now env \<and>
     redis_strings (ge_redis env) kv \<and> redis_frame (ge_redis env) (\<lambda>w. (answers w, games w, sent w, alive w)) \<and>
     mongo_games (ge_mongo env) games answers \<and> mongo_answers (ge_mongo env) answers (\<lambda>w. (kv w, games w, sent w, alive w)) \<and>
     mongo_keeps (ge_mongo env) (\<lambda>w. (kv w, games w, answers w, sent w, alive w)) \<and>
     clock_reads env clock (\<lambda>w. (kv w, answers w, games w, sent w, alive w)) \<and>
     gobwas_ok lib sent alive (\<lambda>w. (kv w, answers w, games w)) \<and> gobwas_ok lib sent alive (\<lambda>_. ()) \<and>
     range_ok env \<and> slice_sort more_points (ge_sort env) \<and> score_config_ok (rc_ScoreConfig cfg)"

lemma play_readyD:
  assumes "play_ready svc cfg env lib kv games answers sent alive clock"
  shows "gs_repository svc = GameRepository cfg env" "gs_webSocket svc = WS lib" "gs_Now svc = ge_Now env"
    "redis_strings (ge_redis env) kv" "redis_frame (ge_redis env) (\<lambda>w. (answers w, games w, sent w, alive w))"
    "mongo_games (ge_mongo env) games answers" "mongo_answers (ge_mongo env) answers (\<lambda>w. (kv w, games w, sent w, alive w))"
    "mongo_keeps (ge_mongo env) (\<lambda>w. (kv w, games w, answers w, sent w, alive w))"
    "clock_reads env clock (\<lambda>w. (kv w, answers w, games w, sent w, alive w))"
    "gobwas_ok lib sent alive (\<lambda>w. (kv w, answers w, games w))" "gobwas_ok lib sent alive (\<lambda>_. ())"
    "range_ok env" "slice_sort more_points (ge_sort env)" "score_config_ok (rc_ScoreConfig cfg)"
  using assms by (simp_all add: play_ready_def)

lemma read_all_run:
  assumes ready: "play_ready svc cfg env lib kv games answers sent alive clock" and gid: "mg_FromHex (ge_mongo env) gid = Inr i"
  shows "games (sv_world s) i = Some g \<Longrightarrow> stored_questions (kv (sv_world s)) gid = Some gq \<Longrightarrow>
      \<forall>m \<in> set ms. is_answer m \<and> ga_GameId (am_Answer m) = gid \<and> alive (sv_world s) (am_Conn m) \<Longrightarrow>
      list_all (\<lambda>a. index_ok (pa_Point a)) (answers (sv_world s)) \<Longrightarrow>
    \<exists>w'. run_state (read_all svc ms) s = (Returned None, s\<lparr>sv_world := w'\<rparr>) \<and>
      answers w' = graded_all cfg (gq_Questions gq) (zip ms (read_times svc clock ms s)) (answers (sv_world s)) \<and> games w' = games (sv_world s) \<and>
      alive w' = alive (sv_world s) \<and> list_all (\<lambda>a. index_ok (pa_Point a)) (answers w')"
proof (induction ms arbitrary: s)
  case Nil
  then show ?case by (intro exI [of _ "sv_world s"]) (simp add: graded_all_def bb_run)
next
  case (Cons m ms)
  note law = play_readyD [OF ready]
  let ?t = "clock (sv_world s)"
  let ?r = "answer_result cfg (player_answer (am_User m) (am_Answer m) ?t) (gq_Questions gq) (answers (sv_world s))"
  have m: "is_answer m" "ga_GameId (am_Answer m) = gid" "alive (sv_world s) (am_Conn m)" using Cons.prems(3) by simp_all
  have points: "list_all (\<lambda>a. index_ok (pa_Point a)) (snd ?r)" by (rule graded_all_points [OF law(14) Cons.prems(4)])
  obtain w1 where w1: "run_state (readMessage svc (am_User m) (am_Conn m) (am_Code m) (am_Message m)) s = (Returned None, s\<lparr>sv_world := w1\<rparr>)"
      "answers w1 = snd ?r" "kv w1 = kv (sv_world s)" "games w1 = games (sv_world s)" "alive w1 = alive (sv_world s)"
    using answer_keeps_game [OF law(1-10) m(3,1,2) surjective_pairing gid Cons.prems(1,2) law(12,13) points] by blast
  obtain w' where w': "run_state (read_all svc ms) (s\<lparr>sv_world := w1\<rparr>) = (Returned None, s\<lparr>sv_world := w'\<rparr>)"
      "answers w' = graded_all cfg (gq_Questions gq) (zip ms (read_times svc clock ms (s\<lparr>sv_world := w1\<rparr>))) (answers w1)" "games w' = games w1" "alive w' = alive w1"
      "list_all (\<lambda>a. index_ok (pa_Point a)) (answers w')"
    using Cons.IH [of "s\<lparr>sv_world := w1\<rparr>"] Cons.prems w1 points by auto
  then show ?case using w1
    by (intro exI [of _ w']) (simp add: graded_all_def bb_run read_times_Cons [OF w1(1)])
qed

text \<open>
  C3. A game from its first answer to its end: whatever answers its players send over their connections, in whatever
  order, each is graded by the questions of the game at the time that the clock shows when it is read (\<open>read_times\<close>), and none but the first to a question
  that is not too early counts; the task at the end then sends every player the same board, with exactly the players of
  the game, the sums of their points in descending order, and closes and forgets their connections.
\<close>

theorem game_played_out:
  assumes ready: "play_ready svc cfg env lib kv games answers sent alive clock" and gid: "utf8_valid gid" "mg_FromHex (ge_mongo env) gid = Inr i"
    and game: "games (sv_world s) i = Some g" "bson_players (g_Players g)" "stored_questions (kv (sv_world s)) gid = Some gq"
    and ms: "\<forall>m \<in> set ms. is_answer m \<and> ga_GameId (am_Answer m) = gid \<and> am_User m \<in> set (g_Players g) \<and> alive (sv_world s) (am_Conn m)"
    and before: "list_all (\<lambda>a. index_ok (pa_Point a)) (answers (sv_world s))" "\<forall>a \<in> set (answers (sv_world s)). pa_GameId a \<noteq> gid"
    and conns: "inj_on (sv_connections s) (set (g_Players g))"
      "\<forall>u \<in> set (g_Players g). \<exists>c. sv_connections s u = Some c \<and> alive (sv_world s) c"
  shows "\<exists>s1 w' pts j. run_state (read_all svc ms) s = (Returned None, s1) \<and>
    run_state (task_handler (ProcessGameCompletion svc) (json_print (completion_payload gid))) s1 =
      (Returned None, s1\<lparr>sv_world := w', sv_connections := sv_connections s |` (- set (g_Players g))\<rparr>) \<and>
    pp_PlayerId ` set pts = player_id ` set (g_Players g) \<and> sorted_wrt (\<lambda>p q. pp_Point q \<le> pp_Point p) pts \<and>
    (\<forall>p \<in> set pts. p = board_entry (filter (\<lambda>a. pa_GameId a = gid)
       (graded_all cfg (gq_Questions gq) (zip ms (read_times svc clock ms s)) (answers (sv_world s)))) (pp_PlayerId p)) \<and>
    enc_MessageResponse (completed_response gid pts) = Inr j \<and>
    (\<forall>u \<in> set (g_Players g). \<exists>c. sv_connections s u = Some c \<and> last (sent w' c) = (OpText, json_print j) \<and> \<not> alive w' c)"
proof -
  note law = play_readyD [OF ready]
  let ?ts = "read_times svc clock ms s"
  obtain w1 where w1: "run_state (read_all svc ms) s = (Returned None, s\<lparr>sv_world := w1\<rparr>)"
      "answers w1 = graded_all cfg (gq_Questions gq) (zip ms ?ts) (answers (sv_world s))" "games w1 = games (sv_world s)"
      "alive w1 = alive (sv_world s)" "list_all (\<lambda>a. index_ok (pa_Point a)) (answers w1)"
    using read_all_run [OF ready gid(2) game(1,3) _ before(1), of ms] ms by auto
  let ?s1 = "s\<lparr>sv_world := w1\<rparr>"
  have small: "FormatUint u = player_id u" if "u \<in> set (g_Players g)" for u
    using game(2) that FormatInt_sint_small [of u] by (simp add: bson_players_def list_all_iff)
  have "\<forall>(m, t) \<in> set (zip ms ?ts). FormatUint (am_User m) \<in> player_id ` set (g_Players g)"
    using ms small by (auto dest!: set_zip_leftD)
  then have members: "\<forall>a \<in> set (answers (sv_world ?s1)). pa_GameId a = gid \<longrightarrow> pa_PlayerID a \<in> player_id ` set (g_Players g)"
    using graded_all_members [of "zip ms ?ts" _ "answers (sv_world s)" gid] before(2) w1(2) by auto
  have g1: "games (sv_world ?s1) i = Some g" "list_all (\<lambda>a. index_ok (pa_Point a)) (answers (sv_world ?s1))"
    "inj_on (sv_connections ?s1) (set (g_Players g))"
    "\<forall>u \<in> set (g_Players g). \<exists>c. sv_connections ?s1 u = Some c \<and> alive (sv_world ?s1) c"
    using w1 game(1) conns by simp_all
  have keep: "mongo_keeps (ge_mongo env) (\<lambda>w. (sent w, alive w))"
    using law(8) by (auto simp: mongo_keeps_def keeps_def)
  from completion_delivers' [OF law(1,2,6,7) keep law(11) gid g1(1) law(12,13) g1(2) members g1(3,4)]
  obtain w' pts j where fin: "run_state (task_handler (ProcessGameCompletion svc) (json_print (completion_payload gid))) ?s1 =
      (Returned None, ?s1\<lparr>sv_world := w', sv_connections := sv_connections ?s1 |` (- set (g_Players g))\<rparr>)"
    "sorted_wrt (\<lambda>p q. pp_Point q \<le> pp_Point p) pts" "pp_PlayerId ` set pts = player_id ` set (g_Players g)"
    "\<forall>p \<in> set pts. p = board_entry (filter (\<lambda>a. pa_GameId a = gid) (answers (sv_world ?s1))) (pp_PlayerId p)"
    "enc_MessageResponse (completed_response gid pts) = Inr j"
    "\<forall>c. sent w' c = sent (sv_world ?s1) c @
      (if Some c \<in> sv_connections ?s1 ` set (g_Players g) then [(OpText, json_print j)] else [])"
    "\<forall>c. alive w' c \<longleftrightarrow> alive (sv_world ?s1) c \<and> Some c \<notin> sv_connections ?s1 ` set (g_Players g)"
    by (elim exE conjE)
  have "\<exists>c. sv_connections s u = Some c \<and> last (sent w' c) = (OpText, json_print j) \<and> \<not> alive w' c" if u: "u \<in> set (g_Players g)" for u
  proof -
    obtain c where c: "sv_connections s u = Some c" using conns(2) u by blast
    then have "Some c \<in> sv_connections ?s1 ` set (g_Players g)" using u by (metis game_svc.select_convs(2) game_svc.surjective game_svc.update_convs(1) imageI)
    then show ?thesis using c fin(6,7) by simp
  qed
  then show ?thesis using w1(1,2) fin(1-5)
    by (intro exI [of _ ?s1] exI [of _ w'] exI [of _ pts] exI [of _ j]) simp
qed

end
