(* ===== verification/Game_Matches.thy ===== *)
theory Game_Matches
  imports Game_Sockets Game_Questions Question_Service
begin

text \<open>
  The messages of the match service and of the question service on their way into games. Both
  theorems start from the message as the other service encodes it.
\<close>

section \<open>From a round of matches to games\<close>

text \<open>The game of a match.\<close>

definition game_of :: "MatchedUsers \<Rightarrow> Game \<Rightarrow> bool" where
  "game_of u g \<longleftrightarrow> g_Players g = mu_UserId u \<and> g_MatchId g = mu_Id u \<and> g_Status g = GameStatusPending \<and>
     g_Category g = map game_MapToCategory (mu_Category u)"

definition to_game_match :: "MatchedUsers \<Rightarrow> game_MatchedUsers" where
  "to_game_match u = \<lparr>gm_MatchId = mu_Id u, gm_GameId = [], gm_Category = map game_MapToCategory (mu_Category u),
     gm_UserId = mu_UserId u\<rparr>"

lemma round_to_matches:
  "game_MapFromProtoMessageToEntity (MapFromEntityToProtoMessage us) = map to_game_match us"
  by (simp add: game_MapFromProtoMessageToEntity_def MapFromEntityToProtoMessage_def to_game_match_def)

lemma keeps_CreateGame:
  assumes "redis_frame (ge_redis env) view" and "\<forall>g. keeps view (mg_InsertGame (ge_mongo env) g)"
  shows "keeps view (CreateGame env g)"
proof -
  have "keeps view (GetQuestionsByMatchId env mid)" for mid
    using assms(1) by (auto simp: GetQuestionsByMatchId_def redis_frame_def redis_Get_def intro!: keeps_bind split: sum.split)
  then show ?thesis using assms(2) by (auto simp: CreateGame_def Let_def intro!: keeps_bind split: sum.split)
qed

text \<open>One pass of the first loop, and the whole loop.\<close>

lemma create_match_run:
  assumes svc: "gs_repository svc = GameRepository cfg env" "gs_Now svc = ge_Now env"
    and redis: "redis_strings (ge_redis env) kv" "redis_frame (ge_redis env) games" "redis_frame (ge_redis env) view"
    and mongo: "mongo_games (ge_mongo env) games kv" "\<forall>g. keeps view (mg_InsertGame (ge_mongo env) g)"
    and clock: "clock_reads env clock (\<lambda>w. (games w, view w))" and players: "bson_players (mu_UserId u)"
  shows "\<exists>i w'. run_state (create_match svc (to_game_match u)) s =
      ([(to_game_match u)\<lparr>gm_GameId := mg_Hex (ge_mongo env) i\<rparr>], s\<lparr>sv_world := w'\<rparr>) \<and>
    games (sv_world s) i = None \<and> (\<exists>g. games w' = (games (sv_world s))(i \<mapsto> g) \<and> game_of u g) \<and> view w' = view (sv_world s)"
proof -
  obtain w1 where w1: "run_state (ge_Now env) (sv_world s) = (clock (sv_world s), w1)" "games w1 = games (sv_world s)" "view w1 = view (sv_world s)"
    using clock_readsD [OF clock, of "sv_world s"] by auto
  obtain w2 where w2: "run_state (ge_Now env) w1 = (clock w1, w2)" "games w2 = games w1" "view w2 = view w1"
    using clock_readsD [OF clock, of w1] by auto
  let ?g = "pending_game (to_game_match u) (clock (sv_world s)) (clock w1)"
  have "bson_players (g_Players ?g)" using players by (simp add: pending_game_def to_game_match_def)
  from CreateGame_run [OF redis(1,2) mongo(1) this, of w2] obtain i w3 where
      w3: "run_state (CreateGame env ?g) w2 = (Inr (mg_Hex (ge_mongo env) i), w3)" "games w2 i = None"
        "games w3 = (games w2)(i \<mapsto> bson_game (with_early_questions (kv w2) ?g))"
    by blast
  have v3: "view w3 = view w2" using keepsD [OF keeps_CreateGame [OF redis(3) mongo(2)], of ?g w2] w3(1) by simp
  have "run_state (create_match svc (to_game_match u)) s =
      ([(to_game_match u)\<lparr>gm_GameId := mg_Hex (ge_mongo env) i\<rparr>], s\<lparr>sv_world := w3\<rparr>)"
    using w1(1) w2(1) w3(1) by (simp add: create_match_def svc GameRepository_def bb_run)
  moreover have "game_of u (bson_game (with_early_questions (kv w2) ?g))"
    by (simp add: game_of_def bson_game_def with_early_questions_def pending_game_def to_game_match_def split: option.split)
  moreover have "games w3 = (games (sv_world s))(i \<mapsto> bson_game (with_early_questions (kv w2) ?g))"
    using w1(2) w2(2) w3(3) by simp
  moreover have "games (sv_world s) i = None" "view w3 = view (sv_world s)" using w1 w2 w3(2) v3 by simp_all
  ultimately show ?thesis by blast
qed

lemma create_matches_run:
  assumes svc: "gs_repository svc = GameRepository cfg env" "gs_Now svc = ge_Now env"
    and redis: "redis_strings (ge_redis env) kv" "redis_frame (ge_redis env) games" "redis_frame (ge_redis env) view"
    and mongo: "mongo_games (ge_mongo env) games kv" "\<forall>g. keeps view (mg_InsertGame (ge_mongo env) g)"
    and clock: "clock_reads env clock (\<lambda>w. (games w, view w))"
  shows "\<forall>u \<in> set us. bson_players (mu_UserId u) \<Longrightarrow>
    \<exists>is w'. run_state (for_collect (map to_game_match us) (create_match svc)) s =
        (map2 (\<lambda>i u. (to_game_match u)\<lparr>gm_GameId := mg_Hex (ge_mongo env) i\<rparr>) is us, s\<lparr>sv_world := w'\<rparr>) \<and>
      distinct is \<and> list_all2 (\<lambda>i u. \<exists>g. games w' i = Some g \<and> game_of u g) is us \<and>
      (\<forall>i \<in> set is. games (sv_world s) i = None) \<and>
      (\<forall>i. i \<notin> set is \<longrightarrow> games w' i = games (sv_world s) i) \<and> view w' = view (sv_world s)"
proof (induction us arbitrary: s)
  case Nil
  then show ?case by (intro exI [of _ "[]"] exI [of _ "sv_world s"]) (simp add: bb_run)
next
  case (Cons u us)
  have "bson_players (mu_UserId u)" using Cons.prems by simp
  from create_match_run [OF svc redis mongo clock this, of s] obtain i w1 g where
      w1: "run_state (create_match svc (to_game_match u)) s =
          ([(to_game_match u)\<lparr>gm_GameId := mg_Hex (ge_mongo env) i\<rparr>], s\<lparr>sv_world := w1\<rparr>)"
        "games (sv_world s) i = None" "games w1 = (games (sv_world s))(i \<mapsto> g)" "game_of u g" "view w1 = view (sv_world s)"
    by blast
  have "\<forall>u \<in> set us. bson_players (mu_UserId u)" using Cons.prems by simp
  from Cons.IH [OF this, of "s\<lparr>sv_world := w1\<rparr>"] obtain "is" w' where
      w': "run_state (for_collect (map to_game_match us) (create_match svc)) (s\<lparr>sv_world := w1\<rparr>) =
          (map2 (\<lambda>i u. (to_game_match u)\<lparr>gm_GameId := mg_Hex (ge_mongo env) i\<rparr>) is us, s\<lparr>sv_world := w'\<rparr>)"
        "distinct is" "list_all2 (\<lambda>i u. \<exists>g. games w' i = Some g \<and> game_of u g) is us"
        "\<forall>i \<in> set is. games w1 i = None" "\<forall>i. i \<notin> set is \<longrightarrow> games w' i = games w1 i" "view w' = view w1"
    by auto
  have i: "i \<notin> set is" using w'(4) w1(3) by auto
  have "run_state (for_collect (map to_game_match (u # us)) (create_match svc)) s =
      (map2 (\<lambda>i u. (to_game_match u)\<lparr>gm_GameId := mg_Hex (ge_mongo env) i\<rparr>) (i # is) (u # us), s\<lparr>sv_world := w'\<rparr>)"
    using w1(1) w'(1) by (simp add: bb_run)
  moreover have "list_all2 (\<lambda>i u. \<exists>g. games w' i = Some g \<and> game_of u g) (i # is) (u # us)"
    using w'(3,5) w1(3,4) i by simp
  moreover have "\<forall>j \<in> set (i # is). games (sv_world s) j = None" using w'(4) w1(2,3) by (auto split: if_splits)
  moreover have "\<forall>j. j \<notin> set (i # is) \<longrightarrow> games w' j = games (sv_world s) j" using w'(5) w1(3) by auto
  moreover have "distinct (i # is)" "view w' = view (sv_world s)" using w'(2,6) i w1(5) by simp_all
  ultimately show ?case by (intro exI [of _ "i # is"] exI [of _ w']) simp
qed

text \<open>The connections that hear of a match: those before the first user without one.\<close>

definition reached :: "(u64 \<rightharpoonup> conn) \<Rightarrow> u64 list \<Rightarrow> conn list" where
  "reached conns us = map (the \<circ> conns) (takeWhile (\<lambda>u. conns u \<noteq> None) us)"

definition match_message :: "string \<Rightarrow> string" where
  "match_message gid = buff_of (Marshal (enc_MessageResponse (match_created_response gid)))"

definition announced :: "('w \<Rightarrow> frames) \<Rightarrow> ('w \<Rightarrow> conn \<Rightarrow> bool) \<Rightarrow> 'w game_svc \<Rightarrow> (string \<times> u64 list) list \<Rightarrow> frames" where
  "announced sent alive s gus = fold (\<lambda>(gid, us). delivered (filter (alive (sv_world s)) (reached (sv_connections s) us))
     (OpText, match_message gid)) gus (sent (sv_world s))"

definition match_tasks :: "(string \<times> u64 list) list \<Rightarrow> 'w game_task list" where
  "match_tasks gus = concat (map (\<lambda>(gid, us). [SaveUsersGameStatus us GameStatusPending,
     SaveGameStatus gid None (Some (int (length us)))]) gus)"

lemma announce_one:
  assumes W: "gs_webSocket svc = WS lib" and socks: "gobwas_ok lib sent alive other"
  shows "\<exists>r w'. run_state (writeMessage svc us (match_created_response gid)) s = (Returned r, s\<lparr>sv_world := w'\<rparr>) \<and>
    sent w' = delivered (filter (alive (sv_world s)) (reached (sv_connections s) us)) (OpText, match_message gid) (sent (sv_world s)) \<and>
    alive w' = alive (sv_world s) \<and> other w' = other (sv_world s)"
proof -
  let ?P = "\<lambda>u. sv_connections s u \<noteq> None"
  let ?xs = "takeWhile ?P us" and ?ys = "dropWhile ?P us"
  have "?P u" if "u \<in> set ?xs" for u using that by (rule set_takeWhileD [THEN conjunct2])
  then have 1: "map (sv_connections s) ?xs = map Some (reached (sv_connections s) us)"
    unfolding reached_def map_map by (intro map_cong refl) fastforce
  have 2: "case ?ys of [] \<Rightarrow> True | y # _ \<Rightarrow> sv_connections s y = None"
  proof (cases ?ys)
    case (Cons y ys)
    then have "\<not> ?P y" unfolding dropWhile_eq_Cons_conv by blast
    with Cons show ?thesis by simp
  next
    case Nil
    show ?thesis unfolding Nil by simp
  qed
  from players.writeMessage_run [OF W socks 1 2, of "match_created_response gid"] show ?thesis
    unfolding takeWhile_dropWhile_id match_message_def by blast
qed

lemma announce_matches_run:
  assumes W: "gs_webSocket svc = WS lib" and socks: "gobwas_ok lib sent alive other"
  shows "\<exists>w'. run_state (announce_matches svc ms) s =
      (Returned (), s\<lparr>sv_tasks := sv_tasks s @ match_tasks (map (\<lambda>m. (gm_GameId m, gm_UserId m)) ms), sv_world := w'\<rparr>) \<and>
    sent w' = announced sent alive s (map (\<lambda>m. (gm_GameId m, gm_UserId m)) ms) \<and> other w' = other (sv_world s)"
proof (induction ms arbitrary: s)
  case Nil
  then show ?case by (intro exI [of _ "sv_world s"]) (simp add: bb_run match_tasks_def announced_def)
next
  case (Cons m ms)
  let ?s = "s\<lparr>sv_tasks := sv_tasks s @ [SaveUsersGameStatus (gm_UserId m) GameStatusPending,
      SaveGameStatus (gm_GameId m) None (Some (int (length (gm_UserId m))))]\<rparr>"
  obtain r w1 where w1: "run_state (writeMessage svc (gm_UserId m) (match_created_response (gm_GameId m))) ?s = (Returned r, ?s\<lparr>sv_world := w1\<rparr>)"
      "sent w1 = delivered (filter (alive (sv_world s)) (reached (sv_connections s) (gm_UserId m)))
        (OpText, match_message (gm_GameId m)) (sent (sv_world s))"
      "alive w1 = alive (sv_world s)" "other w1 = other (sv_world s)"
    using announce_one [OF W socks, of "gm_UserId m" "gm_GameId m" ?s] by auto
  let ?s1 = "?s\<lparr>sv_world := w1\<rparr>"
  from Cons.IH [of ?s1] obtain w' where
      w': "run_state (announce_matches svc ms) ?s1 =
          (Returned (), ?s1\<lparr>sv_tasks := sv_tasks ?s1 @ match_tasks (map (\<lambda>m. (gm_GameId m, gm_UserId m)) ms), sv_world := w'\<rparr>)"
        "sent w' = announced sent alive ?s1 (map (\<lambda>m. (gm_GameId m, gm_UserId m)) ms)" "other w' = other w1"
    by auto
  have "run_state (announce_matches svc (m # ms)) s =
      (Returned (), s\<lparr>sv_tasks := sv_tasks s @ match_tasks (map (\<lambda>m. (gm_GameId m, gm_UserId m)) (m # ms)), sv_world := w'\<rparr>)"
    using w1(1) w'(1) by (simp add: bb_run match_tasks_def)
  moreover have "sent w' = announced sent alive s (map (\<lambda>m. (gm_GameId m, gm_UserId m)) (m # ms))"
    using w'(2) w1(2,3) by (simp add: announced_def)
  ultimately show ?case using w'(3) w1(4) by (intro exI [of _ w']) simp
qed

lemma round_creates_games':
  assumes svc: "svc = NewService (GameRepository cfg env) (WS lib) b tp P (ge_Now env)"
    and redis: "redis_strings (ge_redis env) kv" "redis_frame (ge_redis env) games" "redis_frame (ge_redis env) (\<lambda>w. (sent w, alive w))"
    and mongo: "mongo_games (ge_mongo env) games kv" "\<forall>g. keeps (\<lambda>w. (sent w, alive w)) (mg_InsertGame (ge_mongo env) g)"
    and clock: "clock_reads env clock (\<lambda>w. (games w, (sent w, alive w)))" and socks: "gobwas_ok lib sent alive games"
    and codec: "proto_ok P" "marshal_AllMatchedUsers P (MapFromEntityToProtoMessage us) = Inr m"
    and players: "\<forall>u \<in> set us. bson_players (mu_UserId u)"
  shows "\<exists>is w' gus. gus = map2 (\<lambda>i u. (mg_Hex (ge_mongo env) i, mu_UserId u)) is us \<and>
    run_state (ConsumeMatchCreated svc m) s =
      (Returned None, s\<lparr>sv_tasks := sv_tasks s @ match_tasks gus, sv_world := w'\<rparr>) \<and>
    distinct is \<and> list_all2 (\<lambda>i u. \<exists>g. games w' i = Some g \<and> game_of u g) is us \<and>
    (\<forall>i \<in> set is. games (sv_world s) i = None) \<and> (\<forall>i. i \<notin> set is \<longrightarrow> games w' i = games (sv_world s) i) \<and>
    sent w' = announced sent alive s gus"
proof -
  have dec: "unmarshal_AllMatchedUsers P m = Inr (MapFromEntityToProtoMessage us)" using codec by (rule proto_okD)
  have repo: "gs_repository svc = GameRepository cfg env" "gs_Now svc = ge_Now env" "gs_webSocket svc = WS lib" by (simp_all add: svc)
  obtain "is" w1 where c: "run_state (for_collect (map to_game_match us) (create_match svc)) s =
        (map2 (\<lambda>i u. (to_game_match u)\<lparr>gm_GameId := mg_Hex (ge_mongo env) i\<rparr>) is us, s\<lparr>sv_world := w1\<rparr>)"
      "distinct is" "list_all2 (\<lambda>i u. \<exists>g. games w1 i = Some g \<and> game_of u g) is us" "\<forall>i \<in> set is. games (sv_world s) i = None"
      "\<forall>i. i \<notin> set is \<longrightarrow> games w1 i = games (sv_world s) i" "(sent w1, alive w1) = (sent (sv_world s), alive (sv_world s))"
    using create_matches_run [OF repo(1,2) redis mongo clock players, of s] by (elim exE conjE)
  let ?ms = "map2 (\<lambda>i u. (to_game_match u)\<lparr>gm_GameId := mg_Hex (ge_mongo env) i\<rparr>) is us"
  let ?gus = "map2 (\<lambda>i u. (mg_Hex (ge_mongo env) i, mu_UserId u)) is us"
  have gus: "map (\<lambda>m. (gm_GameId m, gm_UserId m)) ?ms = ?gus" by (simp add: to_game_match_def split_def)
  obtain w' where a: "run_state (announce_matches svc ?ms) (s\<lparr>sv_world := w1\<rparr>) =
        (Returned (), s\<lparr>sv_tasks := sv_tasks s @ match_tasks ?gus, sv_world := w'\<rparr>)"
      "sent w' = announced sent alive (s\<lparr>sv_world := w1\<rparr>) ?gus" "games w' = games w1"
    using announce_matches_run [OF repo(3) socks, of ?ms "s\<lparr>sv_world := w1\<rparr>"] unfolding gus by auto
  have "run_state (ConsumeMatchCreated svc m) s = (Returned None, s\<lparr>sv_tasks := sv_tasks s @ match_tasks ?gus, sv_world := w'\<rparr>)"
    using c(1) a(1) dec by (simp add: ConsumeMatchCreated_def svc round_to_matches bb_run)
  moreover have "sent w' = announced sent alive s ?gus" using a(2) c(6) by (simp add: announced_def)
  ultimately show ?thesis using c(2-5) a(3) by (intro exI [of _ "is"] exI [of _ w'] exI [of _ ?gus]) simp
qed

text \<open>
  C18. From the match service to the game service: the message of a round creates one pending
  game for each match, with its players, under a new id; starts the goroutines that record the
  status of the players and the number the game waits for; and tells the players of a match
  about it, up to the first one who is not connected.
\<close>

theorem round_creates_games:
  assumes svc: "svc = NewService (GameRepository cfg env) (WS lib) b tp P (ge_Now env)"
    and redis: "redis_strings (ge_redis env) kv" "redis_frame (ge_redis env) games" "redis_frame (ge_redis env) (\<lambda>w. (sent w, alive w))"
    and mongo: "mongo_games (ge_mongo env) games kv" "\<forall>g. keeps (\<lambda>w. (sent w, alive w)) (mg_InsertGame (ge_mongo env) g)"
    and clock: "clock_reads env clock (\<lambda>w. (games w, (sent w, alive w)))" and socks: "gobwas_ok lib sent alive games"
    and codec: "proto_ok P" "marshal_AllMatchedUsers P (MapFromEntityToProtoMessage us) = Inr m"
    and players: "\<forall>u \<in> set us. bson_players (mu_UserId u)"
  shows "\<exists>is w' gus. gus = map2 (\<lambda>i u. (mg_Hex (ge_mongo env) i, mu_UserId u)) is us \<and>
    run_state (ConsumeMatchCreated svc m) s =
      (Returned None, s\<lparr>sv_tasks := sv_tasks s @ match_tasks gus, sv_world := w'\<rparr>) \<and>
    distinct is \<and> list_all2 (\<lambda>i u. \<exists>g. games w' i = Some g \<and> game_of u g) is us \<and>
    (\<forall>i \<in> set is. games (sv_world s) i = None) \<and> (\<forall>i. i \<notin> set is \<longrightarrow> games w' i = games (sv_world s) i) \<and>
    sent w' = announced sent alive s gus"
  using assms by (rule round_creates_games')


section \<open>From the questions of a match to its game\<close>

definition to_game_question :: "question_Question \<Rightarrow> game_Question" where
  "to_game_question q = \<lparr>q_Id = qq_Id q, q_Content = qq_Content q, q_CorrectAnswer = qq_CorrectAnswer q, q_Status = [],
     q_Choices = qq_Choices q, q_Category = game_MapToCategory (qq_Category q), q_ValidAnswerTime = zero_time,
     q_Difficulty = MapToDifficulty (qq_Difficulty q)\<rparr>"

lemma questions_to_game:
  "MapFromProtoMessageToQuestionsEntity (MapQuestionsToProtoMessage mid qs) = (map to_game_question qs, mid)"
  by (simp add: MapFromProtoMessageToQuestionsEntity_def MapQuestionsToProtoMessage_def to_game_question_def)

lemma keeps_known_names:
  "qq_Category q \<in> set GetCategories \<Longrightarrow> qq_Difficulty q \<in> {DifficultEasy, DifficultMedium, DifficultHard} \<Longrightarrow>
   q_Category (to_game_question q) = qq_Category q \<and> q_Difficulty (to_game_question q) = qq_Difficulty q"
  by (auto simp: to_game_question_def GetCategories_def CategoryTypeSport_def CategoryTypeMusic_def CategoryTypeTech_def
      game_MapToCategory_def game_category_defs MapToDifficulty_def game_difficulty_defs DifficultEasy_def DifficultMedium_def DifficultHard_def)

definition question_texts_ok :: "question_Question \<Rightarrow> bool" where
  "question_texts_ok q \<longleftrightarrow> list_all utf8_valid [qq_Id q, qq_Content q, qq_CorrectAnswer q] \<and> list_all utf8_valid (qq_Choices q) \<and>
     qq_Category q \<in> set GetCategories \<and> qq_Difficulty q \<in> {DifficultEasy, DifficultMedium, DifficultHard}"

lemma question_names_valid:
  assumes "question_texts_ok q"
  shows "question_wf (to_game_question q)"
proof -
  have "utf8_valid (qq_Category q)" "utf8_valid (qq_Difficulty q)"
    by (rule utf8_valid_ascii; use assms in \<open>auto simp: question_texts_ok_def GetCategories_def CategoryTypeSport_def CategoryTypeMusic_def
        CategoryTypeTech_def DifficultEasy_def DifficultMedium_def DifficultHard_def\<close>)+
  moreover have "q_Category (to_game_question q) = qq_Category q \<and> q_Difficulty (to_game_question q) = qq_Difficulty q"
    using assms by (intro keeps_known_names) (auto simp: question_texts_ok_def)
  ultimately show ?thesis
    using assms by (simp add: question_wf_def question_texts_ok_def) (simp add: to_game_question_def)
qed

lemma ConsumeQuestions_run:
  assumes svc: "gs_repository svc = GameRepository cfg env"
    and redis: "redis_strings (ge_redis env) kv" "redis_frame (ge_redis env) games"
    and mongo: "mongo_games (ge_mongo env) games kv" and clock: "clock_reads env clock (\<lambda>w. (kv w, games w))"
    and game: "games (sv_world s) i = Some g" "g_MatchId g = mid"
      "\<forall>j h. games (sv_world s) j = Some h \<longrightarrow> g_MatchId h = mid \<longrightarrow> j = i"
    and codec: "proto_ok (gs_proto svc)" "marshal_Questions (gs_proto svc) (MapQuestionsToProtoMessage mid qs) = Inr m"
    and texts: "\<forall>q \<in> set qs. question_texts_ok q"
  shows "\<exists>w' h. run_state (ConsumeQuestions svc m) s = (Returned None, s\<lparr>sv_world := w'\<rparr>) \<and>
    stored_questions (kv w') = (stored_questions (kv (sv_world s)))(mg_Hex (ge_mongo env) i \<mapsto>
      \<lparr>gq_Questions = map to_game_question qs, gq_Players = g_Players g, gq_CurrentQuestionIndex = 0\<rparr>) \<and>
    games w' = (games (sv_world s))(i \<mapsto> h) \<and> g_MatchId h = mid \<and> g_Players h = g_Players g"
proof -
  have dec: "unmarshal_Questions (gs_proto svc) m = Inr (MapQuestionsToProtoMessage mid qs)" using codec by (rule proto_okD)
  have "zero_time < year_10000" by (simp add: zero_time_def year_10000_def)
  then have "questions_valid \<lparr>gq_Questions = map to_game_question qs, gq_Players = [], gq_CurrentQuestionIndex = 0\<rparr>"
    using texts question_names_valid by (auto simp: questions_valid_def index_ok_def list_all_iff to_game_question_def)
  from SaveQuestions_found [OF redis mongo clock game this, of cfg] obtain w' h where
      "run_state (SaveQuestionsByMatchId cfg env mid (map to_game_question qs)) (sv_world s) = (Returned None, w')"
      "stored_questions (kv w') = (stored_questions (kv (sv_world s)))(mg_Hex (ge_mongo env) i \<mapsto>
        \<lparr>gq_Questions = map to_game_question qs, gq_Players = g_Players g, gq_CurrentQuestionIndex = 0\<rparr>)"
      "games w' = (games (sv_world s))(i \<mapsto> h)" "g_Players h = g_Players g" "g_MatchId h = g_MatchId g"
    by (elim exE conjE)
  then show ?thesis
    using game(2) by (intro exI [of _ w'] exI [of _ h]) (simp add: ConsumeQuestions_def dec questions_to_game svc GameRepository_def bb_run)
qed

text \<open>
  C19. From the question service to the game service: when the message with the questions of a
  match arrives and its game exists, the game service has the same questions, word for word
  and in the same order, in Redis under the id of the game, for its players.
\<close>

theorem questions_reach_game:
  assumes svc: "gs_repository svc = GameRepository cfg env"
    and redis: "redis_strings (ge_redis env) kv" "redis_frame (ge_redis env) games"
    and mongo: "mongo_games (ge_mongo env) games kv" and clock: "clock_reads env clock (\<lambda>w. (kv w, games w))"
    and game: "games (sv_world s) i = Some g" "g_MatchId g = mid"
      "\<forall>j h. games (sv_world s) j = Some h \<longrightarrow> g_MatchId h = mid \<longrightarrow> j = i"
    and codec: "proto_ok (gs_proto svc)" "marshal_Questions (gs_proto svc) (MapQuestionsToProtoMessage mid qs) = Inr m"
    and texts: "\<forall>q \<in> set qs. question_texts_ok q"
  shows "\<exists>w'. run_state (ConsumeQuestions svc m) s = (Returned None, s\<lparr>sv_world := w'\<rparr>) \<and>
    stored_questions (kv w') = (stored_questions (kv (sv_world s)))(mg_Hex (ge_mongo env) i \<mapsto>
      \<lparr>gq_Questions = map to_game_question qs, gq_Players = g_Players g, gq_CurrentQuestionIndex = 0\<rparr>) \<and>
    (\<forall>q \<in> set qs. q_Category (to_game_question q) = qq_Category q \<and> q_Difficulty (to_game_question q) = qq_Difficulty q)"
proof -
  have "q_Category (to_game_question q) = qq_Category q \<and> q_Difficulty (to_game_question q) = qq_Difficulty q"
    if "q \<in> set qs" for q
    using texts that by (intro keeps_known_names) (auto simp: question_texts_ok_def)
  then show ?thesis using ConsumeQuestions_run [OF svc redis mongo clock game codec texts] by blast
qed

end
