(* ===== verification/Match_To_Game.thy ===== *)
theory Match_To_Game
  imports Game_Matches Match_Properties
begin

text \<open>
  From the waiting lists to the games: a round of the match service, and the game service that
  takes its message off the bus.
\<close>

lemma waiting_bson:
  assumes "redis_ready now cfg db zs w" and "redis_waiting cfg zs w c u = Some t"
  shows "unat u < 2 ^ 63"
proof -
  have "canonical (zs w (waiting_key cfg c))" using assms(1) by (simp add: redis_ready_def)
  moreover obtain sc where "zs w (waiting_key cfg c) (FormatUint u) = Some sc" using assms(2) by (auto simp: redis_waiting_def)
  ultimately obtain v where "FormatUint u = FormatUint v" "unat v < 2 ^ 63" unfolding canonical_def by blast
  then show ?thesis by simp
qed

lemma matched_sublist:
  assumes "map mu_UserId (filter (\<lambda>u. mu_Category u = [c]) us) = (if 2 \<le> length ids then [take n ids] else [])"
    and "u \<in> set us" and "mu_Category u = [c]"
  shows "2 \<le> length ids \<and> mu_UserId u = take n ids"
proof -
  have "mu_UserId u \<in> set (map mu_UserId (filter (\<lambda>u. mu_Category u = [c]) us))" using assms(2,3) by simp
  then show ?thesis unfolding assms(1) by (simp split: if_splits)
qed

text \<open>
  C4. Nobody who leaves a waiting list is left without a game, with everything up: a round returns, the game service
  takes its message off the topic, and then for each category in which two or more users wait who joined in the window of the
  query (\<open>candidates\<close>) there is a new pending
  game whose players are all of them but at most the last one, in the order in which they
  joined, and exactly these players left the waiting list; when no category has two nothing is sent and no list changes.
\<close>

theorem waiting_players_get_games:
  assumes ready: "match_ready env cfg db sar topic_log zs v"
    and keep: "redis_keeps db topic_log" "keeps topic_log (me_Now env)" "\<And>t m w. fst (run_state (sr_SendMessage sar t m) w) = None"
    and codec: "proto_ok P" "me_proto env = P" "\<And>us. \<exists>m. marshal_AllMatchedUsers P (MapFromEntityToProtoMessage us) = Inr m"
    and svc: "svc = NewService (GameRepository gcfg genv) (WS lib) b tp P (ge_Now genv)"
    and redis: "redis_strings (ge_redis genv) kv" "redis_frame (ge_redis genv) games" "redis_frame (ge_redis genv) (\<lambda>w. (sent w, alive w))"
    and mongo: "mongo_games (ge_mongo genv) games kv" "\<forall>g. keeps (\<lambda>w. (sent w, alive w)) (mg_InsertGame (ge_mongo genv) g)"
    and clock: "clock_reads genv clock (\<lambda>w. (games w, (sent w, alive w)))" and socks: "gobwas_ok lib sent alive games"
  shows "\<exists>v' s'. run_state (MatchWaitUsers env (KafkaBroker sar) (MatchMakingRepository (me_Now env) cfg db)) v = (Returned None, v') \<and>
    (topic_log v' = topic_log v \<and> s' = s \<or>
     (\<exists>m. topic_log v' = (topic_log v)(MATCH_V1_MATCH_USERS := topic_log v MATCH_V1_MATCH_USERS @ [m]) \<and>
       run_state (ConsumeMatchCreated svc m) s = (Returned None, s'))) \<and>
    (\<forall>c \<in> set GetCategories. \<exists>ids.
       set ids = candidates (me_Now env) cfg db zs v c \<and> distinct ids \<and>
       sorted (map (\<lambda>u. the (redis_waiting cfg zs v c u)) ids) \<and>
       redis_waiting cfg zs v' c = redis_waiting cfg zs v c |` (- set (take (2 * (length ids div 2)) ids)) \<and>
       (2 \<le> length ids \<longrightarrow> (\<exists>i g. games (sv_world s) i = None \<and> games (sv_world s') i = Some g \<and>
         g_Players g = take (2 * (length ids div 2)) ids \<and> g_Status g = GameStatusPending)))"
proof -
  let ?match = "\<lambda>ids. take (2 * (length ids div 2)) ids"
  have sends: "fst (run_state (br_Publish (KafkaBroker sar) t m) w) = None" for t m w
    using keep(3) by (simp add: KafkaBroker_def run_Publish)
  obtain us v' where round: "run_state (MatchWaitUsers env (KafkaBroker sar) (MatchMakingRepository (me_Now env) cfg db)) v = (Returned None, v')"
    and log: "topic_log v' = (if us = [] then topic_log v else (topic_log v)(MATCH_V1_MATCH_USERS := topic_log v MATCH_V1_MATCH_USERS @
        [buff_of (marshal_AllMatchedUsers (me_proto env) (MapFromEntityToProtoMessage us))]))"
    and known: "\<forall>u \<in> set us. \<exists>c \<in> set GetCategories. mu_Category u = [c]"
    and cat: "\<forall>c \<in> set GetCategories. \<exists>ids. distinct ids \<and>
       set ids = candidates (me_Now env) cfg db zs v c \<and>
       sorted (map (\<lambda>u. the (redis_waiting cfg zs v c u)) ids) \<and>
       map mu_UserId (filter (\<lambda>u. mu_Category u = [c]) us) = (if 2 \<le> length ids then [?match ids] else []) \<and>
       redis_waiting cfg zs v' c = redis_waiting cfg zs v c |` (- set (?match ids))"
    using redis_matchmaking.round [OF ready repository_keeps(1) [OF keep(1,2)] repository_keeps(2) [OF keep(1,2)] keep(2) sends]
    unfolding candidates_def by (elim exE conjE)
  have players: "\<forall>u \<in> set us. bson_players (mu_UserId u)"
  proof
    fix u assume u: "u \<in> set us"
    then obtain c where c: "c \<in> set GetCategories" "mu_Category u = [c]" using known by blast
    then obtain ids where ids: "set ids = candidates (me_Now env) cfg db zs v c"
        "map mu_UserId (filter (\<lambda>u. mu_Category u = [c]) us) = (if 2 \<le> length ids then [?match ids] else [])"
      using cat by meson
    have "set (mu_UserId u) \<subseteq> set ids" using matched_sublist [OF ids(2) u c(2)] set_take_subset by metis
    then show "bson_players (mu_UserId u)"
      using ids(1) waiting_bson [OF match_readyD(1) [OF ready]] by (auto simp: bson_players_def list_all_iff candidates_def)
  qed
  obtain m where m: "marshal_AllMatchedUsers P (MapFromEntityToProtoMessage us) = Inr m" using codec(3) by blast
  obtain "is" w' s1 where game: "run_state (ConsumeMatchCreated svc m) s = (Returned None, s1)" "sv_world s1 = w'"
      "list_all2 (\<lambda>i u. \<exists>g. games w' i = Some g \<and> game_of u g) is us" "\<forall>i \<in> set is. games (sv_world s) i = None"
    using round_creates_games' [OF svc redis mongo clock socks codec(1) m players, of s] by auto
  define s' where "s' = (if us = [] then s else s1)"
  have created: "\<exists>i g. games (sv_world s) i = None \<and> games (sv_world s') i = Some g \<and> g_Players g = mu_UserId u \<and> g_Status g = GameStatusPending"
    if u: "u \<in> set us" for u
  proof -
    obtain k where k: "k < length us" "us ! k = u" using u unfolding in_set_conv_nth by blast
    then obtain g where "games w' (is ! k) = Some g" "game_of u g" using list_all2_nthD2 [OF game(3), of k] by auto
    moreover have "is ! k \<in> set is" using k(1) list_all2_lengthD [OF game(3)] by simp
    moreover have "us \<noteq> []" using u by auto
    ultimately show ?thesis using game(2,4) by (auto simp: s'_def game_of_def)
  qed
  have "\<exists>ids. set ids = candidates (me_Now env) cfg db zs v c \<and> distinct ids \<and>
       sorted (map (\<lambda>u. the (redis_waiting cfg zs v c u)) ids) \<and>
       redis_waiting cfg zs v' c = redis_waiting cfg zs v c |` (- set (?match ids)) \<and>
       (2 \<le> length ids \<longrightarrow> (\<exists>i g. games (sv_world s) i = None \<and> games (sv_world s') i = Some g \<and>
         g_Players g = ?match ids \<and> g_Status g = GameStatusPending))" if c: "c \<in> set GetCategories" for c
  proof -
    obtain ids where ids: "distinct ids" "set ids = candidates (me_Now env) cfg db zs v c"
       "sorted (map (\<lambda>u. the (redis_waiting cfg zs v c u)) ids)"
       "map mu_UserId (filter (\<lambda>u. mu_Category u = [c]) us) = (if 2 \<le> length ids then [?match ids] else [])"
       "redis_waiting cfg zs v' c = redis_waiting cfg zs v c |` (- set (?match ids))"
      using bspec [OF cat c] by blast
    have "\<exists>u \<in> set us. mu_UserId u = ?match ids" if "2 \<le> length ids"
    proof -
      have "?match ids \<in> set (map mu_UserId (filter (\<lambda>u. mu_Category u = [c]) us))" using ids(4) that by simp
      then show ?thesis by auto
    qed
    then have "2 \<le> length ids \<longrightarrow> (\<exists>i g. games (sv_world s) i = None \<and> games (sv_world s') i = Some g \<and>
        g_Players g = ?match ids \<and> g_Status g = GameStatusPending)" using created by metis
    with ids show ?thesis by (intro exI [of _ ids] conjI)
  qed
  then show ?thesis
    using round log game(1) m codec(2) by (intro exI [of _ v'] exI [of _ s'] conjI) (auto simp: s'_def)
qed

end
