(* ===== verification/Questions_To_Games.thy ===== *)
theory Questions_To_Games
  imports Game_Matches Question_Service
begin

text \<open>
  From a round to the questions of its games: the question service takes the message of a
  round off the bus and answers with one message per match, and the game service works through
  those.
\<close>

text \<open>The consumer of the game service on a run of messages; a panic of the handler ends it.\<close>

primrec handle_all :: "(bytes \<Rightarrow> ('s, go_error option outcome) state) \<Rightarrow> bytes list \<Rightarrow> ('s, unit outcome) state" where
  "handle_all handler [] = ret (Returned ())"
| "handle_all handler (m # ms) = do {
     r \<leftarrow> handler m;
     case r of Panicked p \<Rightarrow> ret (Panicked p) | Returned _ \<Rightarrow> handle_all handler ms }"

text \<open>Game \<open>i\<close> is the one game of a match.\<close>

definition has_game :: "(nat \<Rightarrow> Game option) \<Rightarrow> nat \<Rightarrow> MatchedUsers \<Rightarrow> bool" where
  "has_game G i u \<longleftrightarrow> (\<exists>g. G i = Some g \<and> g_MatchId g = mu_Id u \<and> g_Players g = mu_UserId u) \<and>
     (\<forall>j h. G j = Some h \<longrightarrow> g_MatchId h = mu_Id u \<longrightarrow> j = i)"

lemma has_game_update:
  assumes "has_game G k v" and "G i = Some g" and "g_MatchId h = g_MatchId g" and "g_Players h = g_Players g"
  shows "has_game (G(i \<mapsto> h)) k v"
proof -
  obtain g' where g': "G k = Some g'" "g_MatchId g' = mu_Id v" "g_Players g' = mu_UserId v"
    and uniq: "\<And>j h. G j = Some h \<Longrightarrow> g_MatchId h = mu_Id v \<Longrightarrow> j = k"
    using assms(1) by (auto simp: has_game_def)
  have "\<exists>g. (G(i \<mapsto> h)) k = Some g \<and> g_MatchId g = mu_Id v \<and> g_Players g = mu_UserId v"
    using g' assms(2-4) by (cases "k = i") auto
  moreover have "j = k" if "(G(i \<mapsto> h)) j = Some h'" "g_MatchId h' = mu_Id v" for j h'
    using that uniq [of i g] uniq [of j h'] assms(2,3) by (cases "j = i") simp_all
  ultimately show ?thesis by (simp add: has_game_def)
qed

definition questions_for :: "MatchedUsers \<Rightarrow> question_Question list \<Rightarrow> GameQuestions" where
  "questions_for u qs = \<lparr>gq_Questions = map to_game_question qs, gq_Players = mu_UserId u, gq_CurrentQuestionIndex = 0\<rparr>"

lemma handle_questions:
  assumes svc: "gs_repository svc = GameRepository cfg env"
    and redis: "redis_strings (ge_redis env) kv" "redis_frame (ge_redis env) games"
    and mongo: "mongo_games (ge_mongo env) games kv" and clock: "clock_reads env clock (\<lambda>w. (kv w, games w))"
    and codec: "proto_ok (gs_proto svc)"
    and items: "\<forall>(i, u, qs) \<in> set items. has_game (games (sv_world s)) i u \<and> (\<forall>q \<in> set qs. question_texts_ok q)"
    and ms: "list_all2 (\<lambda>(i, u, qs) m. marshal_Questions (gs_proto svc) (MapQuestionsToProtoMessage (mu_Id u) qs) = Inr m) items ms"
  shows "\<exists>w'. run_state (handle_all (ConsumeQuestions svc) ms) s = (Returned (), s\<lparr>sv_world := w'\<rparr>) \<and>
    stored_questions (kv w') = foldl (\<lambda>f (i, u, qs). f(mg_Hex (ge_mongo env) i \<mapsto> questions_for u qs)) (stored_questions (kv (sv_world s))) items"
  using items ms
proof (induction items arbitrary: s ms)
  case Nil
  then show ?case by (intro exI [of _ "sv_world s"]) (simp add: bb_run)
next
  case (Cons it items)
  obtain i u qs where it: "it = (i, u, qs)" by (cases it)
  obtain m ms' where m: "ms = m # ms'" "marshal_Questions (gs_proto svc) (MapQuestionsToProtoMessage (mu_Id u) qs) = Inr m"
      "list_all2 (\<lambda>(i, u, qs) m. marshal_Questions (gs_proto svc) (MapQuestionsToProtoMessage (mu_Id u) qs) = Inr m) items ms'"
    using Cons.prems(2) by (auto simp: it list_all2_Cons1)
  have game: "has_game (games (sv_world s)) i u" and texts: "\<forall>q \<in> set qs. question_texts_ok q" using Cons.prems(1) by (simp_all add: it)
  obtain g where g: "games (sv_world s) i = Some g" "g_MatchId g = mu_Id u" "g_Players g = mu_UserId u"
      "\<forall>j h. games (sv_world s) j = Some h \<longrightarrow> g_MatchId h = mu_Id u \<longrightarrow> j = i"
    using game by (auto simp: has_game_def)
  obtain w1 h where w1: "run_state (ConsumeQuestions svc m) s = (Returned None, s\<lparr>sv_world := w1\<rparr>)"
      "stored_questions (kv w1) = (stored_questions (kv (sv_world s)))(mg_Hex (ge_mongo env) i \<mapsto> questions_for u qs)"
      "games w1 = (games (sv_world s))(i \<mapsto> h)" "g_MatchId h = g_MatchId g" "g_Players h = g_Players g"
    using ConsumeQuestions_run [OF svc redis mongo clock g(1,2,4) codec m(2) texts] g(2,3) by (auto simp: questions_for_def)
  have "\<forall>(i, u, qs) \<in> set items. has_game (games (sv_world (s\<lparr>sv_world := w1\<rparr>))) i u \<and> (\<forall>q \<in> set qs. question_texts_ok q)"
    using Cons.prems(1) w1(3) has_game_update [where G = "games (sv_world s)", OF _ g(1) w1(4,5)] by auto
  from Cons.IH [OF this m(3)] show ?case using w1(1,2) by (auto simp: m(1) it bb_run)
qed

lemma foldl_upd_other: "k \<notin> K ` set items \<Longrightarrow> foldl (\<lambda>f x. f(K x \<mapsto> V x)) f items k = f k"
  by (induction items arbitrary: f) auto

lemma foldl_upd:
  assumes "distinct (map K items)" and "x \<in> set items"
  shows "foldl (\<lambda>f x. f(K x \<mapsto> V x)) f items (K x) = Some (V x)"
  using assms
proof (induction items arbitrary: f)
  case (Cons y items)
  show ?case
  proof (cases "x = y")
    case True
    then have "K x \<notin> K ` set items" using Cons.prems(1) by auto
    then show ?thesis using True by (simp add: foldl_upd_other del: fun_upd_apply) simp
  qed (use Cons in auto)
qed simp

text \<open>
  C5. Every game of a round gets its questions: the question service answers the message of the round with one
  message per match, and when the game service has worked through those, each game has stored under its id the
  questions that the database gave for the categories of its match, with the players of that match, and is at the
  first of them.
\<close>

theorem round_questions_reach_games:
  assumes deliver: "sarama_delivers sar topic_log (\<lambda>_. ())" "\<And>t m w. fst (run_state (sr_SendMessage sar t m) w) = None"
    and keep: "\<And>c d n. keeps topic_log (GetRandomQuestions_repo db c d n)"
    and codec: "proto_ok P" "gs_proto svc = P" "marshal_AllMatchedUsers P (MapFromEntityToProtoMessage us) = Inr m"
    and total: "\<forall>u \<in> set us. \<forall>qs. (\<forall>q \<in> set qs. question_texts_ok q) \<longrightarrow>
        (\<exists>b. marshal_Questions P (MapQuestionsToProtoMessage (mu_Id u) qs) = Inr b)"
    and known: "\<forall>u \<in> set us. set (mu_Category u) \<subseteq> set GetCategories"
    and texts: "\<forall>u w. \<forall>q \<in> set (questions_at (QuestionRepository db) u w). question_texts_ok q"
    and svc: "gs_repository svc = GameRepository cfg env"
    and redis: "redis_strings (ge_redis env) kv" "redis_frame (ge_redis env) games"
    and mongo: "mongo_games (ge_mongo env) games kv" "mongo_ids (ge_mongo env)"
    and clock: "clock_reads env clock (\<lambda>w. (kv w, games w))"
    and created: "list_all2 (has_game (games (sv_world s))) is us" "distinct is"
  shows "\<exists>v' ms s'. run_state (question_ConsumeMatchCreated P (QuestionRepository db) (KafkaBroker sar) m) v = (None, v') \<and>
    topic_log v' = (topic_log v)(QUESTION_V1_QUESTIONS := topic_log v QUESTION_V1_QUESTIONS @ ms) \<and> length ms = length us \<and>
    run_state (handle_all (ConsumeQuestions svc) ms) s = (Returned (), s') \<and>
    list_all2 (\<lambda>i u. \<exists>w. stored_questions (kv (sv_world s')) (mg_Hex (ge_mongo env) i) =
       Some (questions_for u (questions_at (QuestionRepository db) (to_question_match u) w))) is us"
proof -
  let ?qs = "\<lambda>u. questions_at (QuestionRepository db) (to_question_match u)"
  obtain v' ws where v': "run_state (question_ConsumeMatchCreated P (QuestionRepository db) (KafkaBroker sar) m) v = (None, v')"
      "length ws = length us" "topic_log v' = (topic_log v)(QUESTION_V1_QUESTIONS := topic_log v QUESTION_V1_QUESTIONS @
        map2 (\<lambda>u w. questions_message P (to_question_match u) (?qs u w)) us ws)"
    using question_ConsumeMatchCreated_run [OF deliver keep codec(1,3) known] by blast
  define items where "items = map2 (\<lambda>i (u, w). (i, u, ?qs u w)) is (zip us ws)"
  let ?ms = "map2 (\<lambda>u w. questions_message P (to_question_match u) (?qs u w)) us ws"
  have len: "length is = length us" using list_all2_lengthD [OF created(1)] .
  have item: "items ! k = (is ! k, us ! k, ?qs (us ! k) (ws ! k))" if "k < length us" for k
    using that len v'(2) by (simp add: items_def)
  have n: "length items = length us" using len v'(2) by (simp add: items_def)
  have "\<forall>(i, u, qs) \<in> set items. has_game (games (sv_world s)) i u \<and> (\<forall>q \<in> set qs. question_texts_ok q)"
    using n texts list_all2_nthD2 [OF created(1)] by (auto simp: in_set_conv_nth [of _ items] item)
  moreover have "list_all2 (\<lambda>(i, u, qs) m. marshal_Questions (gs_proto svc) (MapQuestionsToProtoMessage (mu_Id u) qs) = Inr m) items ?ms"
  proof (rule list_all2_all_nthI)
    fix k assume k: "k < length items"
    then obtain b where "marshal_Questions P (MapQuestionsToProtoMessage (mu_Id (us ! k)) (?qs (us ! k) (ws ! k))) = Inr b"
      using total texts n by (metis nth_mem)
    then show "(case items ! k of (i, u, qs) \<Rightarrow> \<lambda>m. marshal_Questions (gs_proto svc) (MapQuestionsToProtoMessage (mu_Id u) qs) = Inr m) (?ms ! k)"
      using k n v'(2) codec(2) by (simp add: item questions_message_def to_question_match_def)
  qed (simp add: n v'(2))
  ultimately obtain w' where w': "run_state (handle_all (ConsumeQuestions svc) ?ms) s = (Returned (), s\<lparr>sv_world := w'\<rparr>)"
      "stored_questions (kv w') = foldl (\<lambda>f (i, u, qs). f(mg_Hex (ge_mongo env) i \<mapsto> questions_for u qs)) (stored_questions (kv (sv_world s))) items"
    using handle_questions [OF svc redis mongo(1) clock _ , of items s ?ms] codec(1,2) by blast
  have "map (\<lambda>(i, u, qs). mg_Hex (ge_mongo env) i) items = map (mg_Hex (ge_mongo env)) is"
    using n len by (intro nth_equalityI) (simp_all add: item)
  moreover have "inj (mg_Hex (ge_mongo env))"
    using mongo(2) by (metis injI mongo_ids_def sum.inject(2))
  ultimately have "distinct (map (\<lambda>(i, u, qs). mg_Hex (ge_mongo env) i) items)"
    using created(2) by (simp add: distinct_map inj_on_subset [OF _ subset_UNIV])
  from foldl_upd [OF this, of _ "\<lambda>(i, u, qs). questions_for u qs" "stored_questions (kv (sv_world s))"]
  have "stored_questions (kv w') (mg_Hex (ge_mongo env) (is ! k)) = Some (questions_for (us ! k) (?qs (us ! k) (ws ! k)))"
    if "k < length us" for k
    using that n item [OF that] nth_mem [of k items] unfolding w'(2) by (fastforce simp: split_def)
  then have "list_all2 (\<lambda>i u. \<exists>w. stored_questions (kv w') (mg_Hex (ge_mongo env) i) = Some (questions_for u (?qs u w))) is us"
    using len by (auto intro!: list_all2_all_nthI)
  moreover have "length ?ms = length us" using v'(2) by simp
  ultimately show ?thesis using v'(1,3) w'(1) by (intro exI [of _ v'] exI [of _ ?ms] exI [of _ "s\<lparr>sv_world := w'\<rparr>"]) simp
qed

end
