(* ===== verification/Game_Goroutines.thy ===== *)
theory Game_Goroutines
  imports Game_Start Game_Matches
begin

text \<open>
  The goroutines that a round of matches leaves behind, in every order in which they can be
  scheduled: \<open>task_step\<close> runs any one of those that wait, and a run is a chain of such steps.
\<close>

section \<open>Scheduling\<close>

inductive task_step :: "'w game_service \<Rightarrow> nat \<Rightarrow> 'w game_svc \<Rightarrow> unit outcome \<Rightarrow> 'w game_svc \<Rightarrow> bool" where
  Pick: "sv_tasks s = ts @ t # ts' \<Longrightarrow> run_state (run_task svc n t) (s\<lparr>sv_tasks := ts @ ts'\<rparr>) = (r, s') \<Longrightarrow>
    task_step svc n s r s'"

inductive_cases task_stepE: "task_step svc n s r s'"

lemma task_step_exists: "(\<exists>r s'. task_step svc n s r s') \<longleftrightarrow> sv_tasks s \<noteq> []"
proof
  assume "sv_tasks s \<noteq> []"
  then obtain t ts where "sv_tasks s = [] @ t # ts" by (cases "sv_tasks s") auto
  then show "\<exists>r s'. task_step svc n s r s'" by (meson Pick surj_pair)
qed (auto elim: task_stepE)

text \<open>\<open>k\<close> goroutines have run, and none of them panicked.\<close>

abbreviation tasks_run :: "'w game_service \<Rightarrow> nat \<Rightarrow> nat \<Rightarrow> 'w game_svc \<Rightarrow> 'w game_svc \<Rightarrow> bool" where
  "tasks_run svc n k \<equiv> (\<lambda>s s'. task_step svc n s (Returned ()) s') ^^ k"

section \<open>The goroutines of a round\<close>

definition round_task :: "(string \<times> u64 list) list \<Rightarrow> 'w game_task \<Rightarrow> bool" where
  "round_task gus t \<longleftrightarrow> (\<exists>(gid, us) \<in> set gus. t = SaveUsersGameStatus us GameStatusPending \<or>
     t = SaveGameStatus gid None (Some (int (length us))) \<or> (\<exists>u \<in> set us. t = SaveUserStatus u GameStatusPending))"

text \<open>Each user has the status or a goroutine that will store it; each game has its room or a goroutine that will make it.\<close>

definition user_settles :: "'w game_task set \<Rightarrow> (string \<rightharpoonup> string) \<Rightarrow> u64 list \<Rightarrow> u64 \<Rightarrow> bool" where
  "user_settles ts m us u \<longleftrightarrow> stored_status m u = Some GameStatusPending \<or>
     SaveUserStatus u GameStatusPending \<in> ts \<or> SaveUsersGameStatus us GameStatusPending \<in> ts"

definition game_settles :: "'w game_task set \<Rightarrow> (string \<rightharpoonup> string) \<Rightarrow> string \<Rightarrow> nat \<Rightarrow> bool" where
  "game_settles ts m gid n \<longleftrightarrow> ready_status m gid (Some (int n, [])) \<or>
     ready_status m gid None \<and> SaveGameStatus gid None (Some (int n)) \<in> ts"

definition settling :: "('w \<Rightarrow> string \<rightharpoonup> string) \<Rightarrow> (string \<times> u64 list) list \<Rightarrow> 'w game_svc \<Rightarrow> bool" where
  "settling kv gus s \<longleftrightarrow> (\<forall>t \<in> set (sv_tasks s). round_task gus t) \<and>
     (\<forall>(gid, us) \<in> set gus. game_settles (set (sv_tasks s)) (kv (sv_world s)) gid (length us) \<and>
        (\<forall>u \<in> set us. user_settles (set (sv_tasks s)) (kv (sv_world s)) us u))"

definition task_work :: "'w game_task \<Rightarrow> nat" where
  "task_work t = (case t of SaveUsersGameStatus us _ \<Rightarrow> Suc (length us) | _ \<Rightarrow> 1)"

definition work_left :: "'w game_svc \<Rightarrow> nat" where
  "work_left s = sum_list (map task_work (sv_tasks s))"

definition rooms_ok :: "(string \<times> u64 list) list \<Rightarrow> bool" where
  "rooms_ok gus \<longleftrightarrow> distinct (map fst gus) \<and> (\<forall>(gid, us) \<in> set gus. length us < 2 ^ 62)"

text \<open>What one goroutine does.\<close>

lemma run_SaveUsers:
  "run_state (run_task svc n (SaveUsersGameStatus us st)) s =
    (Returned (), s\<lparr>sv_tasks := sv_tasks s @ map (\<lambda>u. SaveUserStatus u st) us\<rparr>)"
proof -
  have "run_state (for_each us (\<lambda>u. go (SaveUserStatus u st))) s =
      ((), s\<lparr>sv_tasks := sv_tasks s @ map (\<lambda>u. SaveUserStatus u st) us\<rparr>)"
    by (induction us arbitrary: s) (simp_all add: go_def bb_run)
  then show ?thesis by (simp add: run_task_def saveUsersGameStatus_def bb_run)
qed

lemma run_SaveUser:
  assumes "gs_repository svc = GameRepository cfg env" and "redis_strings (ge_redis env) kv"
  shows "\<exists>w'. run_state (run_task svc n (SaveUserStatus u GameStatusPending)) s = (Returned (), s\<lparr>sv_world := w'\<rparr>) \<and>
    stored_status (kv w') = (stored_status (kv (sv_world s)))(u \<mapsto> GameStatusPending) \<and>
    (\<forall>gid. kv w' (GameStatusPrefix @ gid) = kv (sv_world s) (GameStatusPrefix @ gid))"
proof -
  obtain w' where w': "run_state (UpsertUserStatus cfg env u GameStatusPending) (sv_world s) = (None, w')"
      "kv w' = (kv (sv_world s))(GameUserStatusPrefix @ FormatUint u \<mapsto> GameStatusPending)"
      "stored_status (kv w') = (stored_status (kv (sv_world s)))(u \<mapsto> MapToGameStatus GameStatusPending)"
    using UpsertUserStatus_run [OF assms(2)] by blast
  have "MapToGameStatus GameStatusPending = GameStatusPending"
    by (rule MapToGameStatus_kept) (simp add: status_kept_def GetGameStatus_def)
  moreover have "GameStatusPrefix @ gid \<noteq> GameUserStatusPrefix @ FormatUint u" for gid by (simp add: prefix_defs)
  ultimately show ?thesis
    using w' by (intro exI [of _ w']) (simp add: run_task_def assms(1) GameRepository_def bb_run)
qed

lemma run_SaveGame:
  assumes repo: "gs_repository svc = GameRepository cfg env" and redis: "redis_strings (ge_redis env) kv"
    and st: "ready_status (kv (sv_world s)) gid None \<or> ready_status (kv (sv_world s)) gid (Some (int k, []))" and k: "k < 2 ^ 62"
  shows "\<exists>w'. run_state (run_task svc n (SaveGameStatus gid None (Some (int k)))) s = (Returned (), s\<lparr>sv_world := w'\<rparr>) \<and>
    ready_status (kv w') gid (Some (int k, [])) \<and> (\<forall>x. x \<noteq> GameStatusPrefix @ gid \<longrightarrow> kv w' x = kv (sv_world s) x)"
proof -
  let ?e = "GameCreated (int k)"
  obtain st where st: "ready_status (kv (sv_world s)) gid st" "st = None \<or> st = Some (int k, [])" using st by blast
  have ok: "status_ok st" "event_ok ?e" using st(2) k by (auto simp: status_ok_def event_ok_def index_ok_def)
  have "ready_step st ?e (Inr (st \<noteq> None \<and> k = 0)) (Some (int k, []))"
    using st(2) ready_step.Full [of 0 "[]"] by (cases k) (auto intro: ready_step.intros)
  with UpsertReadyPlayer_step [OF redis st(1) ok, of cfg] obtain r w' where
      w': "run_state (ready_event_run cfg env gid ?e) (sv_world s) = (Returned r, w')" "ready_status (kv w') gid (Some (int k, []))"
    by (metis ready_step_deterministic)
  have "kv w' x = kv (sv_world s) x" if "x \<noteq> GameStatusPrefix @ gid" for x
    using keepsD [OF keeps_other_key [OF redis that], of cfg None "Some (int k)" "sv_world s"] w'(1) by (simp add: ready_event_run_def)
  then show ?thesis
    using w' by (intro exI [of _ w']) (simp add: run_task_def saveGameStatus_def ready_event_run_def repo GameRepository_def bb_run)
qed

section \<open>Settling\<close>

lemma user_settles_kept:
  "user_settles ts m us u \<Longrightarrow> ts - {t} \<subseteq> ts' \<Longrightarrow> stored_status m' = stored_status m \<or> stored_status m' = (stored_status m)(v \<mapsto> GameStatusPending) \<Longrightarrow>
    t = SaveUserStatus u GameStatusPending \<longrightarrow> stored_status m' u = Some GameStatusPending \<Longrightarrow>
    t = SaveUsersGameStatus us GameStatusPending \<longrightarrow> SaveUserStatus u GameStatusPending \<in> ts' \<Longrightarrow> user_settles ts' m' us u"
  by (auto simp: user_settles_def split: if_splits)

lemma game_settles_kept:
  assumes "game_settles ts m gid k" and "ts - {t} \<subseteq> ts'" and "m' (GameStatusPrefix @ gid) = m (GameStatusPrefix @ gid)"
    and "t \<noteq> SaveGameStatus gid None (Some (int k))"
  shows "game_settles ts' m' gid k"
  using assms by (auto simp: game_settles_def ready_status_def)

text \<open>One step of any of them.\<close>

lemma settlingI:
  assumes "\<And>t. t \<in> set (sv_tasks s) \<Longrightarrow> round_task gus t"
    and "\<And>gid us. (gid, us) \<in> set gus \<Longrightarrow> game_settles (set (sv_tasks s)) (kv (sv_world s)) gid (length us)"
    and "\<And>gid us u. (gid, us) \<in> set gus \<Longrightarrow> u \<in> set us \<Longrightarrow> user_settles (set (sv_tasks s)) (kv (sv_world s)) us u"
  shows "settling kv gus s"
  using assms by (auto simp: settling_def)

lemma settlingD:
  assumes "settling kv gus s" and "(gid, us) \<in> set gus"
  shows "game_settles (set (sv_tasks s)) (kv (sv_world s)) gid (length us)"
    and "u \<in> set us \<Longrightarrow> user_settles (set (sv_tasks s)) (kv (sv_world s)) us u"
  using assms by (auto simp: settling_def)

lemma settling_step:
  assumes repo: "gs_repository svc = GameRepository cfg env" and redis: "redis_strings (ge_redis env) kv" and rooms: "rooms_ok gus"
    and inv: "settling kv gus s" and step: "task_step svc n s r s'"
  shows "r = Returned () \<and> settling kv gus s' \<and> work_left s = Suc (work_left s')"
  using step
proof (cases rule: task_step.cases)
  case (Pick ts t ts')
  let ?s = "s\<lparr>sv_tasks := ts @ ts'\<rparr>" and ?T = "set (sv_tasks s)" and ?m = "kv (sv_world s)"
  have tasks: "\<And>t'. t' \<in> set (ts @ ts') \<Longrightarrow> round_task gus t'" and rt: "round_task gus t"
    using inv Pick(1) by (auto simp: settling_def)
  have rest: "?T - {t} \<subseteq> set (ts @ ts')" using Pick(1) by auto
  have work: "work_left s = task_work t + work_left ?s" by (simp add: work_left_def Pick(1))
  obtain gid us where g: "(gid, us) \<in> set gus" and t: "t = SaveUsersGameStatus us GameStatusPending \<or>
      t = SaveGameStatus gid None (Some (int (length us))) \<or> (\<exists>u \<in> set us. t = SaveUserStatus u GameStatusPending)"
    using rt by (auto simp: round_task_def)
  from t consider (users) "t = SaveUsersGameStatus us GameStatusPending" | (game) "t = SaveGameStatus gid None (Some (int (length us)))"
    | (user) u where "u \<in> set us" "t = SaveUserStatus u GameStatusPending" by blast
  then show ?thesis
  proof cases
    case users
    have run: "r = Returned ()" "s' = ?s\<lparr>sv_tasks := (ts @ ts') @ map (\<lambda>u. SaveUserStatus u GameStatusPending) us\<rparr>"
      using Pick(2) run_SaveUsers [of svc n us GameStatusPending ?s] users by simp_all
    have "settling kv gus s'"
    proof (rule settlingI)
      show "round_task gus t'" if "t' \<in> set (sv_tasks s')" for t'
        using that tasks g by (auto simp: run(2) round_task_def)
      show "game_settles (set (sv_tasks s')) (kv (sv_world s')) gid' (length us')" if "(gid', us') \<in> set gus" for gid' us'
        using rest users by (intro game_settles_kept [OF settlingD(1) [OF inv that], of t]) (auto simp: run(2))
      show "user_settles (set (sv_tasks s')) (kv (sv_world s')) us' u" if "(gid', us') \<in> set gus" "u \<in> set us'" for gid' us' u
        using rest users that(2) by (intro user_settles_kept [OF settlingD(2) [OF inv that], of t]) (auto simp: run(2))
    qed
    with run work users show ?thesis by (simp add: work_left_def task_work_def comp_def sum_list_triv)
  next
    case game
    have len: "length us < 2 ^ 62" using rooms g by (auto simp: rooms_ok_def)
    have st: "ready_status (kv (sv_world ?s)) gid None \<or> ready_status (kv (sv_world ?s)) gid (Some (int (length us), []))"
      using settlingD(1) [OF inv g] by (auto simp: game_settles_def)
    obtain w' where w': "run_state (run_task svc n t) ?s = (Returned (), ?s\<lparr>sv_world := w'\<rparr>)"
        "ready_status (kv w') gid (Some (int (length us), []))" "\<And>x. x \<noteq> GameStatusPrefix @ gid \<Longrightarrow> kv w' x = ?m x"
      using run_SaveGame [OF repo redis st len, of n] unfolding game by auto
    have run: "r = Returned ()" "s' = ?s\<lparr>sv_world := w'\<rparr>" using Pick(2) w'(1) by simp_all
    have same: "stored_status (kv w') = stored_status ?m"
      using w'(3) by (simp add: stored_status_def fun_eq_iff prefix_defs)
    have "settling kv gus s'"
    proof (rule settlingI)
      show "round_task gus t'" if "t' \<in> set (sv_tasks s')" for t' using that tasks by (simp add: run(2))
      show "game_settles (set (sv_tasks s')) (kv (sv_world s')) gid' (length us')" if g': "(gid', us') \<in> set gus" for gid' us'
      proof (cases "gid' = gid")
        case True
        then have "us' = us" using rooms g g' by (auto simp: rooms_ok_def dest: eq_key_imp_eq_value)
        with True w'(2) show ?thesis by (simp add: game_settles_def run(2))
      next
        case False
        then show ?thesis
          using rest game w'(3) by (intro game_settles_kept [OF settlingD(1) [OF inv g'], of t]) (auto simp: run(2))
      qed
      show "user_settles (set (sv_tasks s')) (kv (sv_world s')) us' u" if "(gid', us') \<in> set gus" "u \<in> set us'" for gid' us' u
        using rest game same by (intro user_settles_kept [OF settlingD(2) [OF inv that], of t]) (auto simp: run(2))
    qed
    with run work game show ?thesis by (simp add: work_left_def task_work_def)
  next
    case (user v)
    obtain w' where w': "run_state (run_task svc n t) ?s = (Returned (), ?s\<lparr>sv_world := w'\<rparr>)"
        "stored_status (kv w') = (stored_status ?m)(v \<mapsto> GameStatusPending)"
        "\<And>gid. kv w' (GameStatusPrefix @ gid) = ?m (GameStatusPrefix @ gid)"
      using run_SaveUser [OF repo redis, of n v ?s] user(2) by auto
    have run: "r = Returned ()" "s' = ?s\<lparr>sv_world := w'\<rparr>" using Pick(2) w'(1) by simp_all
    have "settling kv gus s'"
    proof (rule settlingI)
      show "round_task gus t'" if "t' \<in> set (sv_tasks s')" for t' using that tasks by (simp add: run(2))
      show "game_settles (set (sv_tasks s')) (kv (sv_world s')) gid' (length us')" if "(gid', us') \<in> set gus" for gid' us'
        using rest user(2) w'(3) by (intro game_settles_kept [OF settlingD(1) [OF inv that], of t]) (auto simp: run(2))
      show "user_settles (set (sv_tasks s')) (kv (sv_world s')) us' u" if "(gid', us') \<in> set gus" "u \<in> set us'" for gid' us' u
        using rest user(2) w'(2) by (intro user_settles_kept [OF settlingD(2) [OF inv that], of t]) (auto simp: run(2))
    qed
    with run work user show ?thesis by (simp add: work_left_def task_work_def)
  qed
qed

lemma settling_run:
  assumes repo: "gs_repository svc = GameRepository cfg env" and redis: "redis_strings (ge_redis env) kv" and rooms: "rooms_ok gus"
    and inv: "settling kv gus s"
  shows "tasks_run svc n k s s' \<Longrightarrow> settling kv gus s' \<and> work_left s = k + work_left s'"
proof (induction k arbitrary: s')
  case (Suc k)
  then obtain s1 where "tasks_run svc n k s s1" "task_step svc n s1 (Returned ()) s'" by auto
  with Suc.IH [of s1] settling_step [OF repo redis rooms, of s1 n "Returned ()" s'] show ?case by simp
qed (simp add: inv)

lemma settling_start:
  assumes "\<forall>(gid, us) \<in> set gus. kv (sv_world s) (GameStatusPrefix @ gid) = None" and "sv_tasks s = match_tasks gus"
  shows "settling kv gus s \<and> work_left s = (\<Sum>(gid, us) \<leftarrow> gus. length us + 2)"
proof
  show "settling kv gus s"
    using assms by (intro settlingI) (auto simp: match_tasks_def round_task_def game_settles_def user_settles_def ready_status_def)
  have "sum_list (map task_work (match_tasks gus)) = (\<Sum>(gid, us) \<leftarrow> gus. length us + 2)"
    by (induction gus) (auto simp: match_tasks_def task_work_def)
  then show "work_left s = (\<Sum>(gid, us) \<leftarrow> gus. length us + 2)" by (simp add: work_left_def assms(2))
qed

text \<open>
  C10. The goroutines of a round settle in whatever order they are scheduled: none of them panics, after two for
  each match and one for each player none is left, and then every player of the round has the status PENDING and
  every new game waits for exactly its players with none of them ready.
\<close>

theorem round_goroutines_settle:
  assumes repo: "gs_repository svc = GameRepository cfg env" and redis: "redis_strings (ge_redis env) kv" and rooms: "rooms_ok gus"
    and new: "\<forall>(gid, us) \<in> set gus. kv (sv_world s) (GameStatusPrefix @ gid) = None" and tasks: "sv_tasks s = match_tasks gus"
    and run: "tasks_run svc n k s s'"
  shows "k \<le> (\<Sum>(gid, us) \<leftarrow> gus. length us + 2) \<and> (\<nexists>p s''. task_step svc n s' (Panicked p) s'') \<and>
    (k < (\<Sum>(gid, us) \<leftarrow> gus. length us + 2) \<longrightarrow> (\<exists>s''. task_step svc n s' (Returned ()) s'')) \<and>
    (k = (\<Sum>(gid, us) \<leftarrow> gus. length us + 2) \<longrightarrow> sv_tasks s' = [] \<and> (\<forall>(gid, us) \<in> set gus.
       ready_status (kv (sv_world s')) gid (Some (int (length us), [])) \<and>
       (\<forall>u \<in> set us. stored_status (kv (sv_world s')) u = Some GameStatusPending)))"
proof -
  have inv: "settling kv gus s'" "(\<Sum>(gid, us) \<leftarrow> gus. length us + 2) = k + work_left s'"
    using settling_run [OF repo redis rooms _ run] settling_start [where kv = kv, OF new tasks] by auto
  have step: "r = Returned ()" if "task_step svc n s' r s''" for r s''
    using settling_step [OF repo redis rooms inv(1) that] by simp
  have left: "work_left s' = 0 \<longleftrightarrow> sv_tasks s' = []"
    by (cases "sv_tasks s'") (simp_all add: work_left_def task_work_def split: game_task.split)
  have "\<exists>s''. task_step svc n s' (Returned ()) s''" if "sv_tasks s' \<noteq> []"
    using that step task_step_exists by metis
  moreover have "ready_status (kv (sv_world s')) gid (Some (int (length us), [])) \<and>
      (\<forall>u \<in> set us. stored_status (kv (sv_world s')) u = Some GameStatusPending)" if "sv_tasks s' = []" "(gid, us) \<in> set gus" for gid us
    using settlingD [OF inv(1) that(2)] that(1) by (simp add: game_settles_def user_settles_def)
  ultimately show ?thesis using inv(2) left step by fastforce
qed

end
