(* ===== verification/Service_World.thy ===== *)
theory Service_World
  imports Game_Witnesses Question_Witnesses Game_Start Game_Play Whole_Game Game_Matches Match_To_Game Questions_To_Games Game_Goroutines
    "HOL-Library.Countable"
begin

text \<open>
  The concrete world extended by connections, a task queue and what a client has sent, and the
  game service of the repository wired to it.
\<close>

record svc_world = game_world +
  sw_sent :: frames
  sw_alive :: "conn \<Rightarrow> bool"
  sw_queue :: queue
  sw_inbox :: "(string \<times> OpCode) list"

definition ref_gobwas :: "svc_world gobwas" where
  "ref_gobwas = \<lparr>
     gb_UpgradeHTTP = effect (Inr (13, [])) (\<lambda>w. w\<lparr>sw_alive := (sw_alive w)(13 := True)\<rparr>),
     gb_ReadClientData = (\<lambda>c. State (\<lambda>w. case sw_inbox w of
        [] \<Rightarrow> (([], OpText, Some (PlainErr ''EOF'')), w)
      | (m, code) # rest \<Rightarrow> ((m, code, None), w\<lparr>sw_inbox := rest\<rparr>))),
     gb_WriteServerMessage = (\<lambda>c code m. case c of
        None \<Rightarrow> ret (Panicked NilDereference)
      | Some c \<Rightarrow> State (\<lambda>w. if sw_alive w c then (Returned None, w\<lparr>sw_sent := (sw_sent w)(c := sw_sent w c @ [(code, m)])\<rparr>)
          else (Returned (Some (PlainErr ''closed'')), w))),
     gb_Close = (\<lambda>c. effect None (\<lambda>w. w\<lparr>sw_alive := (sw_alive w)(c := False)\<rparr>))\<rparr>"

lemma ref_gobwas_ok:
  assumes "\<And>w x. other (w\<lparr>sw_sent := x\<rparr>) = other w" and "\<And>w x. other (w\<lparr>sw_alive := x\<rparr>) = other w"
  shows "gobwas_ok ref_gobwas sw_sent sw_alive other"
  by (auto simp: gobwas_ok_def ref_gobwas_def assms)

definition ref_asynq :: "svc_world asynq" where
  "ref_asynq = \<lparr>aq_EnqueueContext = (\<lambda>t d os. effect (Inr ''task'') (\<lambda>w. w\<lparr>sw_queue := sw_queue w @ [(t, d, os)]\<rparr>))\<rparr>"

lemma ref_asynq_ok: "(\<And>w x. other (w\<lparr>sw_queue := x\<rparr>) = other w) \<Longrightarrow> asynq_ok ref_asynq sw_queue other"
  by (simp add: asynq_ok_def ref_asynq_def)

definition ref_svc_proto :: proto_codec where
  "ref_svc_proto = table_proto [(MapFromEntityToProtoMessage ref_round, ''round'')]
     [(\<lparr>pb_WaitingUserId = 7, pb_WaitingCategory = ''MUSIC''\<rparr>, ''music''), (\<lparr>pb_WaitingUserId = 7, pb_WaitingCategory = ''CHESS''\<rparr>, ''chess'')]
     [(MapQuestionsToProtoMessage ''m1'' [ref_question], ''questions'')]"

lemma ref_svc_proto_ok: "proto_ok ref_svc_proto"
  unfolding ref_svc_proto_def by (rule table_proto_ok) simp_all

definition ref_svc :: "svc_world game_service" where
  "ref_svc = NewService (GameRepository ref_repo_config ref_game_env) (WS ref_gobwas) (KafkaBroker ref_sarama)
     (AsynqTaskQueuePublisher ref_asynq) ref_svc_proto (ge_Now ref_game_env)"

lemma ref_svc_simps [simp]:
  "gs_repository ref_svc = GameRepository ref_repo_config ref_game_env" "gs_webSocket ref_svc = WS ref_gobwas"
  "gs_broker ref_svc = KafkaBroker ref_sarama" "gs_proto ref_svc = ref_svc_proto"
  "gs_taskPublisher ref_svc = AsynqTaskQueuePublisher ref_asynq" "gs_Now ref_svc = ge_Now ref_game_env"
  by (simp_all add: ref_svc_def)

lemma ref_views [simp]:
  "ref_kv (w\<lparr>sw_sent := x\<rparr>) = ref_kv w" "ref_kv (w\<lparr>sw_alive := y\<rparr>) = ref_kv w" "ref_kv (w\<lparr>sw_queue := z\<rparr>) = ref_kv w"
  "ref_games (w\<lparr>sw_sent := x\<rparr>) = ref_games w" "ref_games (w\<lparr>sw_alive := y\<rparr>) = ref_games w"
  by (simp_all add: ref_kv_def ref_games_def)

lemma ref_game_up: "game_up ref_game_env ref_gobwas ref_asynq ref_kv sw_sent sw_alive sw_queue (\<lambda>_. 0)"
  by (simp add: game_up_def ref_strings ref_redis_frame ref_clock_reads ref_gobwas_ok ref_asynq_ok)

section \<open>Two players and a question\<close>

definition ref_status :: "int list \<Rightarrow> string" where
  "ref_status ps = json_print (enc_gameStatus \<lparr>gs_ExpectedNumberOfPlayers = 2, gs_Players = ps\<rparr>)"

definition svc_world1 :: "int list \<Rightarrow> svc_world" where
  "svc_world1 ps = \<lparr>w_kv = [(GameStatusPrefix @ ''1'', ref_status ps),
       (QuestionsPrefix @ ''1'', buff_of (Marshal (enc_GameQuestions ref_game_questions)))],
     w_zsets = (\<lambda>_. []), w_topics = (\<lambda>_. []), w_clock = 0, w_calls = 0,
     gw_games = [(1, ref_game)], gw_answers = [], gw_cursor = [],
     sw_sent = (\<lambda>_. []), sw_alive = (\<lambda>_. True), sw_queue = [], sw_inbox = [(''x'', OpText)]\<rparr>"

lemma svc_world1_simps [simp]:
  "w_kv (svc_world1 ps) = [(GameStatusPrefix @ ''1'', ref_status ps),
     (QuestionsPrefix @ ''1'', buff_of (Marshal (enc_GameQuestions ref_game_questions)))]"
  "gw_games (svc_world1 ps) = [(1, ref_game)]" "gw_answers (svc_world1 ps) = []" "sw_sent (svc_world1 ps) = (\<lambda>_. [])"
  "sw_alive (svc_world1 ps) = (\<lambda>_. True)" "sw_queue (svc_world1 ps) = []" "sw_inbox (svc_world1 ps) = [(''x'', OpText)]"
  "w_topics (svc_world1 ps) = (\<lambda>_. [])"
  by (simp_all add: svc_world1_def)

lemma svc_world1_ready:
  assumes "list_all index_ok ps"
  shows "ready_status (ref_kv (svc_world1 ps)) ''1'' (Some (2, ps))"
  using gameStatus_round_trip [of 2 ps] assms
  by (simp add: ready_status_def ref_kv_def ref_status_def index_ok_def)

lemma svc_world1_stored: "stored_questions (ref_kv (svc_world1 ps)) ''1'' = Some ref_game_questions"
proof -
  obtain bs where "Marshal (enc_GameQuestions ref_game_questions) = Inr bs"
      "Unmarshal dec_GameQuestions zero_GameQuestions bs = Inr ref_game_questions"
    using Marshal_questions [OF ref_questions_valid] by blast
  then show ?thesis
    by (simp add: stored_questions_def ref_kv_def QuestionsPrefix_def GameStatusPrefix_def)
qed

definition ref_state :: "int list \<Rightarrow> svc_world game_svc" where
  "ref_state ps = \<lparr>sv_world = svc_world1 ps, sv_connections = [1 \<mapsto> 11, 2 \<mapsto> 12], sv_tasks = []\<rparr>"

lemma ref_state_simps [simp]:
  "sv_world (ref_state ps) = svc_world1 ps" "sv_connections (ref_state ps) = [1 \<mapsto> 11, 2 \<mapsto> 12]" "sv_tasks (ref_state ps) = []"
  by (simp_all add: ref_state_def)

section \<open>Messages\<close>

definition ref_request :: "Command \<Rightarrow> string \<Rightarrow> string \<Rightarrow> ProcessGameMessageRequest" where
  "ref_request cmd gid cat = zero_MessageRequest\<lparr>mq_Command := cmd, mq_GameId := gid, mq_Category := cat\<rparr>"

definition ref_message :: "Command \<Rightarrow> string \<Rightarrow> string \<Rightarrow> string" where
  "ref_message cmd gid cat = json_print (JObj [(''command'', JStr cmd), (''gameId'', JStr gid), (''category'', JStr cat)])"

lemma ref_message_decodes:
  assumes "list_all utf8_valid [cmd, gid, cat]"
  shows "Unmarshal dec_MessageRequest zero_MessageRequest (ref_message cmd gid cat) = Inr (ref_request cmd gid cat)"
proof -
  have "list_all utf8_valid [''command'', ''gameId'', ''category'']"
    unfolding list_all_iff by (intro ballI utf8_valid_ascii) auto
  then have "json_parse (ref_message cmd gid cat) = Some (JObj [(''command'', JStr cmd), (''gameId'', JStr gid), (''category'', JStr cat)])"
    using assms unfolding ref_message_def by (intro json_parse_print) simp_all
  then show ?thesis
    by (simp add: Unmarshal_def dec_MessageRequest_def dec_struct_def find_field_def field_def dec_string_def ref_request_def
        zero_MessageRequest_def)
qed

definition ref_play_request :: ProcessGameMessageRequest where
  "ref_play_request = zero_MessageRequest\<lparr>mq_Command := CommandAnswer, mq_GameId := ''1'',
     mq_GameAnswer := \<lparr>ga_GameId = ''1'', ga_QuestionId = ''q1'', ga_Answer = ''4''\<rparr>\<rparr>"

definition ref_play_message :: string where
  "ref_play_message = json_print (JObj [(''command'', JStr CommandAnswer), (''gameId'', JStr ''1''),
     (''answer'', JObj [(''gameId'', JStr ''1''), (''questionId'', JStr ''q1''), (''choice'', JStr ''4'')])])"

lemma ref_play_decodes: "Unmarshal dec_MessageRequest zero_MessageRequest ref_play_message = Inr ref_play_request"
proof -
  have "list_all utf8_valid [''command'', ''gameId'', ''answer'', ''questionId'', ''choice'', CommandAnswer, ''1'', ''q1'', ''4'']"
    unfolding list_all_iff by (intro ballI utf8_valid_ascii) (auto simp: command_defs)
  then have "json_parse ref_play_message = Some (JObj [(''command'', JStr CommandAnswer), (''gameId'', JStr ''1''),
      (''answer'', JObj [(''gameId'', JStr ''1''), (''questionId'', JStr ''q1''), (''choice'', JStr ''4'')])])"
    unfolding ref_play_message_def by (intro json_parse_print) simp_all
  then show ?thesis
    by (simp add: Unmarshal_def dec_MessageRequest_def dec_Answer_def dec_struct_def find_field_def field_def dec_string_def
        ref_play_request_def zero_MessageRequest_def)
qed

lemma ref_texts: "list_all utf8_valid [CommandReady, ''1'', [], CommandAddToWaitingList, ''MUSIC'', ''CHESS'']"
  unfolding list_all_iff by (intro ballI utf8_valid_ascii) (auto simp: command_defs)

section \<open>A codec for every round\<close>

text \<open>The messages of matches and of questions are numbered, so that each of them has an encoding.\<close>

definition pb_fields :: "PbAllMatchedUsers \<Rightarrow> (nat list \<times> string list \<times> string) list" where
  "pb_fields m = map (\<lambda>u. (map unat (pb_UserId u), pb_Category u, pb_MatchId u)) (pb_Users m)"

definition pb_of_fields :: "(nat list \<times> string list \<times> string) list \<Rightarrow> PbAllMatchedUsers" where
  "pb_of_fields fs = \<lparr>pb_Users = map (\<lambda>(ids, cs, mid). \<lparr>pb_UserId = map of_nat ids, pb_Category = cs, pb_MatchId = mid\<rparr>) fs\<rparr>"

lemma pb_of_fields [simp]: "pb_of_fields (pb_fields m) = m"
  by (cases m) (simp add: pb_of_fields_def pb_fields_def comp_def map_idI)

definition pb_question_fields :: "PbQuestions \<Rightarrow> string \<times> (string \<times> string \<times> string \<times> string list \<times> string \<times> string) list" where
  "pb_question_fields m = (pb_QuestionsMatchId m, map (\<lambda>q. (pb_QuestionId q, pb_Content q, pb_CorrectAnswer q, pb_Choices q,
     pb_QuestionCategory q, pb_Difficulty q)) (pb_Questions m))"

definition pb_of_question_fields :: "string \<times> (string \<times> string \<times> string \<times> string list \<times> string \<times> string) list \<Rightarrow> PbQuestions" where
  "pb_of_question_fields = (\<lambda>(mid, fs). \<lparr>pb_QuestionsMatchId = mid, pb_Questions = map (\<lambda>(i, c, a, cs, k, d).
     \<lparr>pb_QuestionId = i, pb_Content = c, pb_CorrectAnswer = a, pb_Choices = cs, pb_QuestionCategory = k, pb_Difficulty = d\<rparr>) fs\<rparr>)"

lemma pb_of_question_fields [simp]: "pb_of_question_fields (pb_question_fields m) = m"
  by (cases m) (simp add: pb_of_question_fields_def pb_question_fields_def comp_def map_idI)

definition counted_proto :: proto_codec where
  "counted_proto = (table_proto [] [] [])\<lparr>
     marshal_AllMatchedUsers := (\<lambda>m. Inr (dec_digits (to_nat (pb_fields m)))),
     unmarshal_AllMatchedUsers := (\<lambda>b. Inr (pb_of_fields (from_nat (read_nat b)))),
     marshal_Questions := (\<lambda>m. Inr (dec_digits (to_nat (pb_question_fields m)))),
     unmarshal_Questions := (\<lambda>b. Inr (pb_of_question_fields (from_nat (read_nat b))))\<rparr>"

lemma counted_proto_ok: "proto_ok counted_proto"
  using table_proto_ok [of "[]" "[]" "[]"] by (simp add: proto_ok_def counted_proto_def)

end
