(* ===== verification/Service_Witnesses.thy ===== *)
theory Service_Witnesses
  imports Service_World
begin

text \<open>The theorems about the game service applied to the concrete world.\<close>

section \<open>Start\<close>

lemma ref_timeout: "rc_ValidAnswerTimeOut ref_repo_config = 120000000000"
  by (simp add: ref_repo_config_def)

lemma ref_times: "zero_time \<le> 0 \<and> 0 + 120000000000 * int 1 < year_10000"
  by (simp add: zero_time_def year_10000_def)

lemma ref_conns: "map (sv_connections (ref_state ps)) (gq_Players ref_game_questions) = map Some [11, 12]"
  by (simp add: ref_game_questions_def)

lemma ref_one_question: "length (gq_Questions ref_game_questions) = 1"
  by (simp add: ref_game_questions_def)

lemma ref_ready_message:
  "Unmarshal dec_MessageRequest zero_MessageRequest (ref_message CommandReady ''1'' []) = Inr (ref_request CommandReady ''1'' [])"
  using ref_message_decodes [of CommandReady "''1''" "[]"] ref_texts by simp

lemma ref_request_simps [simp]:
  "mq_Command (ref_request c g k) = c" "mq_GameId (ref_request c g k) = g" "mq_Category (ref_request c g k) = k"
  by (simp_all add: ref_request_def)

lemma ref_small: "120000000000 * int (1 * (1 + 1)) < 2 ^ 63" "(0 :: int) < 120000000000"
  by simp_all

lemma ref_stored: "stored_questions (ref_kv (sv_world (ref_state ps))) (mq_GameId (ref_request c ''1'' k)) = Some ref_game_questions"
  by (simp add: svc_world1_stored)

lemma last_ready_starts_game_witness:
  "\<exists>w' ts final j. run_state (readMessage ref_svc 2 12 OpText (ref_message CommandReady ''1'' [])) (ref_state [1]) =
      (Returned None, ref_state [1]\<lparr>sv_world := w'\<rparr>) \<and>
    sw_sent w' = delivered [11, 12] (OpText, json_print j) (\<lambda>_. []) \<and>
    sw_queue w' = [(GameCompleted, json_print (completion_payload ''1''), [asynq_MaxRetry 3, asynq_ProcessIn final])]"
proof -
  have last: "ready_status (ref_kv (sv_world (ref_state [1]))) (mq_GameId (ref_request CommandReady ''1'' [])) (Some (2, [1]))"
      "status_ok (Some (2, [1]))" "int (length [1 :: int]) + 1 = 2" "sint (2 :: u64) \<notin> set [1]"
    by (simp_all add: svc_world1_ready status_ok_def index_ok_def)
  note run = last_ready_starts_game [OF ref_game_up ref_svc_def ref_timeout ref_small(2,1) ref_times ref_stored ref_questions_valid
      ref_one_question ref_conns ref_ready_message _ last, of 12 OpText]
  from run show ?thesis by auto
qed

lemma ready_restarts_game_witness:
  "\<exists>w' ts final j. run_state (readMessage ref_svc 7 12 OpText (ref_message CommandReady ''1'' [])) (ref_state [1, 2]) =
      (Returned None, ref_state [1, 2]\<lparr>sv_world := w'\<rparr>) \<and>
    sw_sent w' = delivered [11, 12] (OpText, json_print j) (\<lambda>_. []) \<and>
    sw_queue w' = [(GameCompleted, json_print (completion_payload ''1''), [asynq_MaxRetry 3, asynq_ProcessIn final])]"
proof -
  have full: "ready_status (ref_kv (sv_world (ref_state [1, 2]))) (mq_GameId (ref_request CommandReady ''1'' [])) (Some (2, [1, 2]))"
      "status_ok (Some (2, [1, 2]))" "int (length [1 :: int, 2]) = 2"
    by (simp_all add: svc_world1_ready status_ok_def index_ok_def)
  note run = ready_restarts_game [OF ref_game_up ref_svc_def ref_timeout ref_small(2,1) ref_times ref_stored ref_questions_valid
      ref_one_question ref_conns ref_ready_message _ full, of 7 12 OpText]
  from run show ?thesis by auto
qed

section \<open>Completion\<close>

lemma ref_mongo_keeps:
  "(\<And>w x. view (w\<lparr>gw_cursor := x\<rparr>) = view w) \<Longrightarrow> mongo_keeps ref_mongo view"
  by (simp add: mongo_keeps_def keeps_def ref_mongo_def split: option.split)

lemma ref_gid: "utf8_valid ''1''"
  by (rule utf8_valid_ascii) simp

lemma ref_gid_decodes [simp]: "mg_FromHex ref_mongo ''1'' = Inr (Suc 0)"
  by (simp add: ref_mongo_def read_nat_def digit_val_def)

lemma ref_completion_laws:
  "gs_repository ref_svc = GameRepository ref_repo_config ref_game_env" "gs_webSocket ref_svc = WS ref_gobwas"
  "mongo_games (ge_mongo ref_game_env) ref_games (gw_answers :: svc_world \<Rightarrow> _)"
  "mongo_answers (ge_mongo ref_game_env) gw_answers (ref_kv :: svc_world \<Rightarrow> _)"
  "mongo_keeps (ge_mongo ref_game_env) (\<lambda>w. (sw_sent w, sw_alive w))"
  "gobwas_ok ref_gobwas sw_sent sw_alive (\<lambda>_. ())"
  "mg_FromHex (ge_mongo (ref_game_env :: svc_world game_env)) ''1'' = Inr 1"
  "range_ok (ref_game_env :: svc_world game_env)" "slice_sort more_points (ge_sort (ref_game_env :: svc_world game_env))"
  by (simp_all add: ref_mongo_games ref_mongo_answers ref_mongo_keeps ref_gobwas_ok ref_range_ok ref_sort_ok)

lemma ref_state_game:
  "ref_games (sv_world (ref_state ps)) 1 = Some ref_game" "list_all (\<lambda>a. index_ok (pa_Point a)) (gw_answers (sv_world (ref_state ps)))"
  "\<forall>a \<in> set (gw_answers (sv_world (ref_state ps))). pa_GameId a = ''1'' \<longrightarrow> pa_PlayerID a \<in> player_id ` set (g_Players ref_game)"
  by (simp_all add: ref_games_def)

lemma completion_delivers_witness:
  "\<exists>w' j. run_state (task_handler (ProcessGameCompletion ref_svc) (json_print (completion_payload ''1''))) (ref_state []) =
      (Returned None, (ref_state [])\<lparr>sv_world := w', sv_connections := [1 \<mapsto> 11, 2 \<mapsto> 12] |` (- {1, 2})\<rparr>) \<and>
    sw_sent w' 11 = [(OpText, json_print j)] \<and> \<not> sw_alive w' 12"
proof -
  have conns: "inj_on (sv_connections (ref_state [])) (set (g_Players ref_game))"
    "\<forall>u \<in> set (g_Players ref_game). \<exists>c. sv_connections (ref_state []) u = Some c \<and> sw_alive (sv_world (ref_state [])) c"
    by (simp_all add: ref_game_fields)
  note run = completion_delivers [OF ref_completion_laws(1-6) ref_gid ref_completion_laws(7) ref_state_game(1) ref_completion_laws(8,9)
      ref_state_game(2,3) conns]
  from run obtain w' j where "run_state (task_handler (ProcessGameCompletion ref_svc) (json_print (completion_payload ''1''))) (ref_state []) =
      (Returned None, ref_state []\<lparr>sv_world := w', sv_connections := sv_connections (ref_state []) |` (- set (g_Players ref_game))\<rparr>)"
    "\<forall>c. sw_sent w' c = sw_sent (sv_world (ref_state [])) c @
      (if Some c \<in> sv_connections (ref_state []) ` set (g_Players ref_game) then [(OpText, json_print j)] else [])"
    "\<forall>c. sw_alive w' c \<longleftrightarrow> sw_alive (sv_world (ref_state [])) c \<and> Some c \<notin> sv_connections (ref_state []) ` set (g_Players ref_game)"
    by blast
  then show ?thesis by (intro exI [of _ w'] exI [of _ j]) (simp add: ref_game_fields)
qed

lemma completion_panics_at_missing_player_witness:
  "\<exists>s'. run_state (task_handler (ProcessGameCompletion ref_svc) (json_print (completion_payload ''1'')))
      (ref_state []\<lparr>sv_connections := [1 \<mapsto> 11]\<rparr>) = (Panicked NilDereference, s')"
proof -
  let ?s = "ref_state []\<lparr>sv_connections := [1 \<mapsto> 11]\<rparr>"
  have conns: "inj_on (sv_connections ?s) (dom (sv_connections ?s))" "\<forall>c \<in> ran (sv_connections ?s). sw_alive (sv_world ?s) c"
    "\<exists>u \<in> set (g_Players ref_game). sv_connections ?s u = None"
    "ref_games (sv_world ?s) 1 = Some ref_game" "list_all (\<lambda>a. index_ok (pa_Point a)) (gw_answers (sv_world ?s))"
    "\<forall>a \<in> set (gw_answers (sv_world ?s)). pa_GameId a = ''1'' \<longrightarrow> pa_PlayerID a \<in> player_id ` set (g_Players ref_game)"
    by (auto simp: ref_game_fields ref_games_def)
  note run = completion_panics_at_missing_player [OF ref_completion_laws(1-6) ref_gid ref_completion_laws(7) conns(4) ref_completion_laws(8,9)
      conns(5,6,1-3)]
  from run show ?thesis by (elim exE conjE) (rule exI)
qed

definition ref_svc_down :: "svc_world game_service" where
  "ref_svc_down = ref_svc\<lparr>gs_repository := (GameRepository ref_repo_config ref_game_env)\<lparr>
     gr_GetLeaderBoard := (\<lambda>_. ret (Inl (PlainErr ''down'')))\<rparr>\<rparr>"

lemma failed_completion_not_retried_witness:
  "\<exists>s'. run_state (task_handler (ProcessGameCompletion ref_svc_down) (json_print (completion_payload ''1''))) (ref_state []) =
    (Returned None, s')"
proof -
  have "gs_webSocket ref_svc_down = WS ref_gobwas"
    "run_state (gr_GetLeaderBoard (gs_repository ref_svc_down) ''1'') (sv_world (ref_state [])) = (Inl (PlainErr ''down''), svc_world1 [])"
    "run_state (gr_GetGame (gs_repository ref_svc_down) ''1'') (svc_world1 []) =
      (Inr (ref_game, cache_questions ref_repo_config ref_game_env ''1'' ref_game), svc_world1 [])"
    by (simp_all add: ref_svc_down_def GameRepository_def GetGame_def bb_run)
      (simp add: ref_mongo_def)
  moreover have "map (sv_connections (ref_state [])) (g_Players ref_game) = map Some [11, 12]" by (simp add: ref_game_fields)
  moreover have "\<forall>c \<in> set [11, 12]. sw_alive (svc_world1 []) c" by simp
  ultimately show ?thesis
    using failed_completion_not_retried [OF _ ref_completion_laws(6) ref_gid, of ref_svc_down "ref_state []"] by blast
qed

section \<open>Playing\<close>

lemma ref_play_answer:
  "\<not> answered_quickly ref_repo_config (player_answer 7 (mq_GameAnswer ref_play_request) 0) (gq_Questions ref_game_questions)"
  by (simp add: answered_quickly_def question_of_def ref_game_questions_def ref_game_question_def too_early_def
      player_answer_def ref_play_request_def zero_PlayerAnswer_def Milliseconds_def go_div_def time_Sub_def ref_repo_config_def)

lemma answer_over_connection_witness:
  "\<exists>w' pts. run_state (readMessage ref_svc 7 13 OpText ref_play_message) (ref_state []) =
      (Returned None, (ref_state [])\<lparr>sv_world := w'\<rparr>) \<and>
    sw_sent w' 13 = reply_frames OpText [accepted_response ''1'' ''1'' pts] \<and> ''7'' \<in> pp_PlayerId ` set pts"
proof -
  let ?a = "player_answer 7 (mq_GameAnswer ref_play_request) 0"
  let ?as = "[bson_answer (graded_by ref_repo_config ?a (gq_Questions ref_game_questions))]"
  have redis: "redis_strings (ge_redis ref_game_env) (ref_kv :: svc_world \<Rightarrow> _)"
      "redis_frame (ge_redis ref_game_env) (\<lambda>w. (gw_answers w, ref_games w, sw_sent w, sw_alive w))"
    by (simp_all add: ref_strings ref_redis_frame)
  have mongo: "mongo_answers (ge_mongo ref_game_env) gw_answers (\<lambda>w :: svc_world. (ref_kv w, ref_games w, sw_sent w, sw_alive w))"
      "mongo_keeps (ge_mongo ref_game_env) (\<lambda>w. (gw_answers w, sw_sent w, sw_alive w))"
    by (simp_all add: ref_mongo_answers ref_mongo_keeps)
  have clock: "clock_reads ref_game_env (\<lambda>_. 0) (\<lambda>w :: svc_world. (ref_kv w, gw_answers w, ref_games w, sw_sent w, sw_alive w))"
    by (rule ref_clock_reads)
  have socks: "gobwas_ok ref_gobwas sw_sent sw_alive gw_answers" by (simp add: ref_gobwas_ok)
  have req: "mq_Command ref_play_request = CommandAnswer" "pa_GameId ?a = ''1''" "mq_GameId ref_play_request = ''1''"
    "pa_PlayerID ?a = ''7''"
    by (simp_all add: ref_play_request_def FormatUint_def)
  have result: "answer_result ref_repo_config ?a (gq_Questions ref_game_questions) (gw_answers (sv_world (ref_state []))) = (None, ?as)"
    by (simp add: answer_result_def ref_play_answer)
  have game: "mg_FromHex (ge_mongo (ref_game_env :: svc_world game_env)) (pa_GameId ?a) = Inr 1"
      "stored_questions (ref_kv (sv_world (ref_state []))) (pa_GameId ?a) = Some ref_game_questions"
    by (simp_all only: req(2) ref_state_simps svc_world1_stored ref_game_env_simps ref_gid_decodes One_nat_def)
  have points: "list_all (\<lambda>a. index_ok (pa_Point a)) ?as" by (simp add: ref_graded_index player_answer_def zero_PlayerAnswer_def)
  note run = answer_over_connection [OF ref_completion_laws(1,2) _ redis ref_completion_laws(3) mongo clock socks _
      ref_play_decodes req(1) refl result game(1) ref_state_game(1) game(2) ref_completion_laws(8,9) points, of 13 OpText]
  from run obtain w' pts where ex: "run_state (readMessage ref_svc 7 13 OpText ref_play_message) (ref_state []) =
        (Returned None, (ref_state [])\<lparr>sv_world := w'\<rparr>)"
      "sw_sent w' = (\<lambda>_. [])(13 := reply_frames OpText [accepted_response ''1'' (pa_GameId ?a) pts])" "FormatUint 7 \<in> pp_PlayerId ` set pts"
    by (simp add: req(3) del: player_answer_simps) blast
  show ?thesis using ex(1,3) by (intro exI [of _ w'] exI [of _ pts]) (simp add: ex(2) req(2) FormatUint_def del: player_answer_simps)
qed

section \<open>Lobby\<close>

lemma ProcessGame_opens_witness:
  "\<exists>w'. run_state (ProcessGame ref_svc (FormatUint 7)) (ref_state []) =
      (Returned None, (ref_state [])\<lparr>sv_connections := [1 \<mapsto> 11, 2 \<mapsto> 12, 7 \<mapsto> 13], sv_world := w', sv_tasks := [ReadLoop 13 7]\<rparr>) \<and>
    sw_sent w' 13 = [(OpText, json_print (enc_GameInit getCategories))]"
proof -
  let ?w = "(svc_world1 [])\<lparr>sw_alive := (\<lambda>_. True)(13 := True)\<rparr>"
  have up: "run_state (gb_UpgradeHTTP ref_gobwas) (sv_world (ref_state [])) = (Inr (13, []), ?w)" "sw_alive ?w 13"
    by (simp_all add: ref_gobwas_def)
  have "stored_status (ref_kv ?w) 7 \<in> {None, Some GameStatusUnknown}"
    by (simp add: stored_status_def ref_kv_def GameUserStatusPrefix_def QuestionsPrefix_def GameStatusPrefix_def)
  note unknown = this
  have redis: "redis_strings (ge_redis ref_game_env) (ref_kv :: svc_world \<Rightarrow> _)"
    "redis_frame (ge_redis ref_game_env) (\<lambda>w. (sw_sent w, sw_alive w))" by (simp_all add: ref_strings ref_redis_frame)
  from ProcessGame_opens [OF ref_completion_laws(1,2) redis ref_completion_laws(6) up, of 7, unfolded if_P [OF unknown]]
  obtain w' where w': "run_state (ProcessGame ref_svc (FormatUint 7)) (ref_state []) = (Returned None, (ref_state [])\<lparr>
        sv_connections := (sv_connections (ref_state []))(7 \<mapsto> 13), sv_world := w', sv_tasks := sv_tasks (ref_state []) @ [ReadLoop 13 7]\<rparr>)"
      "sw_sent w' = (sw_sent ?w)(13 := sw_sent ?w 13 @ [(OpText, json_print (enc_GameInit getCategories))])"
    by blast
  show ?thesis by (rule exI [of _ w'], rule conjI) (simp add: w'(1), simp add: w'(2))
qed

lemma ref_gobwas_topics: "gobwas_ok ref_gobwas sw_sent sw_alive w_topics"
  by (rule ref_gobwas_ok) simp_all

lemma ref_sarama_frames: "sarama_delivers ref_sarama w_topics (\<lambda>w :: svc_world. (sw_sent w, sw_alive w))"
  by (rule ref_sarama_delivers) simp

definition svc_match_env :: "world match_env" where
  "svc_match_env = ref_match_env\<lparr>me_proto := ref_svc_proto\<rparr>"

lemma ref_join_message:
  assumes "k \<in> {''MUSIC'', ''CHESS''}"
  shows "Unmarshal dec_MessageRequest zero_MessageRequest (ref_message CommandAddToWaitingList [] k) =
    Inr (ref_request CommandAddToWaitingList [] k)"
  using assms ref_message_decodes [of CommandAddToWaitingList "[]" k] ref_texts by auto

lemma join_over_kafka_witness:
  "\<exists>w' v' t. run_state (readMessage ref_svc 7 13 OpText (ref_message CommandAddToWaitingList [] ''MUSIC'')) (ref_state []) =
      (Returned None, (ref_state [])\<lparr>sv_tasks := [SaveUsersGameStatus [7] GameStatusInitialized], sv_world := w'\<rparr>) \<and>
    w_topics w' GAME_V1_JOIN_MATCH_QUEUE_REQUESTED = [''music''] \<and>
    run_state (ConsumeJoinMatchQueueRequest svc_match_env
      (MatchMakingRepository (me_Now svc_match_env) ref_match_cfg ref_redis) ''music'') ref_waiting_world = (None, v') \<and>
    redis_waiting ref_match_cfg ref_zs v' ''MUSIC'' 7 = Some t"
proof -
  have ready: "redis_ready (me_Now svc_match_env) ref_match_cfg ref_redis ref_zs ref_waiting_world"
    using match_readyD(1) [OF ref_waiting_ready(1)] by (simp add: svc_match_env_def)
  have codec: "proto_ok (gs_proto ref_svc)" "me_proto svc_match_env = gs_proto ref_svc"
    "marshal_AddToWaitingList (gs_proto ref_svc)
       \<lparr>pb_WaitingUserId = 7, pb_WaitingCategory = mq_Category (ref_request CommandAddToWaitingList [] ''MUSIC'')\<rparr> = Inr ''music''"
    by (simp_all add: ref_svc_proto_ok svc_match_env_def) (simp add: ref_svc_proto_def table_proto_def table_marshal_def)
  have known: "mq_Category (ref_request CommandAddToWaitingList [] ''MUSIC'') \<in> set GetCategories" "unat (7 :: u64) < 2 ^ 63"
    by (simp_all add: GetCategories_def category_defs)
  have sends: "\<forall>t m w. fst (run_state (sr_SendMessage (ref_sarama :: svc_world sarama) t m) w) = None" by (simp add: ref_sends)
  have alive: "sw_alive (sv_world (ref_state [])) 13" by simp
  note run = join_over_kafka [OF ref_completion_laws(2) _ ref_gobwas_topics alive ref_sarama_frames sends codec
      ref_join_message _ known ready, of OpText]
  from run show ?thesis by force
qed

lemma join_always_reported_added_witness:
  "\<exists>w' complaint. run_state (readMessage ref_svc 7 13 OpText (ref_message CommandAddToWaitingList [] ''CHESS'')) (ref_state []) =
      (Returned None, (ref_state [])\<lparr>sv_tasks := [SaveUsersGameStatus [7] GameStatusInitialized], sv_world := w'\<rparr>) \<and>
    sw_sent w' 13 = reply_frames OpText [complaint, plain_response True AddedToWaitingList ''added to waiting list successfully''] \<and>
    run_state (ConsumeJoinMatchQueueRequest svc_match_env ref_match_repo ''chess'') ref_waiting_world = (None, ref_waiting_world)"
proof -
  have codec: "proto_ok (gs_proto ref_svc)" "me_proto svc_match_env = gs_proto ref_svc"
    "marshal_AddToWaitingList (gs_proto ref_svc)
       \<lparr>pb_WaitingUserId = 7, pb_WaitingCategory = mq_Category (ref_request CommandAddToWaitingList [] ''CHESS'')\<rparr> = Inr ''chess''"
    by (simp_all add: ref_svc_proto_ok svc_match_env_def) (simp add: ref_svc_proto_def table_proto_def table_marshal_def)
  have sends: "\<forall>w. fst (run_state (sr_SendMessage ref_sarama GAME_V1_JOIN_MATCH_QUEUE_REQUESTED ''chess'') (w :: svc_world)) = None \<longleftrightarrow> True"
    by (simp add: ref_sends)
  have unknown: "''CHESS'' \<notin> set GetCategories" by (simp add: GetCategories_def category_defs)
  have alive: "sw_alive (sv_world (ref_state [])) 13" by simp
  note run = join_always_reported_added [OF ref_completion_laws(2) _ ref_gobwas_topics alive ref_sarama_frames sends codec
      ref_join_message, of OpText ref_match_repo ref_waiting_world]
  from run unknown obtain w' complaints where
    "run_state (readMessage ref_svc 7 13 OpText (ref_message CommandAddToWaitingList [] ''CHESS'')) (ref_state []) =
      (Returned None, (ref_state [])\<lparr>sv_tasks := [SaveUsersGameStatus [7] GameStatusInitialized], sv_world := w'\<rparr>)"
    "sw_sent w' 13 = reply_frames OpText (complaints @ [plain_response True AddedToWaitingList ''added to waiting list successfully''])"
    "length complaints = 1"
    "run_state (ConsumeJoinMatchQueueRequest svc_match_env ref_match_repo ''chess'') ref_waiting_world = (None, ref_waiting_world)"
    by force
  moreover from this(3) obtain complaint where "complaints = [complaint]" by (auto simp: length_Suc_conv)
  ultimately show ?thesis by (intro exI [of _ w'] exI [of _ complaint]) simp
qed

section \<open>Reading\<close>

lemma keeps_SavePlayerAnswer:
  assumes "redis_frame (ge_redis env) view" and "\<forall>g p q. keeps view (mg_FindAnswer (ge_mongo env) g p q)"
    and "\<forall>a. keeps view (mg_InsertAnswer (ge_mongo env) a)"
  shows "keeps view (SavePlayerAnswer cfg env gid a)"
  using assms(2,3) by (auto simp: SavePlayerAnswer_def Let_def intro!: keeps_bind keeps_GetQuestions [OF assms(1)]
      split: sum.split option.split)

lemma ref_redis_inbox: "redis_frame (ge_redis ref_game_env) sw_inbox"
  by (simp add: ref_redis_frame)

lemma ref_mongo_inbox:
  "mongo_keeps (ge_mongo ref_game_env) sw_inbox" "\<forall>g p q. keeps sw_inbox (mg_FindAnswer (ge_mongo ref_game_env) g p q)"
  "\<forall>a. keeps sw_inbox (mg_InsertAnswer (ge_mongo ref_game_env) a)"
  by (simp_all add: ref_mongo_keeps) (simp_all add: keeps_def ref_mongo_def)

lemma ref_clients_inbox:
  "keeps sw_inbox (WS_WriteServerData ref_gobwas c code m)" "keeps sw_inbox (asynq_Publish ref_asynq t p os)"
  "keeps sw_inbox (sr_SendMessage ref_sarama t m)" "keeps sw_inbox (ge_Now ref_game_env)"
  by (auto simp: keeps_def WS_WriteServerData_def ref_gobwas_def asynq_Publish_def ref_asynq_def ref_sarama_def bb_run
      ref_Now_frozen_def split: option.splits sum.splits outcome.splits)

lemma keeps_Publish: "(\<And>t m. keeps view (sr_SendMessage s t m)) \<Longrightarrow> keeps view (Publish s t m)"
  by (auto simp: Publish_def intro!: keeps_bind split: option.split)

lemma ref_outside: "outside_keeps ref_svc sw_inbox"
  using ref_clients_inbox
  by (auto simp: outside_keeps_def GameRepository_def WS_def KafkaBroker_def AsynqTaskQueuePublisher_def
      intro!: keeps_Publish keeps_UpsertReadyPlayer [OF ref_redis_inbox] keeps_SetValidAnswerTime [OF ref_redis_inbox]
        keeps_GetQuestions [OF ref_redis_inbox] keeps_SavePlayerAnswer [OF ref_redis_inbox ref_mongo_inbox(2,3)]
        keeps_GetLeaderBoard [OF ref_mongo_inbox(1)])

lemma read_loop_ends_witness:
  "\<exists>r s'. run_state (read_loop ref_svc 2 11 1) (ref_state []) = (r, s') \<and> (r = Returned True \<or> (\<exists>p. r = Panicked p)) \<and>
    sv_connections s' 1 = None"
proof -
  have "reads_inbox (gs_webSocket ref_svc) 11 sw_inbox"
    by (auto simp: reads_inbox_def WS_def WS_ReadClientData_def ref_gobwas_def bb_run split: list.split)
  from read_loop_ends [OF this ref_outside, of "ref_state []" 2 1] show ?thesis by simp
qed

section \<open>Matches\<close>

lemma ref_insert_keeps: "\<forall>g. keeps (\<lambda>w. (sw_sent w, sw_alive w)) (mg_InsertGame (ge_mongo ref_game_env) g)"
  by (simp add: keeps_def ref_mongo_def Let_def)

lemma round_creates_games_witness:
  "\<exists>i w' g. run_state (ConsumeMatchCreated ref_svc ''round'') (ref_state []) =
      (Returned None, (ref_state [])\<lparr>sv_tasks := [SaveUsersGameStatus [1, 2] GameStatusPending,
        SaveGameStatus (dec_digits i) None (Some 2)], sv_world := w'\<rparr>) \<and>
    ref_games w' i = Some g \<and> g_Players g = [1, 2] \<and> g_Status g = GameStatusPending \<and> i \<noteq> 1 \<and>
    sw_sent w' 11 = [(OpText, match_message (dec_digits i))]"
proof -
  have codec: "proto_ok ref_svc_proto" "marshal_AllMatchedUsers ref_svc_proto (MapFromEntityToProtoMessage ref_round) = Inr ''round''"
    by (simp_all add: ref_svc_proto_ok) (simp add: ref_svc_proto_def table_proto_def table_marshal_def)
  have players: "\<forall>u \<in> set ref_round. bson_players (mu_UserId u)" by (simp add: ref_round_def ref_bson_players')
  have redis: "redis_strings (ge_redis ref_game_env) (ref_kv :: svc_world \<Rightarrow> _)" "redis_frame (ge_redis ref_game_env) (ref_games :: svc_world \<Rightarrow> _)"
    "redis_frame (ge_redis ref_game_env) (\<lambda>w. (sw_sent w, sw_alive w))"
    "mongo_games (ge_mongo ref_game_env) ref_games (ref_kv :: svc_world \<Rightarrow> _)"
    "clock_reads ref_game_env (\<lambda>_. 0) (\<lambda>w. (ref_games w, (sw_sent w, sw_alive w)))"
    "gobwas_ok ref_gobwas sw_sent sw_alive ref_games"
    by (simp_all add: ref_strings ref_redis_frame ref_mongo_games ref_clock_reads ref_gobwas_ok)
  from round_creates_games [OF ref_svc_def redis(1-4) ref_insert_keeps redis(5,6) codec players, of "ref_state []"]
  obtain "is" w' where ex: "run_state (ConsumeMatchCreated ref_svc ''round'') (ref_state []) = (Returned None, (ref_state [])\<lparr>
        sv_tasks := sv_tasks (ref_state []) @ match_tasks (map2 (\<lambda>i u. (dec_digits i, mu_UserId u)) is ref_round), sv_world := w'\<rparr>)"
      "list_all2 (\<lambda>i u. \<exists>g. ref_games w' i = Some g \<and> game_of u g) is ref_round"
      "\<forall>i \<in> set is. ref_games (sv_world (ref_state [])) i = None"
      "sw_sent w' = announced sw_sent sw_alive (ref_state []) (map2 (\<lambda>i u. (dec_digits i, mu_UserId u)) is ref_round)"
    by auto
  then obtain i g where i: "is = [i]" "ref_games w' i = Some g" "game_of \<lparr>mu_Id = ''m1'', mu_Category = [CategoryTypeTech], mu_UserId = [1, 2]\<rparr> g"
    by (auto simp: ref_round_def list_all2_Cons2)
  have "i \<noteq> 1" using ex(3) i(1) by (auto simp: ref_games_def)
  then show ?thesis using ex i
    by (intro exI [of _ i] exI [of _ w'] exI [of _ g])
      (simp add: ref_round_def match_tasks_def announced_def reached_def game_of_def delivered_def)
qed

lemma ref_question_texts: "question_texts_ok ref_question"
proof -
  have "list_all utf8_valid [''q1'', ''2 + 2'', ''4'', ''3'']"
    unfolding list_all_iff by (intro ballI utf8_valid_ascii) auto
  then show ?thesis by (simp add: question_texts_ok_def ref_question_def GetCategories_def)
qed

lemma questions_reach_game_witness:
  "\<exists>w'. run_state (ConsumeQuestions ref_svc ''questions'') (ref_state []) = (Returned None, (ref_state [])\<lparr>sv_world := w'\<rparr>) \<and>
    stored_questions (ref_kv w') ''1'' =
      Some \<lparr>gq_Questions = [to_game_question ref_question], gq_Players = [1, 2], gq_CurrentQuestionIndex = 0\<rparr>"
proof -
  have codec: "proto_ok (gs_proto ref_svc)" "marshal_Questions (gs_proto ref_svc) (MapQuestionsToProtoMessage ''m1'' [ref_question]) = Inr ''questions''"
    by (simp_all add: ref_svc_proto_ok) (simp add: ref_svc_proto_def table_proto_def table_marshal_def)
  have game: "ref_games (sv_world (ref_state [])) 1 = Some ref_game" "g_MatchId ref_game = ''m1''"
    "\<forall>j h. ref_games (sv_world (ref_state [])) j = Some h \<longrightarrow> g_MatchId h = ''m1'' \<longrightarrow> j = 1"
    by (simp_all add: ref_games_def ref_game_fields)
  have texts: "\<forall>q \<in> set [ref_question]. question_texts_ok q" by (simp add: ref_question_texts)
  have redis: "redis_strings (ge_redis ref_game_env) (ref_kv :: svc_world \<Rightarrow> _)" "redis_frame (ge_redis ref_game_env) (ref_games :: svc_world \<Rightarrow> _)"
    "mongo_games (ge_mongo ref_game_env) ref_games (ref_kv :: svc_world \<Rightarrow> _)"
    "clock_reads ref_game_env (\<lambda>_. 0) (\<lambda>w :: svc_world. (ref_kv w, ref_games w))"
    by (simp_all add: ref_strings ref_redis_frame ref_mongo_games ref_clock_reads)
  from questions_reach_game [OF ref_completion_laws(1) redis game codec texts] show ?thesis
    by (force simp: ref_game_fields)
qed

lemma waiting_players_get_games_witness:
  "\<exists>v' (s' :: svc_world game_svc) i g. run_state (MatchWaitUsers (ref_match_env\<lparr>me_proto := counted_proto\<rparr>) (KafkaBroker ref_sarama)
      (MatchMakingRepository (ref_Now_frozen 5000) ref_match_cfg ref_redis)) ref_waiting_world = (Returned None, v') \<and>
    dom (redis_waiting ref_match_cfg ref_zs v' ''SPORT'') = {1} \<and>
    ref_games (sv_world (ref_state [])) i = None \<and> ref_games (sv_world s') i = Some g \<and> g_Players g = [2, 3]"
proof -
  let ?env = "ref_match_env\<lparr>me_proto := counted_proto\<rparr>"
  let ?svc = "NewService (GameRepository ref_repo_config ref_game_env) (WS ref_gobwas) (KafkaBroker ref_sarama)
     (AsynqTaskQueuePublisher ref_asynq) counted_proto (ge_Now ref_game_env)"
  have svc: "?svc = NewService (GameRepository ref_repo_config ref_game_env) (WS ref_gobwas) (KafkaBroker ref_sarama)
     (AsynqTaskQueuePublisher ref_asynq) counted_proto (ge_Now ref_game_env)" by (rule refl)
  have env: "me_Now ?env = ref_Now_frozen 5000" by (simp add: ref_match_env_def)
  have ready: "match_ready ?env ref_match_cfg ref_redis ref_sarama w_topics ref_zs ref_waiting_world"
    using ref_waiting_ready(1) by (simp add: match_ready_def index_law_def)
  have keep: "keeps w_topics (me_Now ?env)" using ref_keeps(2) by (simp add: ref_match_env_def)
  have sends: "fst (run_state (sr_SendMessage ref_sarama t m) w) = None" for t m and w :: world by (simp add: ref_sarama_def)
  have total: "\<exists>m. marshal_AllMatchedUsers counted_proto (MapFromEntityToProtoMessage us) = Inr m" for us by (simp add: counted_proto_def)
  have proto: "me_proto ?env = counted_proto" by simp
  have redis: "redis_strings (ge_redis ref_game_env) (ref_kv :: svc_world \<Rightarrow> _)" "redis_frame (ge_redis ref_game_env) (ref_games :: svc_world \<Rightarrow> _)"
    "redis_frame (ge_redis ref_game_env) (\<lambda>w. (sw_sent w, sw_alive w))"
    "mongo_games (ge_mongo ref_game_env) ref_games (ref_kv :: svc_world \<Rightarrow> _)"
    "clock_reads ref_game_env (\<lambda>_. 0) (\<lambda>w. (ref_games w, (sw_sent w, sw_alive w)))"
    "gobwas_ok ref_gobwas sw_sent sw_alive ref_games"
    by (simp_all add: ref_strings ref_redis_frame ref_mongo_games ref_clock_reads ref_gobwas_ok)
  obtain v' and s' :: "svc_world game_svc" where run: "run_state (MatchWaitUsers ?env (KafkaBroker ref_sarama) (MatchMakingRepository (me_Now ?env) ref_match_cfg ref_redis))
        ref_waiting_world = (Returned None, v')"
    and cats: "\<forall>c \<in> set GetCategories. \<exists>ids.
       set ids = candidates (me_Now ?env) ref_match_cfg ref_redis ref_zs ref_waiting_world c \<and> distinct ids \<and>
       sorted (map (\<lambda>u. the (redis_waiting ref_match_cfg ref_zs ref_waiting_world c u)) ids) \<and>
       redis_waiting ref_match_cfg ref_zs v' c = redis_waiting ref_match_cfg ref_zs ref_waiting_world c |` (- set (take (2 * (length ids div 2)) ids)) \<and>
       (2 \<le> length ids \<longrightarrow> (\<exists>i g. ref_games (sv_world (ref_state [])) i = None \<and> ref_games (sv_world s') i = Some g \<and>
         g_Players g = take (2 * (length ids div 2)) ids \<and> g_Status g = GameStatusPending))"
    using waiting_players_get_games [OF ready ref_keeps(1) keep sends counted_proto_ok proto total svc redis(1-4) ref_insert_keeps redis(5,6),
        of "ref_state []"] by blast
  obtain ids where ids: "set ids = candidates (me_Now ?env) ref_match_cfg ref_redis ref_zs ref_waiting_world ''SPORT''" "distinct ids"
      "sorted (map (\<lambda>u. the (redis_waiting ref_match_cfg ref_zs ref_waiting_world ''SPORT'' u)) ids)"
    and left: "redis_waiting ref_match_cfg ref_zs v' ''SPORT'' =
       redis_waiting ref_match_cfg ref_zs ref_waiting_world ''SPORT'' |` (- set (take (2 * (length ids div 2)) ids))"
    and game: "2 \<le> length ids \<longrightarrow> (\<exists>i g. ref_games (sv_world (ref_state [])) i = None \<and> ref_games (sv_world s') i = Some g \<and>
         g_Players g = take (2 * (length ids div 2)) ids \<and> g_Status g = GameStatusPending)"
    using bspec [OF cats ref_sport_known] by blast
  have now: "me_Now ?env = me_Now ref_match_env" by simp
  have eq: "ids = [2, 3, 1]" by (rule ref_matched [OF ids(2) ids(1) [unfolded now] ids(3)])
  obtain i g where g: "ref_games (sv_world (ref_state [])) i = None" "ref_games (sv_world s') i = Some g" "g_Players g = [2, 3]"
    using game unfolding eq by auto
  have "dom (redis_waiting ref_match_cfg ref_zs v' ''SPORT'') = {1}" unfolding left eq ref_sport by (rule ref_left)
  then show ?thesis using run g unfolding env by blast
qed

lemma round_questions_reach_games_witness:
  "\<exists>m v' ms s'. run_state (question_ConsumeMatchCreated counted_proto (QuestionRepository ref_question_db) (KafkaBroker ref_sarama) m) world0 = (None, v') \<and>
    w_topics v' QUESTION_V1_QUESTIONS = ms \<and> length ms = 1 \<and>
    run_state (handle_all (ConsumeQuestions (ref_svc\<lparr>gs_proto := counted_proto\<rparr>)) ms) (ref_state []) = (Returned (), s') \<and>
    stored_questions (ref_kv (sv_world s')) ''1'' =
      Some \<lparr>gq_Questions = [to_game_question ref_question], gq_Players = [1, 2], gq_CurrentQuestionIndex = 0\<rparr>"
proof -
  let ?svc = "ref_svc\<lparr>gs_proto := counted_proto\<rparr>"
  obtain m where m: "marshal_AllMatchedUsers counted_proto (MapFromEntityToProtoMessage ref_round) = Inr m"
    by (simp add: counted_proto_def)
  have svc: "gs_proto ?svc = counted_proto" "gs_repository ?svc = GameRepository ref_repo_config ref_game_env" by simp_all
  have total: "\<forall>u \<in> set ref_round. \<forall>qs. (\<forall>q \<in> set qs. question_texts_ok q) \<longrightarrow>
      (\<exists>b. marshal_Questions counted_proto (MapQuestionsToProtoMessage (mu_Id u) qs) = Inr b)"
    by (simp add: counted_proto_def)
  have at: "questions_at (QuestionRepository ref_question_db) u w = [ref_question]" for u w
    by (simp add: questions_at_def QuestionRepository_def GetRandomQuestions_repo_def ref_question_db_def bb_run)
  have texts: "\<forall>u w. \<forall>q \<in> set (questions_at (QuestionRepository ref_question_db) u w). question_texts_ok q"
    by (simp add: at ref_question_texts)
  have redis: "redis_strings (ge_redis ref_game_env) (ref_kv :: svc_world \<Rightarrow> _)" "redis_frame (ge_redis ref_game_env) (ref_games :: svc_world \<Rightarrow> _)"
    "mongo_games (ge_mongo ref_game_env) ref_games (ref_kv :: svc_world \<Rightarrow> _)" "mongo_ids (ge_mongo (ref_game_env :: svc_world game_env))"
    "clock_reads ref_game_env (\<lambda>_. 0) (\<lambda>w :: svc_world. (ref_kv w, ref_games w))"
    by (simp_all add: ref_strings ref_redis_frame ref_mongo_games ref_mongo_ids ref_clock_reads)
  have games: "list_all2 (has_game (ref_games (sv_world (ref_state [])))) [1] ref_round" "distinct [1 :: nat]"
    by (simp_all add: ref_round_def has_game_def ref_games_def ref_game_fields)
  from round_questions_reach_games [OF ref_sarama_delivers ref_sends ref_question_db_keeps counted_proto_ok svc(1) m total ref_round_known
      texts svc(2) redis games, of world0]
  obtain v' ms s' where "run_state (question_ConsumeMatchCreated counted_proto (QuestionRepository ref_question_db) (KafkaBroker ref_sarama) m) world0 = (None, v')"
      "w_topics v' = (w_topics world0)(QUESTION_V1_QUESTIONS := w_topics world0 QUESTION_V1_QUESTIONS @ ms)" "length ms = length ref_round"
      "run_state (handle_all (ConsumeQuestions ?svc) ms) (ref_state []) = (Returned (), s')"
      "list_all2 (\<lambda>i u. \<exists>w. stored_questions (ref_kv (sv_world s')) (mg_Hex (ge_mongo ref_game_env) i) =
         Some (questions_for u (questions_at (QuestionRepository ref_question_db) (to_question_match u) w))) [1] ref_round"
    by auto
  then show ?thesis
    by (intro exI [of _ m] exI [of _ v'] exI [of _ ms] exI [of _ s'])
      (simp add: at questions_for_def ref_round_def world0_def ref_game_fields ref_mongo_def)
qed

lemma round_goroutines_settle_witness:
  "\<exists>s'. tasks_run ref_svc 1 4 ((ref_state [])\<lparr>sv_tasks := match_tasks [(''2'', [5, 6])]\<rparr>) s' \<and> sv_tasks s' = [] \<and>
    ready_status (ref_kv (sv_world s')) ''2'' (Some (2, [])) \<and> stored_status (ref_kv (sv_world s')) 5 = Some GameStatusPending \<and>
    stored_status (ref_kv (sv_world s')) 6 = Some GameStatusPending"
proof -
  let ?gus = "[(''2'', [5, 6])]" and ?s = "(ref_state [])\<lparr>sv_tasks := match_tasks [(''2'', [5, 6])]\<rparr>"
  have redis: "redis_strings (ge_redis ref_game_env) (ref_kv :: svc_world \<Rightarrow> _)" by (simp add: ref_strings)
  have rooms: "rooms_ok ?gus" by (simp add: rooms_ok_def)
  have new: "\<forall>(gid, us) \<in> set ?gus. ref_kv (sv_world ?s) (GameStatusPrefix @ gid) = None"
    by (simp add: ref_kv_def prefix_defs)
  have tasks: "sv_tasks ?s = match_tasks ?gus" by simp
  note settle = round_goroutines_settle [OF ref_completion_laws(1) redis rooms new tasks]
  have more: "\<exists>s'. tasks_run ref_svc 1 k' ?s s'" if "tasks_run ref_svc 1 k ?s s1" "k < 4" "k' = Suc k" for k k' s1
    using settle [OF that(1)] that by auto
  have 0: "tasks_run ref_svc 1 0 ?s ?s" by simp
  have less: "(0 :: nat) < 4" "(1 :: nat) < 4" "(2 :: nat) < 4" "(3 :: nat) < 4"
    and succ: "(1 :: nat) = Suc 0" "(2 :: nat) = Suc 1" "(3 :: nat) = Suc 2" "(4 :: nat) = Suc 3" by simp_all
  from more [OF 0 less(1) succ(1)] obtain s1 where 1: "tasks_run ref_svc 1 1 ?s s1" by blast
  from more [OF 1 less(2) succ(2)] obtain s2 where 2: "tasks_run ref_svc 1 2 ?s s2" by blast
  from more [OF 2 less(3) succ(3)] obtain s3 where 3: "tasks_run ref_svc 1 3 ?s s3" by blast
  from more [OF 3 less(4) succ(4)] obtain s4 where 4: "tasks_run ref_svc 1 4 ?s s4" by blast
  from settle [OF 4] 4 show ?thesis by (intro exI [of _ s4]) simp
qed

section \<open>A whole game\<close>

definition ref_answer_msg :: answer_msg where
  "ref_answer_msg = \<lparr>am_User = 1, am_Conn = 11, am_Code = OpText, am_Message = ref_play_message,
     am_Answer = mq_GameAnswer ref_play_request\<rparr>"

lemma ref_is_answer: "is_answer ref_answer_msg"
  using ref_play_decodes by (simp add: is_answer_def ref_answer_msg_def ref_play_request_def)

lemma ref_play_ready: "play_ready ref_svc ref_repo_config ref_game_env ref_gobwas ref_kv ref_games gw_answers sw_sent sw_alive (\<lambda>_. 0)"
  by (simp add: play_ready_def ref_strings ref_redis_frame ref_mongo_games ref_mongo_answers ref_mongo_keeps ref_clock_reads
      ref_gobwas_ok ref_range_ok ref_sort_ok ref_score_ok)

lemma game_played_out_witness:
  "\<exists>s1 w' pts j. run_state (read_all ref_svc [ref_answer_msg]) (ref_state []) = (Returned None, s1) \<and>
    run_state (task_handler (ProcessGameCompletion ref_svc) (json_print (completion_payload ''1''))) s1 =
      (Returned None, s1\<lparr>sv_world := w', sv_connections := [1 \<mapsto> 11, 2 \<mapsto> 12] |` (- {1, 2})\<rparr>) \<and>
    pp_PlayerId ` set pts = player_id ` {1, 2} \<and> enc_MessageResponse (completed_response ''1'' pts) = Inr j \<and>
    last (sw_sent w' 12) = (OpText, json_print j)"
proof -
  have ms: "\<forall>m \<in> set [ref_answer_msg]. is_answer m \<and> ga_GameId (am_Answer m) = ''1'' \<and>
      am_User m \<in> set (g_Players ref_game) \<and> sw_alive (sv_world (ref_state [])) (am_Conn m)"
    using ref_is_answer by (simp add: ref_answer_msg_def ref_play_request_def ref_game_fields)
  have stored: "stored_questions (ref_kv (sv_world (ref_state []))) ''1'' = Some ref_game_questions"
    by (simp add: svc_world1_stored)
  have before: "list_all (\<lambda>a. index_ok (pa_Point a)) (gw_answers (sv_world (ref_state [])))"
    "\<forall>a \<in> set (gw_answers (sv_world (ref_state []))). pa_GameId a \<noteq> ''1''" by simp_all
  have conns: "inj_on (sv_connections (ref_state [])) (set (g_Players ref_game))"
    "\<forall>u \<in> set (g_Players ref_game). \<exists>c. sv_connections (ref_state []) u = Some c \<and> sw_alive (sv_world (ref_state [])) c"
    by (simp_all add: ref_game_fields)
  from game_played_out [OF ref_play_ready ref_gid ref_completion_laws(7) ref_state_game(1) ref_bson_players stored ms before conns]
  obtain s1 w' pts j where run: "run_state (read_all ref_svc [ref_answer_msg]) (ref_state []) = (Returned None, s1)"
      "run_state (task_handler (ProcessGameCompletion ref_svc) (json_print (completion_payload ''1''))) s1 =
        (Returned None, s1\<lparr>sv_world := w', sv_connections := sv_connections (ref_state []) |` (- set (g_Players ref_game))\<rparr>)"
      "pp_PlayerId ` set pts = player_id ` set (g_Players ref_game)" "enc_MessageResponse (completed_response ''1'' pts) = Inr j"
      "\<forall>u \<in> set (g_Players ref_game). \<exists>c. sv_connections (ref_state []) u = Some c \<and> last (sw_sent w' c) = (OpText, json_print j) \<and> \<not> sw_alive w' c"
    by (elim exE conjE)
  then show ?thesis by (intro exI [of _ s1] exI [of _ w'] exI [of _ pts] exI [of _ j]) (simp add: ref_game_fields)
qed

end
