(* ===== verification/Go_Process.thy ===== *)
theory Go_Process
  imports BB_Prelude
begin

text \<open>
  Goroutines, wait groups, channels and \<open>select\<close>, as far as the applications of the repository
  use them to start and to stop: a goroutine is the list of the instructions it still has to
  run, a process is its goroutines, the first being that of \<open>main\<close>, with the instructions
  that have run. Any goroutine may take the next step. The calls into libraries that block (a
  server that serves, a server that stops) are instructions too; when they return, and when the code behind them
  panics, is up to a parameter.
\<close>

section \<open>Instructions\<close>

datatype wait_group = WG | ShutdownWG | ConsumerWG
datatype channel = Signal | Timeout | ShutdownDone | SchedulerDone

datatype call = HTTP_Serve | HTTP_Stop | GRPC_Serve | GRPC_Stop | Broker_Consume string | Tasks_Start | Tasks_Run
  | Scheduler_Start | Scheduler_Stop

text \<open>
  A case of a \<open>select\<close> receives from a channel and goes on after the \<open>select\<close>, or ends the
  process with \<open>os.Exit\<close>. \<open>NotifyContext\<close> and \<open>WithTimeout\<close> create a context: its channel is
  closed when a signal comes, or when the time is over.
\<close>

datatype instr =
    WgAdd wait_group nat
  | WgDone wait_group
  | WgWait wait_group
  | Spawn "instr list"
  | Call call
  | Send channel
  | Receive channel
  | CloseChan channel
  | NotifyContext channel
  | WithTimeout channel
  | Select "(channel \<times> nat option) list"

type_synonym program = "instr list"

text \<open>The instructions of a program and of the goroutines it starts, and what a goroutine may still have to run.\<close>

fun instrs :: "program \<Rightarrow> instr multiset" where
  "instrs [] = {#}"
| "instrs (Spawn b # p) = add_mset (Spawn b) (instrs b + instrs p)"
| "instrs (x # p) = add_mset x (instrs p)"

fun parts :: "program \<Rightarrow> program list" where
  "parts [] = [[]]"
| "parts (Spawn b # p) = (Spawn b # p) # parts b @ parts p"
| "parts (x # p) = (x # p) # parts p"

section \<open>Processes\<close>

text \<open>\<open>at_fire c\<close> is the history at the time when the channel \<open>c\<close> of a context was closed.\<close>

record process =
  goroutines :: "program list"
  history :: "instr multiset"
  fired :: "channel set"
  at_fire :: "channel \<Rightarrow> instr multiset"
  exit_code :: "nat option"

definition boot :: "program \<Rightarrow> process" where
  "boot p = \<lparr>goroutines = [p], history = {#}, fired = {}, at_fire = (\<lambda>_. {#}), exit_code = None\<rparr>"

text \<open>The counter of a wait group, and whether a receive from a channel returns at once.\<close>

fun wg_change :: "wait_group \<Rightarrow> instr \<Rightarrow> int" where
  "wg_change w (WgAdd v n) = (if v = w then int n else 0)"
| "wg_change w (WgDone v) = (if v = w then - 1 else 0)"
| "wg_change w x = 0"

definition wg_count :: "wait_group \<Rightarrow> process \<Rightarrow> int" where
  "wg_count w s = (\<Sum>x\<in>#history s. wg_change w x)"

definition closed_chan :: "process \<Rightarrow> channel \<Rightarrow> bool" where
  "closed_chan s c \<longleftrightarrow> CloseChan c \<in># history s \<or> c \<in> fired s"

text \<open>
  Whether a call returns, and whether the code behind it panics, in one of the goroutines it runs or has left behind:
  nothing in the repository recovers from a panic.
\<close>

record library =
  lib_returns :: "process \<Rightarrow> call \<Rightarrow> bool"
  lib_panics :: "process \<Rightarrow> call \<Rightarrow> bool"

definition started :: "process \<Rightarrow> call \<Rightarrow> bool" where
  "started s k \<longleftrightarrow> Call k \<in># history s \<or> (\<exists>q \<in> set (goroutines s). q \<noteq> [] \<and> hd q = Call k)"

text \<open>Whether an instruction that changes its own goroutine only can run.\<close>

fun can_run :: "library \<Rightarrow> process \<Rightarrow> instr \<Rightarrow> bool" where
  "can_run lib s (WgDone w) = (0 < wg_count w s)"
| "can_run lib s (WgWait w) = (wg_count w s = 0)"
| "can_run lib s (Call c) = lib_returns lib s c"
| "can_run lib s (Send c) = False"
| "can_run lib s (Receive c) = closed_chan s c"
| "can_run lib s (CloseChan c) = (\<not> closed_chan s c)"
| "can_run lib s (Select cs) = False"
| "can_run lib s x = True"

fun spawned :: "instr \<Rightarrow> program list" where
  "spawned (Spawn b) = [b]"
| "spawned x = []"

text \<open>
  The steps. A panic of the runtime (a negative counter, a channel closed twice) or of the code behind a call ends the
  process with code 2, the return of \<open>main\<close> with code 0. The channels of the repository have no buffer, and none
  that is sent to occurs in a \<open>select\<close>.
\<close>

inductive proc_step :: "library \<Rightarrow> process \<Rightarrow> process \<Rightarrow> bool" for lib where
  run: "exit_code s = None \<Longrightarrow> i < length (goroutines s) \<Longrightarrow> goroutines s ! i = x # p \<Longrightarrow> can_run lib s x \<Longrightarrow>
    proc_step lib s (s\<lparr>goroutines := (goroutines s)[i := p] @ spawned x, history := add_mset x (history s)\<rparr>)"
| select: "exit_code s = None \<Longrightarrow> i < length (goroutines s) \<Longrightarrow> goroutines s ! i = Select cs # p \<Longrightarrow>
    (c, r) \<in> set cs \<Longrightarrow> closed_chan s c \<Longrightarrow>
    proc_step lib s (s\<lparr>goroutines := (goroutines s)[i := p], history := add_mset (Select cs) (history s), exit_code := r\<rparr>)"
| rendezvous: "exit_code s = None \<Longrightarrow> i < length (goroutines s) \<Longrightarrow> goroutines s ! i = Send c # p \<Longrightarrow>
    j < length (goroutines s) \<Longrightarrow> goroutines s ! j = Receive c # q \<Longrightarrow>
    proc_step lib s (s\<lparr>goroutines := (goroutines s)[i := p, j := q],
      history := add_mset (Send c) (add_mset (Receive c) (history s))\<rparr>)"
| fire: "exit_code s = None \<Longrightarrow> NotifyContext c \<in># history s \<or> WithTimeout c \<in># history s \<Longrightarrow> c \<notin> fired s \<Longrightarrow>
    proc_step lib s (s\<lparr>fired := insert c (fired s), at_fire := (at_fire s)(c := history s)\<rparr>)"
| negative_counter: "exit_code s = None \<Longrightarrow> i < length (goroutines s) \<Longrightarrow> goroutines s ! i = WgDone w # p \<Longrightarrow> wg_count w s \<le> 0 \<Longrightarrow>
    proc_step lib s (s\<lparr>exit_code := Some 2\<rparr>)"
| closed_twice: "exit_code s = None \<Longrightarrow> i < length (goroutines s) \<Longrightarrow> goroutines s ! i = CloseChan c # p \<Longrightarrow> closed_chan s c \<Longrightarrow>
    proc_step lib s (s\<lparr>exit_code := Some 2\<rparr>)"
| call_panics: "exit_code s = None \<Longrightarrow> started s k \<Longrightarrow> lib_panics lib s k \<Longrightarrow> proc_step lib s (s\<lparr>exit_code := Some 2\<rparr>)"
| main_returns: "exit_code s = None \<Longrightarrow> goroutines s = [] # ts \<Longrightarrow> proc_step lib s (s\<lparr>exit_code := Some 0\<rparr>)"

inductive runs :: "library \<Rightarrow> nat \<Rightarrow> process \<Rightarrow> process \<Rightarrow> bool" for lib where
  none: "runs lib 0 s s"
| more: "runs lib n s t \<Longrightarrow> proc_step lib t u \<Longrightarrow> runs lib (Suc n) s u"

section \<open>What every run keeps\<close>

definition remaining :: "process \<Rightarrow> instr multiset" where
  "remaining s = (\<Sum>p\<leftarrow>goroutines s. instrs p)"

lemma remaining_update:
  assumes "i < length ts"
  shows "(\<Sum>p\<leftarrow>ts[i := q]. instrs p) + instrs (ts ! i) = (\<Sum>p\<leftarrow>ts. instrs p) + instrs q"
  using assms by (induction ts arbitrary: i) (auto simp: nth_Cons split: nat.splits simp: ac_simps)

lemma instrs_Cons: "instrs (x # p) = add_mset x (instrs p + (\<Sum>b\<leftarrow>spawned x. instrs b))"
  by (cases x) (simp_all add: ac_simps)

lemma in_remaining: "x \<in># remaining s \<longleftrightarrow> (\<exists>p \<in> set (goroutines s). x \<in># instrs p)"
proof -
  have "x \<in># (\<Sum>p\<leftarrow>ts. instrs p) \<longleftrightarrow> (\<exists>p \<in> set ts. x \<in># instrs p)" for ts
    by (induction ts) auto
  then show ?thesis by (simp add: remaining_def)
qed

lemma parts_self [simp]: "p \<in> set (parts p)"
  by (cases p rule: parts.cases) simp_all

lemma parts_Cons: "set (parts (x # p)) = insert (x # p) (set (parts p) \<union> \<Union> (set (map (set \<circ> parts) (spawned x))))"
  by (cases x) auto

lemma parts_trans: "q \<in> set (parts p) \<Longrightarrow> r \<in> set (parts q) \<Longrightarrow> r \<in> set (parts p)"
  by (induction p rule: parts.induct) auto

lemma parts_step:
  assumes "x # q \<in> set (parts p)"
  shows "q \<in> set (parts p)" "b \<in> set (spawned x) \<Longrightarrow> b \<in> set (parts p)"
  by (rule parts_trans [OF assms], simp add: parts_Cons)+ force

lemma proc_step_conserves: "proc_step lib s t \<Longrightarrow> history t + remaining t = history s + remaining s"
proof (induction rule: proc_step.induct)
  case (run s i x p)
  then show ?case using remaining_update [of i "goroutines s" p]
    by (simp add: remaining_def instrs_Cons ac_simps)
next
  case (select s i cs p c r)
  then show ?case using remaining_update [of i "goroutines s" p] by (simp add: remaining_def ac_simps)
next
  case (rendezvous s i c p j q)
  then have "i \<noteq> j" by auto
  then show ?case using rendezvous remaining_update [of i "goroutines s" p] remaining_update [of j "(goroutines s)[i := p]" q]
    by (simp add: remaining_def ac_simps)
qed (simp_all add: remaining_def)

lemma in_update: "q \<in> set (ts[i := p]) \<Longrightarrow> q = p \<or> q \<in> set ts"
  using set_update_subset_insert [of ts i p] by auto

lemma proc_step_parts:
  "proc_step lib s t \<Longrightarrow> \<forall>q \<in> set (goroutines s). q \<in> set (parts p0) \<Longrightarrow> \<forall>q \<in> set (goroutines t). q \<in> set (parts p0)"
proof (induction rule: proc_step.induct)
  case (run s i x p)
  then have "x # p \<in> set (parts p0)" by (metis nth_mem)
  with run show ?case by (auto dest: parts_step dest!: in_update)
next
  case (select s i cs p c r)
  then have "Select cs # p \<in> set (parts p0)" by (metis nth_mem)
  with select show ?case by (auto dest: parts_step dest!: in_update)
next
  case (rendezvous s i c p j q)
  then have "Send c # p \<in> set (parts p0)" "Receive c # q \<in> set (parts p0)" by (metis nth_mem)+
  with rendezvous show ?case by (auto dest: parts_step dest!: in_update)
qed simp_all

lemma proc_step_history: "proc_step lib s t \<Longrightarrow> history s \<subseteq># history t"
  by (induction rule: proc_step.induct) (simp_all add: subseteq_mset_def le_SucI)

lemma proc_step_shrinks: "proc_step lib s t \<Longrightarrow> remaining t \<subseteq># remaining s"
  using proc_step_history [of lib s t] proc_step_conserves [of lib s t]
  by (metis mset_subset_eq_exists_conv union_assoc union_commute add_left_cancel)

lemma runs_conserves: "runs lib n (boot p) s \<Longrightarrow> history s + remaining s = instrs p"
  by (induction n "boot p" s rule: runs.induct) (simp_all add: proc_step_conserves, simp add: boot_def remaining_def)

lemma runs_parts: "runs lib n (boot p) s \<Longrightarrow> \<forall>q \<in> set (goroutines s). q \<in> set (parts p)"
proof (induction n "boot p" s rule: runs.induct)
  case (more n t u)
  show ?case by (rule proc_step_parts [OF more.hyps(3,2)])
qed (simp add: boot_def)

text \<open>The runtime closes the channels of contexts only.\<close>

lemma runs_fired: "runs lib n (boot p) s \<Longrightarrow> \<forall>c \<in> fired s. NotifyContext c \<in># history s \<or> WithTimeout c \<in># history s"
proof (induction n "boot p" s rule: runs.induct)
  case (more n t u)
  from more(3,2) show ?case by (induction rule: proc_step.induct) auto
qed (simp add: boot_def)

text \<open>
  An instruction that occurs once in the program and comes after every \<open>x\<close> in whatever is left
  to run: once it has run, no \<open>x\<close> is left.
\<close>

definition before :: "instr \<Rightarrow> instr \<Rightarrow> program \<Rightarrow> bool" where
  "before x y p \<longleftrightarrow> count (instrs p) y = 1 \<and> (\<forall>q \<in> set (parts p). x \<in># instrs q \<longrightarrow> y \<in># instrs q)"

lemma before_done:
  assumes "runs lib n (boot p) s" and "before x y p" and "y \<in># history s"
  shows "x \<notin># remaining s"
proof
  assume "x \<in># remaining s"
  then have "y \<in># remaining s"
    using runs_parts [OF assms(1)] assms(2) by (auto simp: in_remaining before_def)
  with assms(3) have "1 \<le> count (history s) y" "1 \<le> count (remaining s) y"
    using count_greater_zero_iff by (metis One_nat_def Suc_leI)+
  moreover have "count (history s) y + count (remaining s) y = 1"
    using runs_conserves [OF assms(1)] assms(2) by (metis before_def count_union)
  ultimately show False by linarith
qed

lemma executed:
  assumes "runs lib n (boot p) s" and "x \<in># instrs p" and "x \<notin># remaining s"
  shows "x \<in># history s"
  using assms(2,3) runs_conserves [OF assms(1)] by (metis union_iff)

section \<open>Wait groups\<close>

definition pending_dones :: "wait_group \<Rightarrow> program \<Rightarrow> int" where
  "pending_dones w p = - (\<Sum>x\<in>#instrs p. wg_change w x)"

lemma wg_count_eq:
  assumes "runs lib n (boot p) s" and "pending_dones w p = 0"
  shows "wg_count w s = (\<Sum>q\<leftarrow>goroutines s. pending_dones w q)"
proof -
  have "(\<Sum>x\<in>#history s. wg_change w x) + (\<Sum>x\<in>#remaining s. wg_change w x) = 0"
    using runs_conserves [OF assms(1)] assms(2) by (simp add: pending_dones_def flip: sum_mset.union image_mset_union)
  moreover have "(\<Sum>x\<in>#(\<Sum>q\<leftarrow>ts. instrs q). wg_change w x) = - (\<Sum>q\<leftarrow>ts. pending_dones w q)" for ts
    by (induction ts) (simp_all add: pending_dones_def)
  ultimately show ?thesis by (simp add: wg_count_def remaining_def)
qed

text \<open>A program counts properly when nothing it may leave to run adds more than it takes back.\<close>

definition counts :: "program \<Rightarrow> wait_group \<Rightarrow> bool" where
  "counts p w \<longleftrightarrow> pending_dones w p = 0 \<and> (\<forall>q \<in> set (parts p). 0 \<le> pending_dones w q)"

lemma counts_zero:
  assumes "runs lib n (boot p) s" and "counts p w" and "wg_count w s = 0" and "q \<in> set (goroutines s)"
  shows "pending_dones w q = 0"
proof -
  have "\<forall>r \<in> set (goroutines s). 0 \<le> pending_dones w r"
    using runs_parts [OF assms(1)] assms(2) by (auto simp: counts_def)
  moreover have "(\<Sum>r\<leftarrow>goroutines s. pending_dones w r) = 0"
    using wg_count_eq [OF assms(1)] assms(2,3) by (simp add: counts_def)
  ultimately show ?thesis
    using assms(4) sum_list_nonneg_eq_0_iff [of "map (pending_dones w) (goroutines s)"] by auto
qed

lemma counts_positive:
  assumes "runs lib n (boot p) s" and "counts p w" and "q \<in> set (goroutines s)" and "0 < pending_dones w q"
  shows "0 < wg_count w s"
proof -
  have "\<forall>r \<in> set (goroutines s). 0 \<le> pending_dones w r"
    using runs_parts [OF assms(1)] assms(2) by (auto simp: counts_def)
  then have "0 \<le> wg_count w s" using wg_count_eq [OF assms(1)] assms(2) by (auto simp: counts_def intro!: sum_list_nonneg)
  then show ?thesis using counts_zero [OF assms(1,2) _ assms(3)] assms(4) by force
qed

end
