(* ===== verification/Applications.thy ===== *)
theory Applications
  imports Go_Process Contract
begin

text \<open>
  How the five services start and stop: \<open>Start\<close>, \<open>startServers\<close> and \<open>shutdownServers\<close> of
  \<open>services/*/app.go\<close>, with what they run: the servers of \<open>delivery\<close>, the consumers of
  \<open>service/consumer.go\<close>, the scheduler and the task worker. Logging is left out. A deferred
  \<open>Done\<close> is the last instruction of its goroutine.
\<close>

section \<open>Servers, consumers, scheduler\<close>

text \<open>A failed \<open>Serve\<close> is logged by its caller and otherwise the same as one that was stopped.\<close>

definition HTTPServer_Serve :: program where "HTTPServer_Serve = [Call HTTP_Serve]"
definition GRPCServer_Serve :: program where "GRPCServer_Serve = [Call GRPC_Serve]"
definition HTTPServer_Stop :: program where "HTTPServer_Stop = [Call HTTP_Stop]"
definition GRPCServer_Stop :: program where "GRPCServer_Stop = [Call GRPC_Stop]"

text \<open>\<open>Consume\<close> returns when it has started the consumers; \<open>topics\<close> is the order in which it visits its map.\<close>

definition Consumer_Consume :: "string list \<Rightarrow> program" where
  "Consumer_Consume topics = WgAdd ConsumerWG (length topics) #
     map (\<lambda>topic. Spawn [Call (Broker_Consume topic), WgDone ConsumerWG]) topics"

text \<open>The match and the question service have their own copies of it.\<close>

definition match_Consumer_Consume :: "string list \<Rightarrow> program" where
  "match_Consumer_Consume topics = WgAdd ConsumerWG (length topics) #
     map (\<lambda>topic. Spawn [Call (Broker_Consume topic), WgDone ConsumerWG]) topics"
definition question_Consumer_Consume :: "string list \<Rightarrow> program" where
  "question_Consumer_Consume topics = WgAdd ConsumerWG (length topics) #
     map (\<lambda>topic. Spawn [Call (Broker_Consume topic), WgDone ConsumerWG]) topics"

definition Scheduler_Start_program :: program where
  "Scheduler_Start_program = [Call Scheduler_Start, Receive SchedulerDone, Call Scheduler_Stop]"

text \<open>The server of asynq starts its workers and registers for signals, and then waits for one.\<close>

definition TaskWorker_program :: program where "TaskWorker_program = [Call Tasks_Start, Call Tasks_Run]"

text \<open>The goroutines that shut a server down.\<close>

definition shutdownHTTPServer :: "wait_group \<Rightarrow> program" where
  "shutdownHTTPServer wg = HTTPServer_Stop @ [WgDone wg]"
definition shutdownGRPCServer :: "wait_group \<Rightarrow> program" where
  "shutdownGRPCServer wg = GRPCServer_Stop @ [WgDone wg]"

text \<open>Each service has its own copy of them.\<close>

definition auth_shutdownHTTPServer :: "wait_group \<Rightarrow> program" where
  "auth_shutdownHTTPServer wg = HTTPServer_Stop @ [WgDone wg]"
definition auth_shutdownGRPCServer :: "wait_group \<Rightarrow> program" where
  "auth_shutdownGRPCServer wg = GRPCServer_Stop @ [WgDone wg]"
definition match_shutdownHTTPServer :: "wait_group \<Rightarrow> program" where
  "match_shutdownHTTPServer wg = HTTPServer_Stop @ [WgDone wg]"
definition question_shutdownHTTPServer :: "wait_group \<Rightarrow> program" where
  "question_shutdownHTTPServer wg = HTTPServer_Stop @ [WgDone wg]"
definition game_shutdownHTTPServer :: "wait_group \<Rightarrow> program" where
  "game_shutdownHTTPServer wg = HTTPServer_Stop @ [WgDone wg]"

text \<open>The end of every \<open>shutdownServers\<close> with what \<open>Start\<close> makes of its result.\<close>

definition await_shutdown :: program where
  "await_shutdown = [Select [(ShutdownDone, None), (Timeout, Some 1)]]"

section \<open>The services\<close>

definition user_startServers :: program where
  "user_startServers =
     [WgAdd WG 1, Spawn (GRPCServer_Serve @ [WgDone WG]),
      WgAdd WG 1, Spawn (HTTPServer_Serve @ [WgDone WG])]"

definition user_shutdownServers :: program where
  "user_shutdownServers =
     Spawn [WgAdd ShutdownWG 1, Spawn (shutdownHTTPServer ShutdownWG),
       WgAdd ShutdownWG 1, Spawn (shutdownGRPCServer ShutdownWG),
       WgWait ShutdownWG, CloseChan ShutdownDone] # await_shutdown"

definition user_Start :: program where
  "user_Start = [NotifyContext Signal] @ user_startServers @ [Receive Signal, WithTimeout Timeout] @
     user_shutdownServers @ [WgWait WG]"

definition auth_startServers :: program where
  "auth_startServers =
     [WgAdd WG 1, Spawn (HTTPServer_Serve @ [WgDone WG]),
      WgAdd WG 1, Spawn (GRPCServer_Serve @ [WgDone WG])]"

definition auth_shutdownServers :: program where
  "auth_shutdownServers =
     Spawn [WgAdd ShutdownWG 1, Spawn (auth_shutdownHTTPServer ShutdownWG),
       WgAdd ShutdownWG 1, Spawn (auth_shutdownGRPCServer ShutdownWG),
       WgWait ShutdownWG, CloseChan ShutdownDone] # await_shutdown"

definition auth_Start :: program where
  "auth_Start = [NotifyContext Signal] @ auth_startServers @ [Receive Signal, WithTimeout Timeout] @
     auth_shutdownServers @ [WgWait WG]"

definition match_startServers :: program where
  "match_startServers =
     [WgAdd WG 3,
      Spawn (HTTPServer_Serve @ [WgDone WG]),
      Spawn (Scheduler_Start_program @ [WgDone WG]),
      Spawn (match_Consumer_Consume [GAME_V1_JOIN_MATCH_QUEUE_REQUESTED] @ [WgDone WG])]"

definition match_shutdownServers :: program where
  "match_shutdownServers =
     [Spawn [WgAdd ShutdownWG 1, Spawn (match_shutdownHTTPServer ShutdownWG),
        WgWait ShutdownWG, CloseChan ShutdownDone],
      Spawn [Send SchedulerDone]] @ await_shutdown"

definition match_Start :: program where
  "match_Start = [NotifyContext Signal] @ match_startServers @ [Receive Signal, WithTimeout Timeout] @
     match_shutdownServers @ [WgWait WG]"

definition question_startServers :: program where
  "question_startServers =
     [WgAdd WG 2,
      Spawn (HTTPServer_Serve @ [WgDone WG]),
      Spawn (question_Consumer_Consume [MATCH_V1_MATCH_USERS] @ [WgDone WG])]"

definition question_shutdownServers :: program where
  "question_shutdownServers =
     Spawn [WgAdd ShutdownWG 1, Spawn (question_shutdownHTTPServer ShutdownWG),
       WgWait ShutdownWG, CloseChan ShutdownDone] # await_shutdown"

definition question_Start :: program where
  "question_Start = [NotifyContext Signal] @ question_startServers @ [Receive Signal, WithTimeout Timeout] @
     question_shutdownServers @ [WgWait WG]"

text \<open>The map of topics of the game service has two entries, which \<open>range\<close> visits in either order.\<close>

definition game_topics :: "bool \<Rightarrow> string list" where
  "game_topics swap = (if swap then [QUESTION_V1_QUESTIONS, MATCH_V1_MATCH_USERS] else [MATCH_V1_MATCH_USERS, QUESTION_V1_QUESTIONS])"

definition game_startServers :: "bool \<Rightarrow> program" where
  "game_startServers swap =
     [WgAdd WG 3,
      Spawn (HTTPServer_Serve @ [WgDone WG]),
      Spawn (Consumer_Consume (game_topics swap) @ [WgDone WG]),
      Spawn (TaskWorker_program @ [WgDone WG])]"

definition game_shutdownServers :: program where
  "game_shutdownServers =
     Spawn [WgAdd ShutdownWG 1, Spawn (game_shutdownHTTPServer ShutdownWG),
       WgWait ShutdownWG, CloseChan ShutdownDone] # await_shutdown"

definition game_Start :: "bool \<Rightarrow> program" where
  "game_Start swap = [NotifyContext Signal] @ game_startServers swap @ [Receive Signal, WithTimeout Timeout] @
     game_shutdownServers @ [WgWait WG]"

lemmas app_programs =
  HTTPServer_Serve_def GRPCServer_Serve_def HTTPServer_Stop_def GRPCServer_Stop_def Consumer_Consume_def match_Consumer_Consume_def question_Consumer_Consume_def
  auth_shutdownHTTPServer_def auth_shutdownGRPCServer_def match_shutdownHTTPServer_def question_shutdownHTTPServer_def game_shutdownHTTPServer_def
  Scheduler_Start_program_def TaskWorker_program_def shutdownHTTPServer_def shutdownGRPCServer_def await_shutdown_def
  user_startServers_def user_shutdownServers_def user_Start_def auth_startServers_def auth_shutdownServers_def auth_Start_def
  match_startServers_def match_shutdownServers_def match_Start_def question_startServers_def question_shutdownServers_def
  question_Start_def game_topics_def game_startServers_def game_shutdownServers_def game_Start_def

section \<open>The contract of an application\<close>

text \<open>
  What the libraries promise: stopping an HTTP server returns, since its context has a timeout of its own;
  a server that was stopped stops serving; the scheduler starts, and stops; the task
  server of asynq starts, and returns on a signal that comes after it has registered for signals. Nothing is said of a GRPC server that is being stopped, which waits for its calls
  to end, nor of a server that was not stopped: it may fail at any time.
\<close>

definition library_ok :: "library \<Rightarrow> bool" where
  "library_ok lib \<longleftrightarrow> (\<forall>s. lib_returns lib s HTTP_Stop \<and> lib_returns lib s Scheduler_Start \<and> lib_returns lib s Scheduler_Stop \<and>
     lib_returns lib s Tasks_Start \<and> (Call HTTP_Stop \<in># history s \<longrightarrow> lib_returns lib s HTTP_Serve) \<and>
     (Call GRPC_Stop \<in># history s \<longrightarrow> lib_returns lib s GRPC_Serve) \<and>
     (Signal \<in> fired s \<and> Call Tasks_Start \<in># at_fire s Signal \<longrightarrow> lib_returns lib s Tasks_Run))"

text \<open>The task server waits for a signal that has come before it was listening.\<close>

definition missed_signal :: "library \<Rightarrow> process \<Rightarrow> bool" where
  "missed_signal lib s \<longleftrightarrow> Signal \<in> fired s \<and> Call Tasks_Start \<notin># at_fire s Signal \<and> \<not> lib_returns lib s Tasks_Run \<and>
     (\<exists>q \<in> set (goroutines s). q \<noteq> [] \<and> hd q = Call Tasks_Run)"

definition shutdown_select :: instr where
  "shutdown_select = Select [(ShutdownDone, None), (Timeout, Some 1)]"

text \<open>Which instruction a goroutine may be held up at.\<close>

fun server_head :: "instr \<Rightarrow> bool" where
  "server_head (Call c) = (c \<in> {HTTP_Serve, GRPC_Serve, Scheduler_Start, Scheduler_Stop, Tasks_Start, Tasks_Run})"
| "server_head (Receive c) = (c = SchedulerDone)"
| "server_head (Send c) = False"
| "server_head (WgWait w) = False"
| "server_head (Select cs) = False"
| "server_head x = True"

fun main_head :: "instr \<Rightarrow> bool" where
  "main_head (Receive c) = (c = Signal)"
| "main_head (Select cs) = (Select cs = shutdown_select)"
| "main_head (WgWait w) = (w = WG)"
| "main_head (Call c) = False"
| "main_head (Send c) = False"
| "main_head x = True"

fun served_by :: "call \<Rightarrow> call" where
  "served_by HTTP_Stop = HTTP_Serve"
| "served_by GRPC_Stop = GRPC_Serve"
| "served_by c = c"

definition waits_for :: "wait_group \<Rightarrow> program \<Rightarrow> bool" where
  "waits_for w p \<longleftrightarrow> count (instrs p) (WgWait w) = 1 \<and>
     (\<forall>q \<in> set (parts p). pending_dones w q = 0 \<longrightarrow> WgDone w \<in># instrs q \<longrightarrow> WgWait w \<in># instrs q)"

locale application =
  fixes p :: program
  assumes counts: "counts p w"
    and waits: "w \<in> {WG, ShutdownWG} \<Longrightarrow> waits_for w p"
    and order: "before (Receive Signal) shutdown_select p" "before (WgWait ShutdownWG) (CloseChan ShutdownDone) p"
    and main_order: "NotifyContext Signal \<in> set (takeWhile (\<lambda>x. x \<noteq> Receive Signal) p)"
      "{Receive Signal, WithTimeout Timeout} \<subseteq> set (takeWhile (\<lambda>x. x \<noteq> shutdown_select) p)"
      "shutdown_select \<in> set (takeWhile (\<lambda>x. x \<noteq> WgWait WG) p)"
    and channels: "NotifyContext c \<in># instrs p \<Longrightarrow> c = Signal" "WithTimeout c \<in># instrs p \<Longrightarrow> c = Timeout"
      "CloseChan c \<in># instrs p \<Longrightarrow> c = ShutdownDone" "Send c \<in># instrs p \<Longrightarrow> c = SchedulerDone"
      "Select cs \<in># instrs p \<Longrightarrow> Select cs = shutdown_select"
    and main: "last p = WgWait WG" "\<forall>q \<in> set (parts p). WgWait WG \<in># instrs q \<longrightarrow> main_head (hd q) \<and> (hd q = WgWait WG \<longrightarrow> q = [WgWait WG])"
    and servers: "\<forall>q \<in> set (parts p). WgDone WG \<in># instrs q \<longrightarrow> WgWait WG \<notin># instrs q \<longrightarrow> server_head (hd q)"
    and stops: "k \<in> {HTTP_Stop, GRPC_Stop} \<Longrightarrow> \<forall>q \<in> set (parts p). Call k \<in># instrs q \<longrightarrow> WgDone ShutdownWG \<in># instrs q"
      "k \<in> {HTTP_Stop, GRPC_Stop} \<Longrightarrow> Call (served_by k) \<in># instrs p \<Longrightarrow> Call k \<in># instrs p"
    and calls: "Call HTTP_Stop \<in># instrs p \<Longrightarrow> Call HTTP_Serve \<in># instrs p" "Call GRPC_Stop \<in># instrs p \<Longrightarrow> Call GRPC_Serve \<in># instrs p"
    and serves: "k \<in> {HTTP_Serve, GRPC_Serve, Scheduler_Start, Scheduler_Stop, Tasks_Start, Tasks_Run} \<Longrightarrow>
      \<forall>q \<in> set (parts p). Call k \<in># instrs q \<longrightarrow> WgDone WG \<in># instrs q"
    and scheduler: "count (instrs p) (Receive SchedulerDone) = count (instrs p) (Send SchedulerDone)"
      "\<forall>q \<in> set (parts p). Send SchedulerDone \<in># instrs q \<longrightarrow> q = [Send SchedulerDone] \<or> WgWait WG \<in># instrs q"
begin

lemma history_in_program: "runs lib n (boot p) s \<Longrightarrow> x \<in># history s \<Longrightarrow> x \<in># instrs p"
  using runs_conserves [of lib n p s] by (metis union_iff)

lemma remaining_in_program: "runs lib n (boot p) s \<Longrightarrow> x \<in># remaining s \<Longrightarrow> x \<in># instrs p"
  using runs_conserves [of lib n p s] by (metis union_iff)

lemma fired_channels: "runs lib n (boot p) s \<Longrightarrow> fired s \<subseteq> {Signal, Timeout}"
  using runs_fired [of lib n p s] history_in_program [of lib n s] channels by auto

lemma main_advance:
  assumes "p = pre @ q" and "\<forall>x \<in> set pre. x \<in># H" and "(q # ts) ! i = y # r"
  shows "\<exists>pre' q' ts'. (q # ts)[i := r] @ new = q' # ts' \<and> p = pre' @ q' \<and> (\<forall>x \<in> set pre'. x \<in># add_mset y H)"
proof (cases i)
  case 0
  with assms show ?thesis by (intro exI [of _ "pre @ [y]"] exI [of _ r] exI [of _ "ts @ new"]) simp
next
  case (Suc k)
  with assms show ?thesis by (intro exI [of _ pre] exI [of _ q] exI [of _ "ts[k := r] @ new"]) simp
qed

lemma main_first:
  "runs lib n (boot p) s \<Longrightarrow> \<exists>pre q ts. goroutines s = q # ts \<and> p = pre @ q \<and> (\<forall>x \<in> set pre. x \<in># history s)"
proof (induction n "boot p" s rule: runs.induct)
  case (more n t u)
  then obtain pre q ts where t: "goroutines t = q # ts" "p = pre @ q" "\<forall>x \<in> set pre. x \<in># history t" by blast
  from more(3) show ?case
  proof cases
    case (run i x r)
    then show ?thesis using main_advance [OF t(2,3), of ts i x r "spawned x"] t(1) by simp
  next
    case (select i cs r c e)
    then show ?thesis using main_advance [OF t(2,3), of ts i "Select cs" r "[]"] t(1) by simp
  next
    case (rendezvous i c r j r')
    then have "i \<noteq> j" by auto
    obtain pre' q' ts' where 1: "(q # ts)[i := r] = q' # ts'" "p = pre' @ q'" "\<forall>x \<in> set pre'. x \<in># add_mset (Send c) (history t)"
      using main_advance [OF t(2,3), of ts i "Send c" r "[]"] rendezvous(4) t(1) by auto
    have "(q' # ts') ! j = Receive c # r'" using rendezvous(4,6) t(1) 1(1) \<open>i \<noteq> j\<close> by (metis nth_list_update_neq)
    from main_advance [OF 1(2,3) this, of "[]"] show ?thesis using rendezvous(1) t(1) 1(1) by (simp add: add_mset_commute)
  qed (use t in auto)
qed (simp add: boot_def)

text \<open>After a wait nothing is left to be waited for.\<close>

lemma waited:
  assumes "w \<in> {WG, ShutdownWG}"
  shows "runs lib n (boot p) s \<Longrightarrow> WgWait w \<in># history s \<Longrightarrow> WgDone w \<notin># remaining s"
proof (induction n "boot p" s rule: runs.induct)
  case (more n t u)
  then have u: "runs lib (Suc n) (boot p) u" by (blast intro: runs.more)
  show ?case
  proof (cases "WgWait w \<in># history t")
    case True
    then have "WgDone w \<notin># remaining t" using more(2) by simp
    moreover have "remaining u \<subseteq># remaining t" using more(3) by (rule proc_step_shrinks)
    ultimately show ?thesis by (meson mset_subset_eqD)
  next
    case False
    with more(3,4) have "wg_count w t = 0" by (induction rule: proc_step.induct) auto
    have once: "count (instrs p) (WgWait w) = 1"
      and zero: "\<forall>q \<in> set (parts p). pending_dones w q = 0 \<longrightarrow> WgDone w \<in># instrs q \<longrightarrow> WgWait w \<in># instrs q"
      using waits [OF assms] by (simp_all add: waits_for_def)
    have "WgWait w \<notin># remaining u"
      using before_done [OF u _ more(4)] once by (auto simp: before_def)
    have "wg_count w u = wg_count w t"
      using more(3,4) False by (induction rule: proc_step.induct) (auto simp: wg_count_def)
    with \<open>wg_count w t = 0\<close> have "wg_count w u = 0" by simp
    then have "pending_dones w q = 0" if "q \<in> set (goroutines u)" for q
      using counts_zero [OF u counts _ that] by simp
    with \<open>WgWait w \<notin># remaining u\<close> show ?thesis
      using zero runs_parts [OF u] by (auto simp: in_remaining)
  qed
qed (simp add: boot_def)

lemma head_in_program:
  assumes "runs lib n (boot p) s" and "i < length (goroutines s)" and "goroutines s ! i = x # q"
  shows "x # q \<in> set (parts p)" "x \<in># remaining s" "x \<in># instrs p"
proof -
  have "x # q \<in> set (goroutines s)" using assms(2,3) by (metis nth_mem)
  then show "x # q \<in> set (parts p)" "x \<in># remaining s"
    using runs_parts [OF assms(1)] by (auto simp: in_remaining instrs_Cons intro!: bexI [of _ "x # q"])
  then show "x \<in># instrs p" using remaining_in_program [OF assms(1)] by simp
qed

lemma no_panic:
  assumes "runs lib n (boot p) s" and "i < length (goroutines s)" and "goroutines s ! i = x # q"
  shows "x = WgDone w \<Longrightarrow> 0 < wg_count w s" "x = CloseChan c \<Longrightarrow> \<not> closed_chan s c"
proof -
  note head = head_in_program [OF assms]
  assume "x = WgDone w"
  moreover have "0 \<le> pending_dones w q" using counts [of w] parts_step(1) [OF head(1)] by (auto simp: counts_def)
  ultimately have "0 < pending_dones w (x # q)" by (simp add: pending_dones_def)
  then show "0 < wg_count w s" using counts_positive [OF assms(1) counts] assms(2,3) by (metis nth_mem)
next
  note head = head_in_program [OF assms]
  assume x: "x = CloseChan c"
  then have c: "c = ShutdownDone" using head(3) channels(3) by simp
  have "count (history s) x + count (remaining s) x = 1"
    using runs_conserves [OF assms(1)] order(2) x c by (metis before_def count_union)
  then have "x \<notin># history s" using head(2) by (metis One_nat_def add_is_1 count_greater_zero_iff less_irrefl)
  moreover have "c \<notin> fired s" using fired_channels [OF assms(1)] c by auto
  ultimately show "\<not> closed_chan s c" using x by (simp add: closed_chan_def)
qed

lemma exits:
  "runs lib n (boot p) s \<Longrightarrow> (exit_code s = None \<or> exit_code s = Some 0 \<or> exit_code s = Some 1 \<or> exit_code s = Some 2) \<and>
    (exit_code s = Some 2 \<longrightarrow> (\<exists>k. started s k \<and> lib_panics lib (s\<lparr>exit_code := None\<rparr>) k)) \<and>
    (exit_code s = Some 0 \<longrightarrow> (\<exists>ts. goroutines s = [] # ts)) \<and> (exit_code s = Some 1 \<longrightarrow> Timeout \<in> fired s \<and> shutdown_select \<in># history s) \<and>
    (shutdown_select \<in># history s \<longrightarrow> exit_code s \<noteq> Some 1 \<longrightarrow> CloseChan ShutdownDone \<in># history s)"
proof (induction n "boot p" s rule: runs.induct)
  case (more n t u)
  have panics: "goroutines t ! i \<noteq> WgDone w # q \<or> 0 < wg_count w t" "goroutines t ! i \<noteq> CloseChan c # q \<or> \<not> closed_chan t c"
    if "i < length (goroutines t)" for i w c q using no_panic [OF more(1) that] by blast+
  from more(3) show ?case
  proof cases
    case (run i x q)
    then show ?thesis using more(2) by (auto simp: shutdown_select_def)
  next
    case (select i cs q c r)
    have "Select cs = shutdown_select" using head_in_program [OF more(1) select(3,4)] channels(5) by blast
    moreover have "CloseChan c \<in># history t \<longrightarrow> c = ShutdownDone" using history_in_program [OF more(1)] channels(3) by blast
    ultimately show ?thesis using select more(2) fired_channels [OF more(1)]
      by (auto simp: shutdown_select_def closed_chan_def)
  next
    case (rendezvous i c q j r)
    then show ?thesis using more(2) by (auto simp: shutdown_select_def)
  next
    case (negative_counter i w q)
    then show ?thesis using panics(1) by (metis not_le)
  next
    case (closed_twice i c q)
    then show ?thesis using panics(2) by metis
  next
    case (call_panics k)
    have same: "t\<lparr>exit_code := None\<rparr> = t" using call_panics(2) by simp
    have "started u k" using call_panics(1,3) by (simp add: started_def)
    then have "\<exists>k. started u k \<and> lib_panics lib (u\<lparr>exit_code := None\<rparr>) k" using call_panics(1,4) same by auto
    moreover have "exit_code u = Some 2" "history u = history t" using call_panics(1) by simp_all
    ultimately show ?thesis using more(2) call_panics(2) by simp
  qed (use more(2) in auto)
qed (simp add: boot_def)

lemma signalled:
  "runs lib n (boot p) s \<Longrightarrow> Receive Signal \<in># history s \<Longrightarrow> Signal \<in> fired s"
proof (induction n "boot p" s rule: runs.induct)
  case (more n t u)
  have unclosed: "CloseChan Signal \<notin># history t" using history_in_program [OF more(1)] channels(3) by blast
  have "goroutines t ! i \<noteq> Send Signal # q" if "i < length (goroutines t)" for i q
    using head_in_program(3) [OF more(1) that] channels(4) by blast
  with more(3) show ?case using more(2,4) unclosed
    by (cases rule: proc_step.cases) (auto simp: closed_chan_def)
qed (simp add: boot_def)

lemma sends_received:
  "runs lib n (boot p) s \<Longrightarrow> count (history s) (Receive SchedulerDone) = count (history s) (Send SchedulerDone)"
proof (induction n "boot p" s rule: runs.induct)
  case (more n t u)
  have "\<not> closed_chan t SchedulerDone"
    using fired_channels [OF more(1)] history_in_program [OF more(1)] channels(3) by (auto simp: closed_chan_def)
  with more(3,2) show ?case by (cases rule: proc_step.cases) auto
qed (simp add: boot_def)

lemma stopped:
  assumes "runs lib n (boot p) s" and "CloseChan ShutdownDone \<in># history s" and "k \<in> {HTTP_Stop, GRPC_Stop}"
    and "Call (served_by k) \<in># instrs p"
  shows "Call k \<in># history s"
proof -
  have "WgWait ShutdownWG \<notin># remaining s" using before_done [OF assms(1) order(2) assms(2)] .
  moreover have "WgWait ShutdownWG \<in># instrs p"
    using waits [of ShutdownWG] by (simp add: waits_for_def flip: count_greater_zero_iff)
  ultimately have "WgDone ShutdownWG \<notin># remaining s" using waited [of ShutdownWG] assms(1) executed [OF assms(1)] by simp
  then have "Call k \<notin># remaining s" using stops(1) [OF assms(3)] runs_parts [OF assms(1)] by (auto simp: in_remaining)
  then show ?thesis using executed [OF assms(1)] stops(2) [OF assms(3,4)] by blast
qed

text \<open>No two goroutines have the same unique instruction before them.\<close>

lemma unique_goroutine:
  assumes "runs lib n (boot p) s" and "count (instrs p) y = 1"
    and "i < length (goroutines s)" "j < length (goroutines s)" "y \<in># instrs (goroutines s ! i)" "y \<in># instrs (goroutines s ! j)"
  shows "i = j"
proof (rule ccontr)
  assume "i \<noteq> j"
  have "(\<Sum>q\<leftarrow>(goroutines s)[i := [], j := []]. instrs q) + instrs (goroutines s ! j) + instrs (goroutines s ! i) = remaining s"
    using remaining_update [of i "goroutines s" "[]"] remaining_update [of j "(goroutines s)[i := []]" "[]"] \<open>i \<noteq> j\<close> assms(3,4)
    by (simp add: remaining_def)
  then have "count (instrs (goroutines s ! j)) y + count (instrs (goroutines s ! i)) y \<le> count (remaining s) y"
    by (metis count_union le_add2 add.assoc)
  moreover have "count (remaining s) y \<le> 1" using runs_conserves [OF assms(1)] assms(2) by (metis count_union le_add2)
  ultimately show False using assms(5,6) by (simp flip: count_greater_zero_iff)
qed

lemma in_instrs: "x \<in> set q \<Longrightarrow> x \<in># instrs q"
  by (induction q) (auto simp: instrs_Cons)

lemma pending_has_done: "0 < pending_dones w q \<Longrightarrow> WgDone w \<in># instrs q"
proof (rule ccontr)
  assume pos: "0 < pending_dones w q" and "WgDone w \<notin># instrs q"
  then have "0 \<le> wg_change w x" if "x \<in># instrs q" for x using that by (cases x) auto
  moreover have "(\<And>x. x \<in># M \<Longrightarrow> 0 \<le> wg_change w x) \<Longrightarrow> 0 \<le> (\<Sum>x\<in>#M. wg_change w x)" for M by (induction M) auto
  ultimately have "0 \<le> (\<Sum>x\<in>#instrs q. wg_change w x)" by blast
  with pos show False by (simp add: pending_dones_def)
qed

lemma sum_list_neq_0: "sum_list (map f xs) \<noteq> (0 :: int) \<Longrightarrow> \<exists>x \<in> set xs. f x \<noteq> 0"
  by (induction xs) auto

text \<open>What has happened when the goroutine of \<open>main\<close> has come to one of its waits.\<close>

lemma main_past:
  assumes "p = pre @ y # q" and "\<forall>x \<in> set pre. x \<in># history s" and "x \<in> set (takeWhile (\<lambda>x. x \<noteq> y) p)"
  shows "x \<in># history s"
proof -
  have "takeWhile (\<lambda>x. x \<noteq> y) (pre @ y # q) = takeWhile (\<lambda>x. x \<noteq> y) pre"
    by (induction pre) auto
  then have "x \<in> set pre" using assms(1,3) by (metis set_takeWhileD)
  with assms(2) show ?thesis by blast
qed

lemma selected_signal:
  assumes r: "runs lib n (boot p) s" and "shutdown_select \<in># history s"
  shows "Signal \<in> fired s"
proof -
  have "Receive Signal \<in># history s"
    using before_done [OF r order(1) assms(2)] executed [OF r] main_order(2) by (meson in_instrs insert_subset set_takeWhileD)
  then show ?thesis by (rule signalled [OF r])
qed

text \<open>When \<open>main\<close> waits for the servers, one of them can go on or \<open>main\<close> can.\<close>

lemma waiting_main:
  assumes r: "runs lib n (boot p) s" and lib: "library_ok lib" and alive: "exit_code s = None"
    and wait: "goroutines s = [WgWait WG] # ts" and closed: "CloseChan ShutdownDone \<in># history s" and signal: "Signal \<in> fired s"
    and blocked: "\<And>i x q. i < length (goroutines s) \<Longrightarrow> goroutines s ! i = x # q \<Longrightarrow> \<not> can_run lib s x"
  shows "(\<exists>t. proc_step lib s t) \<or> missed_signal lib s"
proof -
  have main: "0 < length (goroutines s)" "goroutines s ! 0 = [WgWait WG]" using wait by simp_all
  have once: "count (instrs p) (WgWait WG) = 1" using waits [of WG] by (simp add: waits_for_def)
  have alone: "WgWait WG \<notin># instrs (goroutines s ! j)" if "j < length (goroutines s)" "j \<noteq> 0" for j
    using unique_goroutine [OF r once that(1) main(1)] that(2) main(2) by auto
  have "wg_count WG s \<noteq> 0" using blocked [OF main] by simp
  then obtain q where q: "q \<in> set (goroutines s)" "pending_dones WG q \<noteq> 0"
    using wg_count_eq [OF r, of WG] counts [of WG] sum_list_neq_0 [of "pending_dones WG" "goroutines s"] by (auto simp: counts_def)
  obtain j where j: "j < length (goroutines s)" "goroutines s ! j = q" using q(1) by (meson in_set_conv_nth)
  have part: "q \<in> set (parts p)" using runs_parts [OF r] q(1) by blast
  then have pend: "WgDone WG \<in># instrs q" using q(2) counts [of WG] pending_has_done by (force simp: counts_def)
  have "j \<noteq> 0" using pend j(2) main(2) by (cases "j = 0") auto
  have "server_head (hd q)" using servers part pend alone [OF j(1) \<open>j \<noteq> 0\<close>] j(2) by blast
  obtain y q' where y: "q = y # q'" using pend by (cases q) auto
  note at = j(1) j(2) [unfolded y]
  note prog = head_in_program(3) [OF r at]
  have receive: "y = Receive SchedulerDone \<or> missed_signal lib s"
    using \<open>server_head (hd q)\<close> blocked [OF at] no_panic [OF r at] y lib signal stopped [OF r closed, of HTTP_Stop]
      stopped [OF r closed, of GRPC_Stop] prog
    by (cases y) (auto simp: library_ok_def missed_signal_def intro!: bexI [of _ q] q(1))
  show ?thesis
  proof (cases "missed_signal lib s")
  case False
  with receive have receive: "y = Receive SchedulerDone" by blast
  then have "Send SchedulerDone \<in># remaining s"
    using head_in_program(2) [OF r at] sends_received [OF r] scheduler(1) runs_conserves [OF r]
    by (metis add_left_cancel count_greater_zero_iff count_union)
  then obtain k where k: "k < length (goroutines s)" "Send SchedulerDone \<in># instrs (goroutines s ! k)"
    by (auto simp: in_remaining in_set_conv_nth)
  have "k \<noteq> 0" using k(2) main(2) by (cases "k = 0") auto
  moreover have "goroutines s ! k \<in> set (parts p)" using runs_parts [OF r] k(1) by simp
  ultimately have "goroutines s ! k = [Send SchedulerDone]" using scheduler(2) k alone by blast
  then show ?thesis
    using proc_step.rendezvous [OF alive k(1) _ at(1), of SchedulerDone "[]"] at(2) receive by blast
  qed simp
qed

lemma not_stuck:
  assumes r: "runs lib n (boot p) s" and lib: "library_ok lib" and alive: "exit_code s = None"
  shows "(\<exists>t. proc_step lib s t) \<or> missed_signal lib s"
proof (rule ccontr)
  assume "\<not> ((\<exists>t. proc_step lib s t) \<or> missed_signal lib s)"
  then have stuck: "\<nexists>t. proc_step lib s t" and heard: "\<not> missed_signal lib s" by blast+
  have blocked: "\<not> can_run lib s x" if "i < length (goroutines s)" "goroutines s ! i = x # q" for i x q
    using stuck proc_step.run [OF alive that, of lib] by auto
  have fires: "c \<in> fired s" if "NotifyContext c \<in># history s \<or> WithTimeout c \<in># history s" for c
    using stuck proc_step.fire [OF alive that] by blast
  obtain pre m ts where m: "goroutines s = m # ts" "p = pre @ m" "\<forall>x \<in> set pre. x \<in># history s"
    using main_first [OF r] by blast
  have "m \<noteq> []" using stuck proc_step.main_returns [OF alive] m(1) by blast
  then obtain x q where x: "m = x # q" by (cases m) auto
  have idx: "0 < length (goroutines s)" "goroutines s ! 0 = x # q" using m(1) x by simp_all
  have "WgWait WG \<in># instrs m" using main(1) m(2) \<open>m \<noteq> []\<close> by (metis in_instrs last_appendR last_in_set)
  moreover have "m \<in> set (parts p)" using runs_parts [OF r] m(1) by simp
  ultimately have head: "main_head x" "x = WgWait WG \<longrightarrow> q = []" using main(2) x by auto
  note past = main_past [OF m(2) [unfolded x] m(3)]
  have "x = Receive Signal \<or> x = shutdown_select \<or> x = WgWait WG"
    using head(1) blocked [OF idx] no_panic [OF r idx] by (cases x) auto
  then consider "x = Receive Signal" | "x = shutdown_select" | "x = WgWait WG" by blast
  then show False
  proof cases
    case 1
    then have "Signal \<in> fired s" using past main_order(1) fires by blast
    with blocked [OF idx] 1 show False by (simp add: closed_chan_def)
  next
    case 2
    then have "Timeout \<in> fired s" using past main_order(2) fires by blast
    with stuck show False
      using proc_step.select [OF alive idx(1) idx(2) [unfolded 2 shutdown_select_def], of Timeout "Some 1"] by (auto simp: closed_chan_def)
  next
    case 3
    then have "shutdown_select \<in># history s" using past main_order(3) by blast
    then show False
      using stuck heard waiting_main [OF r lib alive _ _ _ blocked, of ts] selected_signal [OF r] exits [OF r] alive m(1) x head(2) 3 by auto
  qed
qed

text \<open>Every step runs an instruction, closes the channel of a context or ends the process.\<close>

lemma steps_bounded:
  assumes r: "runs lib n (boot p) s"
  shows "n \<le> size (instrs p) + 3"
proof -
  have "n \<le> size (history s) + card (fired s) + (if exit_code s = None then 0 else 1)"
    using r
  proof (induction n "boot p" s rule: runs.induct)
    case (more n t u)
    have "finite (fired t)" using fired_channels [OF more(1)] finite_subset by blast
    with more(3,2) show ?case by (cases rule: proc_step.cases) auto
  qed (simp add: boot_def)
  moreover have "size (history s) \<le> size (instrs p)" using runs_conserves [OF r] by (metis size_union le_add1)
  moreover have "card (fired s) \<le> card {Signal, Timeout}" using fired_channels [OF r] by (intro card_mono) auto
  ultimately show ?thesis by (simp split: if_splits)
qed

lemma reaches_exit:
  assumes lib: "library_ok lib" and heard: "\<And>s. \<not> missed_signal lib s"
  shows "runs lib n (boot p) s \<Longrightarrow> \<exists>m t. runs lib m (boot p) t \<and> exit_code t \<noteq> None"
proof (induction "size (instrs p) + 4 - n" arbitrary: n s)
  case 0
  with steps_bounded [OF 0(2)] show ?case by simp
next
  case (Suc k)
  show ?case
  proof (cases "exit_code s = None")
    case True
    then obtain t where "runs lib (Suc n) (boot p) t" using not_stuck [OF Suc(3) lib] heard Suc(3) runs.more by blast
    with Suc(1) [of "Suc n" t] Suc(2) show ?thesis by simp
  qed (use Suc(3) in blast)
qed

text \<open>How the process ends.\<close>

lemma ended:
  assumes r: "runs lib n (boot p) s" and "exit_code s = Some c"
  shows "c = 2 \<and> (\<exists>k. started s k \<and> lib_panics lib (s\<lparr>exit_code := None\<rparr>) k) \<or> Signal \<in> fired s \<and>
    (c = 1 \<and> Timeout \<in> fired s \<or> c = 0 \<and> CloseChan ShutdownDone \<in># history s \<and>
      (\<forall>k. Call k \<in># instrs p \<longrightarrow> (\<forall>t. k \<noteq> Broker_Consume t) \<longrightarrow> Call k \<in># history s))"
proof (cases "c = 2")
  case True
  with exits [OF r] assms(2) show ?thesis by simp
next
  case no_crash: False
  have select: "shutdown_select \<in># history s"
    using exits [OF r] assms(2) no_crash main_first [OF r] main_order(3) by (auto dest: set_takeWhileD)
  have "c = 1 \<and> Timeout \<in> fired s \<or> c = 0 \<and> CloseChan ShutdownDone \<in># history s \<and>
      (\<forall>k. Call k \<in># instrs p \<longrightarrow> (\<forall>t. k \<noteq> Broker_Consume t) \<longrightarrow> Call k \<in># history s)"
  proof (cases "c = 1")
    case True
    with exits [OF r] assms(2) show ?thesis by simp
  next
    case False
    with exits [OF r] assms(2) select no_crash have c: "c = 0" "CloseChan ShutdownDone \<in># history s" "\<exists>ts. goroutines s = [] # ts" by auto
    then have "\<forall>x \<in> set p. x \<in># history s" using main_first [OF r] by auto
    moreover have "p \<noteq> []" using main_order(1) by auto
    ultimately have "WgWait WG \<in># history s" using main(1) by (metis last_in_set)
    then have no: "WgDone WG \<notin># remaining s" using waited [of WG] r by simp
    have "Call k \<in># history s" if k: "Call k \<in># instrs p" "\<forall>t. k \<noteq> Broker_Consume t" for k
    proof (cases "k \<in> {HTTP_Stop, GRPC_Stop}")
      case True
      with calls k(1) show ?thesis using stopped [OF r c(2) True] by auto
    next
      case False
      with k(2) have "k \<in> {HTTP_Serve, GRPC_Serve, Scheduler_Start, Scheduler_Stop, Tasks_Start, Tasks_Run}" by (cases k) auto
      from serves [OF this] no have "Call k \<notin># remaining s" using runs_parts [OF r] by (auto simp: in_remaining)
      then show ?thesis using executed [OF r k(1)] by blast
    qed
    with c show ?thesis by blast
  qed
  then show ?thesis using selected_signal [OF r select] by blast
qed

end

lemmas app_checks = app_programs shutdown_select_def counts_def waits_for_def before_def pending_dones_def


interpretation user_process: application user_Start
  by unfold_locales (auto simp: app_checks split: if_splits)

interpretation auth_process: application auth_Start
  by unfold_locales (auto simp: app_checks split: if_splits)

interpretation match_process: application match_Start
  by unfold_locales (auto simp: app_checks split: if_splits)

interpretation question_process: application question_Start
  by unfold_locales (auto simp: app_checks split: if_splits)

interpretation game_process: application "game_Start swap" for swap
  by (cases swap; simp; unfold_locales) (auto simp: app_checks split: if_splits)

end
