(* ===== verification/Setup_Services.thy ===== *)
theory Setup_Services
  imports Applications Match_Repository User_Service Question_Service Game_Service
begin

text \<open>
  \<open>Setup\<close> of \<open>services/*/app.go\<close>: how each service is put together from its adapters. The
  clients that the constructors of the adapters open are arguments. Three services connect
  to Kafka and panic when that fails; the match service builds everything else before it
  looks at the error. The constructors of the layers are definitions of their own, put together as \<open>Setup\<close>
  does; a handler is the service that it holds, and loggers are left out.
\<close>

section \<open>What the services share\<close>

record ('b, 's) consumer =
  cns_broker :: 'b
  cns_service :: 's

definition NewWS :: "'w gobwas \<Rightarrow> 'w websocket" where
  "NewWS lib = WS lib"

section \<open>The match service\<close>

record 'w match_svc =
  msv_repo :: "'w match_repo"
  msv_config :: match_config
  msv_broker :: "'w broker"

text \<open>The clock of the scheduler is gocron's, its interval is in the program \<open>Scheduler_Start_program\<close>.\<close>

record 'w match_Scheduler =
  sch_service :: "'w match_svc"

definition match_NewRepository :: "('w, gotime) state \<Rightarrow> match_repo_config \<Rightarrow> 'w redis_client \<Rightarrow> 'w match_repo" where
  "match_NewRepository now config redis = MatchMakingRepository now config redis"

definition match_NewService :: "'w match_repo \<Rightarrow> match_config \<Rightarrow> 'w broker \<Rightarrow> 'w match_svc" where
  "match_NewService repository config broker = \<lparr>msv_repo = repository, msv_config = config, msv_broker = broker\<rparr>"

definition match_NewScheduler :: "'w match_svc \<Rightarrow> 'w match_Scheduler" where
  "match_NewScheduler matchSvc = \<lparr>sch_service = matchSvc\<rparr>"

definition match_NewHandler :: "'w match_svc \<Rightarrow> 'w match_svc" where
  "match_NewHandler userService = userService"

definition match_NewConsumer :: "'w broker \<Rightarrow> 'w match_svc \<Rightarrow> ('w broker, 'w match_svc) consumer" where
  "match_NewConsumer broker service = \<lparr>cns_broker = broker, cns_service = service\<rparr>"

record 'w match_app =
  map_Repository :: "'w match_repo"
  map_Service :: "'w match_svc"
  map_Scheduler :: "'w match_Scheduler"
  map_Consumer :: "('w broker, 'w match_svc) consumer"
  map_HTTPServer :: "'w match_svc"

definition match_Setup :: "('w, gotime) state \<Rightarrow> match_repo_config \<Rightarrow> match_config \<Rightarrow> 'w redis_client \<Rightarrow> 'w sarama \<Rightarrow>
    ('w, 'w match_app outcome) state" where
  "match_Setup now repo_config config redisAdapter kafka = do {
     let repo = match_NewRepository now repo_config redisAdapter;
     r \<leftarrow> NewKafkaBroker kafka;
     let kafkaBroker = KafkaBroker kafka;
     let svc = match_NewService repo config kafkaBroker;
     let scheduler = match_NewScheduler svc;
     let handler = match_NewHandler svc;
     case r of
       Inl err \<Rightarrow> ret (Panicked ErrorPanic)
     | Inr _ \<Rightarrow> ret (Returned \<lparr>map_Repository = repo, map_Service = svc, map_Scheduler = scheduler,
         map_Consumer = match_NewConsumer kafkaBroker svc, map_HTTPServer = handler\<rparr>) }"

section \<open>The question service\<close>

record 'w question_svc =
  qsv_repository :: "'w question_repo"
  qsv_broker :: "'w broker"

definition question_NewRepository :: "'w question_db \<Rightarrow> 'w question_repo" where
  "question_NewRepository db = QuestionRepository db"

definition question_NewService :: "'w question_repo \<Rightarrow> 'w broker \<Rightarrow> 'w question_svc" where
  "question_NewService repository broker = \<lparr>qsv_repository = repository, qsv_broker = broker\<rparr>"

definition question_NewHandler :: "'w question_svc \<Rightarrow> 'w question_svc" where
  "question_NewHandler service = service"

definition question_NewConsumer :: "'w broker \<Rightarrow> 'w question_svc \<Rightarrow> ('w broker, 'w question_svc) consumer" where
  "question_NewConsumer broker service = \<lparr>cns_broker = broker, cns_service = service\<rparr>"

record 'w question_app =
  qap_Repository :: "'w question_repo"
  qap_Service :: "'w question_svc"
  qap_Handler :: "'w question_svc"
  qap_HTTPServer :: "'w question_svc"
  qap_Consumer :: "('w broker, 'w question_svc) consumer"

definition question_Setup :: "'w question_db \<Rightarrow> 'w sarama \<Rightarrow> ('w, 'w question_app outcome) state" where
  "question_Setup postgresConn kafka = do {
     let repo = question_NewRepository postgresConn;
     r \<leftarrow> NewKafkaBroker kafka;
     case r of
       Inl err \<Rightarrow> ret (Panicked ErrorPanic)
     | Inr _ \<Rightarrow>
         (let questionService = question_NewService repo (KafkaBroker kafka);
              questionHandler = question_NewHandler questionService;
              consumer = question_NewConsumer (KafkaBroker kafka) questionService
          in ret (Returned \<lparr>qap_Repository = repo, qap_Service = questionService, qap_Handler = questionHandler,
               qap_HTTPServer = questionHandler, qap_Consumer = consumer\<rparr>)) }"

section \<open>The game service\<close>

definition NewGameRepository :: "game_repo_config \<Rightarrow> 'w game_env \<Rightarrow> 'w game_repo" where
  "NewGameRepository config env = GameRepository config env"

definition game_NewHandler :: "'w game_service \<Rightarrow> 'w game_service" where
  "game_NewHandler service = service"

definition game_NewConsumer :: "'w broker \<Rightarrow> 'w game_service \<Rightarrow> ('w broker, 'w game_service) consumer" where
  "game_NewConsumer broker service = \<lparr>cns_broker = broker, cns_service = service\<rparr>"

text \<open>The processor of a task worker is the program \<open>TaskWorker_program\<close>.\<close>

record 'w TaskWorker =
  tw_service :: "'w game_service"

definition NewTaskWorker :: "'w game_service \<Rightarrow> 'w TaskWorker" where
  "NewTaskWorker service = \<lparr>tw_service = service\<rparr>"

record 'w game_app =
  gap_Repository :: "'w game_repo"
  gap_Service :: "'w game_service"
  gap_UserHandler :: "'w game_service"
  gap_Consumer :: "('w broker, 'w game_service) consumer"
  gap_HTTPServer :: "'w game_service"
  gap_TaskPublisher :: "'w task_publisher"
  gap_TaskProcessor :: "'w TaskWorker"

definition game_Setup :: "game_repo_config \<Rightarrow> 'w game_env \<Rightarrow> 'w gobwas \<Rightarrow> 'w sarama \<Rightarrow> 'w asynq \<Rightarrow> proto_codec \<Rightarrow>
    ('w, 'w game_app outcome) state" where
  "game_Setup config env lib kafka client P = do {
     let gameRepository = NewGameRepository config env;
     let webSocket = NewWS lib;
     r \<leftarrow> NewKafkaBroker kafka;
     case r of
       Inl err \<Rightarrow> ret (Panicked ErrorPanic)
     | Inr _ \<Rightarrow>
         (let taskPublisher = AsynqTaskQueuePublisher client;
              gameService = NewService gameRepository webSocket (KafkaBroker kafka) taskPublisher P (ge_Now env);
              taskWorker = NewTaskWorker gameService;
              consumer = game_NewConsumer (KafkaBroker kafka) gameService;
              userHandler = game_NewHandler gameService
          in ret (Returned \<lparr>gap_Repository = gameRepository, gap_Service = gameService, gap_UserHandler = userHandler,
               gap_Consumer = consumer, gap_HTTPServer = userHandler, gap_TaskPublisher = taskPublisher,
               gap_TaskProcessor = taskWorker\<rparr>)) }"

section \<open>The user and the auth service\<close>

text \<open>Nothing here can fail. The user service also gets a cache manager, which it never uses.\<close>

record 'w user_svc =
  usv_repository :: "'w user_repo"
  usv_grpcClient :: "'w token_client"

definition NewUserRepository :: "('w, gotime) state \<Rightarrow> 'w postgres \<Rightarrow> 'w user_repo" where
  "NewUserRepository now db = UserRepository now db"

definition user_NewService :: "'w user_repo \<Rightarrow> 'w token_client \<Rightarrow> 'w user_svc" where
  "user_NewService repository grpcClient = \<lparr>usv_repository = repository, usv_grpcClient = grpcClient\<rparr>"

definition user_NewHandler :: "'w user_svc \<Rightarrow> 'w user_svc" where
  "user_NewHandler userService = userService"

definition user_grpc_NewHandler :: "'w user_svc \<Rightarrow> 'w user_svc" where
  "user_grpc_NewHandler srv = srv"

record 'w user_app =
  uap_Repository :: "'w user_repo"
  uap_Service :: "'w user_svc"
  uap_UserHandler :: "'w user_svc"
  uap_HTTPServer :: "'w user_svc"
  uap_GRPCServer :: "'w user_svc"

definition user_Setup :: "('w, gotime) state \<Rightarrow> 'w postgres \<Rightarrow> 'w grpc_conn \<Rightarrow> 'w user_app" where
  "user_Setup now postgresConn Conn =
     (let userRepository = NewUserRepository now postgresConn;
          adapter = TokenClient Conn;
          userService = user_NewService userRepository adapter;
          userHandler = user_NewHandler userService;
          grpcHandler = user_grpc_NewHandler userService
      in \<lparr>uap_Repository = userRepository, uap_Service = userService, uap_UserHandler = userHandler,
          uap_HTTPServer = userHandler, uap_GRPCServer = grpcHandler\<rparr>)"

text \<open>The auth service holds nothing but its configuration.\<close>

definition auth_NewService :: "auth_config \<Rightarrow> auth_config" where
  "auth_NewService config = config"

definition auth_NewHandler :: "auth_config \<Rightarrow> auth_config" where
  "auth_NewHandler service = service"

definition auth_grpc_NewHandler :: "auth_config \<Rightarrow> auth_config" where
  "auth_grpc_NewHandler srv = srv"

record auth_app =
  aap_Service :: auth_config
  aap_AuthHandler :: auth_config
  aap_HTTPServer :: auth_config
  aap_GRPCServer :: auth_config

definition auth_Setup :: "auth_config \<Rightarrow> auth_app" where
  "auth_Setup config =
     (let authService = auth_NewService config;
          handler = auth_NewHandler authService;
          grpcHandler = auth_grpc_NewHandler authService
      in \<lparr>aap_Service = authService, aap_AuthHandler = handler, aap_HTTPServer = handler, aap_GRPCServer = grpcHandler\<rparr>)"

lemmas constructor_defs = NewWS_def match_NewRepository_def match_NewService_def match_NewScheduler_def match_NewHandler_def
  match_NewConsumer_def question_NewRepository_def question_NewService_def question_NewHandler_def question_NewConsumer_def
  NewGameRepository_def game_NewHandler_def game_NewConsumer_def NewTaskWorker_def NewUserRepository_def user_NewService_def
  user_NewHandler_def user_grpc_NewHandler_def auth_NewService_def auth_NewHandler_def auth_grpc_NewHandler_def

end
