(* ===== verification/App_Properties.thy ===== *)
theory App_Properties
  imports Setup_Services Reference_World
begin

text \<open>
  The life of the five processes: a process that was told to stop ends, what its exit code
  means, and what becomes of a start without Kafka.
\<close>

definition applications :: "program set" where
  "applications = {user_Start, auth_Start, match_Start, question_Start, game_Start False, game_Start True}"

lemma application_cases:
  assumes "p \<in> applications"
  shows "application p"
  using assms user_process.application_axioms auth_process.application_axioms match_process.application_axioms question_process.application_axioms
    game_process.application_axioms
  by (auto simp: applications_def)

text \<open>Only the game service has a task server that could miss a signal.\<close>

lemma missed_by_game:
  assumes "p \<in> applications" and "runs lib n (boot p) s" and "missed_signal lib s"
  shows "p \<in> {game_Start False, game_Start True}"
proof -
  from assms(3) have "Call Tasks_Run \<in># remaining s"
    by (auto simp: missed_signal_def in_remaining neq_Nil_conv intro!: bexI)
  then have "Call Tasks_Run \<in># instrs p" using runs_conserves [OF assms(2)] by (metis union_iff)
  with assms(1) show ?thesis by (auto simp: applications_def app_programs)
qed

text \<open>
  C16. The processes of the repository end: whatever the order in which the goroutines run, and
  however the servers fail, a process takes a bounded number of steps, and until it has ended there is
  always a next one, of a goroutine, of the arriving signal or of the clock. The one exception is a game service whose
  signal came before its task server was listening for signals, and which now waits for that server.
\<close>

theorem process_ends:
  assumes "p \<in> applications" and "library_ok lib" and "runs lib n (boot p) s"
  shows "n \<le> size (instrs p) + 3 \<and> (exit_code s = None \<longrightarrow> (\<exists>t. proc_step lib s t) \<or>
    p \<in> {game_Start False, game_Start True} \<and> missed_signal lib s)"
  using application.steps_bounded [OF application_cases [OF assms(1)] assms(3)] missed_by_game [OF assms(1,3)]
    application.not_stuck [OF application_cases [OF assms(1)] assms(3,2)] by blast

text \<open>
  C17. What the exit code of a running application means: with code 0 the signal has come, every server it started
  has stopped serving and every shutdown it began has finished; with code 1 the signal has come and the time for the
  shutdown was over; any other end is code 2, a panic in the code behind one of the calls the process has made. Its wait
  groups and channels never make it panic.
\<close>

theorem exit_code_meaning:
  assumes "p \<in> applications" and "runs lib n (boot p) s" and "exit_code s = Some c"
  shows "c = 0 \<and> Signal \<in> fired s \<and> (\<forall>k. Call k \<in># instrs p \<longrightarrow> (\<forall>t. k \<noteq> Broker_Consume t) \<longrightarrow> Call k \<in># history s) \<or>
    c = 1 \<and> Signal \<in> fired s \<and> Timeout \<in> fired s \<or>
    c = 2 \<and> (\<exists>k. started s k \<and> lib_panics lib (s\<lparr>exit_code := None\<rparr>) k)"
  using application.ended [OF application_cases [OF assms(1)] assms(2,3)] by blast

section \<open>Schedules\<close>

text \<open>A schedule names the goroutine that runs next, with the case it takes in a \<open>select\<close>, or the channel that closes.\<close>

datatype move = Step nat | Choose nat channel "nat option" | Fires channel

fun play :: "library \<Rightarrow> process \<Rightarrow> move list \<Rightarrow> process option" where
  "play lib s [] = Some s"
| "play lib s (Step i # ms) = (if exit_code s = None \<and> i < length (goroutines s) then
     (case goroutines s ! i of
        [] \<Rightarrow> None
      | x # p \<Rightarrow> if can_run lib s x
          then play lib (s\<lparr>goroutines := (goroutines s)[i := p] @ spawned x, history := add_mset x (history s)\<rparr>) ms else None)
     else None)"
| "play lib s (Choose i c r # ms) = (if exit_code s = None \<and> i < length (goroutines s) \<and> closed_chan s c then
     (case goroutines s ! i of
        Select cs # p \<Rightarrow> if (c, r) \<in> set cs
          then play lib (s\<lparr>goroutines := (goroutines s)[i := p], history := add_mset (Select cs) (history s), exit_code := r\<rparr>) ms else None
      | _ \<Rightarrow> None)
     else None)"
| "play lib s (Fires c # ms) = (if exit_code s = None \<and> (NotifyContext c \<in># history s \<or> WithTimeout c \<in># history s) \<and> c \<notin> fired s
     then play lib (s\<lparr>fired := insert c (fired s), at_fire := (at_fire s)(c := history s)\<rparr>) ms else None)"

lemma play_runs: "play lib s ms = Some t \<Longrightarrow> runs lib n s0 s \<Longrightarrow> \<exists>m. runs lib m s0 t"
proof (induction lib s ms arbitrary: n rule: play.induct)
  case (2 lib s i ms)
  then show ?case by (auto split: if_splits list.splits intro: runs.more [OF _ proc_step.run])
next
  case (3 lib s i c r ms)
  from "3.prems"(1) obtain cs p where head: "exit_code s = None" "i < length (goroutines s)" "closed_chan s c"
      "goroutines s ! i = Select cs # p" "(c, r) \<in> set cs"
    and rest: "play lib (s\<lparr>goroutines := (goroutines s)[i := p], history := add_mset (Select cs) (history s), exit_code := r\<rparr>) ms = Some t"
    by (auto split: if_splits list.splits instr.splits)
  from runs.more [OF "3.prems"(2) proc_step.select [OF head(1,2,4,5,3)]] show ?case
    by (rule "3.IH" [OF _ head(4) refl head(5) rest, rotated]) (use head in simp)
next
  case (4 lib s c ms)
  then show ?case by (auto split: if_splits intro: runs.more [OF _ proc_step.fire])
qed auto

text \<open>A task server that waits for a signal it has missed, and everything else as it should be.\<close>

definition deaf :: library where
  "deaf = \<lparr>lib_returns = (\<lambda>s k. k = Tasks_Run \<longrightarrow> Signal \<in> fired s \<and> Call Tasks_Start \<in># at_fire s Signal), lib_panics = (\<lambda>_ _. False)\<rparr>"

definition missing_schedule :: "move list" where
  "missing_schedule = [Step 0, Fires Signal] @ replicate 7 (Step 0) @ [Fires Timeout, Step 4, Step 4, Step 5, Step 5, Step 4, Step 4,
     Choose 0 ShutdownDone None, Step 1, Step 1, Step 2, Step 2, Step 2, Step 2, Step 6, Step 6, Step 7, Step 7, Step 3]"

lemma missing_schedule_plays:
  "\<exists>s. play deaf (boot (game_Start False)) missing_schedule = Some s \<and> exit_code s = None \<and> fired s = {Timeout, Signal} \<and>
     goroutines s = [[WgWait WG], [], [], [Call Tasks_Run, WgDone WG], [], [], [], []] \<and> wg_count WG s = 1 \<and>
     Call Tasks_Start \<notin># at_fire s Signal \<and> (\<forall>c. NotifyContext c \<in># history s \<or> WithTimeout c \<in># history s \<longrightarrow> c \<in> {Signal, Timeout})"
  by (simp add: missing_schedule_def boot_def app_programs eval_nat_numeral deaf_def wg_count_def closed_chan_def)

text \<open>
  A game service can hang: a signal that comes before its task server has registered for signals is lost on that
  server, and the process, with everything else stopped and the time for the shutdown over, goes on waiting for it.
\<close>

theorem missed_signal_hangs:
  "library_ok deaf \<and> (\<exists>n s. runs deaf n (boot (game_Start False)) s \<and> exit_code s = None \<and> {Signal, Timeout} \<subseteq> fired s \<and>
     (\<nexists>t. proc_step deaf s t))"
proof -
  obtain s where play: "play deaf (boot (game_Start False)) missing_schedule = Some s" and s: "exit_code s = None" "fired s = {Timeout, Signal}"
      "goroutines s = [[WgWait WG], [], [], [Call Tasks_Run, WgDone WG], [], [], [], []]" "wg_count WG s = 1"
      "Call Tasks_Start \<notin># at_fire s Signal" "\<forall>c. NotifyContext c \<in># history s \<or> WithTimeout c \<in># history s \<longrightarrow> c \<in> {Signal, Timeout}"
    using missing_schedule_plays by blast
  obtain n where "runs deaf n (boot (game_Start False)) s" using play_runs [OF play runs.none] by blast
  moreover have heads: "x \<in> {WgWait WG, Call Tasks_Run}" if "i < length (goroutines s)" "goroutines s ! i = x # p" for i x p
    using that s(3) by (auto simp: nth_Cons split: nat.splits)
  have "\<nexists>t. proc_step deaf s t"
  proof
    assume "\<exists>t. proc_step deaf s t"
    then obtain t where "proc_step deaf s t" by blast
    then show False
    proof cases
      case (run i x p)
      with heads [OF run(3,4)] s show False by (auto simp: deaf_def)
    next
      case (select i cs p c r)
      with heads [OF select(3,4)] show False by simp
    next
      case (rendezvous i c p j q)
      with heads [OF rendezvous(3,4)] show False by simp
    next
      case (fire c)
      with s(2,6) show False by blast
    next
      case (negative_counter i w p)
      with heads [OF negative_counter(3,4)] show False by simp
    next
      case (closed_twice i c p)
      with heads [OF closed_twice(3,4)] show False by simp
    qed (use s(3) in \<open>simp_all add: deaf_def\<close>)
  qed
  moreover have "library_ok deaf" by (simp add: library_ok_def deaf_def)
  ultimately show ?thesis using s(1,2) by blast
qed

section \<open>Starting without Kafka\<close>

lemma NewKafkaBroker_down:
  assumes producer: "\<And>w. fst (run_state (sr_NewSyncProducer s) w) \<noteq> None \<and> calls (snd (run_state (sr_NewSyncProducer s) w)) = Suc (calls w)"
    and sleep: "\<And>d w. calls (snd (run_state (sr_Sleep s d) w)) = calls w"
  shows "\<exists>e w'. run_state (NewKafkaBroker s) w = (Inl e, w') \<and> calls w' = calls w + 5"
proof -
  have fails: "\<exists>e w'. run_state (connect_loop s (sr_NewSyncProducer s) err (Suc n)) w = (Some e, w')" for err n w
  proof (induction n arbitrary: err w)
    case 0
    then show ?case using producer [of w] by (auto simp: bb_run case_prod_beta split: option.splits)
  next
    case (Suc n)
    obtain e w1 where r: "run_state (sr_NewSyncProducer s) w = (Some e, w1)"
      using producer [of w] by (cases "run_state (sr_NewSyncProducer s) w") auto
    then show ?case using Suc by (subst connect_loop.simps) (simp add: bb_run case_prod_beta del: connect_loop.simps)
  qed
  then obtain e w' where r: "run_state (connect_loop s (sr_NewSyncProducer s) None retryAttempts) w = (Some e, w')"
    using fails [of None 4 w] by (auto simp: retryAttempts_def simp del: connect_loop.simps)
  moreover have "calls w' = calls w + 5"
    using connect_loop_calls [where calls = calls, of "sr_NewSyncProducer s" s None retryAttempts w] producer sleep r
    by (simp add: retryAttempts_def)
  ultimately show ?thesis by (simp add: NewKafkaBroker_def bb_run)
qed

text \<open>
  Without Kafka the services that need it do not come up: the constructors of the match, the question and
  the game service panic after exactly five attempts to connect.
\<close>

theorem setup_needs_kafka:
  assumes "\<And>w. fst (run_state (sr_NewSyncProducer kafka) w) \<noteq> None \<and> calls (snd (run_state (sr_NewSyncProducer kafka) w)) = Suc (calls w)"
    and "\<And>d w. calls (snd (run_state (sr_Sleep kafka d) w)) = calls w"
  shows "\<exists>w'. calls w' = calls w + 5 \<and>
    run_state (match_Setup now repo_config config redisAdapter kafka) w = (Panicked ErrorPanic, w') \<and>
    run_state (question_Setup postgresConn kafka) w = (Panicked ErrorPanic, w') \<and>
    run_state (game_Setup game_config env lib kafka client P) w = (Panicked ErrorPanic, w')"
  using NewKafkaBroker_down [of kafka calls w] assms
  by (auto simp: match_Setup_def question_Setup_def game_Setup_def Let_def bb_run)

section \<open>Witnesses\<close>

definition calm :: library where
  "calm = \<lparr>lib_returns = (\<lambda>_ _. True), lib_panics = (\<lambda>_ _. False)\<rparr>"

lemma always_ok: "library_ok calm" "\<not> missed_signal calm s" "\<not> lib_panics calm s k"
  by (simp_all add: library_ok_def missed_signal_def calm_def)

lemma process_ends_witness:
  "size (instrs match_Start) = 29 \<and> (\<exists>n s. n \<le> 32 \<and> runs calm n (boot match_Start) s \<and> exit_code s \<noteq> None)"
proof -
  obtain n s where r: "runs calm n (boot match_Start) s" "exit_code s \<noteq> None"
    using match_process.reaches_exit [OF always_ok(1,2) runs.none] by blast
  have "size (instrs match_Start) = 29" by (simp add: app_programs)
  with process_ends [OF _ always_ok(1) r(1)] r show ?thesis by (force simp: applications_def)
qed

text \<open>A process that one of its HTTP handlers crashes.\<close>

definition crashing :: library where
  "crashing = \<lparr>lib_returns = (\<lambda>_ _. True), lib_panics = (\<lambda>_ k. k = HTTP_Serve)\<rparr>"

lemma crashing_crashes: "\<exists>n s. runs crashing n (boot user_Start) s \<and> exit_code s = Some 2"
proof -
  have "\<exists>s. play crashing (boot user_Start) (replicate 5 (Step 0)) = Some s \<and> exit_code s = None \<and> started s HTTP_Serve"
    by (simp add: boot_def app_programs eval_nat_numeral started_def)
  then obtain n s where "runs crashing n (boot user_Start) s" "exit_code s = None" "started s HTTP_Serve"
    using play_runs [OF _ runs.none] by blast
  then have "runs crashing (Suc n) (boot user_Start) (s\<lparr>exit_code := Some 2\<rparr>)"
    using runs.more [OF _ proc_step.call_panics [of s HTTP_Serve crashing]] by (simp add: crashing_def)
  moreover have "exit_code (s\<lparr>exit_code := Some 2\<rparr>) = Some 2" by simp
  ultimately show ?thesis by blast
qed

lemma exit_code_meaning_witness:
  "(\<exists>n s c. runs calm n (boot user_Start) s \<and> exit_code s = Some c \<and> Signal \<in> fired s \<and> (c = 0 \<or> c = 1)) \<and>
   (\<exists>n s. runs crashing n (boot user_Start) s \<and> exit_code s = Some 2 \<and> started s HTTP_Serve)"
proof -
  obtain n s c where r: "runs calm n (boot user_Start) s" "exit_code s = Some c"
    using user_process.reaches_exit [OF always_ok(1,2) runs.none] by blast
  have 1: "Signal \<in> fired s \<and> (c = 0 \<or> c = 1)"
    using exit_code_meaning [OF _ r] always_ok(3) by (auto simp: applications_def)
  obtain n' s' where r': "runs crashing n' (boot user_Start) s'" "exit_code s' = Some 2" using crashing_crashes by blast
  have "started s' HTTP_Serve" using exit_code_meaning [OF _ r'] by (auto simp: applications_def crashing_def)
  with 1 r r' show ?thesis by blast
qed

lemma ref_sarama_refuses:
  "fst (run_state (sr_NewSyncProducer ref_sarama_down) (w :: world)) \<noteq> None \<and>
   w_calls (snd (run_state (sr_NewSyncProducer ref_sarama_down) w)) = Suc (w_calls w)"
  "w_calls (snd (run_state (sr_Sleep ref_sarama_down d) w)) = w_calls w"
  by (simp_all add: ref_sarama_down_def ref_sarama_def)

lemma setup_needs_kafka_witness:
  "\<exists>w'. w_calls w' = w_calls world0 + 5 \<and>
    run_state (match_Setup ref_Now \<lparr>WaitingListPrefix = ''waiting'', MinTimeWaitingListSelection = 0\<rparr>
      \<lparr>mc_WaitingTimeout = 20, mc_LeastPresence = 5\<rparr> ref_redis ref_sarama_down) world0 = (Panicked ErrorPanic, w')"
  using setup_needs_kafka [where calls = w_calls, OF ref_sarama_refuses] by blast

end
