(* ===== verification/Configuration.thy ===== *)
theory Configuration
  imports App_Error Go_Strconv
begin

text \<open>
  \<open>pkg/cfg_loader\<close> and the \<open>config.go\<close> of the services: the keys of the configuration, the
  names of the environment variables that set them, and the loader. The configuration library
  koanf is the record \<open>koanf\<close>; \<open>log.Fatalf\<close>, which ends the process, is a value of
  \<open>start\<close>.
\<close>

section \<open>Strings\<close>

text \<open>\<open>strings.ToLower\<close> and \<open>strings.ToUpper\<close>; bytes outside ASCII are left as they are.\<close>

definition lower :: "char \<Rightarrow> char" where
  "lower c = (if 65 \<le> (of_char c :: nat) \<and> (of_char c :: nat) \<le> 90 then char_of ((of_char c :: nat) + 32) else c)"
definition upper :: "char \<Rightarrow> char" where
  "upper c = (if 97 \<le> (of_char c :: nat) \<and> (of_char c :: nat) \<le> 122 then char_of ((of_char c :: nat) - 32) else c)"

definition ToLower :: "string \<Rightarrow> string" where "ToLower s = map lower s"
definition ToUpper :: "string \<Rightarrow> string" where "ToUpper s = map upper s"

definition TrimPrefix :: "string \<Rightarrow> string \<Rightarrow> string" where
  "TrimPrefix s p = (if prefix p s then drop (length p) s else s)"

text \<open>\<open>strings.ReplaceAll(s, old, new)\<close> for a non-empty \<open>old\<close>.\<close>

function ReplaceAll :: "string \<Rightarrow> string \<Rightarrow> string \<Rightarrow> string" where
  "ReplaceAll [] old new = []"
| "ReplaceAll (c # cs) old new =
     (if old \<noteq> [] \<and> prefix old (c # cs) then new @ ReplaceAll (drop (length old) (c # cs)) old new
      else c # ReplaceAll cs old new)"
  by pat_completeness auto
termination by (relation "measure (\<lambda>(s, old, new). length s)") auto

text \<open>\<open>strings.Join\<close>.\<close>

fun Join :: "string list \<Rightarrow> string \<Rightarrow> string" where
  "Join [] sep = []"
| "Join [x] sep = x"
| "Join (x # y # xs) sep = x @ sep @ Join (y # xs) sep"

section \<open>The loader\<close>

text \<open>What a function that may end the process comes to: it returns, exits with a code, or panics.\<close>

datatype 'a start = Up 'a | Exit nat | Crash panic

definition Fatalf :: "('w, 'a start) state" where
  "Fatalf = ret (Exit 1)"

definition then_up :: "('w, 'a start) state \<Rightarrow> ('a \<Rightarrow> ('w, 'b start) state) \<Rightarrow> ('w, 'b start) state" where
  "then_up m f = do {
     r \<leftarrow> m;
     case r of Up x \<Rightarrow> f x | Exit n \<Rightarrow> ret (Exit n) | Crash p \<Rightarrow> ret (Crash p) }"

lemma then_up_run:
  "run_state (then_up m f) w = (case run_state m w of
     (Up x, w') \<Rightarrow> run_state (f x) w' | (Exit n, w') \<Rightarrow> (Exit n, w') | (Crash p, w') \<Rightarrow> (Crash p, w'))"
  by (simp add: then_up_def bb_run case_prod_beta split: start.split)

record Option =
  op_Prefix :: string
  op_Delimiter :: string
  op_Separator :: string
  op_YamlFilePath :: string
  op_CallbackEnv :: "(string \<Rightarrow> string) option"

record ('w, 'k, 'c) koanf =
  kf_New :: "string \<Rightarrow> 'k"
  kf_LoadFile :: "'k \<Rightarrow> string \<Rightarrow> ('w, go_error + 'k) state"
  kf_LoadEnv :: "'k \<Rightarrow> string \<Rightarrow> string \<Rightarrow> (string \<Rightarrow> string) \<Rightarrow> ('w, go_error + 'k) state"
  kf_Unmarshal :: "'k \<Rightarrow> go_error + 'c"

definition defaultCallbackEnv :: "string \<Rightarrow> string \<Rightarrow> string \<Rightarrow> string" where
  "defaultCallbackEnv source pre separator =
     (let base = ToLower (TrimPrefix source pre) in ReplaceAll base separator ''.'')"

text \<open>Each error ends the process on the spot, before the \<open>return err\<close> after it.\<close>

definition Load :: "('w, 'k, 'c) koanf \<Rightarrow> Option \<Rightarrow> ('w, (go_error + 'c) start) state" where
  "Load K options = do {
     let k = kf_New K (op_Delimiter options);
     r \<leftarrow> (if op_YamlFilePath options \<noteq> [] then kf_LoadFile K k (op_YamlFilePath options) else ret (Inr k));
     case r of
       Inl err \<Rightarrow> Fatalf
     | Inr k \<Rightarrow> do {
         let callback = (case op_CallbackEnv options of
             Some cb \<Rightarrow> cb
           | None \<Rightarrow> (\<lambda>source. defaultCallbackEnv source (op_Prefix options) (op_Separator options)));
         r \<leftarrow> kf_LoadEnv K k (op_Prefix options) (op_Delimiter options) callback;
         case r of
           Inl err \<Rightarrow> Fatalf
         | Inr k \<Rightarrow> (case kf_Unmarshal K k of Inl err \<Rightarrow> Fatalf | Inr config \<Rightarrow> ret (Up (Inr config))) } }"

section \<open>Keys\<close>

text \<open>A key is its path, as the tags of the structs give it; a field without a tag has its own name.\<close>

type_synonym key = "string list"

definition under :: "string \<Rightarrow> key list \<Rightarrow> key list" where
  "under s ks = map ((#) s) ks"

definition redis_keys :: "key list" where
  "redis_keys = [[''host''], [''port''], [''password''], [''db'']]"
definition queue_redis_keys :: "key list" where
  "queue_redis_keys = [[''host''], [''port'']]"
definition publisher_keys :: "key list" where
  "publisher_keys = under ''redis_config'' queue_redis_keys"
definition worker_keys :: "key list" where
  "worker_keys = under ''redis_config'' queue_redis_keys"
definition grpc_client_keys :: "key list" where
  "grpc_client_keys = [[''host''], [''port'']]"
definition grpc_server_keys :: "key list" where
  "grpc_server_keys = [[''port''], [''type''], [''shutdown_context_timeout'']]"
definition cors_keys :: "key list" where
  "cors_keys = [[''allow_origins'']]"
definition http_server_keys :: "key list" where
  "http_server_keys = [[''port'']] @ under ''cors'' cors_keys @ [[''shutdown_context_timeout'']]"
definition mongo_keys :: "key list" where
  "mongo_keys = [[''mongo_instances''], [''user''], [''host''], [''port''], [''name''], [''connect_timeout''],
     [''disconnect_timeout''], [''replication_name'']]"
definition logger_keys :: "key list" where
  "logger_keys = [[''file_path''], [''use_local_time''], [''file_max_size_in_mb''], [''file_max_age_in_days'']]"
definition postgres_keys :: "key list" where
  "postgres_keys = [[''host''], [''port''], [''user''], [''password''], [''db_name''], [''ssl_mode''], [''max_idle_conns''],
     [''max_open_conns''], [''conn_max_lifetime''], [''path_of_migration'']]"
definition broker_keys :: "key list" where
  "broker_keys = [[''Host''], [''Port'']]"
definition auth_service_keys :: "key list" where
  "auth_service_keys = [[''secret_key''], [''access_token_expire_time''], [''refresh_token_expire_time'']]"
definition match_repository_keys :: "key list" where
  "match_repository_keys = [[''waitingListPrefix''], [''min_time_list_selection'']]"
definition match_service_keys :: "key list" where
  "match_service_keys = [[''waiting_timeout''], [''least_presence'']]"
definition scheduler_keys :: "key list" where
  "scheduler_keys = [[''interval''], [''match_user_time_out'']]"
definition score_keys :: "key list" where
  "score_keys = [[''base_score''], [''max_bonus''], [''bonus_deadline'']]"
definition game_repository_keys :: "key list" where
  "game_repository_keys = [[''questions_timeout''], [''game_status_timeout''], [''valid_answer_timeout'']] @ under ''score'' score_keys"
definition game_service_keys :: "key list" where
  "game_service_keys = [[''store_game_status_time_out''], [''publish_user_to_waiting_list_time_out''], [''question_interval'']]"

text \<open>The configurations of the services; three of their structs have no fields.\<close>

definition auth_keys :: "key list" where
  "auth_keys = under ''http_server'' http_server_keys @ under ''grpc_server'' grpc_server_keys @ under ''service'' auth_service_keys @
     under ''logger'' logger_keys @ [[''total_shutdown_timeout'']]"
definition user_keys :: "key list" where
  "user_keys = under ''http_server'' http_server_keys @ under ''grpc_server'' grpc_server_keys @ under ''grpc_client'' grpc_client_keys @
     under ''postgres_db'' postgres_keys @ under ''repository'' [] @ under ''redis'' redis_keys @ under ''logger'' logger_keys @
     [[''total_shutdown_timeout'']]"
definition match_keys :: "key list" where
  "match_keys = under ''http_server'' http_server_keys @ under ''broker'' broker_keys @ under ''repository'' match_repository_keys @
     under ''service'' match_service_keys @ under ''scheduler'' scheduler_keys @ under ''redis'' redis_keys @
     under ''logger'' logger_keys @ [[''total_shutdown_timeout'']]"
definition question_keys :: "key list" where
  "question_keys = under ''http_server'' http_server_keys @ under ''postgres_db'' postgres_keys @ under ''repository'' [] @
     under ''broker'' broker_keys @ under ''logger'' logger_keys @ [[''total_shutdown_timeout'']]"
definition game_keys :: "key list" where
  "game_keys = under ''http_server'' http_server_keys @ under ''service'' game_service_keys @ under ''broker'' broker_keys @
     under ''websocket'' [] @ under ''repository'' game_repository_keys @ under ''task_publisher'' publisher_keys @
     under ''task_worker'' worker_keys @ under ''mongo'' mongo_keys @ under ''redis'' redis_keys @ under ''logger'' logger_keys @
     [[''total_shutdown_timeout'']]"

section \<open>Names of environment variables\<close>

lemma of_char_less [simp]: "(of_char c :: nat) < 256"
  using nat_of_char_less_256 by simp

lemma lower_upper [simp]: "lower (upper c) = lower c"
  by (auto simp: lower_def upper_def)

lemma lower_lower [simp]: "lower (lower c) = lower c"
  by (auto simp: lower_def)

lemma lower_underscore [simp]: "lower c = CHR ''_'' \<longleftrightarrow> c = CHR ''_''" "upper c = CHR ''_'' \<longleftrightarrow> c = CHR ''_''"
  by (auto simp: lower_def upper_def char_of_eq_iff take_bit_eq_mod)

lemma ToLower_simps [simp]:
  "ToLower [] = []" "ToLower (s @ t) = ToLower s @ ToLower t" "ToLower (ToUpper s) = ToLower s" "ToLower (ToLower s) = ToLower s"
  by (simp_all add: ToLower_def ToUpper_def)

text \<open>A segment that the separator \<open>__\<close> cannot run into: no two underscores in a row, none at the end.\<close>

fun clean :: "string \<Rightarrow> bool" where
  "clean [] = True"
| "clean [c] = (c \<noteq> CHR ''_'')"
| "clean (c # d # cs) = ((c = CHR ''_'' \<longrightarrow> d \<noteq> CHR ''_'') \<and> clean (d # cs))"

lemma clean_map: "(\<And>c. f c = CHR ''_'' \<longleftrightarrow> c = CHR ''_'') \<Longrightarrow> clean (map f s) = clean s"
  by (induction s rule: clean.induct) simp_all

lemma ReplaceAll_clean: "clean s \<Longrightarrow> ReplaceAll (s @ ''__'' @ t) ''__'' new = s @ new @ ReplaceAll t ''__'' new"
  by (induction s rule: clean.induct) auto

lemma ReplaceAll_clean_end: "clean s \<Longrightarrow> ReplaceAll s ''__'' new = s"
  by (induction s rule: clean.induct) auto

lemma ToLower_Join: "ToLower (Join ks ''__'') = Join (map ToLower ks) ''__''"
  by (induction ks "''__''" rule: Join.induct) (simp_all, simp add: ToLower_def lower_def)

lemma ReplaceAll_Join: "list_all clean ks \<Longrightarrow> ReplaceAll (Join ks ''__'') ''__'' new = Join ks new"
  by (induction ks "''__''" rule: Join.induct) (simp_all add: ReplaceAll_clean ReplaceAll_clean_end del: append_Cons ReplaceAll.simps(2))

lemma defaultCallbackEnv_Join:
  assumes "list_all clean ks"
  shows "defaultCallbackEnv (pre @ Join ks ''__'') pre ''__'' = Join (map ToLower ks) ''.''"
proof -
  have "list_all clean (map ToLower ks)" using assms by (simp add: list_all_iff ToLower_def clean_map)
  then show ?thesis by (simp add: defaultCallbackEnv_def TrimPrefix_def Let_def ToLower_Join ReplaceAll_Join)
qed

text \<open>No capital letter survives.\<close>

lemma set_ReplaceAll: "set (ReplaceAll s old new) \<subseteq> set s \<union> set new"
proof (induction s old new rule: ReplaceAll.induct)
  case (2 c cs old new)
  show ?case
  proof (cases "old \<noteq> [] \<and> prefix old (c # cs)")
    case True
    have "set (ReplaceAll (drop (length old) (c # cs)) old new) \<subseteq> set (drop (length old) (c # cs)) \<union> set new"
      using 2(1) True by blast
    also have "\<dots> \<subseteq> set (c # cs) \<union> set new" by (rule Un_mono [OF set_drop_subset order_refl])
    finally show ?thesis using True by auto
  qed (use 2(2) in auto)
qed simp

lemma defaultCallbackEnv_lower: "c \<in> set (defaultCallbackEnv name pre sep) \<Longrightarrow> lower c = c"
proof -
  assume "c \<in> set (defaultCallbackEnv name pre sep)"
  then have "c \<in> set (ToLower (TrimPrefix name pre)) \<union> set ''.''"
    using set_ReplaceAll [of _ sep "''.''"] by (auto simp: defaultCallbackEnv_def Let_def)
  then show ?thesis by (auto simp: ToLower_def) (simp add: lower_def)
qed

definition all_keys :: "key list" where
  "all_keys = auth_keys @ user_keys @ match_keys @ question_keys @ game_keys"

lemmas service_defs = all_keys_def auth_keys_def user_keys_def match_keys_def question_keys_def game_keys_def
lemmas part_defs = redis_keys_def queue_redis_keys_def publisher_keys_def worker_keys_def grpc_client_keys_def grpc_server_keys_def
  cors_keys_def http_server_keys_def mongo_keys_def logger_keys_def postgres_keys_def auth_service_keys_def match_service_keys_def
  scheduler_keys_def score_keys_def game_repository_keys_def game_service_keys_def

text \<open>The keys with a capital letter.\<close>

definition capital_keys :: "key list" where
  "capital_keys = [[''broker'', ''Host''], [''broker'', ''Port''], [''repository'', ''waitingListPrefix'']]"

definition plain_key :: "key \<Rightarrow> bool" where
  "plain_key k \<longleftrightarrow> list_all (\<lambda>s. clean s \<and> ToLower s = s) k"

lemma plain_key_simps [simp]:
  "plain_key []" "plain_key (s # k) \<longleftrightarrow> clean s \<and> ToLower s = s \<and> plain_key k"
  by (simp_all add: plain_key_def)

lemma under_iff [simp]: "k \<in> set (under s ks) \<longleftrightarrow> (\<exists>k' \<in> set ks. k = s # k')"
  by (auto simp: under_def)

definition known_key :: "key \<Rightarrow> bool" where
  "known_key k \<longleftrightarrow> plain_key k \<or> k \<in> set capital_keys"

lemma known_under:
  "clean s \<Longrightarrow> ToLower s = s \<Longrightarrow> list_all plain_key ks \<Longrightarrow> list_all known_key (under s ks)"
  by (auto simp: list_all_iff known_key_def)

lemma lower_case_words [simp]:
  "ToLower ''http_server'' = ''http_server''" "ToLower ''grpc_server'' = ''grpc_server''" "ToLower ''grpc_client'' = ''grpc_client''"
  "ToLower ''service'' = ''service''" "ToLower ''logger'' = ''logger''" "ToLower ''postgres_db'' = ''postgres_db''"
  "ToLower ''repository'' = ''repository''" "ToLower ''redis'' = ''redis''" "ToLower ''scheduler'' = ''scheduler''"
  "ToLower ''websocket'' = ''websocket''" "ToLower ''task_publisher'' = ''task_publisher''" "ToLower ''task_worker'' = ''task_worker''"
  "ToLower ''mongo'' = ''mongo''"
  by (simp_all add: ToLower_def lower_def)

text \<open>The keys of the parts, and then of the services: all are plain but the three.\<close>

lemma plain_parts:
  "list_all plain_key redis_keys" "list_all plain_key publisher_keys" "list_all plain_key worker_keys"
  "list_all plain_key grpc_client_keys" "list_all plain_key grpc_server_keys" "list_all plain_key http_server_keys"
  "list_all plain_key mongo_keys" "list_all plain_key logger_keys" "list_all plain_key postgres_keys"
  "list_all plain_key auth_service_keys" "list_all plain_key match_service_keys" "list_all plain_key scheduler_keys"
  "list_all plain_key game_repository_keys" "list_all plain_key game_service_keys" "list_all plain_key []"
  by (simp_all add: part_defs under_def ToLower_def lower_def)

lemma known_parts:
  "list_all known_key (under ''broker'' broker_keys)" "list_all known_key (under ''repository'' match_repository_keys)"
  "list_all known_key [[''total_shutdown_timeout'']]"
  by (simp_all add: known_key_def capital_keys_def broker_keys_def match_repository_keys_def under_def) (simp_all add: ToLower_def lower_def)

lemma key_facts: "list_all known_key all_keys"
  unfolding service_defs list_all_append
  by (intro conjI known_parts known_under plain_parts lower_case_words) simp_all

lemma capital_facts: "k \<in> set capital_keys \<Longrightarrow> \<exists>c \<in> set (Join k ''.''). lower c \<noteq> c"
  by (auto simp: capital_keys_def lower_def char_of_eq_iff)

section \<open>Where a value comes from\<close>

text \<open>
  What koanf promises. A store maps keys to values; what is loaded later wins, key by key, for every key
  that does not lie above or below another one, which would replace the whole branch. The
  environment is read name by name, with the key the callback gives, and an empty key is skipped.
\<close>

definition related :: "string \<Rightarrow> string \<Rightarrow> bool" where
  "related a b \<longleftrightarrow> prefix (a @ ''.'') b \<or> prefix (b @ ''.'') a"

definition merged :: "('k \<Rightarrow> string \<rightharpoonup> string) \<Rightarrow> 'k \<Rightarrow> (string \<rightharpoonup> string) \<Rightarrow> 'k \<Rightarrow> bool" where
  "merged get k m k' \<longleftrightarrow> (\<forall>key. (\<forall>a \<in> dom m. \<not> related a key) \<longrightarrow>
     get k' key = (case m key of Some v \<Rightarrow> Some v | None \<Rightarrow> get k key))"

definition env_values :: "string \<Rightarrow> (string \<Rightarrow> string) \<Rightarrow> (string \<times> string) list \<Rightarrow> string \<rightharpoonup> string" where
  "env_values pre cb environ = map_of (rev (map (\<lambda>(name, v). (cb name, v)) (filter (\<lambda>(name, v). prefix pre name \<and> cb name \<noteq> []) environ)))"

definition koanf_ok :: "('w, 'k, 'c) koanf \<Rightarrow> ('w \<Rightarrow> string \<Rightarrow> (string \<rightharpoonup> string) option) \<Rightarrow> ('w \<Rightarrow> (string \<times> string) list) \<Rightarrow>
    ('k \<Rightarrow> string \<rightharpoonup> string) \<Rightarrow> bool" where
  "koanf_ok K files environ get \<longleftrightarrow> (\<forall>d. get (kf_New K d) = Map.empty) \<and>
     (\<forall>k path. keeps environ (kf_LoadFile K k path)) \<and>
     (\<forall>k path w. case files w path of
        None \<Rightarrow> \<exists>e. fst (run_state (kf_LoadFile K k path) w) = Inl e
      | Some m \<Rightarrow> \<exists>k'. fst (run_state (kf_LoadFile K k path) w) = Inr k' \<and> merged get k m k') \<and>
     (\<forall>k pre d cb w. \<exists>k'. fst (run_state (kf_LoadEnv K k pre d cb) w) = Inr k' \<and> merged get k (env_values pre cb (environ w)) k')"

lemma koanf_okD:
  assumes "koanf_ok K files environ get"
  shows "get (kf_New K d) = Map.empty" "keeps environ (kf_LoadFile K k path)"
    "files w path = None \<Longrightarrow> \<exists>e. fst (run_state (kf_LoadFile K k path) w) = Inl e"
    "files w path = Some m \<Longrightarrow> \<exists>k'. fst (run_state (kf_LoadFile K k path) w) = Inr k' \<and> merged get k m k'"
    "\<exists>k'. fst (run_state (kf_LoadEnv K k pre d cb) w) = Inr k' \<and> merged get k (env_values pre cb (environ w)) k'"
proof -
  note laws = assms [unfolded koanf_ok_def]
  note loads = laws [THEN conjunct2, THEN conjunct2, THEN conjunct1, rule_format]
  show "get (kf_New K d) = Map.empty" using laws by (elim conjE) (rule spec)
  show "keeps environ (kf_LoadFile K k path)" using laws by (elim conjE) (drule spec, erule spec)
  show "\<exists>e. fst (run_state (kf_LoadFile K k path) w) = Inl e" if "files w path = None" using loads [of k path w] that by simp
  show "\<exists>k'. fst (run_state (kf_LoadFile K k path) w) = Inr k' \<and> merged get k m k'" if "files w path = Some m"
    using loads [of k path w] that by simp
  show "\<exists>k'. fst (run_state (kf_LoadEnv K k pre d cb) w) = Inr k' \<and> merged get k (env_values pre cb (environ w)) k'"
    using laws by (intro laws [THEN conjunct2, THEN conjunct2, THEN conjunct2, rule_format])
qed

lemma Load_missing:
  assumes "koanf_ok K files environ get" and "files w (op_YamlFilePath options) = None" and "op_YamlFilePath options \<noteq> []"
  shows "fst (run_state (Load K options) w) = Exit 1"
  using koanf_okD(3) [OF assms(1,2), of "kf_New K (op_Delimiter options)"] assms(3)
  by (auto simp: Load_def Fatalf_def Let_def bb_run case_prod_beta)

lemma Load_found:
  assumes K: "koanf_ok K files environ get"
    and options: "op_YamlFilePath options \<noteq> []" "op_CallbackEnv options = None"
    and yaml: "files w (op_YamlFilePath options) = Some m"
  defines "env \<equiv> env_values (op_Prefix options) (\<lambda>name. defaultCallbackEnv name (op_Prefix options) (op_Separator options)) (environ w)"
  shows "\<exists>k w'. run_state (Load K options) w =
      (case kf_Unmarshal K k of Inr cfg \<Rightarrow> Up (Inr cfg) | Inl e \<Rightarrow> Exit 1, w') \<and>
    (\<forall>key. (\<forall>a \<in> dom m \<union> dom env. \<not> related a key) \<longrightarrow> get k key = (case env key of Some v \<Rightarrow> Some v | None \<Rightarrow> m key))"
proof -
  let ?k0 = "kf_New K (op_Delimiter options)" and ?cb = "\<lambda>name. defaultCallbackEnv name (op_Prefix options) (op_Separator options)"
  obtain k1 w1 where one: "run_state (kf_LoadFile K ?k0 (op_YamlFilePath options)) w = (Inr k1, w1)" "merged get ?k0 m k1"
    using koanf_okD(4) [OF K yaml, of ?k0] by (metis prod.collapse)
  have w1: "environ w1 = environ w" using keepsD [OF koanf_okD(2) [OF K], of ?k0 "op_YamlFilePath options" w] one(1) by simp
  obtain k2 w2 where two: "run_state (kf_LoadEnv K k1 (op_Prefix options) (op_Delimiter options) ?cb) w1 = (Inr k2, w2)" "merged get k1 env k2"
    using koanf_okD(5) [OF K, of k1 "op_Prefix options" "op_Delimiter options" ?cb w1] unfolding w1 env_def by (metis prod.collapse)
  have "get k2 key = (case env key of Some v \<Rightarrow> Some v | None \<Rightarrow> m key)" if leaf: "\<forall>a \<in> dom m \<union> dom env. \<not> related a key" for key
  proof -
    have "get k1 key = m key" using one(2) leaf koanf_okD(1) [OF K] by (auto simp: merged_def split: option.splits)
    moreover have "get k2 key = (case env key of Some v \<Rightarrow> Some v | None \<Rightarrow> get k1 key)" using two(2) leaf by (auto simp: merged_def)
    ultimately show ?thesis by (simp cong: option.case_cong)
  qed
  moreover have "run_state (Load K options) w = (case kf_Unmarshal K k2 of Inr cfg \<Rightarrow> Up (Inr cfg) | Inl e \<Rightarrow> Exit 1, w2)"
    using options one(1) two(1) by (simp add: Load_def Fatalf_def Let_def bb_run split: sum.split)
  ultimately show ?thesis by (intro exI [of _ k2] exI [of _ w2]) simp
qed

text \<open>
  C38. Each value of a configuration comes from the environment when a variable with the prefix of the service
  names its key, and from the file otherwise, as the documentation says; a configuration
  that does not decode ends the process with code 1, and the loader never returns an error.
\<close>

theorem env_over_yaml:
  assumes K: "koanf_ok K files environ get"
    and options: "op_YamlFilePath options \<noteq> []" "op_CallbackEnv options = None"
    and yaml: "files w (op_YamlFilePath options) = Some m"
    and env: "env = env_values (op_Prefix options) (\<lambda>name. defaultCallbackEnv name (op_Prefix options) (op_Separator options)) (environ w)"
    and leaf: "\<forall>a \<in> dom m \<union> dom env. \<not> related a key"
  shows "\<exists>k w'. run_state (Load K options) w =
      (case kf_Unmarshal K k of Inr cfg \<Rightarrow> Up (Inr cfg) | Inl e \<Rightarrow> Exit 1, w') \<and>
    get k key = (case env key of Some v \<Rightarrow> Some v | None \<Rightarrow> m key)"
  using Load_found [OF K options yaml] leaf unfolding env by blast

section \<open>Which value a field takes\<close>

text \<open>
  What koanf promises of decoding: a field takes the value of the key that has exactly its name, and without one the value
  of the key that has its name but for the case of its letters. \<open>field cfg k\<close> is the text that the field
  of the key \<open>k\<close> was decoded from. Two spellings of one name, neither of them exact, are left open: which of them is
  taken is the order of a map.
\<close>

definition spelled :: "key \<Rightarrow> string \<Rightarrow> bool" where
  "spelled k n \<longleftrightarrow> (\<exists>s. n = Join (butlast k @ [s]) ''.'' \<and> ToLower s = ToLower (last k))"

definition lower_name :: "key \<Rightarrow> string" where
  "lower_name k = Join (butlast k @ [ToLower (last k)]) ''.''"

definition unmarshal_ok :: "('w, 'k, 'c) koanf \<Rightarrow> ('k \<Rightarrow> string \<rightharpoonup> string) \<Rightarrow> ('c \<Rightarrow> key \<Rightarrow> string option) \<Rightarrow> bool" where
  "unmarshal_ok K get field \<longleftrightarrow> (\<forall>s cfg k v. k \<noteq> [] \<longrightarrow> kf_Unmarshal K s = Inr cfg \<longrightarrow>
     (get s (Join k ''.'') = Some v \<longrightarrow> field cfg k = Some v) \<and>
     (get s (lower_name k) = Some v \<longrightarrow> (\<forall>n \<in> dom (get s). spelled k n \<longrightarrow> n = lower_name k) \<longrightarrow> field cfg k = Some v))"

lemma all_keys_nonempty: "k \<in> set all_keys \<Longrightarrow> k \<noteq> []"
  by (auto simp: service_defs part_defs broker_keys_def match_repository_keys_def)

lemma key_shape:
  assumes "k \<in> set all_keys"
  shows "list_all clean k" "map ToLower k = butlast k @ [ToLower (last k)]" "k \<notin> set capital_keys \<Longrightarrow> map ToLower k = k"
proof -
  have known: "known_key k" using key_facts assms by (simp add: list_all_iff)
  have cap: "list_all clean k \<and> map ToLower k = butlast k @ [ToLower (last k)]" if "k \<in> set capital_keys"
    using that by (auto simp: capital_keys_def ToLower_def lower_def)
  have plain: "list_all clean k \<and> map ToLower k = k" if "plain_key k"
    using that by (auto simp: plain_key_def list_all_iff map_idI)
  have "butlast k @ [last k] = k" using all_keys_nonempty [OF assms] by simp
  moreover have "ToLower (last k) = last k" if "map ToLower k = k"
    using that all_keys_nonempty [OF assms] by (metis last_map)
  ultimately show "list_all clean k" "map ToLower k = butlast k @ [ToLower (last k)]" "k \<notin> set capital_keys \<Longrightarrow> map ToLower k = k"
    using known cap plain by (auto simp: known_key_def)
qed

lemma lower_name_eq: "k \<in> set all_keys \<Longrightarrow> lower_name k = Join (map ToLower k) ''.''"
  by (simp add: lower_name_def key_shape(2))

lemma Join_nonempty: "k \<in> set all_keys \<Longrightarrow> Join (map ToLower k) ''.'' \<noteq> []"
  by (auto simp: service_defs part_defs broker_keys_def match_repository_keys_def ToLower_def)

lemma lower_name_spelled: "spelled k (lower_name k)"
  by (auto simp: spelled_def lower_name_def)

lemma set_Join_last: "set s \<subseteq> set (Join (ks @ [s]) sep)"
  by (induction ks sep rule: Join.induct) (auto simp: neq_Nil_conv)

text \<open>The environment spells a key in lower case only.\<close>

lemma env_spelling:
  assumes "n \<in> dom (env_values pre (\<lambda>name. defaultCallbackEnv name pre sep) environ)" and "spelled k n"
  shows "n = lower_name k"
proof -
  obtain s where s: "n = Join (butlast k @ [s]) ''.''" "ToLower s = ToLower (last k)" using assms(2) by (auto simp: spelled_def)
  obtain name where name: "n = defaultCallbackEnv name pre sep"
    using assms(1) by (auto simp: env_values_def dest!: map_of_SomeD)
  have "lower c = c" if "c \<in> set s" for c
  proof (rule defaultCallbackEnv_lower)
    show "c \<in> set (defaultCallbackEnv name pre sep)"
      using that set_Join_last [of s "butlast k" "''.''"] s(1) name by auto
  qed
  then have "ToLower s = s" by (simp add: ToLower_def map_idI)
  with s show ?thesis by (simp add: lower_name_def)
qed

lemma env_finds:
  assumes k: "k \<in> set all_keys" and set: "(pre @ name, v) \<in> set environ" "ToLower name = ToLower (Join k ''__'')"
    and only: "\<forall>(name, u) \<in> set environ. prefix pre name \<longrightarrow> defaultCallbackEnv name pre ''__'' = Join (map ToLower k) ''.'' \<longrightarrow> u = v"
  shows "env_values pre (\<lambda>name. defaultCallbackEnv name pre ''__'') environ (lower_name k) = Some v"
proof -
  let ?cb = "\<lambda>name. defaultCallbackEnv name pre ''__''"
  let ?xs = "rev (map (\<lambda>(name, v). (?cb name, v)) (filter (\<lambda>(name, v). prefix pre name \<and> ?cb name \<noteq> []) environ))"
  have "?cb (pre @ name) = ?cb (pre @ Join k ''__'')" by (simp add: defaultCallbackEnv_def TrimPrefix_def set(2))
  then have name: "?cb (pre @ name) = lower_name k"
    by (simp add: defaultCallbackEnv_Join key_shape(1) [OF k] lower_name_eq [OF k])
  then have "(lower_name k, v) \<in> set ?xs"
    using set(1) Join_nonempty [OF k] by (force simp: lower_name_eq [OF k])
  then obtain u where u: "map_of ?xs (lower_name k) = Some u" by (blast dest: weak_map_of_SomeI)
  then have "u = v" using only by (fastforce dest!: map_of_SomeD simp: lower_name_eq [OF k])
  with u show ?thesis by (simp add: env_values_def)
qed

text \<open>
  C40. Which value a set variable gives: every field of every configuration takes the value of the variable named after its
  key, in whatever case its name is written, the host and port of Kafka included, whose keys in the structs have capital letters; the one exception is a file
  that itself spells such a key with its capital, as the configuration of the match service does with
  \<open>waitingListPrefix\<close>: the loader makes the names of the variables lower case, and the exact spelling wins.
\<close>

theorem settable_keys:
  assumes K: "koanf_ok K files environ get" "unmarshal_ok K get field"
    and options: "op_YamlFilePath options \<noteq> []" "op_CallbackEnv options = None" "op_Separator options = ''__''"
    and yaml: "files w (op_YamlFilePath options) = Some m"
    and k: "k \<in> set all_keys"
    and set: "(op_Prefix options @ name, v) \<in> set (environ w)" "ToLower name = ToLower (Join k ''__'')"
    and only: "\<forall>(name, u) \<in> set (environ w). prefix (op_Prefix options) name \<longrightarrow>
      defaultCallbackEnv name (op_Prefix options) ''__'' = Join (map ToLower k) ''.'' \<longrightarrow> u = v"
    and env: "env = env_values (op_Prefix options) (\<lambda>name. defaultCallbackEnv name (op_Prefix options) ''__'') (environ w)"
    and leaf: "\<forall>a \<in> dom m \<union> dom env. \<forall>n. spelled k n \<longrightarrow> \<not> related a n"
    and spelling: "\<forall>n \<in> dom m. spelled k n \<longrightarrow> ToLower (last k) \<noteq> last k \<longrightarrow> n \<in> {Join k ''.'', lower_name k}"
    and loaded: "run_state (Load K options) w = (Up (Inr cfg), w')"
  shows "field cfg k =
    (if k \<in> {[''broker'', ''Host''], [''broker'', ''Port''], [''repository'', ''waitingListPrefix'']} \<and> m (Join k ''.'') \<noteq> None
     then m (Join k ''.'') else Some v)"
proof -
  have found: "env (lower_name k) = Some v" unfolding env by (rule env_finds [OF k set only])
  obtain s w1 where s: "run_state (Load K options) w = (case kf_Unmarshal K s of Inr cfg \<Rightarrow> Up (Inr cfg) | Inl e \<Rightarrow> Exit 1, w1)"
    and get: "\<forall>key. (\<forall>a \<in> dom m \<union> dom env. \<not> related a key) \<longrightarrow> get s key = (case env key of Some v \<Rightarrow> Some v | None \<Rightarrow> m key)"
    using Load_found [OF K(1) options(1,2) yaml] unfolding options(3) env by blast
  have cfg: "kf_Unmarshal K s = Inr cfg" using s loaded by (auto split: sum.splits)
  have exactly: "field cfg k = Some u" if "get s (Join k ''.'') = Some u" for u
    using K(2) cfg that all_keys_nonempty [OF k] unfolding unmarshal_ok_def by blast
  have but_for_case: "field cfg k = Some u" if "get s (lower_name k) = Some u" "\<forall>n \<in> dom (get s). spelled k n \<longrightarrow> n = lower_name k" for u
    using K(2) cfg that all_keys_nonempty [OF k] unfolding unmarshal_ok_def by blast
  have at: "get s n = (case env n of Some v \<Rightarrow> Some v | None \<Rightarrow> m n)" if "spelled k n" for n using get leaf that by blast
  have exact: "spelled k (Join k ''.'')" using all_keys_nonempty [OF k] by (auto simp: spelled_def intro!: exI [of _ "last k"])
  have low: "get s (lower_name k) = Some v" using at [OF lower_name_spelled] found by simp
  have cap: "set capital_keys = {[''broker'', ''Host''], [''broker'', ''Port''], [''repository'', ''waitingListPrefix'']}"
    by (simp add: capital_keys_def)
  show ?thesis
  proof (cases "k \<in> set capital_keys")
    case False
    then have "Join k ''.'' = lower_name k" using key_shape(3) [OF k] lower_name_eq [OF k] by simp
    with exactly low False show ?thesis by (simp add: cap)
  next
    case True
    then have letter: "lower_name k \<noteq> Join k ''.''" "ToLower (last k) \<noteq> last k"
      by (auto simp: capital_keys_def lower_name_def ToLower_def lower_def char_of_eq_iff)
    have "env (Join k ''.'') = None" using env_spelling [OF _ exact] letter(1) unfolding env by (metis domIff)
    then have name: "get s (Join k ''.'') = m (Join k ''.'')" using at [OF exact] by simp
    show ?thesis
    proof (cases "m (Join k ''.'')")
      case None
      have "n = lower_name k" if n: "n \<in> dom (get s)" "spelled k n" for n
        using at [OF n(2)] n env_spelling [OF _ n(2)] spelling letter(2) None unfolding env by (fastforce split: option.splits)
      with but_for_case low None show ?thesis by auto
    next
      case (Some u)
      with exactly name True show ?thesis by (simp add: cap)
    qed
  qed
qed

end
