(* ===== verification/Entry_Points.thy ===== *)
theory Entry_Points
  imports Configuration Setup_Services
begin

text \<open>
  The five \<open>cmd/*/main.go\<close> up to the start of the application, with the packages they call: the
  opening of PostgreSQL, its migrations, MongoDB, the client of gRPC, the logger. The libraries behind them
  and the operating system are the record \<open>platform\<close>.
\<close>

section \<open>Paths\<close>

text \<open>\<open>filepath.Clean\<close> and \<open>filepath.Join\<close> on Unix.\<close>

fun clean_step :: "bool \<Rightarrow> string list \<Rightarrow> string \<Rightarrow> string list" where
  "clean_step rooted out seg =
     (if seg = [] \<or> seg = ''.'' then out
      else if seg = ''..'' then
        (case out of
           [] \<Rightarrow> (if rooted then [] else [''..''])
         | s # rest \<Rightarrow> (if s = ''..'' then ''..'' # out else rest))
      else seg # out)"

definition filepath_Clean :: "string \<Rightarrow> string" where
  "filepath_Clean path =
     (let rooted = (path \<noteq> [] \<and> hd path = CHR ''/'');
          out = (if rooted then ''/'' else []) @ Join (rev (foldl (clean_step rooted) [] (Split path CHR ''/''))) ''/''
      in if out = [] then ''.'' else out)"

definition filepath_Join :: "string list \<Rightarrow> string" where
  "filepath_Join elem =
     (case filter (\<lambda>e. e \<noteq> []) elem of [] \<Rightarrow> [] | elem' \<Rightarrow> filepath_Clean (Join elem' ''/''))"

section \<open>Databases, logger, client\<close>

record ('w, 'conn, 'client, 'db, 'cc) platform =
  pl_Getwd :: "('w, go_error + string) state"
  pl_sql_Open :: "string \<Rightarrow> string \<Rightarrow> ('w, go_error + 'conn) state"
  pl_SetPool :: "'conn \<Rightarrow> int \<Rightarrow> int \<Rightarrow> int \<Rightarrow> ('w, unit) state"
  pl_migrate_Up :: "'conn \<Rightarrow> string \<Rightarrow> string \<Rightarrow> ('w, go_error + nat) state"
  pl_migrate_Down :: "'conn \<Rightarrow> string \<Rightarrow> string \<Rightarrow> ('w, go_error + nat) state"
  pl_mongo_Connect :: "string \<Rightarrow> ('w, go_error + 'client) state"
  pl_mongo_Database :: "'client \<Rightarrow> string \<Rightarrow> 'db"
  pl_mongo_Disconnect :: "'db \<Rightarrow> ('w, go_error option) state"
  pl_grpc_Dial :: "string \<Rightarrow> ('w, go_error + 'cc) state"

record postgres_Config =
  pgc_Host :: string
  pgc_Port :: int
  pgc_User :: string
  pgc_Password :: string
  pgc_DBName :: string
  pgc_SSLMode :: string
  pgc_MaxIdleConns :: int
  pgc_MaxOpenConns :: int
  pgc_ConnMaxLifetime :: int
  pgc_PathOfMigration :: string

text \<open>When \<open>sql.Open\<close> fails, its connection is nil and the next line dereferences it.\<close>

definition postgresql_Connect :: "('w, 'conn, 'client, 'db, 'cc) platform \<Rightarrow> postgres_Config \<Rightarrow> ('w, (go_error + 'conn) start) state" where
  "postgresql_Connect pl config = do {
     r \<leftarrow> pl_sql_Open pl ''postgres'' (''host='' @ pgc_Host config @ '' port='' @ FormatInt (pgc_Port config) @ '' user='' @ pgc_User config @
       '' password='' @ pgc_Password config @ '' dbname='' @ pgc_DBName config @ '' sslmode='' @ pgc_SSLMode config);
     case r of
       Inl err \<Rightarrow> ret (Crash NilDereference)
     | Inr conn \<Rightarrow> do {
         pl_SetPool pl conn (pgc_ConnMaxLifetime config) (pgc_MaxOpenConns config) (pgc_MaxIdleConns config);
         ret (Up (Inr conn)) } }"

record Migrator =
  mgr_dialect :: string
  mgr_dbConfig :: postgres_Config
  mgr_dir :: string

definition Migrator_New :: "postgres_Config \<Rightarrow> string \<Rightarrow> Migrator" where
  "Migrator_New dbConfig path = \<lparr>mgr_dialect = ''postgres'', mgr_dbConfig = dbConfig, mgr_dir = path\<rparr>"

definition Migrator_Up :: "('w, 'conn, 'client, 'db, 'cc) platform \<Rightarrow> Migrator \<Rightarrow> ('w, unit start) state" where
  "Migrator_Up pl m = do {
     let c = mgr_dbConfig m;
     db \<leftarrow> pl_sql_Open pl (mgr_dialect m) (''postgres://'' @ pgc_User c @ '':'' @ pgc_Password c @ ''@'' @ pgc_Host c @ '':'' @
       FormatInt (pgc_Port c) @ ''/'' @ pgc_DBName c @ ''?sslmode=disable'');
     case db of
       Inl err \<Rightarrow> Fatalf
     | Inr db \<Rightarrow> do {
         n \<leftarrow> pl_migrate_Up pl db (mgr_dialect m) (mgr_dir m);
         case n of Inl err \<Rightarrow> Fatalf | Inr _ \<Rightarrow> ret (Up ()) } }"

definition Migrator_Down :: "('w, 'conn, 'client, 'db, 'cc) platform \<Rightarrow> Migrator \<Rightarrow> ('w, unit start) state" where
  "Migrator_Down pl m = do {
     let c = mgr_dbConfig m;
     db \<leftarrow> pl_sql_Open pl (mgr_dialect m) (''postgres://'' @ pgc_User c @ '':'' @ pgc_Password c @ ''@'' @ pgc_Host c @ '':'' @
       FormatInt (pgc_Port c) @ ''/'' @ pgc_DBName c @ ''?sslmode=disable'');
     case db of
       Inl err \<Rightarrow> Fatalf
     | Inr db \<Rightarrow> do {
         n \<leftarrow> pl_migrate_Down pl db (mgr_dialect m) (mgr_dir m);
         case n of Inl err \<Rightarrow> Fatalf | Inr _ \<Rightarrow> ret (Up ()) } }"

record mongo_Instance =
  mgi_Host :: string
  mgi_Port :: int

record mongo_Config =
  mgc_Instances :: "mongo_Instance list"
  mgc_Name :: string
  mgc_ReplicationName :: string

definition mongo_uri :: "mongo_Config \<Rightarrow> string" where
  "mongo_uri config =
     (let hosts = map (\<lambda>inst. mgi_Host inst @ '':'' @ FormatInt (mgi_Port inst)) (mgc_Instances config);
          uri = ''mongodb://'' @ Join hosts '','' @ ''/'' @ mgc_Name config
      in if length hosts > 1 then uri @ ''?replicaSet='' @ mgc_ReplicationName config else uri)"

definition mongo_NewDB :: "('w, 'conn, 'client, 'db, 'cc) platform \<Rightarrow> mongo_Config \<Rightarrow> ('w, go_error + 'db) state" where
  "mongo_NewDB pl config =
     (if mgc_Instances config = [] then ret (Inl (PlainErr ''invalid MongoDB configuration: no instances provided''))
      else do {
        client \<leftarrow> pl_mongo_Connect pl (mongo_uri config);
        case client of
          Inl err \<Rightarrow> ret (Inl err)
        | Inr client \<Rightarrow> ret (Inr (pl_mongo_Database pl client (mgc_Name config))) })"

record grpc_Client =
  gcc_Host :: string
  gcc_Port :: int

definition grpc_NewClient :: "('w, 'conn, 'client, 'db, 'cc) platform \<Rightarrow> grpc_Client \<Rightarrow> ('w, go_error + 'cc) state" where
  "grpc_NewClient pl cfg = do {
     conn \<leftarrow> pl_grpc_Dial pl (gcc_Host cfg @ '':'' @ FormatInt (gcc_Port cfg));
     case conn of
       Inl err \<Rightarrow> ret (Inl (WrapErr (''failed to connect to gRPC server: '' @ Error err) err))
     | Inr conn \<Rightarrow> ret (Inr conn) }"

text \<open>The global logger is known by the file it writes to; \<open>once.Do\<close> sets it up the first time only.\<close>

definition logger_Init :: "('w, 'conn, 'client, 'db, 'cc) platform \<Rightarrow> string \<Rightarrow> string option \<Rightarrow> ('w, string option start) state" where
  "logger_Init pl FilePath globalLogger =
     (case globalLogger of
        Some l \<Rightarrow> ret (Up (Some l))
      | None \<Rightarrow> do {
          wd \<leftarrow> pl_Getwd pl;
          case wd of Inl err \<Rightarrow> Fatalf | Inr workingDir \<Rightarrow> ret (Up (Some (filepath_Join [workingDir, FilePath]))) })"

section \<open>The services' configurations, as far as the start reads them\<close>

record auth_Config =
  acf_Service :: auth_config
  acf_LogFile :: string

record user_Config =
  ucf_GrpcClient :: grpc_Client
  ucf_PostgresDB :: postgres_Config
  ucf_LogFile :: string

record match_Config =
  mcf_Repository :: match_repo_config
  mcf_Service :: match_config
  mcf_LogFile :: string

record question_Config =
  qcf_PostgresDB :: postgres_Config
  qcf_LogFile :: string

record game_Config =
  gcf_Repository :: game_repo_config
  gcf_MongoDB :: mongo_Config
  gcf_LogFile :: string

section \<open>The entry points\<close>

text \<open>How each \<open>main\<close> begins: the configuration of the file below the working directory.\<close>

definition read_config :: "('w, 'conn, 'client, 'db, 'cc) platform \<Rightarrow> ('w, 'k, 'c) koanf \<Rightarrow> string \<Rightarrow> string list \<Rightarrow> ('w, 'c start) state" where
  "read_config pl K pre path = do {
     wd \<leftarrow> pl_Getwd pl;
     case wd of
       Inl err \<Rightarrow> Fatalf
     | Inr workingDir \<Rightarrow>
         (let options = \<lparr>op_Prefix = pre, op_Delimiter = ''.'', op_Separator = ''__'',
              op_YamlFilePath = filepath_Join (workingDir # path), op_CallbackEnv = None\<rparr>
          in then_up (Load K options) (\<lambda>r. case r of Inl err \<Rightarrow> Fatalf | Inr cfg \<Rightarrow> ret (Up cfg))) }"

definition up_outcome :: "('w, 'a outcome) state \<Rightarrow> ('w, 'a start) state" where
  "up_outcome m = do { r \<leftarrow> m; case r of Returned x \<Rightarrow> ret (Up x) | Panicked p \<Rightarrow> ret (Crash p) }"

definition auth_main :: "('w, 'conn, 'client, 'db, 'cc) platform \<Rightarrow> ('w, 'k, auth_Config) koanf \<Rightarrow> ('w, auth_app start) state" where
  "auth_main pl K =
     then_up (read_config pl K ''AUTH_'' [''deploy'', ''auth'', ''development'', ''config.yaml'']) (\<lambda>cfg.
     then_up (logger_Init pl (acf_LogFile cfg) None) (\<lambda>_.
     ret (Up (auth_Setup (acf_Service cfg)))))"

definition match_main :: "('w, 'conn, 'client, 'db, 'cc) platform \<Rightarrow> ('w, 'k, match_Config) koanf \<Rightarrow> ('w, gotime) state \<Rightarrow>
    'w redis_client \<Rightarrow> 'w sarama \<Rightarrow> ('w, 'w match_app start) state" where
  "match_main pl K now redis kafka =
     then_up (read_config pl K ''MATCH_'' [''infra'', ''deploy'', ''match'', ''development'', ''config.yaml'']) (\<lambda>cfg.
     then_up (logger_Init pl (mcf_LogFile cfg) None) (\<lambda>_.
     up_outcome (match_Setup now (mcf_Repository cfg) (mcf_Service cfg) redis kafka)))"

text \<open>
  \<open>err\<close> still holds the result of \<open>Getwd\<close> when \<open>main\<close> looks at it a second time. The migrations run on a
  connection of their own.
\<close>

definition user_main :: "('w, 'conn, 'client, 'db, 'cc) platform \<Rightarrow> ('w, 'k, user_Config) koanf \<Rightarrow> ('w, gotime) state \<Rightarrow>
    ('conn \<Rightarrow> 'w postgres) \<Rightarrow> ('cc \<Rightarrow> 'w grpc_conn) \<Rightarrow> ('w, 'w user_app start) state" where
  "user_main pl K now db_of conn_of =
     then_up (read_config pl K ''USER_'' [''deploy'', ''user'', ''development'', ''config.yaml'']) (\<lambda>cfg.
     then_up (logger_Init pl (ucf_LogFile cfg) None) (\<lambda>_.
     then_up (postgresql_Connect pl (ucf_PostgresDB cfg)) (\<lambda>r. case r of
         Inl cnErr \<Rightarrow> Fatalf
       | Inr postgresConn \<Rightarrow>
           then_up (Migrator_Up pl (Migrator_New (ucf_PostgresDB cfg) (pgc_PathOfMigration (ucf_PostgresDB cfg)))) (\<lambda>_. do {
             c \<leftarrow> grpc_NewClient pl (ucf_GrpcClient cfg);
             case c of
               Inl err \<Rightarrow> Fatalf
             | Inr rpcClientConnection \<Rightarrow> ret (Up (user_Setup now (db_of postgresConn) (conn_of rpcClientConnection))) }))))"

definition question_main :: "('w, 'conn, 'client, 'db, 'cc) platform \<Rightarrow> ('w, 'k, question_Config) koanf \<Rightarrow>
    ('conn \<Rightarrow> 'w question_db) \<Rightarrow> 'w sarama \<Rightarrow> ('w, 'w question_app start) state" where
  "question_main pl K db_of kafka =
     then_up (read_config pl K ''QUESTION_'' [''infra'', ''deploy'', ''question'', ''development'', ''config.yaml'']) (\<lambda>cfg.
     then_up (logger_Init pl (qcf_LogFile cfg) None) (\<lambda>_.
     then_up (postgresql_Connect pl (qcf_PostgresDB cfg)) (\<lambda>r. case r of
         Inl cnErr \<Rightarrow> Fatalf
       | Inr postgresConn \<Rightarrow>
           then_up (Migrator_Up pl (Migrator_New (qcf_PostgresDB cfg) (pgc_PathOfMigration (qcf_PostgresDB cfg)))) (\<lambda>_.
             up_outcome (question_Setup (db_of postgresConn) kafka)))))"

text \<open>
  A failed connection to MongoDB is logged and the service is built all the same, with no database. The database
  is closed by a deferred function, which dereferences it first.
\<close>

definition game_main :: "('w, 'conn, 'client, 'db, 'cc) platform \<Rightarrow> ('w, 'k, game_Config) koanf \<Rightarrow> ('db option \<Rightarrow> 'w game_env) \<Rightarrow>
    'w gobwas \<Rightarrow> 'w sarama \<Rightarrow> 'w asynq \<Rightarrow> proto_codec \<Rightarrow> ('w, ('w game_app \<times> 'db option) start) state" where
  "game_main pl K env_of lib kafka client P =
     then_up (read_config pl K ''GAME_'' [''infra'', ''deploy'', ''game'', ''development'', ''config.yaml'']) (\<lambda>cfg.
     then_up (logger_Init pl (gcf_LogFile cfg) None) (\<lambda>_. do {
       r \<leftarrow> mongo_NewDB pl (gcf_MongoDB cfg);
       let mongoDB = (case r of Inl err \<Rightarrow> None | Inr db \<Rightarrow> Some db);
       then_up (up_outcome (game_Setup (gcf_Repository cfg) (env_of mongoDB) lib kafka client P)) (\<lambda>app. ret (Up (app, mongoDB))) }))"

definition game_main_deferred :: "('w, 'conn, 'client, 'db, 'cc) platform \<Rightarrow> 'db option \<Rightarrow> ('w, unit start) state" where
  "game_main_deferred pl mongoDB =
     (case mongoDB of
        None \<Rightarrow> ret (Crash NilDereference)
      | Some db \<Rightarrow> do { err \<leftarrow> pl_mongo_Disconnect pl db; ret (Up ()) })"

end
