(* ===== verification/Boot_Properties.thy ===== *)
theory Boot_Properties
  imports Entry_Points Reference_World
begin

text \<open>
  What comes of a start: where each service looks for its configuration, what the images that the repository builds
  come to, and a game service without a database.
\<close>

section \<open>The path of the configuration\<close>

definition path_segment :: "string \<Rightarrow> bool" where
  "path_segment s \<longleftrightarrow> s \<noteq> [] \<and> s \<noteq> ''.'' \<and> s \<noteq> ''..'' \<and> CHR ''/'' \<notin> set s"

text \<open>A clean absolute path below the root, as \<open>Getwd\<close> returns it.\<close>

definition directory :: "string \<Rightarrow> bool" where
  "directory wd \<longleftrightarrow> (\<exists>segs. segs \<noteq> [] \<and> list_all path_segment segs \<and> wd = ''/'' @ Join segs ''/'')"

lemma Join_append: "xs \<noteq> [] \<Longrightarrow> ys \<noteq> [] \<Longrightarrow> Join (xs @ ys) sep = Join xs sep @ sep @ Join ys sep"
proof (induction xs rule: induct_list012)
  case (2 x)
  then show ?case by (cases ys) simp_all
qed simp_all

lemma Split_Join: "xs \<noteq> [] \<Longrightarrow> list_all path_segment xs \<Longrightarrow> Split (Join xs ''/'') CHR ''/'' = xs"
proof (induction xs rule: induct_list012)
  case (3 x y zs)
  then show ?case using Split_append [of "CHR ''/''" x "Join (y # zs) ''/''"] by (simp add: path_segment_def)
qed (simp_all add: path_segment_def Split_no_sep)

lemma clean_segments: "list_all path_segment xs \<Longrightarrow> foldl (clean_step r) out xs = rev xs @ out"
  by (induction xs arbitrary: out) (simp_all add: path_segment_def)

lemma filepath_Join_below:
  assumes "directory wd" and path: "path \<noteq> []" "list_all path_segment path"
  shows "filepath_Join (wd # path) = wd @ ''/'' @ Join path ''/''"
proof -
  obtain segs where segs: "segs \<noteq> []" "list_all path_segment segs" "wd = ''/'' @ Join segs ''/''"
    using assms(1) by (auto simp: directory_def)
  have "filter (\<lambda>e. e \<noteq> []) path = path" using path(2) by (auto simp: list_all_iff path_segment_def filter_id_conv)
  moreover have "wd @ ''/'' @ Join path ''/'' = CHR ''/'' # Join (segs @ path) ''/''" using segs path(1) by (simp add: Join_append)
  moreover have "Join (wd # path) ''/'' = wd @ ''/'' @ Join path ''/''" using path(1) by (cases path) simp_all
  ultimately show ?thesis
    using segs path
    by (simp add: filepath_Join_def filepath_Clean_def Split_Join clean_segments Let_def)
qed

lemma config_segments: "list_all path_segment [''infra'', ''deploy'', ''auth'', ''match'', ''game'', ''user'', ''question'', ''development'', ''config.yaml'']"
  by (simp add: path_segment_def)

text \<open>The start of every \<open>main\<close> with a configuration file that is missing, and with one that is there.\<close>

lemma read_config_missing:
  assumes "koanf_ok K files environ get" and "run_state (pl_Getwd pl) w = (Inr wd, w)"
    and "files w (filepath_Join (wd # path)) = None" and "filepath_Join (wd # path) \<noteq> []"
  shows "fst (run_state (read_config pl K pre path) w) = Exit 1"
proof -
  let ?o = "\<lparr>op_Prefix = pre, op_Delimiter = ''.'', op_Separator = ''__'', op_YamlFilePath = filepath_Join (wd # path), op_CallbackEnv = None\<rparr>"
  have "fst (run_state (Load K ?o) w) = Exit 1" by (rule Load_missing [OF assms(1)]) (simp_all add: assms)
  then show ?thesis using assms(2) by (auto simp: read_config_def Let_def then_up_run bb_run split: prod.split)
qed

lemma read_config_found:
  assumes K: "koanf_ok K files environ get" and wd: "run_state (pl_Getwd pl) w = (Inr wd, w)"
    and yaml: "files w (filepath_Join (wd # path)) = Some m" "filepath_Join (wd # path) \<noteq> []"
    and decodes: "\<And>k. \<exists>cfg. kf_Unmarshal K k = Inr cfg"
  shows "\<exists>cfg w'. run_state (read_config pl K pre path) w = (Up cfg, w')"
proof -
  let ?o = "\<lparr>op_Prefix = pre, op_Delimiter = ''.'', op_Separator = ''__'', op_YamlFilePath = filepath_Join (wd # path), op_CallbackEnv = None\<rparr>"
  obtain k w' where "run_state (Load K ?o) w = (case kf_Unmarshal K k of Inr cfg \<Rightarrow> Up (Inr cfg) | Inl e \<Rightarrow> Exit 1, w')"
    using Load_found [OF K, where options = ?o and w = w and m = m] yaml by auto
  with decodes [of k] show ?thesis using wd by (auto simp: read_config_def Let_def then_up_run bb_run)
qed

lemma then_up_exit: "fst (run_state m w) = Exit n \<Longrightarrow> fst (run_state (then_up m f) w) = Exit n"
  by (auto simp: then_up_run split: prod.split)

text \<open>
  C39. Where the configuration has to be. The images of the repository hold it in \<open>deploy\<close> below the working
  directory; the game and the match service look for it in \<open>infra/deploy\<close> and exit with code 1 at
  once, while the auth service, which looks in \<open>deploy\<close>, comes up, and exits in its
  turn in a checkout of the repository, where only \<open>infra/deploy\<close> is.
\<close>

theorem images_without_config:
  assumes K: "koanf_ok KG files environ getG" "koanf_ok KM files environ getM" "koanf_ok KA files environ getA"
    and decodes: "\<And>k. \<exists>cfg. kf_Unmarshal KA k = Inr cfg"
    and wd: "directory wd" "\<And>w. run_state (pl_Getwd pl) w = (Inr wd, w)"
  shows "(files w (wd @ ''/infra/deploy/game/development/config.yaml'') = None \<longrightarrow>
      fst (run_state (game_main pl KG env_of lib kafka client P) w) = Exit 1) \<and>
    (files w (wd @ ''/infra/deploy/match/development/config.yaml'') = None \<longrightarrow>
      fst (run_state (match_main pl KM now redis kafka) w) = Exit 1) \<and>
    (case files w (wd @ ''/deploy/auth/development/config.yaml'') of
      None \<Rightarrow> fst (run_state (auth_main pl KA) w) = Exit 1
    | Some m \<Rightarrow> \<exists>app. fst (run_state (auth_main pl KA) w) = Up app)"
proof -
  have path: "filepath_Join (wd # path) = wd @ ''/'' @ Join path ''/''"
    if "path = p @ [''deploy'', s, ''development'', ''config.yaml'']" "p \<in> {[], [''infra'']}" "s \<in> {''game'', ''match'', ''auth''}" for path p s
    using that config_segments by (intro filepath_Join_below [OF wd(1)]) auto
  have game: "filepath_Join [wd, ''infra'', ''deploy'', ''game'', ''development'', ''config.yaml''] = wd @ ''/infra/deploy/game/development/config.yaml''"
    and match_: "filepath_Join [wd, ''infra'', ''deploy'', ''match'', ''development'', ''config.yaml''] = wd @ ''/infra/deploy/match/development/config.yaml''"
    and auth: "filepath_Join [wd, ''deploy'', ''auth'', ''development'', ''config.yaml''] = wd @ ''/deploy/auth/development/config.yaml''"
    using path [of _ "[''infra'']" "''game''"] path [of _ "[''infra'']" "''match''"] path [of _ "[]" "''auth''"] by simp_all
  have "fst (run_state (game_main pl KG env_of lib kafka client P) w) = Exit 1" if "files w (wd @ ''/infra/deploy/game/development/config.yaml'') = None"
    unfolding game_main_def using that by (intro then_up_exit read_config_missing [OF K(1) wd(2)]) (simp_all add: game)
  moreover have "fst (run_state (match_main pl KM now redis kafka) w) = Exit 1" if "files w (wd @ ''/infra/deploy/match/development/config.yaml'') = None"
    unfolding match_main_def using that by (intro then_up_exit read_config_missing [OF K(2) wd(2)]) (simp_all add: match_)
  moreover have "fst (run_state (auth_main pl KA) w) = Exit 1" if "files w (wd @ ''/deploy/auth/development/config.yaml'') = None"
    unfolding auth_main_def using that by (intro then_up_exit read_config_missing [OF K(3) wd(2)]) (simp_all add: auth)
  moreover have "\<exists>app. fst (run_state (auth_main pl KA) w) = Up app" if there: "files w (wd @ ''/deploy/auth/development/config.yaml'') = Some m" for m
  proof -
    have "files w (filepath_Join [wd, ''deploy'', ''auth'', ''development'', ''config.yaml'']) = Some m" by (simp only: auth there)
    from read_config_found [OF K(3) wd(2) this _ decodes, of "''AUTH_''"] obtain cfg w' where
      "run_state (read_config pl KA ''AUTH_'' [''deploy'', ''auth'', ''development'', ''config.yaml'']) w = (Up cfg, w')"
      unfolding auth by blast
    then show ?thesis by (simp add: auth_main_def then_up_run logger_Init_def bb_run wd(2))
  qed
  ultimately show ?thesis by (auto split: option.split)
qed

section \<open>Without a database\<close>

text \<open>
  A game service that cannot reach its MongoDB comes up all the same, with no database behind its repository,
  and panics when it ends.
\<close>

theorem game_without_mongo:
  assumes config: "run_state (read_config pl K ''GAME_'' [''infra'', ''deploy'', ''game'', ''development'', ''config.yaml'']) w = (Up cfg, w1)"
    and logger: "run_state (logger_Init pl (gcf_LogFile cfg) None) w1 = (Up l, w2)"
    and mongo: "mgc_Instances (gcf_MongoDB cfg) = [] \<or> (\<forall>uri w. \<exists>e. fst (run_state (pl_mongo_Connect pl uri) w) = Inl e)"
    and kafka: "\<And>w. fst (run_state (NewKafkaBroker kafka) w) = Inr ()"
  shows "\<exists>app w'. run_state (game_main pl K env_of lib kafka client P) w = (Up (app, None), w') \<and>
    gap_Repository app = GameRepository (gcf_Repository cfg) (env_of None) \<and>
    run_state (game_main_deferred pl None) w' = (Crash NilDereference, w')"
proof -
  obtain e w3 where db: "run_state (mongo_NewDB pl (gcf_MongoDB cfg)) w2 = (Inl e, w3)"
  proof (cases "mgc_Instances (gcf_MongoDB cfg) = []")
    case False
    obtain e w3 where "run_state (pl_mongo_Connect pl (mongo_uri (gcf_MongoDB cfg))) w2 = (Inl e, w3)" using mongo False by (metis prod.collapse)
    with False show thesis by (intro that [of e w3]) (simp add: mongo_NewDB_def bb_run)
  qed (simp add: mongo_NewDB_def)
  obtain w4 where broker: "run_state (NewKafkaBroker kafka) w3 = (Inr (), w4)" using kafka [of w3] by (metis prod.collapse)
  show ?thesis
    by (simp add: game_main_def then_up_run config logger db broker game_Setup_def constructor_defs up_outcome_def game_main_deferred_def bb_run Let_def)
qed

section \<open>Witnesses\<close>

text \<open>A machine with files and environment variables, and a store of koanf that is the map itself.\<close>

record boot_world = world +
  bw_files :: "string \<rightharpoonup> (string \<rightharpoonup> string)"
  bw_environ :: "(string \<times> string) list"

definition decoding_koanf :: "((string \<rightharpoonup> string) \<Rightarrow> go_error + 'c) \<Rightarrow> (boot_world, string \<rightharpoonup> string, 'c) koanf" where
  "decoding_koanf decode = \<lparr>kf_New = (\<lambda>_. Map.empty),
     kf_LoadFile = (\<lambda>k path. State (\<lambda>w. (case bw_files w path of None \<Rightarrow> Inl (PlainErr ''no such file'') | Some m \<Rightarrow> Inr (k ++ m), w))),
     kf_LoadEnv = (\<lambda>k pre d cb. State (\<lambda>w. (Inr (k ++ env_values pre cb (bw_environ w)), w))),
     kf_Unmarshal = decode\<rparr>"

definition ref_koanf :: "'c \<Rightarrow> (boot_world, string \<rightharpoonup> string, 'c) koanf" where
  "ref_koanf cfg = decoding_koanf (\<lambda>_. Inr cfg)"

lemma decoding_koanf_ok: "koanf_ok (decoding_koanf decode) bw_files bw_environ (\<lambda>k. k)"
  by (auto simp: koanf_ok_def decoding_koanf_def merged_def keeps_def map_add_def split: option.split)

lemma ref_koanf_ok: "koanf_ok (ref_koanf cfg) bw_files bw_environ (\<lambda>k. k)"
  by (simp add: ref_koanf_def decoding_koanf_ok)

lemma ref_koanf_Unmarshal [simp]: "kf_Unmarshal (ref_koanf cfg) k = Inr cfg"
  by (simp add: ref_koanf_def decoding_koanf_def)

definition boot_world0 :: boot_world where
  "boot_world0 = world.extend world0 \<lparr>bw_files = [''/home/app/deploy/auth/development/config.yaml'' \<mapsto> [''logger.file_path'' \<mapsto> ''a.log'']],
     bw_environ = [(''AUTH_logger__file_path'', ''b.log''), (''PATH'', ''/bin'')]\<rparr>"

lemma boot_world0_simps [simp]:
  "bw_files boot_world0 = [''/home/app/deploy/auth/development/config.yaml'' \<mapsto> [''logger.file_path'' \<mapsto> ''a.log'']]"
  "bw_environ boot_world0 = [(''AUTH_logger__file_path'', ''b.log''), (''PATH'', ''/bin'')]"
  by (simp_all add: boot_world0_def world.defs)

lemma env_over_yaml_witness:
  "\<exists>k w'. run_state (Load (ref_koanf ()) \<lparr>op_Prefix = ''AUTH_'', op_Delimiter = ''.'', op_Separator = ''__'',
      op_YamlFilePath = ''/home/app/deploy/auth/development/config.yaml'', op_CallbackEnv = None\<rparr>) boot_world0 = (Up (Inr ()), w') \<and>
    k ''logger.file_path'' = Some ''b.log''"
proof -
  let ?o = "\<lparr>op_Prefix = ''AUTH_'', op_Delimiter = ''.'', op_Separator = ''__'',
      op_YamlFilePath = ''/home/app/deploy/auth/development/config.yaml'', op_CallbackEnv = None\<rparr>"
  have "defaultCallbackEnv ''AUTH_logger__file_path'' ''AUTH_'' ''__'' = ''logger.file_path''"
    using defaultCallbackEnv_Join [of "[''logger'', ''file_path'']" "''AUTH_''"] by (simp add: ToLower_def lower_def)
  then have env: "[''logger.file_path'' \<mapsto> ''b.log''] =
      env_values (op_Prefix ?o) (\<lambda>name. defaultCallbackEnv name (op_Prefix ?o) (op_Separator ?o)) (bw_environ boot_world0)"
    by (simp add: env_values_def)
  have "\<forall>a \<in> dom [''logger.file_path'' \<mapsto> ''a.log''] \<union> dom [''logger.file_path'' \<mapsto> ''b.log'']. \<not> related a ''logger.file_path''"
    by (simp add: related_def)
  from env_over_yaml [OF ref_koanf_ok [of "()"] _ _ _ env this] show ?thesis by simp
qed

text \<open>A configuration that is the store itself, and the match service with its own file and two variables set.\<close>

definition ref_field :: "(string \<rightharpoonup> string) \<Rightarrow> key \<Rightarrow> string option" where
  "ref_field m k = (case m (Join k ''.'') of Some v \<Rightarrow> Some v | None \<Rightarrow> m (lower_name k))"

lemma ref_field_ok: "unmarshal_ok (decoding_koanf Inr) (\<lambda>k. k) ref_field"
proof -
  have exact: "spelled k (Join k ''.'')" if "k \<noteq> []" for k
    using that by (auto simp: spelled_def intro!: exI [of _ "last k"])
  show ?thesis
    unfolding unmarshal_ok_def
  proof (intro allI impI conjI; clarsimp simp: decoding_koanf_def ref_field_def split: option.split)
    fix m :: "string \<rightharpoonup> string" and k v u
    assume "k \<noteq> []" "m (lower_name k) = Some v" "\<forall>n \<in> dom m. spelled k n \<longrightarrow> n = lower_name k" "m (Join k ''.'') = Some u"
    then show "u = v" using exact [of k] by force
  qed
qed

definition match_yaml :: "string \<rightharpoonup> string" where
  "match_yaml = [''broker.host'' \<mapsto> ''kafka'', ''repository.waitingListPrefix'' \<mapsto> ''waiting_users'']"

definition match_machine :: boot_world where
  "match_machine = world.extend world0 \<lparr>bw_files = [''config.yaml'' \<mapsto> match_yaml],
     bw_environ = [(''MATCH_broker__host'', ''kafka-2''), (''MATCH_repository__waitingListPrefix'', ''waiting'')]\<rparr>"

lemma match_machine_names:
  "defaultCallbackEnv ''MATCH_broker__host'' ''MATCH_'' ''__'' = ''broker.host''"
  "defaultCallbackEnv ''MATCH_repository__waitingListPrefix'' ''MATCH_'' ''__'' = ''repository.waitinglistprefix''"
proof -
  have "char_of (108 :: nat) = CHR ''l''" "char_of (112 :: nat) = CHR ''p''" by (simp_all add: char_of_eq_iff)
  then show "defaultCallbackEnv ''MATCH_broker__host'' ''MATCH_'' ''__'' = ''broker.host''"
    "defaultCallbackEnv ''MATCH_repository__waitingListPrefix'' ''MATCH_'' ''__'' = ''repository.waitinglistprefix''"
    using defaultCallbackEnv_Join [of "[''broker'', ''host'']" "''MATCH_''"]
      defaultCallbackEnv_Join [of "[''repository'', ''waitingListPrefix'']" "''MATCH_''"]
    by (simp_all add: ToLower_def lower_def)
qed

lemma cut_at_dot: "CHR ''.'' \<notin> set a \<Longrightarrow> CHR ''.'' \<notin> set c \<Longrightarrow> a @ CHR ''.'' # u = c @ CHR ''.'' # v \<Longrightarrow> a = c \<and> u = v"
proof (induction a arbitrary: c)
  case Nil
  then show ?case by (cases c) auto
next
  case (Cons x a)
  then show ?case by (cases c) auto
qed

lemma related_last:
  assumes "spelled [a, b] n" and "CHR ''.'' \<notin> set c" and "c = a \<Longrightarrow> length d = length b" and "CHR ''.'' \<notin> set a"
  shows "\<not> related (c @ CHR ''.'' # d) n"
proof
  obtain s where s: "n = a @ CHR ''.'' # s" "length s = length b"
    using assms(1) by (auto simp: spelled_def ToLower_def dest: map_eq_imp_length_eq)
  assume "related (c @ CHR ''.'' # d) n"
  then obtain x where "a @ CHR ''.'' # s = c @ CHR ''.'' # d @ CHR ''.'' # x \<or> c @ CHR ''.'' # d = a @ CHR ''.'' # s @ CHR ''.'' # x"
    by (auto simp: related_def prefix_def s)
  then have "c = a \<and> (s = d @ CHR ''.'' # x \<or> d = s @ CHR ''.'' # x)" using cut_at_dot [OF assms(4,2)] cut_at_dot [OF assms(2,4)] by blast
  then show False using assms(3) s(2) by auto
qed

definition match_options :: Option where
  "match_options = \<lparr>op_Prefix = ''MATCH_'', op_Delimiter = ''.'', op_Separator = ''__'', op_YamlFilePath = ''config.yaml'', op_CallbackEnv = None\<rparr>"

definition match_env :: "string \<rightharpoonup> string" where
  "match_env = [''broker.host'' \<mapsto> ''kafka-2'', ''repository.waitinglistprefix'' \<mapsto> ''waiting'']"

lemma match_machine_env:
  "match_env = env_values (op_Prefix match_options) (\<lambda>name. defaultCallbackEnv name (op_Prefix match_options) ''__'') (bw_environ match_machine)"
  by (simp add: match_env_def env_values_def match_machine_def match_options_def match_machine_names world.defs)

lemma match_machine_leaf:
  assumes "k \<in> {[''broker'', ''Host''], [''repository'', ''waitingListPrefix'']}"
  shows "\<forall>a \<in> dom match_yaml \<union> dom match_env. \<forall>n. spelled k n \<longrightarrow> \<not> related a n"
proof -
  have 1: "\<not> related ''broker.host'' n" "\<not> related ''repository.waitingListPrefix'' n" "\<not> related ''repository.waitinglistprefix'' n"
    if "spelled [''broker'', ''Host''] n" for n
    using related_last [OF that, of "''broker''" "''host''"] related_last [OF that, of "''repository''" "''waitingListPrefix''"]
      related_last [OF that, of "''repository''" "''waitinglistprefix''"] by simp_all
  have 2: "\<not> related ''broker.host'' n" "\<not> related ''repository.waitingListPrefix'' n" "\<not> related ''repository.waitinglistprefix'' n"
    if "spelled [''repository'', ''waitingListPrefix''] n" for n
    using related_last [OF that, of "''broker''" "''host''"] related_last [OF that, of "''repository''" "''waitingListPrefix''"]
      related_last [OF that, of "''repository''" "''waitinglistprefix''"] by simp_all
  show ?thesis using assms 1 2 by (auto simp: match_yaml_def match_env_def)
qed

lemma match_machine_loads: "\<exists>cfg w'. run_state (Load (decoding_koanf Inr) match_options) match_machine = (Up (Inr cfg), w')"
  by (simp add: Load_def decoding_koanf_def match_options_def match_machine_def bb_run Let_def world.defs)

text \<open>The host of Kafka comes from its variable, the prefix of the waiting lists from the file.\<close>

lemma settable_keys_witness:
  "\<exists>cfg w'. run_state (Load (decoding_koanf Inr) match_options) match_machine = (Up (Inr cfg), w') \<and>
    ref_field cfg [''broker'', ''Host''] = Some ''kafka-2'' \<and>
    ref_field cfg [''repository'', ''waitingListPrefix''] = Some ''waiting_users''"
proof -
  obtain cfg w' where up: "run_state (Load (decoding_koanf Inr) match_options) match_machine = (Up (Inr cfg), w')"
    using match_machine_loads by blast
  have options: "op_YamlFilePath match_options \<noteq> []" "op_CallbackEnv match_options = None" "op_Separator match_options = ''__''"
    by (simp_all add: match_options_def)
  have yaml: "bw_files match_machine (op_YamlFilePath match_options) = Some match_yaml"
    by (simp add: match_machine_def match_options_def world.defs)
  have keys: "[''broker'', ''Host''] \<in> set all_keys" "[''repository'', ''waitingListPrefix''] \<in> set all_keys"
    by (simp_all add: all_keys_def match_keys_def broker_keys_def match_repository_keys_def)
  have letters: "char_of (104 :: nat) = CHR ''h''" "char_of (108 :: nat) = CHR ''l''" "char_of (112 :: nat) = CHR ''p''"
    by (simp_all add: char_of_eq_iff)
  have names: "ToLower ''broker__host'' = ToLower (Join [''broker'', ''Host''] ''__'')"
    "Join (map ToLower [''broker'', ''Host'']) ''.'' = ''broker.host''"
    "Join (map ToLower [''repository'', ''waitingListPrefix'']) ''.'' = ''repository.waitinglistprefix''"
    "lower_name [''broker'', ''Host''] = ''broker.host''"
    by (simp_all add: ToLower_def lower_def letters lower_name_def)
  have set: "(op_Prefix match_options @ ''broker__host'', ''kafka-2'') \<in> set (bw_environ match_machine)"
    "(op_Prefix match_options @ Join [''repository'', ''waitingListPrefix''] ''__'', ''waiting'') \<in> set (bw_environ match_machine)"
    by (simp_all add: match_machine_def match_options_def world.defs)
  have only: "\<forall>(name, u) \<in> set (bw_environ match_machine). prefix (op_Prefix match_options) name \<longrightarrow>
      defaultCallbackEnv name (op_Prefix match_options) ''__'' = key \<longrightarrow> u = v"
    if "(key, v) \<in> {(''broker.host'', ''kafka-2''), (''repository.waitinglistprefix'', ''waiting'')}" for key v
    using that by (auto simp: match_machine_def match_options_def match_machine_names world.defs)
  have spelling: "\<forall>n \<in> dom match_yaml. spelled k n \<longrightarrow> ToLower (last k) \<noteq> last k \<longrightarrow> n \<in> {Join k ''.'', lower_name k}"
    if "k \<in> {[''broker'', ''Host''], [''repository'', ''waitingListPrefix'']}" for k
    using that by (auto simp: match_yaml_def spelled_def names(4))
  note of_match = settable_keys [OF decoding_koanf_ok ref_field_ok options yaml _ _ _ _ match_machine_env match_machine_leaf spelling up]
  have 1: "ref_field cfg [''broker'', ''Host''] = Some ''kafka-2''"
    using of_match [OF keys(1) set(1) names(1) only [folded names]] by (simp add: names(2) match_yaml_def)
  have 2: "ref_field cfg [''repository'', ''waitingListPrefix''] = Some ''waiting_users''"
    using of_match [OF keys(2) set(2) refl only [folded names]] by (simp add: names(3) match_yaml_def)
  from up 1 2 show ?thesis by blast
qed

definition ref_platform :: "string \<Rightarrow> (boot_world, unit, unit, unit, unit) platform" where
  "ref_platform wd = \<lparr>pl_Getwd = ret (Inr wd), pl_sql_Open = (\<lambda>_ _. ret (Inr ())), pl_SetPool = (\<lambda>_ _ _ _. ret ()),
     pl_migrate_Up = (\<lambda>_ _ _. ret (Inr 0)), pl_migrate_Down = (\<lambda>_ _ _. ret (Inr 0)),
     pl_mongo_Connect = (\<lambda>_. ret (Inl (PlainErr ''error parsing uri''))), pl_mongo_Database = (\<lambda>_ _. ()),
     pl_mongo_Disconnect = (\<lambda>_. ret None), pl_grpc_Dial = (\<lambda>_. ret (Inr ()))\<rparr>"

lemma ref_Getwd: "run_state (pl_Getwd (ref_platform wd)) w = (Inr wd, w)"
  by (simp add: ref_platform_def bb_run)

lemma ref_directory: "directory ''/home/app''"
  unfolding directory_def by (intro exI [of _ "[''home'', ''app'']"]) (simp add: path_segment_def)

definition ref_match_Config :: match_Config where
  "ref_match_Config = \<lparr>mcf_Repository = \<lparr>WaitingListPrefix = ''waiting'', MinTimeWaitingListSelection = 0\<rparr>,
     mcf_Service = \<lparr>mc_WaitingTimeout = 20, mc_LeastPresence = 5\<rparr>, mcf_LogFile = ''match.log''\<rparr>"
definition ref_auth_Config :: auth_Config where
  "ref_auth_Config = \<lparr>acf_Service = \<lparr>SecretKey = ''key'', AccessTokenExpireTime = 24, RefreshTokenExpireTime = 120\<rparr>, acf_LogFile = ''auth.log''\<rparr>"

lemma images_without_config_witness:
  "fst (run_state (match_main (ref_platform ''/home/app'') (ref_koanf ref_match_Config) ref_Now ref_redis ref_sarama) boot_world0) = Exit 1 \<and>
   (\<exists>app. fst (run_state (auth_main (ref_platform ''/home/app'') (ref_koanf ref_auth_Config)) boot_world0) = Up app)"
proof -
  have decodes: "\<exists>c. kf_Unmarshal (ref_koanf ref_auth_Config) k = Inr c" for k by simp
  from images_without_config [where now = ref_Now and redis = ref_redis and kafka = ref_sarama and w = boot_world0,
      OF ref_koanf_ok [of undefined] ref_koanf_ok [of ref_match_Config] ref_koanf_ok decodes ref_directory ref_Getwd]
  show ?thesis by simp
qed

definition ref_game_Config :: game_Config where
  "ref_game_Config = \<lparr>gcf_Repository = \<lparr>rc_QuestionsTimeOut = 300, rc_GameStatusTimeOut = 300, rc_ValidAnswerTimeOut = 120,
       rc_ScoreConfig = \<lparr>sc_BaseScore = 5, sc_MaxBonus = 10, sc_BonusDeadline = 115\<rparr>\<rparr>,
     gcf_MongoDB = \<lparr>mgc_Instances = [], mgc_Name = ''BB-game'', mgc_ReplicationName = ''rs0''\<rparr>, gcf_LogFile = ''game.log''\<rparr>"

lemma ref_read_config:
  assumes "bw_files w (filepath_Join (wd # path)) = Some m" and "filepath_Join (wd # path) \<noteq> []"
  shows "run_state (read_config (ref_platform wd) (ref_koanf cfg) pre path) w = (Up cfg, w)"
  using assms by (simp add: read_config_def Load_def Let_def then_up_run bb_run ref_Getwd) (simp add: ref_koanf_def decoding_koanf_def)

lemma game_without_mongo_witness:
  "\<forall>env_of lib client P. \<exists>app w'. run_state (game_main (ref_platform ''/home/app'') (ref_koanf ref_game_Config) env_of lib ref_sarama client P)
      (boot_world0\<lparr>bw_files := [''/home/app/infra/deploy/game/development/config.yaml'' \<mapsto> Map.empty]\<rparr>) = (Up (app, None), w')"
proof (intro allI)
  fix env_of lib client P
  let ?pl = "ref_platform ''/home/app''" and ?path = "[''infra'', ''deploy'', ''game'', ''development'', ''config.yaml'']"
  let ?w = "boot_world0\<lparr>bw_files := [''/home/app/infra/deploy/game/development/config.yaml'' \<mapsto> Map.empty]\<rparr>"
  have path: "filepath_Join (''/home/app'' # ?path) = ''/home/app/infra/deploy/game/development/config.yaml''"
    using filepath_Join_below [OF ref_directory, of ?path] config_segments by simp
  have c: "run_state (read_config ?pl (ref_koanf ref_game_Config) ''GAME_'' ?path) ?w = (Up ref_game_Config, ?w)"
    by (rule ref_read_config) (simp_all add: path)
  have "\<exists>l. run_state (logger_Init ?pl f None) w = (Up l, w)" for f w by (simp add: logger_Init_def bb_run ref_Getwd)
  moreover have "fst (run_state (NewKafkaBroker ref_sarama) w) = Inr ()" for w :: boot_world
    by (simp add: NewKafkaBroker_def retryAttempts_def numeral_eq_Suc ref_sarama_def bb_run)
  ultimately show "\<exists>app w'. run_state (game_main ?pl (ref_koanf ref_game_Config) env_of lib ref_sarama client P) ?w = (Up (app, None), w')"
    using game_without_mongo [OF c, of _ _ ref_sarama env_of lib client P] by (fastforce simp: ref_game_Config_def)
qed

end
