(* ===== verification/Cache_Manager.thy ===== *)
theory Cache_Manager
  imports Redis_Adapter Go_Time
begin

text \<open>
  \<open>pkg/cache_manager\<close>: a cache over the client of the Redis adapter. The user service builds one
  and hands it to its service, which never calls it.
\<close>

record 'w cache_client = "'w redis_client" +
  rc_Del :: "string list \<Rightarrow> ('w, go_error option) state"
  rc_TTL :: "string \<Rightarrow> ('w, go_error + duration) state"

definition cache_Set :: "('w, 'z) cache_client_scheme \<Rightarrow> string \<Rightarrow> string \<Rightarrow> duration \<Rightarrow> ('w, go_error option) state" where
  "cache_Set c key value expire = do {
     err \<leftarrow> rc_Set c key value expire;
     case err of Some e \<Rightarrow> ret (Some e) | None \<Rightarrow> ret None }"

definition cache_Get :: "('w, 'z) cache_client_scheme \<Rightarrow> string \<Rightarrow> ('w, go_error + string) state" where
  "cache_Get c key = do {
     data \<leftarrow> rc_Get c key;
     case data of Inl err \<Rightarrow> ret (Inl err) | Inr data \<Rightarrow> ret (Inr data) }"

definition cache_Delete :: "('w, 'z) cache_client_scheme \<Rightarrow> string list \<Rightarrow> ('w, go_error option) state" where
  "cache_Delete c keys = do {
     err \<leftarrow> rc_Del c keys;
     case err of Some e \<Rightarrow> ret (Some e) | None \<Rightarrow> ret None }"

text \<open>\<open>GetTTL\<close> returns the seconds, whether the key is there, and an error.\<close>

definition cache_GetTTL :: "('w, 'z) cache_client_scheme \<Rightarrow> string \<Rightarrow> ('w, int \<times> bool \<times> go_error option) state" where
  "cache_GetTTL c key = do {
     ttl \<leftarrow> rc_TTL c key;
     case ttl of
       Inl err \<Rightarrow> ret (0, False, Some err)
     | Inr ttl \<Rightarrow>
         (if ttl = - 2 then ret (0, False, Some (PlainErr ''key does not exist''))
          else ret (int_of_float64 (Seconds ttl), True, None)) }"

section \<open>What the client promises of a TTL\<close>

text \<open>
  The life of a key, as the client returns it: minus two nanoseconds for no key, minus one for a key that does not
  expire, and the whole seconds that are left otherwise.
\<close>

datatype lifetime = Absent | Persistent | Expires nat

fun ttl_of :: "lifetime \<Rightarrow> duration" where
  "ttl_of Absent = - 2"
| "ttl_of Persistent = - 1"
| "ttl_of (Expires n) = int n * nanosecond_per_second"

definition redis_ttl :: "('w, 'z) cache_client_scheme \<Rightarrow> ('w \<Rightarrow> string \<Rightarrow> lifetime) \<Rightarrow> bool" where
  "redis_ttl c life \<longleftrightarrow> (\<forall>key w. fst (run_state (rc_TTL c key) w) = Inr (ttl_of (life w key)))"

lemma Seconds_persistent: "int_of_float64 (Seconds (- 1)) = 0"
  by code_simp

text \<open>
  A key that never expires is reported like one that expires within the second: zero seconds left, and present.
\<close>

lemma GetTTL_result:
  assumes "redis_ttl c life" and "\<And>n. life w key = Expires n \<Longrightarrow> n < 2 ^ 33"
  shows "fst (run_state (cache_GetTTL c key) w) = (case life w key of
     Absent \<Rightarrow> (0, False, Some (PlainErr ''key does not exist''))
   | Persistent \<Rightarrow> (0, True, None)
   | Expires n \<Rightarrow> (int n, True, None))"
proof -
  have ttl: "fst (run_state (rc_TTL c key) w) = Inr (ttl_of (life w key))" using assms(1) by (simp add: redis_ttl_def)
  show ?thesis
  proof (cases "life w key")
    case (Expires n)
    then have "int n \<le> 2 ^ 53" using assms(2) [of n] by simp
    then have "Seconds (int n * nanosecond_per_second) = of_int (int n)" by (intro Seconds_whole) simp_all
    then have "int_of_float64 (Seconds (int n * nanosecond_per_second)) = int n" by (simp add: int_of_float64_def)
    moreover have "int n * nanosecond_per_second \<noteq> - 2" by simp
    ultimately show ?thesis using ttl Expires by (simp add: cache_GetTTL_def bb_run case_prod_beta)
  qed (use ttl Seconds_persistent in \<open>simp_all add: cache_GetTTL_def bb_run case_prod_beta\<close>)
qed

end
