(* ===== verification/Web_Routes.thy ===== *)
theory Web_Routes
  imports App_Error Go_Json
begin

text \<open>
  The tables of routes of the five HTTP servers: \<open>RegisterRoutes\<close> and \<open>healthCheck\<close> of
  \<open>services/*/delivery/http\<close>. The handlers are named here and defined with their services.
\<close>

datatype http_method = GET | POST

datatype endpoint = healthCheck | Auth_CreateAccessToken | Auth_CreateRefreshToken | Auth_ValidateToken
  | User_SignUp | User_Login | User_Profile | Match_addToWaitingList | Question_AddQuestion | Game_ProcessGame

type_synonym routes = "(http_method \<times> string \<times> endpoint) list"

definition Group :: "string \<Rightarrow> routes \<Rightarrow> routes" where
  "Group pre rs = map (\<lambda>(method, path, h). (method, pre @ path, h)) rs"

definition auth_RegisterRoutes :: routes where
  "auth_RegisterRoutes = Group ''/api/v1''
     [(GET, ''/health-check'', healthCheck),
      (POST, ''/access-token'', Auth_CreateAccessToken),
      (POST, ''/refresh-token'', Auth_CreateRefreshToken),
      (POST, ''/validate-token'', Auth_ValidateToken),
      (GET, ''/validate-token'', Auth_ValidateToken)]"

definition user_RegisterRoutes :: routes where
  "user_RegisterRoutes =
     Group ''/public/api/v1''
       [(GET, ''/health-check'', healthCheck),
        (POST, ''/signup'', User_SignUp),
        (POST, ''/login'', User_Login)] @
     Group ''/api/v1'' [(GET, ''/profile'', User_Profile)]"

definition match_RegisterRoutes :: routes where
  "match_RegisterRoutes = Group ''/api/v1''
     [(GET, ''/health-check'', healthCheck), (POST, ''/addToWaitingList'', Match_addToWaitingList)]"

definition question_RegisterRoutes :: routes where
  "question_RegisterRoutes = Group ''/api/v1/question''
     [(GET, ''/health-check'', healthCheck), (POST, ''/add'', Question_AddQuestion)]"

definition game_RegisterRoutes :: routes where
  "game_RegisterRoutes = Group ''/api/v1''
     [(GET, ''/health-check'', healthCheck), (GET, ''/process-game'', Game_ProcessGame)]"

definition healthCheck_response :: "json http_response" where
  "healthCheck_response = ctx_JSON 200 (OkBody (JObj [(''message'', JStr ''everything is good!'')]))"

text \<open>The paths hold no parameters, so the router takes the route with the method and the path of the request.\<close>

definition route :: "routes \<Rightarrow> http_method \<Rightarrow> string \<Rightarrow> endpoint option" where
  "route rs method path = map_option (\<lambda>(m, p, h). h) (find (\<lambda>(m, p, h). m = method \<and> p = path) rs)"

lemmas route_defs = auth_RegisterRoutes_def user_RegisterRoutes_def match_RegisterRoutes_def question_RegisterRoutes_def
  game_RegisterRoutes_def Group_def

text \<open>No two routes of a service have the same method and path.\<close>

lemma routes_distinct:
  "\<forall>rs \<in> {auth_RegisterRoutes, user_RegisterRoutes, match_RegisterRoutes, question_RegisterRoutes, game_RegisterRoutes}.
     distinct (map (\<lambda>(m, p, h). (m, p)) rs)"
  by (simp add: route_defs)

text \<open>
  The gateway asks \<open>GET /api/v1/validate-token\<close> of the auth service about each request that is not public, and
  passes the paths under \<open>/public\<close> of the user service on without asking: these are exactly
  signing up, logging in and the health check.
\<close>

lemma gateway_route: "route auth_RegisterRoutes GET ''/api/v1/validate-token'' = Some Auth_ValidateToken"
  by (simp add: route_def route_defs)

lemma public_endpoints:
  "{h. \<exists>m p. (m, ''/public'' @ p, h) \<in> set user_RegisterRoutes} = {healthCheck, User_SignUp, User_Login}"
  by (auto simp: route_defs)

end
