(* ===== verification/Delivery.thy ===== *)
theory Delivery
  imports Web_Routes Setup_Services
begin

text \<open>
  The servers of the services: \<open>pkg/http_server\<close>, \<open>pkg/grpc\<close> and \<open>services/*/delivery\<close>. A
  server registers its routes and starts; a request then goes to the handler of its method
  and path. Echo (\<open>ec_Start\<close>, \<open>ec_Shutdown\<close>, \<open>ctx.Bind\<close>), \<open>net.Listen\<close> and the gRPC server are
  arguments. Loggers are left out, and so are the fields that only hold them.
\<close>

section \<open>HTTP servers\<close>

record httpserver_Config =
  hc_Port :: int
  hc_AllowOrigins :: "string list"
  hc_ShutDownCtxTimeout :: duration

datatype middleware = Logger_middleware | CORS "string list"

record httpserver_Server =
  hs_Router :: routes
  hs_Middleware :: "middleware list"
  hs_Config :: httpserver_Config

record 'w echo =
  ec_Start :: "routes \<Rightarrow> middleware list \<Rightarrow> string \<Rightarrow> ('w, go_error option) state"
  ec_Shutdown :: "duration \<Rightarrow> ('w, go_error option) state"

definition httpserver_New :: "httpserver_Config \<Rightarrow> httpserver_Server" where
  "httpserver_New cfg = \<lparr>hs_Router = [], hs_Middleware = [Logger_middleware, CORS (hc_AllowOrigins cfg)], hs_Config = cfg\<rparr>"

definition RegisterHandler :: "httpserver_Server \<Rightarrow> string \<Rightarrow> endpoint \<Rightarrow> httpserver_Server" where
  "RegisterHandler s path handler = s\<lparr>hs_Router := hs_Router s @ [(GET, path, handler)]\<rparr>"

definition httpserver_Start :: "'w echo \<Rightarrow> httpserver_Server \<Rightarrow> ('w, go_error option) state" where
  "httpserver_Start ec s = ec_Start ec (hs_Router s) (hs_Middleware s) (CHR '':'' # FormatInt (hc_Port (hs_Config s)))"

definition httpserver_Stop :: "'w echo \<Rightarrow> httpserver_Server \<Rightarrow> duration \<Rightarrow> ('w, go_error option) state" where
  "httpserver_Stop ec s ctx = ec_Shutdown ec ctx"

text \<open>The server of a service is its HTTP server with its handler, here what the handler holds: the service.\<close>

record 's http_Server =
  sv_HTTPServer :: httpserver_Server
  sv_Handler :: 's

definition register :: "routes \<Rightarrow> 's http_Server \<Rightarrow> 's http_Server" where
  "register rs s = s\<lparr>sv_HTTPServer := (sv_HTTPServer s)\<lparr>hs_Router := hs_Router (sv_HTTPServer s) @ rs\<rparr>\<rparr>"

definition auth_http_New :: "httpserver_Server \<Rightarrow> auth_config \<Rightarrow> auth_config http_Server" where
  "auth_http_New server handler = \<lparr>sv_HTTPServer = server, sv_Handler = handler\<rparr>"
definition auth_http_Serve :: "'v echo \<Rightarrow> auth_config http_Server \<Rightarrow> ('v, go_error option) state" where
  "auth_http_Serve ec s = (let s = register auth_RegisterRoutes s in do {
     err \<leftarrow> httpserver_Start ec (sv_HTTPServer s);
     ret (case err of Some e \<Rightarrow> Some e | None \<Rightarrow> None) })"
definition auth_http_Stop :: "'v echo \<Rightarrow> auth_config http_Server \<Rightarrow> duration \<Rightarrow> ('v, go_error option) state" where
  "auth_http_Stop ec s ctx = httpserver_Stop ec (sv_HTTPServer s) ctx"

definition user_http_New :: "httpserver_Server \<Rightarrow> 'w user_svc \<Rightarrow> 'w user_svc http_Server" where
  "user_http_New server handler = \<lparr>sv_HTTPServer = server, sv_Handler = handler\<rparr>"
definition user_http_Serve :: "'v echo \<Rightarrow> 'w user_svc http_Server \<Rightarrow> ('v, go_error option) state" where
  "user_http_Serve ec s = (let s = register user_RegisterRoutes s in do {
     err \<leftarrow> httpserver_Start ec (sv_HTTPServer s);
     ret (case err of Some e \<Rightarrow> Some e | None \<Rightarrow> None) })"
definition user_http_Stop :: "'v echo \<Rightarrow> 'w user_svc http_Server \<Rightarrow> duration \<Rightarrow> ('v, go_error option) state" where
  "user_http_Stop ec s ctx = httpserver_Stop ec (sv_HTTPServer s) ctx"

definition match_http_New :: "httpserver_Server \<Rightarrow> 'w match_svc \<Rightarrow> 'w match_svc http_Server" where
  "match_http_New server handler = \<lparr>sv_HTTPServer = server, sv_Handler = handler\<rparr>"
definition match_http_Serve :: "'v echo \<Rightarrow> 'w match_svc http_Server \<Rightarrow> ('v, go_error option) state" where
  "match_http_Serve ec s = (let s = register match_RegisterRoutes s in do {
     err \<leftarrow> httpserver_Start ec (sv_HTTPServer s);
     ret (case err of Some e \<Rightarrow> Some e | None \<Rightarrow> None) })"
definition match_http_Stop :: "'v echo \<Rightarrow> 'w match_svc http_Server \<Rightarrow> duration \<Rightarrow> ('v, go_error option) state" where
  "match_http_Stop ec s ctx = httpserver_Stop ec (sv_HTTPServer s) ctx"

definition question_http_New :: "httpserver_Server \<Rightarrow> 'w question_svc \<Rightarrow> 'w question_svc http_Server" where
  "question_http_New server handler = \<lparr>sv_HTTPServer = server, sv_Handler = handler\<rparr>"
definition question_http_Serve :: "'v echo \<Rightarrow> 'w question_svc http_Server \<Rightarrow> ('v, go_error option) state" where
  "question_http_Serve ec s = (let s = register question_RegisterRoutes s in do {
     err \<leftarrow> httpserver_Start ec (sv_HTTPServer s);
     ret (case err of Some e \<Rightarrow> Some e | None \<Rightarrow> None) })"
definition question_http_Stop :: "'v echo \<Rightarrow> 'w question_svc http_Server \<Rightarrow> duration \<Rightarrow> ('v, go_error option) state" where
  "question_http_Stop ec s ctx = httpserver_Stop ec (sv_HTTPServer s) ctx"

definition game_http_New :: "httpserver_Server \<Rightarrow> 'w game_service \<Rightarrow> 'w game_service http_Server" where
  "game_http_New server handler = \<lparr>sv_HTTPServer = server, sv_Handler = handler\<rparr>"
definition game_http_Serve :: "'v echo \<Rightarrow> 'w game_service http_Server \<Rightarrow> ('v, go_error option) state" where
  "game_http_Serve ec s = (let s = register game_RegisterRoutes s in do {
     err \<leftarrow> httpserver_Start ec (sv_HTTPServer s);
     ret (case err of Some e \<Rightarrow> Some e | None \<Rightarrow> None) })"
definition game_http_Stop :: "'v echo \<Rightarrow> 'w game_service http_Server \<Rightarrow> duration \<Rightarrow> ('v, go_error option) state" where
  "game_http_Stop ec s ctx = httpserver_Stop ec (sv_HTTPServer s) ctx"

section \<open>gRPC servers\<close>

record rpc_Config =
  gc_Port :: int
  gc_NetworkType :: string
  gc_ShutDownCtxTimeout :: duration

text \<open>The services that are registered with the server of the library.\<close>

record RPCServer =
  rp_Config :: rpc_Config
  rp_Server :: "string list"

record ('w, 'l) rpc_lib =
  rl_Listen :: "string \<Rightarrow> string \<Rightarrow> ('w, go_error + 'l) state"
  rl_Serve :: "string list \<Rightarrow> 'l \<Rightarrow> ('w, go_error option) state"
  rl_GracefulStop :: "('w, unit) state"

definition rpc_New :: "rpc_Config \<Rightarrow> RPCServer" where
  "rpc_New cfg = \<lparr>rp_Config = cfg, rp_Server = []\<rparr>"

definition rpc_Stop :: "('w, 'l) rpc_lib \<Rightarrow> RPCServer \<Rightarrow> ('w, unit) state" where
  "rpc_Stop lib s = rl_GracefulStop lib"

record 's grpc_Server =
  gv_server :: RPCServer
  gv_handler :: 's

definition TokenService :: string where "TokenService = ''auth.TokenService''"

definition RegisterTokenServiceServer :: "RPCServer \<Rightarrow> RPCServer" where
  "RegisterTokenServiceServer s = s\<lparr>rp_Server := rp_Server s @ [TokenService]\<rparr>"

definition auth_grpc_NewServer :: "RPCServer \<Rightarrow> auth_config \<Rightarrow> auth_config grpc_Server" where
  "auth_grpc_NewServer server handler = \<lparr>gv_server = server, gv_handler = handler\<rparr>"

definition rpc_address :: "RPCServer \<Rightarrow> string" where
  "rpc_address s = CHR '':'' # FormatInt (gc_Port (rp_Config s))"

definition auth_grpc_Serve :: "('w, 'l) rpc_lib \<Rightarrow> auth_config grpc_Server \<Rightarrow> ('w, go_error option) state" where
  "auth_grpc_Serve lib s = do {
     r \<leftarrow> rl_Listen lib (gc_NetworkType (rp_Config (gv_server s))) (rpc_address (gv_server s));
     case r of
       Inl err \<Rightarrow> ret (Some err)
     | Inr listener \<Rightarrow> do {
         err \<leftarrow> rl_Serve lib (rp_Server (RegisterTokenServiceServer (gv_server s))) listener;
         ret (case err of Some e \<Rightarrow> Some e | None \<Rightarrow> None) } }"

definition auth_grpc_Stop :: "('w, 'l) rpc_lib \<Rightarrow> auth_config grpc_Server \<Rightarrow> ('w, unit) state" where
  "auth_grpc_Stop lib s = rpc_Stop lib (gv_server s)"

definition user_grpc_New :: "RPCServer \<Rightarrow> 'u user_svc \<Rightarrow> 'u user_svc grpc_Server" where
  "user_grpc_New server handler = \<lparr>gv_server = server, gv_handler = handler\<rparr>"

definition GetCustomer :: "'u user_svc \<Rightarrow> ('w, go_error option) state" where
  "GetCustomer s = ret None"

definition user_grpc_Serve :: "('w, 'l) rpc_lib \<Rightarrow> 'u user_svc grpc_Server \<Rightarrow> ('w, go_error option) state" where
  "user_grpc_Serve lib s = do {
     r \<leftarrow> rl_Listen lib (gc_NetworkType (rp_Config (gv_server s))) (rpc_address (gv_server s));
     case r of
       Inl err \<Rightarrow> ret (Some err)
     | Inr listener \<Rightarrow> do {
         err \<leftarrow> rl_Serve lib (rp_Server (gv_server s)) listener;
         ret (case err of Some e \<Rightarrow> Some e | None \<Rightarrow> None) } }"

definition user_grpc_Stop :: "('w, 'l) rpc_lib \<Rightarrow> 'u user_svc grpc_Server \<Rightarrow> ('w, unit) state" where
  "user_grpc_Stop lib s = rpc_Stop lib (gv_server s)"

text \<open>
  The gRPC server of the auth service serves its token service; that of the user service serves
  nothing, so that none of its methods can be called.
\<close>

lemma grpc_services:
  "run_state (auth_grpc_Serve lib (auth_grpc_NewServer (rpc_New cfg) h)) w =
     (case run_state (rl_Listen lib (gc_NetworkType cfg) (CHR '':'' # FormatInt (gc_Port cfg))) w of
        (Inl err, w') \<Rightarrow> (Some err, w') | (Inr l, w') \<Rightarrow> run_state (rl_Serve lib [TokenService] l) w')"
  "run_state (user_grpc_Serve lib (user_grpc_New (rpc_New cfg) u)) w =
     (case run_state (rl_Listen lib (gc_NetworkType cfg) (CHR '':'' # FormatInt (gc_Port cfg))) w of
        (Inl err, w') \<Rightarrow> (Some err, w') | (Inr l, w') \<Rightarrow> run_state (rl_Serve lib [] l) w')"
  by (auto simp: auth_grpc_Serve_def user_grpc_Serve_def auth_grpc_NewServer_def user_grpc_New_def rpc_New_def rpc_address_def
      RegisterTokenServiceServer_def case_prod_beta bb_run prod_eq_iff split: sum.splits option.splits)

end
