(* ===== verification/Web_Dispatch.thy ===== *)
theory Web_Dispatch
  imports Delivery
begin

text \<open>
  A request to one of the HTTP servers: the router of echo picks the handler of its method and
  path, the handler reads the headers and binds the body, and its answer is a status with a
  body. \<open>answer_typed\<close> is the type of what an endpoint may answer.
\<close>

section \<open>Requests and answers\<close>

text \<open>A header that a request does not have reads as the empty string.\<close>

record http_request =
  rq_Method :: http_method
  rq_Path :: string
  rq_Header :: "string \<Rightarrow> string"
  rq_Body :: string

definition HeaderAuthorization :: string where "HeaderAuthorization = ''Authorization''"
definition X_User_ID :: string where "X_User_ID = ''X-User-ID''"

text \<open>\<open>ctx.Bind\<close> of echo, at the types the handlers use it at.\<close>

record ctx_bind =
  bind_Tokens :: "http_request \<Rightarrow> go_error + TokenData list"
  bind_Validate :: "http_request \<Rightarrow> go_error + ValidateTokenRequest"
  bind_Credentials :: "http_request \<Rightarrow> go_error + Credentials"
  bind_Waiting :: "http_request \<Rightarrow> AddToWaitingListRequest \<Rightarrow> go_error + AddToWaitingListRequest"
  bind_Question :: "http_request \<Rightarrow> go_error + unit"

datatype app_body = HealthBody json | AccessBody AccessTokenResponse | RefreshBody RefreshTokenResponse
  | ValidateBody ValidateTokenResponse | SignUpBody string | LoginBody LoginResponse | ProfileBody ProfileResponse
  | WaitingBody AddToWaitingListResponse | EmptyBody

record app_answer =
  an_Response :: "app_body http_response"
  an_Header :: headers

definition as_body :: "('a \<Rightarrow> app_body) \<Rightarrow> 'a http_response \<Rightarrow> app_body http_response" where
  "as_body f r = \<lparr>http_status = http_status r, http_body = map_json_body f (http_body r)\<rparr>"

definition plain_answer :: "('a \<Rightarrow> app_body) \<Rightarrow> 'a http_response \<Rightarrow> app_answer" where
  "plain_answer f r = \<lparr>an_Response = as_body f r, an_Header = Map.empty\<rparr>"

section \<open>Dispatch\<close>

text \<open>The handler of an endpoint; the other endpoints are not served by this service.\<close>

definition auth_handle :: "'w auth_env \<Rightarrow> auth_config \<Rightarrow> ctx_bind \<Rightarrow> http_request \<Rightarrow> endpoint \<Rightarrow> ('w, app_answer option) state" where
  "auth_handle env cfg bd rq ep = (case ep of
     healthCheck \<Rightarrow> ret (Some (plain_answer HealthBody healthCheck_response))
   | Auth_CreateAccessToken \<Rightarrow> do { r \<leftarrow> CreateAccessToken_handler env cfg (bind_Tokens bd rq); ret (Some (plain_answer AccessBody r)) }
   | Auth_CreateRefreshToken \<Rightarrow> do { r \<leftarrow> CreateRefreshToken_handler env cfg (bind_Tokens bd rq); ret (Some (plain_answer RefreshBody r)) }
   | Auth_ValidateToken \<Rightarrow> do {
       (r, h) \<leftarrow> ValidateToken_handler env cfg (rq_Header rq HeaderAuthorization) (bind_Validate bd rq);
       ret (Some \<lparr>an_Response = as_body ValidateBody r, an_Header = h\<rparr>) }
   | _ \<Rightarrow> ret None)"

definition user_handle :: "'w user_env \<Rightarrow> 'w user_svc \<Rightarrow> ctx_bind \<Rightarrow> http_request \<Rightarrow> endpoint \<Rightarrow> ('w, app_answer option) state" where
  "user_handle env svc bd rq ep = (case ep of
     healthCheck \<Rightarrow> ret (Some (plain_answer HealthBody healthCheck_response))
   | User_SignUp \<Rightarrow> do { r \<leftarrow> SignUp_handler env (usv_repository svc) (bind_Credentials bd rq); ret (Some (plain_answer SignUpBody r)) }
   | User_Login \<Rightarrow> do {
       r \<leftarrow> Login_handler env (usv_repository svc) (usv_grpcClient svc) (bind_Credentials bd rq);
       ret (Some (plain_answer LoginBody r)) }
   | User_Profile \<Rightarrow> do { r \<leftarrow> Profile_handler (usv_repository svc) (rq_Header rq X_User_ID); ret (Some (plain_answer ProfileBody r)) }
   | _ \<Rightarrow> ret None)"

definition match_handle :: "'w match_env \<Rightarrow> 'w match_svc \<Rightarrow> ctx_bind \<Rightarrow> http_request \<Rightarrow> endpoint \<Rightarrow> ('w, app_answer option) state" where
  "match_handle env svc bd rq ep = (case ep of
     healthCheck \<Rightarrow> ret (Some (plain_answer HealthBody healthCheck_response))
   | Match_addToWaitingList \<Rightarrow> do {
       r \<leftarrow> addToWaitingList_handler env (msv_config svc) (msv_repo svc) (rq_Header rq X_User_ID) (bind_Waiting bd rq);
       ret (Some (plain_answer WaitingBody r)) }
   | _ \<Rightarrow> ret None)"

definition question_handle :: "ctx_bind \<Rightarrow> http_request \<Rightarrow> endpoint \<Rightarrow> ('w, app_answer option) state" where
  "question_handle bd rq ep = (case ep of
     healthCheck \<Rightarrow> ret (Some (plain_answer HealthBody healthCheck_response))
   | Question_AddQuestion \<Rightarrow> do { r \<leftarrow> AddQuestion_handler (bind_Question bd rq); ret (Some (plain_answer (\<lambda>_. EmptyBody) r)) }
   | _ \<Rightarrow> ret None)"

definition game_handle :: "'w game_service \<Rightarrow> http_request \<Rightarrow> endpoint \<Rightarrow> ('w game_svc, app_answer option outcome) state" where
  "game_handle svc rq ep = (case ep of
     healthCheck \<Rightarrow> ret (Returned (Some (plain_answer HealthBody healthCheck_response)))
   | Game_ProcessGame \<Rightarrow> obind (ProcessGame_handler svc (rq_Header rq X_User_ID))
       (\<lambda>r. ret (Returned (Some (plain_answer (\<lambda>_. EmptyBody) r))))
   | _ \<Rightarrow> ret (Returned None))"

text \<open>Echo answers a request that has no route itself, which is \<open>None\<close> here.\<close>

definition ServeHTTP :: "httpserver_Server \<Rightarrow> (endpoint \<Rightarrow> ('w, 'a option) state) \<Rightarrow> http_request \<Rightarrow> ('w, 'a option) state" where
  "ServeHTTP s handle rq = (case route (hs_Router s) (rq_Method rq) (rq_Path rq) of None \<Rightarrow> ret None | Some ep \<Rightarrow> handle ep)"

section \<open>What an endpoint may answer\<close>

definition error_text :: "'a json_body \<Rightarrow> string option" where
  "error_text b = (case b of OkBody _ \<Rightarrow> None
     | ErrBody (HTTPMsg m) \<Rightarrow> if hm_error m = hm_message m then Some (hm_message m) else None
     | ErrBody (HTTPText t) \<Rightarrow> None
     | ErrResponseBody e \<Rightarrow> Some (er_message e)
     | TextBody t \<Rightarrow> Some t)"

definition error_replies :: "endpoint \<Rightarrow> (int \<times> string) list" where
  "error_replies ep = (case ep of
     Auth_CreateAccessToken \<Rightarrow> [(400, InvalidBody), (400, InvalidInputErrMsg), (500, SomeThingWentWrong)]
   | Auth_CreateRefreshToken \<Rightarrow> [(400, InvalidBody), (400, InvalidInputErrMsg), (500, SomeThingWentWrong)]
   | Auth_ValidateToken \<Rightarrow> [(400, InvalidInputErrMsg), (401, ''Invalid Token'')]
   | User_SignUp \<Rightarrow> [(400, InvalidUserNameOrPasswordErrMsg), (400, InvalidInputErrMsg), (403, InvalidUserNameOrPasswordErrMsg),
       (400, DuplicateUsername), (500, SomeThingWentWrong)]
   | User_Login \<Rightarrow> [(400, InvalidUserNameOrPasswordErrMsg), (403, InvalidUserNameOrPasswordErrMsg), (500, SomeThingWentWrong)]
   | User_Profile \<Rightarrow> [(400, MessageMissingXUserId), (404, UserNotFoundErrMsg), (500, SomeThingWentWrong)]
   | Match_addToWaitingList \<Rightarrow> [(400, MessageMissingXUserId), (400, InvalidCategory), (400, InvalidInputErrMsg), (500, SomeThingWentWrong)]
   | Question_AddQuestion \<Rightarrow> [(400, InvalidInputErrMsg)]
   | Game_ProcessGame \<Rightarrow> [(400, MessageMissingXUserId), (500, SomeThingWentWrong)]
   | healthCheck \<Rightarrow> [])"

fun body_of :: "endpoint \<Rightarrow> app_body \<Rightarrow> bool" where
  "body_of healthCheck (HealthBody _) = True"
| "body_of Auth_CreateAccessToken (AccessBody _) = True"
| "body_of Auth_CreateRefreshToken (RefreshBody _) = True"
| "body_of Auth_ValidateToken (ValidateBody _) = True"
| "body_of User_SignUp (SignUpBody _) = True"
| "body_of User_Login (LoginBody _) = True"
| "body_of User_Profile (ProfileBody _) = True"
| "body_of Match_addToWaitingList (WaitingBody _) = True"
| "body_of Question_AddQuestion EmptyBody = True"
| "body_of Game_ProcessGame EmptyBody = True"
| "body_of _ _ = False"

text \<open>
  A success has status 200 and the body of its endpoint, but for the token that is invalid
  for want of a header or a body; an error has one of the pairs of status and text of its endpoint.
  Only the validation of tokens sets headers, and with a success only.
\<close>

definition answer_typed :: "endpoint \<Rightarrow> app_answer \<Rightarrow> bool" where
  "answer_typed ep a \<longleftrightarrow> (case http_body (an_Response a) of
     OkBody b \<Rightarrow> body_of ep b \<and> (http_status (an_Response a) = 200 \<or>
       http_status (an_Response a) = 401 \<and> b = ValidateBody invalid_response \<and> an_Header a = Map.empty)
   | e \<Rightarrow> (\<exists>t. error_text e = Some t \<and> (http_status (an_Response a), t) \<in> set (error_replies ep)) \<and> an_Header a = Map.empty) \<and>
   (an_Header a \<noteq> Map.empty \<longrightarrow> ep = Auth_ValidateToken)"

definition reply_typed :: "routes \<Rightarrow> http_request \<Rightarrow> app_answer option \<Rightarrow> bool" where
  "reply_typed rs rq r \<longleftrightarrow> (case route rs (rq_Method rq) (rq_Path rq) of None \<Rightarrow> r = None
     | Some ep \<Rightarrow> \<exists>a. r = Some a \<and> answer_typed ep a)"

lemmas typing_defs = answer_typed_def plain_answer_def as_body_def error_text_def error_replies_def error_JSON_def
  ToHTTPJson_def sentinel_defs

section \<open>Every handler answers at its type\<close>

text \<open>Typing a program by the results it can have.\<close>

definition gives :: "('a \<Rightarrow> bool) \<Rightarrow> ('w, 'a) state \<Rightarrow> bool" where
  "gives P m \<longleftrightarrow> (\<forall>w. P (fst (run_state m w)))"

lemma gives_ret [simp]: "gives P (ret x) \<longleftrightarrow> P x"
  by (simp add: gives_def)

lemma gives_bind: "gives Q m \<Longrightarrow> (\<And>x. Q x \<Longrightarrow> gives P (f x)) \<Longrightarrow> gives P (m \<bind> f)"
  by (simp add: gives_def case_prod_beta)

lemma gives_any: "(\<And>x. gives P (f x)) \<Longrightarrow> gives P (m \<bind> f)"
  by (rule gives_bind [of "\<lambda>_. True"]) (simp_all add: gives_def)

text \<open>Errors that a service hands to a handler: application errors with a status and a text.\<close>

definition err_in :: "(int \<times> string) list \<Rightarrow> go_error \<Rightarrow> bool" where
  "err_in es e \<longleftrightarrow> (\<exists>x. e = AppErr x \<and> (HTTPStatus x, AppError.Message x) \<in> set es)"

definition result_in :: "(int \<times> string) list \<Rightarrow> go_error + 'a \<Rightarrow> bool" where
  "result_in es r \<longleftrightarrow> (case r of Inl e \<Rightarrow> err_in es e | Inr _ \<Rightarrow> True)"

lemma result_in_simps [simp]: "result_in es (Inr x)" "result_in es (Inl e) = err_in es e"
  by (simp_all add: result_in_def)

lemma err_in_Wrap [simp]: "err_in es (AppErr x) \<longleftrightarrow> (HTTPStatus x, AppError.Message x) \<in> set es"
  by (simp add: err_in_def)

lemma CreateAccessToken_gives: "gives (result_in [(400, InvalidInputErrMsg), (500, SomeThingWentWrong)]) (CreateAccessToken env cfg data)"
  by (auto simp: CreateAccessToken_def Let_def sentinel_defs intro!: gives_any split: option.split sum.split)

lemma CreateRefreshToken_gives: "gives (result_in [(400, InvalidInputErrMsg), (500, SomeThingWentWrong)]) (CreateRefreshToken env cfg data)"
  by (auto simp: CreateRefreshToken_def Let_def sentinel_defs intro!: gives_any split: option.split sum.split)

lemma ValidateToken_gives: "gives (result_in [(400, InvalidInputErrMsg), (401, ''Invalid Token'')]) (ValidateToken env cfg req)"
  by (auto simp: ValidateToken_def Let_def sentinel_defs intro!: gives_any split: option.split sum.split)

lemma SignUp_gives: "gives (result_in [(400, InvalidInputErrMsg), (403, InvalidUserNameOrPasswordErrMsg), (400, DuplicateUsername),
    (500, SomeThingWentWrong)]) (SignUp env repo req)"
  by (auto simp: SignUp_def Let_def sentinel_defs intro!: gives_any split: sum.split)

lemma Login_gives: "gives (result_in [(403, InvalidUserNameOrPasswordErrMsg), (500, SomeThingWentWrong)]) (Login env repo tc req)"
  by (auto simp: Login_def Let_def sentinel_defs case_prod_beta intro!: gives_any split: sum.split option.split)

lemma Profile_gives: "gives (result_in [(404, UserNotFoundErrMsg), (500, SomeThingWentWrong)]) (Profile repo uid)"
  by (auto simp: Profile_def Let_def sentinel_defs intro!: gives_any split: sum.split)

lemma AddToWaitingList_gives: "gives (result_in [(400, InvalidInputErrMsg), (500, SomeThingWentWrong)]) (AddToWaitingList env cfg repo req)"
  by (auto simp: AddToWaitingList_def Let_def sentinel_defs intro!: gives_any split: option.split)

definition only_error :: "go_error \<Rightarrow> go_error option outcome \<Rightarrow> bool" where
  "only_error e r \<longleftrightarrow> (case r of Returned (Some x) \<Rightarrow> x = e | _ \<Rightarrow> True)"

lemma only_error_simps [simp]: "only_error e (Returned None)" "only_error e (Returned (Some x)) \<longleftrightarrow> x = e" "only_error e (Panicked p)"
  by (simp_all add: only_error_def)

lemma gives_otry: "gives (only_error e) m \<Longrightarrow> gives (only_error e) f \<Longrightarrow> gives (only_error e) (otry m f)"
  unfolding otry_def obind_def by (intro gives_bind [of "only_error e"]) (auto split: outcome.split option.split)

lemma gives_obind: "(\<And>x. gives (only_error e) (f x)) \<Longrightarrow> gives (only_error e) (obind m f)"
  unfolding obind_def by (intro gives_any) (auto split: outcome.split)

lemma ProcessGame_gives: "gives (only_error ErrProcessGame) (ProcessGame svc uid)"
  by (auto simp: ProcessGame_def Let_def case_prod_beta intro!: gives_any gives_otry gives_obind split: sum.split option.split)

text \<open>A handler turns such an error into an answer of its endpoint.\<close>

lemma typed_error:
  assumes "err_in es e" and "set es \<subseteq> set (error_replies ep)"
  shows "answer_typed ep (plain_answer f (error_JSON e))"
  using assms by (auto simp: err_in_def answer_typed_def plain_answer_def as_body_def error_text_def error_JSON_def ToHTTPJson_def)

lemma typed_refusal: "(n, er_message e) \<in> set (error_replies ep) \<Longrightarrow> answer_typed ep (plain_answer f (ctx_JSON n (ErrResponseBody e)))"
  by (simp add: answer_typed_def plain_answer_def as_body_def error_text_def)

lemma typed_text: "(n, t) \<in> set (error_replies ep) \<Longrightarrow> answer_typed ep (plain_answer f (ctx_JSON n (TextBody t)))"
  by (simp add: answer_typed_def plain_answer_def as_body_def error_text_def)

lemma typed_success: "body_of ep (f x) \<Longrightarrow> answer_typed ep (plain_answer f (ctx_JSON 200 (OkBody x)))"
  by (simp add: answer_typed_def plain_answer_def as_body_def)

lemmas typed_intros = typed_success typed_refusal typed_text typed_error
lemma CreateAccessToken_typed: "gives (\<lambda>r. answer_typed Auth_CreateAccessToken (plain_answer AccessBody r)) (CreateAccessToken_handler env cfg b)"
  by (auto simp: CreateAccessToken_handler_def error_replies_def ErrorResponse_message_def intro!: typed_success typed_refusal typed_text
      gives_bind [OF CreateAccessToken_gives] elim!: typed_error split: sum.split)

lemma CreateRefreshToken_typed: "gives (\<lambda>r. answer_typed Auth_CreateRefreshToken (plain_answer RefreshBody r)) (CreateRefreshToken_handler env cfg b)"
  by (auto simp: CreateRefreshToken_handler_def error_replies_def ErrorResponse_message_def intro!: typed_success typed_refusal typed_text
      gives_bind [OF CreateRefreshToken_gives] elim!: typed_error split: sum.split)

lemma SignUp_typed: "gives (\<lambda>r. answer_typed User_SignUp (plain_answer SignUpBody r)) (SignUp_handler env repo b)"
  by (auto simp: SignUp_handler_def error_replies_def ErrorResponse_message_def intro!: typed_success typed_refusal typed_text
      gives_bind [OF SignUp_gives] elim!: typed_error split: sum.split)

lemma Login_typed: "gives (\<lambda>r. answer_typed User_Login (plain_answer LoginBody r)) (Login_handler env repo tc b)"
  by (auto simp: Login_handler_def error_replies_def ErrorResponse_message_def intro!: typed_success typed_refusal typed_text
      gives_bind [OF Login_gives] elim!: typed_error split: sum.split)

lemma Profile_typed: "gives (\<lambda>r. answer_typed User_Profile (plain_answer ProfileBody r)) (Profile_handler repo uid)"
  by (auto simp: Profile_handler_def error_replies_def ErrorResponse_message_def intro!: typed_success typed_refusal typed_text
      gives_bind [OF Profile_gives] elim!: typed_error split: sum.split)

lemma addToWaitingList_typed: "gives (\<lambda>r. answer_typed Match_addToWaitingList (plain_answer WaitingBody r)) (addToWaitingList_handler env cfg repo uid b)"
  by (auto simp: addToWaitingList_handler_def error_replies_def ErrorResponse_message_def intro!: typed_success typed_refusal typed_text
      gives_bind [OF AddToWaitingList_gives] elim!: typed_error split: sum.split)

lemma AddQuestion_typed: "gives (\<lambda>r. answer_typed Question_AddQuestion (plain_answer (\<lambda>_. EmptyBody) r)) (AddQuestion_handler b)"
  by (auto simp: AddQuestion_handler_def AddQuestion_def error_replies_def ErrorResponse_message_def gives_def intro!: typed_success typed_refusal
      split: sum.split)

lemma ValidateToken_typed:
  "gives (\<lambda>(r, h). answer_typed Auth_ValidateToken \<lparr>an_Response = as_body ValidateBody r, an_Header = h\<rparr>) (ValidateToken_handler env cfg auth b)"
proof -
  have "answer_typed Auth_ValidateToken \<lparr>an_Response = as_body ValidateBody (error_JSON e), an_Header = Map.empty\<rparr>"
    if "err_in [(400, InvalidInputErrMsg), (401, ''Invalid Token'')] e" for e
    using typed_error [OF that, of Auth_ValidateToken ValidateBody] by (simp add: plain_answer_def error_replies_def)
  then show ?thesis
    by (auto simp: ValidateToken_handler_def answer_typed_def as_body_def intro!: gives_bind [OF ValidateToken_gives] split: sum.split)
qed

lemma health_typed: "answer_typed healthCheck (plain_answer HealthBody healthCheck_response)"
  by (simp add: healthCheck_response_def typed_success)

lemma find_in_set: "find P xs = Some x \<Longrightarrow> x \<in> set xs"
  by (induction xs) (auto split: if_splits)

text \<open>The endpoint of a request is one of those that its server has registered.\<close>

lemma routed: "route rs m p = Some ep \<Longrightarrow> ep \<in> (\<lambda>(m, p, h). h) ` set rs"
  unfolding route_def by (auto simp: image_iff split_def) (force dest: find_in_set)

lemma ServeHTTP_typed:
  assumes "hs_Router s = rs" and "\<And>ep. ep \<in> (\<lambda>(m, p, h). h) ` set rs \<Longrightarrow> gives (\<lambda>r. \<exists>a. r = Some a \<and> answer_typed ep a) (handle ep)"
  shows "reply_typed rs rq (fst (run_state (ServeHTTP s handle rq) w))"
  using assms routed [of rs "rq_Method rq" "rq_Path rq"]
  by (auto simp: reply_typed_def ServeHTTP_def gives_def bb_run split: option.split)

lemma auth_handle_typed:
  "ep \<in> (\<lambda>(m, p, h). h) ` set auth_RegisterRoutes \<Longrightarrow> gives (\<lambda>r. \<exists>a. r = Some a \<and> answer_typed ep a) (auth_handle env cfg bd rq ep)"
  by (auto simp: auth_RegisterRoutes_def Group_def auth_handle_def health_typed
      intro!: gives_bind [OF CreateAccessToken_typed] gives_bind [OF CreateRefreshToken_typed] gives_bind [OF ValidateToken_typed])

lemma user_handle_typed:
  "ep \<in> (\<lambda>(m, p, h). h) ` set user_RegisterRoutes \<Longrightarrow> gives (\<lambda>r. \<exists>a. r = Some a \<and> answer_typed ep a) (user_handle env svc bd rq ep)"
  by (auto simp: user_RegisterRoutes_def Group_def user_handle_def health_typed
      intro!: gives_bind [OF SignUp_typed] gives_bind [OF Login_typed] gives_bind [OF Profile_typed])

lemma match_handle_typed:
  "ep \<in> (\<lambda>(m, p, h). h) ` set match_RegisterRoutes \<Longrightarrow> gives (\<lambda>r. \<exists>a. r = Some a \<and> answer_typed ep a) (match_handle env svc bd rq ep)"
  by (auto simp: match_RegisterRoutes_def Group_def match_handle_def health_typed intro!: gives_bind [OF addToWaitingList_typed])

lemma question_handle_typed:
  "ep \<in> (\<lambda>(m, p, h). h) ` set question_RegisterRoutes \<Longrightarrow> gives (\<lambda>r. \<exists>a. r = Some a \<and> answer_typed ep a) (question_handle bd rq ep)"
  by (auto simp: question_RegisterRoutes_def Group_def question_handle_def health_typed intro!: gives_bind [OF AddQuestion_typed])

lemma ProcessGame_handler_typed:
  "gives (\<lambda>r. case r of Returned x \<Rightarrow> answer_typed Game_ProcessGame (plain_answer (\<lambda>_. EmptyBody) x) | Panicked _ \<Rightarrow> True) (ProcessGame_handler svc uid)"
proof -
  have "answer_typed Game_ProcessGame (plain_answer (\<lambda>_. EmptyBody) (error_JSON ErrProcessGame :: unit http_response))"
    by (rule typed_error [of "[(500, SomeThingWentWrong)]"]) (simp_all add: ErrProcessGame_def sentinel_defs error_replies_def)
  then show ?thesis
    unfolding ProcessGame_handler_def obind_def
    by (auto simp: error_replies_def intro!: typed_success typed_text gives_bind [OF ProcessGame_gives] split: outcome.split option.split)
qed

lemma game_handle_typed:
  "ep \<in> (\<lambda>(m, p, h). h) ` set game_RegisterRoutes \<Longrightarrow>
    gives (\<lambda>r. case r of Returned x \<Rightarrow> \<exists>a. x = Some a \<and> answer_typed ep a | Panicked _ \<Rightarrow> True) (game_handle svc rq ep)"
  by (auto simp: game_RegisterRoutes_def Group_def game_handle_def health_typed obind_def
      intro!: gives_bind [OF ProcessGame_handler_typed] split: outcome.split)

text \<open>The game service has an outcome around its answer.\<close>

definition game_ServeHTTP :: "httpserver_Server \<Rightarrow> 'w game_service \<Rightarrow> http_request \<Rightarrow> ('w game_svc, app_answer option outcome) state" where
  "game_ServeHTTP s svc rq = (case route (hs_Router s) (rq_Method rq) (rq_Path rq) of
     None \<Rightarrow> ret (Returned None) | Some ep \<Rightarrow> game_handle svc rq ep)"

lemma game_ServeHTTP_typed:
  assumes "hs_Router s = game_RegisterRoutes"
  shows "case fst (run_state (game_ServeHTTP s svc rq) w) of Returned r \<Rightarrow> reply_typed game_RegisterRoutes rq r | Panicked _ \<Rightarrow> True"
  using game_handle_typed [OF routed [of game_RegisterRoutes "rq_Method rq" "rq_Path rq"], of _ svc rq]
  by (auto simp: assms reply_typed_def game_ServeHTTP_def gives_def bb_run split: option.split outcome.splits)

text \<open>
  C9. Every answer of every service is typed: a request that has a route gets the success body of its
  endpoint, or an error whose status and text are among the few that the endpoint declares, so that no
  text of a database or a library reaches a client; and headers are set by the validation of tokens only.
\<close>

theorem responses_typed:
  "reply_typed auth_RegisterRoutes rq (fst (run_state (ServeHTTP (sv_HTTPServer (register auth_RegisterRoutes
     (auth_http_New (httpserver_New cfg) acfg))) (auth_handle aenv acfg bd rq) rq) w1)) \<and>
   reply_typed user_RegisterRoutes rq (fst (run_state (ServeHTTP (sv_HTTPServer (register user_RegisterRoutes
     (user_http_New (httpserver_New cfg) usvc))) (user_handle uenv usvc bd rq) rq) w2)) \<and>
   reply_typed match_RegisterRoutes rq (fst (run_state (ServeHTTP (sv_HTTPServer (register match_RegisterRoutes
     (match_http_New (httpserver_New cfg) msvc))) (match_handle menv msvc bd rq) rq) w3)) \<and>
   reply_typed question_RegisterRoutes rq (fst (run_state (ServeHTTP (sv_HTTPServer (register question_RegisterRoutes
     (question_http_New (httpserver_New cfg) qsvc))) (question_handle bd rq) rq) w4)) \<and>
   (case fst (run_state (game_ServeHTTP (sv_HTTPServer (register game_RegisterRoutes
       (game_http_New (httpserver_New cfg) gsvc))) gsvc rq) w5) of
      Returned r \<Rightarrow> reply_typed game_RegisterRoutes rq r | Panicked _ \<Rightarrow> True)"
proof -
  have routers: "hs_Router (sv_HTTPServer (register rs \<lparr>sv_HTTPServer = httpserver_New cfg, sv_Handler = h\<rparr>)) = rs" for rs h
    by (simp add: register_def httpserver_New_def)
  show ?thesis
    unfolding auth_http_New_def user_http_New_def match_http_New_def question_http_New_def game_http_New_def
    by (intro conjI ServeHTTP_typed game_ServeHTTP_typed routers auth_handle_typed user_handle_typed match_handle_typed question_handle_typed)
qed

end
