(* ===== verification/Account_Flow.thy ===== *)
theory Account_Flow
  imports User_Properties Web_Dispatch
begin

text \<open>
  An account over HTTP: the requests of a client to the user service, with the validation of
  its token by the auth service in between, from signing up to the profile.
\<close>

definition user_server :: "httpserver_Config \<Rightarrow> 'w user_svc \<Rightarrow> httpserver_Server" where
  "user_server cfg svc = sv_HTTPServer (register user_RegisterRoutes (user_http_New (httpserver_New cfg) svc))"

definition auth_server :: "httpserver_Config \<Rightarrow> auth_config \<Rightarrow> httpserver_Server" where
  "auth_server cfg svc = sv_HTTPServer (register auth_RegisterRoutes (auth_http_New (httpserver_New cfg) svc))"

lemma routers: "hs_Router (user_server cfg u) = user_RegisterRoutes" "hs_Router (auth_server cfg a) = auth_RegisterRoutes"
  by (simp_all add: user_server_def auth_server_def register_def httpserver_New_def user_http_New_def auth_http_New_def)

lemma account_routes:
  "route user_RegisterRoutes POST ''/public/api/v1/signup'' = Some User_SignUp"
  "route user_RegisterRoutes POST ''/public/api/v1/login'' = Some User_Login"
  "route user_RegisterRoutes GET ''/api/v1/profile'' = Some User_Profile"
  "route auth_RegisterRoutes GET ''/api/v1/validate-token'' = Some Auth_ValidateToken"
  by (simp_all add: route_def route_defs)

text \<open>A request of a method to a path.\<close>

definition asks :: "http_request \<Rightarrow> http_method \<Rightarrow> string \<Rightarrow> bool" where
  "asks rq m p \<longleftrightarrow> rq_Method rq = m \<and> rq_Path rq = p"

definition ok_with :: "app_body \<Rightarrow> app_answer option" where
  "ok_with b = Some \<lparr>an_Response = ctx_JSON 200 (OkBody b), an_Header = Map.empty\<rparr>"

lemma plain_ok: "Some (plain_answer f (ctx_JSON 200 (OkBody x))) = ok_with (f x)"
  by (simp add: plain_answer_def ok_with_def as_body_def ctx_JSON_def)

lemma headers_of_claims:
  assumes "set ad \<subseteq> {\<lparr>tr_Key = ''id'', tr_Value = i\<rparr>, \<lparr>tr_Key = ''role'', tr_Value = r\<rparr>}"
  shows "foldl set_header h ad ''X-User-ID'' = (if \<lparr>tr_Key = ''id'', tr_Value = i\<rparr> \<in> set ad then Some i else h ''X-User-ID'')"
    "foldl set_header h ad ''X-User-Role'' = (if \<lparr>tr_Key = ''role'', tr_Value = r\<rparr> \<in> set ad then Some r else h ''X-User-Role'')"
  using assms by (induction ad arbitrary: h) (auto simp: set_header_at)

text \<open>The validation endpoint on a token that the service accepts.\<close>

lemma validate_headers:
  assumes "fst (run_state (ValidateToken env cfg \<lparr>vt_Token = tok, vt_Data = []\<rparr>) w) = Inr \<lparr>vt_Valid = True, vt_AdditionalData = ad\<rparr>"
    and "set ad = {\<lparr>tr_Key = ''id'', tr_Value = i\<rparr>, \<lparr>tr_Key = ''role'', tr_Value = r\<rparr>}" and "tok \<noteq> []"
  shows "\<exists>h w'. run_state (ValidateToken_handler env cfg tok (Inr \<lparr>vt_Token = t, vt_Data = []\<rparr>)) w =
      ((ctx_JSON 200 (OkBody \<lparr>vt_Valid = True, vt_AdditionalData = ad\<rparr>), h), w') \<and>
    h ''X-User-ID'' = Some i \<and> h ''X-User-Role'' = Some r"
proof -
  obtain w' where "run_state (ValidateToken env cfg \<lparr>vt_Token = tok, vt_Data = []\<rparr>) w = (Inr \<lparr>vt_Valid = True, vt_AdditionalData = ad\<rparr>, w')"
    using assms(1) by (metis prod.collapse)
  then show ?thesis
    using assms(2,3) headers_of_claims [of ad i r Map.empty]
    by (auto simp: ValidateToken_handler_def Let_def bb_run split: sum.split)
qed

lemma no_empty_token:
  assumes "auth_env_ok env" and "fst (run_state (ValidateToken env cfg \<lparr>vt_Token = tok, vt_Data = []\<rparr>) w) = Inr r"
  shows "tok \<noteq> []"
  using assms(2) validators_accept(3) [OF auth_env_okD(2) [OF assms(1)], of "\<lparr>vt_Token = tok, vt_Data = []\<rparr>"]
  by (auto simp: ValidateToken_def split: option.splits)

text \<open>
  C6. An account over HTTP: a new user signs up and logs in with two requests, each answered 200; the access
  token of the answer, sent as the header Authorization to the validation endpoint that the gateway asks, makes it answer
  200 and set the header X-User-ID to the id of the account; and a request for the profile with
  that header shows the name and the role with which the user has signed up.
\<close>

theorem account_over_http:
  assumes ready: "accounts_ready env db tbl cc aenv acfg w"
    and valid: "IsValid e" "ascii e" "length e \<le> 100" and pw: "pw \<noteq> []" "length pw \<le> 72"
    and fresh: "pg_view tbl w e = None"
    and clock: "fst (run_state (ae_Now aenv) w') < AccessTokenExpireTime acfg * nanosecond_per_second"
      "fst (run_state (ae_Now aenv) w') < RefreshTokenExpireTime acfg * nanosecond_per_second"
    and svc: "svc = uap_HTTPServer (user_Setup (ue_Now env) db cc)"
    and rq: "asks rq1 POST ''/public/api/v1/signup''" "asks rq2 POST ''/public/api/v1/login''"
      "bind_Credentials bd rq1 = Inr \<lparr>cr_Email = e, cr_Password = pw\<rparr>" "bind_Credentials bd rq2 = Inr \<lparr>cr_Email = e, cr_Password = pw\<rparr>"
  shows "\<exists>w1 w2 uid a r v.
    run_state (ServeHTTP (user_server cfg svc) (user_handle env svc bd rq1) rq1) w = (ok_with (SignUpBody (getDisplayName e)), w1) \<and>
    run_state (ServeHTTP (user_server cfg svc) (user_handle env svc bd rq2) rq2) w1 =
      (ok_with (LoginBody \<lparr>lr_ID = FormatInt uid, lr_AccessToken = a, lr_RefreshToken = r\<rparr>), w2) \<and>
    (\<forall>rq3 t. asks rq3 GET ''/api/v1/validate-token'' \<and> rq_Header rq3 HeaderAuthorization = a \<and>
        bind_Validate bd rq3 = Inr \<lparr>vt_Token = t, vt_Data = []\<rparr> \<longrightarrow>
      (\<exists>an. fst (run_state (ServeHTTP (auth_server acf acfg) (auth_handle aenv acfg bd rq3) rq3) w') = Some an \<and>
        http_status (an_Response an) = 200 \<and> an_Header an X_User_ID = Some (FormatInt uid))) \<and>
    (\<forall>rq4. asks rq4 GET ''/api/v1/profile'' \<and> rq_Header rq4 X_User_ID = FormatInt uid \<longrightarrow>
      fst (run_state (ServeHTTP (user_server cfg svc) (user_handle env svc bd rq4) rq4) w2) =
        ok_with (ProfileBody \<lparr>pr_ID = FormatInt uid, pr_Username = e, pr_DisplayName = getDisplayName e, pr_Role = ''user'',
          pr_CreatedAt = us_CreatedAt v, pr_UpdatedAt = us_UpdatedAt v\<rparr>)) \<and> pg_view tbl w2 e = Some v"
proof -
  have repo: "usv_repository svc = UserRepository (ue_Now env) db" "usv_grpcClient svc = TokenClient cc"
    by (simp_all add: svc user_Setup_def constructor_defs Let_def)
  obtain w1 w2 uid a r v where up: "run_state (SignUp_handler env (UserRepository (ue_Now env) db) (Inr \<lparr>cr_Email = e, cr_Password = pw\<rparr>)) w =
      (ctx_JSON 200 (OkBody (getDisplayName e)), w1)"
    and login: "run_state (Login_handler env (UserRepository (ue_Now env) db) (TokenClient cc) (Inr \<lparr>cr_Email = e, cr_Password = pw\<rparr>)) w1 =
      (ctx_JSON 200 (OkBody \<lparr>lr_ID = FormatInt uid, lr_AccessToken = a, lr_RefreshToken = r\<rparr>), w2)"
    and toks: "\<forall>tok \<in> {a, r}. \<exists>ad. fst (run_state (ValidateToken aenv acfg \<lparr>vt_Token = tok, vt_Data = []\<rparr>) w') =
       Inr \<lparr>vt_Valid = True, vt_AdditionalData = ad\<rparr> \<and>
       set ad = {\<lparr>tr_Key = ''id'', tr_Value = FormatInt uid\<rparr>, \<lparr>tr_Key = ''role'', tr_Value = ''user''\<rparr>}"
    and pg: "pg_ok (ue_Now env) db tbl w2" "pg_view tbl w2 e = Some v"
    and v: "us_ID v = uid" "us_Username v = e" "us_DisplayName v = getDisplayName e" "us_Role v = UserRole"
    using sign_up_login_account [OF ready valid pw fresh clock] by blast
  obtain ad where ad: "fst (run_state (ValidateToken aenv acfg \<lparr>vt_Token = a, vt_Data = []\<rparr>) w') = Inr \<lparr>vt_Valid = True, vt_AdditionalData = ad\<rparr>"
      "set ad = {\<lparr>tr_Key = ''id'', tr_Value = FormatInt uid\<rparr>, \<lparr>tr_Key = ''role'', tr_Value = ''user''\<rparr>}"
    using toks by blast
  have env_ok: "auth_env_ok aenv" using ready by (simp add: accounts_ready_def services_up_def auth_up_def)
  have token: "\<exists>an. fst (run_state (ServeHTTP (auth_server acf acfg) (auth_handle aenv acfg bd rq3) rq3) w') = Some an \<and>
        http_status (an_Response an) = 200 \<and> an_Header an X_User_ID = Some (FormatInt uid)"
    if rq3: "asks rq3 GET ''/api/v1/validate-token''" "rq_Header rq3 HeaderAuthorization = a"
      "bind_Validate bd rq3 = Inr \<lparr>vt_Token = t, vt_Data = []\<rparr>" for rq3 t
    using validate_headers [OF ad no_empty_token [OF env_ok ad(1)], of t] rq3
    by (auto simp: ServeHTTP_def routers asks_def account_routes auth_handle_def X_User_ID_def as_body_def bb_run)
  have profile: "fst (run_state (ServeHTTP (user_server cfg svc) (user_handle env svc bd rq4) rq4) w2) =
        ok_with (ProfileBody \<lparr>pr_ID = FormatInt uid, pr_Username = e, pr_DisplayName = getDisplayName e, pr_Role = ''user'',
          pr_CreatedAt = us_CreatedAt v, pr_UpdatedAt = us_UpdatedAt v\<rparr>)"
    if "asks rq4 GET ''/api/v1/profile''" "rq_Header rq4 X_User_ID = FormatInt uid" for rq4
    using pg_users.profile_known [OF pg] that v plain_ok [of ProfileBody]
    by (auto simp: ServeHTTP_def routers asks_def account_routes user_handle_def repo bb_run Role_String_def role_defs)
  have "run_state (ServeHTTP (user_server cfg svc) (user_handle env svc bd rq1) rq1) w = (ok_with (SignUpBody (getDisplayName e)), w1)"
    using rq up plain_ok [of SignUpBody] by (simp add: ServeHTTP_def routers asks_def account_routes user_handle_def repo bb_run)
  moreover have "run_state (ServeHTTP (user_server cfg svc) (user_handle env svc bd rq2) rq2) w1 =
      (ok_with (LoginBody \<lparr>lr_ID = FormatInt uid, lr_AccessToken = a, lr_RefreshToken = r\<rparr>), w2)"
    using rq login plain_ok [of LoginBody] by (simp add: ServeHTTP_def routers asks_def account_routes user_handle_def repo bb_run)
  moreover have "\<forall>rq3 t. asks rq3 GET ''/api/v1/validate-token'' \<and> rq_Header rq3 HeaderAuthorization = a \<and>
      bind_Validate bd rq3 = Inr \<lparr>vt_Token = t, vt_Data = []\<rparr> \<longrightarrow>
      (\<exists>an. fst (run_state (ServeHTTP (auth_server acf acfg) (auth_handle aenv acfg bd rq3) rq3) w') = Some an \<and>
        http_status (an_Response an) = 200 \<and> an_Header an X_User_ID = Some (FormatInt uid))"
    using token by blast
  ultimately show ?thesis using profile pg(2)
    by (intro exI [of _ w1] exI [of _ w2] exI [of _ uid] exI [of _ a] exI [of _ r] exI [of _ v] conjI) simp_all
qed

section \<open>A concrete client\<close>

definition ref_bind :: ctx_bind where
  "ref_bind = \<lparr>bind_Tokens = (\<lambda>_. Inr []), bind_Validate = (\<lambda>_. Inr \<lparr>vt_Token = [], vt_Data = []\<rparr>),
     bind_Credentials = (\<lambda>rq. case Split (rq_Body rq) (CHR '' '') of [e, p] \<Rightarrow> Inr \<lparr>cr_Email = e, cr_Password = p\<rparr>
       | _ \<Rightarrow> Inl (PlainErr ''body'')),
     bind_Waiting = (\<lambda>_ req. Inr req), bind_Question = (\<lambda>_. Inr ())\<rparr>"

definition ref_post :: "string \<Rightarrow> http_request" where
  "ref_post path = \<lparr>rq_Method = POST, rq_Path = path, rq_Header = (\<lambda>_. []), rq_Body = ''alice@x.org pw''\<rparr>"

lemma ref_post_asks: "asks (ref_post p) POST p"
  by (simp add: asks_def ref_post_def)

lemma ref_post_credentials: "bind_Credentials ref_bind (ref_post p) = Inr \<lparr>cr_Email = ''alice@x.org'', cr_Password = ''pw''\<rparr>"
  by (simp add: ref_bind_def ref_post_def)

lemma account_over_http_witness:
  "\<exists>w1 w2 uid a r. run_state (ServeHTTP (user_server \<lparr>hc_Port = 8080, hc_AllowOrigins = [], hc_ShutDownCtxTimeout = 0\<rparr>
        (uap_HTTPServer (user_Setup (ue_Now ref_user_env) ref_pg ref_cc)))
      (user_handle ref_user_env (uap_HTTPServer (user_Setup (ue_Now ref_user_env) ref_pg ref_cc)) ref_bind (ref_post ''/public/api/v1/signup''))
      (ref_post ''/public/api/v1/signup'')) [] = (ok_with (SignUpBody ''alice''), w1) \<and>
    run_state (ServeHTTP (user_server \<lparr>hc_Port = 8080, hc_AllowOrigins = [], hc_ShutDownCtxTimeout = 0\<rparr>
        (uap_HTTPServer (user_Setup (ue_Now ref_user_env) ref_pg ref_cc)))
      (user_handle ref_user_env (uap_HTTPServer (user_Setup (ue_Now ref_user_env) ref_pg ref_cc)) ref_bind (ref_post ''/public/api/v1/login''))
      (ref_post ''/public/api/v1/login'')) w1 = (ok_with (LoginBody \<lparr>lr_ID = FormatInt uid, lr_AccessToken = a, lr_RefreshToken = r\<rparr>), w2)"
proof -
  have name: "getDisplayName ''alice@x.org'' = ''alice''" by (simp add: getDisplayName_def)
  have valid: "IsValid ''alice@x.org''" "ascii ''alice@x.org''" "length ''alice@x.org'' \<le> 100" "''pw'' \<noteq> []" "length ''pw'' \<le> 72"
    using ref_alice_valid by simp_all
  have fresh: "pg_view map_of ([] :: table) ''alice@x.org'' = None" by (simp add: pg_view_def)
  have clock: "fst (run_state (ae_Now (ref_auth_env ref_2023)) ([] :: table)) < AccessTokenExpireTime ref_auth_cfg * nanosecond_per_second"
      "fst (run_state (ae_Now (ref_auth_env ref_2023)) ([] :: table)) < RefreshTokenExpireTime ref_auth_cfg * nanosecond_per_second"
    by (simp_all add: ref_auth_env_def ref_Now_frozen_def ref_auth_cfg_def ref_2023_def)
  note flow = account_over_http [OF ref_accounts_ready [OF ref_unique(2)] valid fresh clock refl ref_post_asks ref_post_asks
      ref_post_credentials ref_post_credentials]
  show ?thesis
    using flow [where cfg = "\<lparr>hc_Port = 8080, hc_AllowOrigins = [], hc_ShutDownCtxTimeout = 0\<rparr>"
      and acf = "\<lparr>hc_Port = 8081, hc_AllowOrigins = [], hc_ShutDownCtxTimeout = 0\<rparr>"] unfolding name by fast
qed

end
