(* ===== verification/Infrastructure.thy ===== *)
theory Infrastructure
  imports Entry_Points Go_Json
begin

text \<open>
  What is left of \<open>pkg\<close> and \<open>adapter\<close>: the methods of the logger (\<open>pkg/logger\<close>), the small functions
  on open databases (\<open>pkg/postgresql/db.go\<close>, \<open>pkg/mongo/db.go\<close>), the client of Redis
  (\<open>adapter/redis\<close>), error responses (\<open>pkg/err_msg\<close>) and the decoder of a JSON request (\<open>pkg/json\<close>).
\<close>

section \<open>Logger\<close>

text \<open>
  A logger of the package slog is known by the file it writes to, as in \<open>logger_Init\<close>; \<open>None\<close> is the nil
  logger, which every call of a method dereferences. A handler whose options name no level drops what is below
  \<open>LevelInfo\<close>.
\<close>

datatype slog_level = LevelDebug | LevelInfo | LevelWarn | LevelError

record 'w slog =
  sl_Write :: "string \<Rightarrow> slog_level \<Rightarrow> string \<Rightarrow> string list \<Rightarrow> ('w, unit) state"

definition slog_Log :: "'w slog \<Rightarrow> string option \<Rightarrow> slog_level \<Rightarrow> string \<Rightarrow> string list \<Rightarrow> ('w, unit outcome) state" where
  "slog_Log sl l level msg args = (case l of
     None \<Rightarrow> ret (Panicked NilDereference)
   | Some file \<Rightarrow> if level = LevelDebug then ret (Returned ())
       else do { sl_Write sl file level msg args; ret (Returned ()) })"

record SlogAdapter =
  la_Logger :: "string option"

definition logger_New :: "string option \<Rightarrow> SlogAdapter" where
  "logger_New globalLogger = \<lparr>la_Logger = globalLogger\<rparr>"

definition logger_Error :: "'w slog \<Rightarrow> SlogAdapter \<Rightarrow> string \<Rightarrow> string list \<Rightarrow> ('w, unit outcome) state" where
  "logger_Error sl l msg keysAndValues = slog_Log sl (la_Logger l) LevelError msg keysAndValues"

definition logger_Info :: "'w slog \<Rightarrow> SlogAdapter \<Rightarrow> string \<Rightarrow> string list \<Rightarrow> ('w, unit outcome) state" where
  "logger_Info sl l msg keysAndValues = slog_Log sl (la_Logger l) LevelInfo msg keysAndValues"

definition logger_Debug :: "'w slog \<Rightarrow> SlogAdapter \<Rightarrow> string \<Rightarrow> string list \<Rightarrow> ('w, unit outcome) state" where
  "logger_Debug sl l msg keysAndValues = slog_Log sl (la_Logger l) LevelDebug msg keysAndValues"

definition logger_Warn :: "'w slog \<Rightarrow> SlogAdapter \<Rightarrow> string \<Rightarrow> string list \<Rightarrow> ('w, unit outcome) state" where
  "logger_Warn sl l msg keysAndValues = slog_Log sl (la_Logger l) LevelWarn msg keysAndValues"

text \<open>
  The logger that a service takes after \<open>Init\<close> never panics, writes to the file below the working directory, and
  a second \<open>Init\<close> changes nothing; one taken before panics at its first message. What \<open>Debug\<close> is
  given is not written in any service.
\<close>

lemma logger_after_Init:
  assumes "run_state (logger_Init pl path None) w = (Up l, w')"
  shows "\<exists>wd. run_state (pl_Getwd pl) w = (Inr wd, w') \<and> l = Some (filepath_Join [wd, path])"
    and "run_state (logger_Init pl path' l) v = (Up l, v)"
    and "\<exists>v'. run_state (logger_Error sl (logger_New l) msg kvs) v = (Returned (), v')"
    and "run_state (logger_Debug sl (logger_New l) msg kvs) v = (Returned (), v)"
proof -
  obtain wd where wd: "run_state (pl_Getwd pl) w = (Inr wd, w')" "l = Some (filepath_Join [wd, path])"
    using assms by (auto simp: logger_Init_def bb_run case_prod_beta prod_eq_iff Fatalf_def split: sum.splits)
  then show "\<exists>wd. run_state (pl_Getwd pl) w = (Inr wd, w') \<and> l = Some (filepath_Join [wd, path])"
    "run_state (logger_Init pl path' l) v = (Up l, v)"
    "\<exists>v'. run_state (logger_Error sl (logger_New l) msg kvs) v = (Returned (), v')"
    "run_state (logger_Debug sl (logger_New l) msg kvs) v = (Returned (), v)"
    by (auto simp: logger_Init_def logger_Error_def logger_Debug_def logger_New_def slog_Log_def bb_run case_prod_beta)
qed

lemma logger_before_Init: "run_state (logger_Info sl (logger_New None) msg kvs) w = (Panicked NilDereference, w)"
  by (simp add: logger_Info_def logger_New_def slog_Log_def bb_run)

section \<open>Open databases\<close>

record ('w, 'conn, 'db) open_db =
  od_Close :: "'conn \<Rightarrow> ('w, go_error option) state"
  od_Ping :: "'conn \<Rightarrow> ('w, go_error option) state"
  od_QueryRow_Scan :: "'conn \<Rightarrow> string \<Rightarrow> ('w, go_error + string) state"
  od_mongo_Ping :: "'db \<Rightarrow> ('w, go_error option) state"
  od_mongo_Disconnect :: "'db \<Rightarrow> ('w, go_error option) state"

definition postgresql_Close :: "('w, 'conn, 'db) open_db \<Rightarrow> 'conn \<Rightarrow> ('w, go_error option) state" where
  "postgresql_Close od conn = od_Close od conn"

definition postgresql_Ping :: "('w, 'conn, 'db) open_db \<Rightarrow> 'conn \<Rightarrow> ('w, go_error option) state" where
  "postgresql_Ping od conn = od_Ping od conn"

definition ExampleQuery :: "('w, 'conn, 'db) open_db \<Rightarrow> 'conn \<Rightarrow> ('w, string \<times> go_error option) state" where
  "ExampleQuery od db = do {
     r \<leftarrow> od_QueryRow_Scan od db ''SELECT version()'';
     case r of
       Inl err \<Rightarrow> ret ([], Some (PlainErr (''error executing query: '' @ Error err)))
     | Inr res \<Rightarrow> ret (res, None) }"

definition mongo_Ping :: "('w, 'conn, 'db) open_db \<Rightarrow> 'db \<Rightarrow> ('w, go_error option) state" where
  "mongo_Ping od db = od_mongo_Ping od db"

definition mongo_Close :: "('w, 'conn, 'db) open_db \<Rightarrow> 'db \<Rightarrow> ('w, go_error option) state" where
  "mongo_Close od db = od_mongo_Disconnect od db"

section \<open>Redis\<close>

record redis_Config =
  rdc_Host :: string
  rdc_Port :: int
  rdc_Password :: string
  rdc_DB :: int

text \<open>\<open>redis.NewClient\<close> opens no connection: its argument is the address, the password and the number of the database.\<close>

definition redis_New :: "(string \<Rightarrow> string \<Rightarrow> int \<Rightarrow> 'client) \<Rightarrow> redis_Config \<Rightarrow> 'client" where
  "redis_New NewClient config = NewClient (rdc_Host config @ '':'' @ FormatInt (rdc_Port config)) (rdc_Password config) (rdc_DB config)"

section \<open>Error responses\<close>

text \<open>\<open>NewError\<close> drops all that it is given. Nothing calls it, nor \<open>getMessage\<close>, which dereferences an error that is nil.\<close>

definition NewError :: "go_error option \<Rightarrow> string \<Rightarrow> string list \<Rightarrow> ErrorResponse" where
  "NewError err errorType message = \<lparr>er_message = [], er_errors = [], er_internal_error_code = []\<rparr>"

definition getMessage :: "go_error option \<Rightarrow> string list \<Rightarrow> string outcome" where
  "getMessage err message = (if length message > 0 then Returned (message ! 0)
     else case err of None \<Rightarrow> Panicked NilDereference | Some e \<Rightarrow> Returned (Error e))"

section \<open>JSON of a request\<close>

text \<open>
  A decoder reads the first value of its text and leaves what follows. It says \<open>EOF\<close> when the text has only
  white space. With \<open>DisallowUnknownFields\<close> a member that names no field is an error: the
  structs that occur in the target are decoded by \<open>strict_struct\<close>.
\<close>

definition UnknownField :: go_error where
  "UnknownField = PlainErr ''json: unknown field''"

definition strict_struct :: "(bytes \<times> 'r decoder) list \<Rightarrow> 'r decoder" where
  "strict_struct fs j old = (case dec_struct fs j old of
     Inl e \<Rightarrow> Inl e
   | Inr r \<Rightarrow> (case j of
       JObj kvs \<Rightarrow> if list_all (\<lambda>(k, _). find_field fs k \<noteq> None) kvs then Inr r else Inl UnknownField
     | _ \<Rightarrow> Inr r))"

definition Decode :: "'a decoder \<Rightarrow> 'a \<Rightarrow> string \<Rightarrow> go_error + 'a" where
  "Decode dec v s = (if skip_ws s = [] then Inl (PlainErr ''EOF'')
     else case json_value (2 * length s + 2) s of
       None \<Rightarrow> Inl SyntaxError
     | Some (j, rest) \<Rightarrow> if json_depth j \<le> 10000 then dec j v else Inl SyntaxError)"

definition DecodeJson :: "'a decoder \<Rightarrow> string \<Rightarrow> 'a \<Rightarrow> go_error + 'a" where
  "DecodeJson dec r v = (case Decode dec v r of
     Inl err \<Rightarrow> if Error err = ''EOF'' then Inl (PlainErr ''EXPECTED JSON'') else Inl err
   | Inr v' \<Rightarrow> Inr v')"

text \<open>
  A body without JSON is refused by name; one that \<open>Unmarshal\<close> accepts is accepted too, if its
  decoder is the same, so the decoder adds strictness only through \<open>strict_struct\<close>.
\<close>

lemma DecodeJson_empty: "skip_ws r = [] \<Longrightarrow> DecodeJson dec r v = Inl (PlainErr ''EXPECTED JSON'')"
  by (simp add: DecodeJson_def Decode_def)

lemma DecodeJson_Unmarshal:
  assumes "Unmarshal dec v r = Inr v'"
  shows "DecodeJson dec r v = Inr v'"
proof -
  have "skip_ws r \<noteq> []"
  proof
    assume "skip_ws r = []"
    then have "json_value (2 * length r + 2) r = None" by (simp add: numeral_2_eq_2)
    then show False using assms by (simp add: Unmarshal_def json_parse_def)
  qed
  then show ?thesis using assms
    by (auto simp: Unmarshal_def DecodeJson_def Decode_def json_parse_def split: option.splits if_splits)
qed

lemma DecodeJson_unknown_field:
  assumes "json_parse r = Some (JObj kvs)" and "(k, j) \<in> set kvs" and "find_field fs k = None"
  shows "\<exists>e. DecodeJson (strict_struct fs) r v = Inl e"
proof -
  have "\<not> list_all (\<lambda>(k, _). find_field fs k \<noteq> None) kvs" using assms(2,3) by (force simp: list_all_iff)
  then have "\<exists>e. strict_struct fs (JObj kvs) v = Inl e" by (auto simp: strict_struct_def split: sum.split)
  then show ?thesis using assms(1)
    by (auto simp: DecodeJson_def Decode_def json_parse_def split: option.splits if_splits)
qed

end
