(* ===== verification/Spec2Isabelle.thy ===== *)
theory Spec2Isabelle
  imports User_Properties Match_Properties Question_Witnesses Game_Witnesses Service_Witnesses App_Properties
    Boot_Properties Cache_Manager Account_Flow Infrastructure
begin

text \<open>
  Verification of the BrainBlitz services.

  The program is a quiz game made of five Go services: users sign up and log in
  (\<open>services/user_app\<close>) with tokens of the auth service (\<open>services/auth_app\<close>), wait for other
  players in the match service (\<open>services/match_app\<close>), get questions from the question service
  (\<open>services/question_app\<close>) and play over a websocket with the game service
  (\<open>services/game_app\<close>). The services talk over Kafka (\<open>adapter/broker\<close>, topics in
  \<open>contract/event\<close>), gRPC (\<open>adapter/auth\<close>) and keep their data in Redis (\<open>adapter/redis\<close>),
  PostgreSQL, MongoDB and a task queue (\<open>adapter/task-queue\<close>).

  How code is modelled. A function of the code is a definition of the same name in the state
  monad over the world \<open>'w\<close>, an arbitrary type: the model never says what the world is. Errors
  are the \<open>Inl\<close> of a sum or a \<open>Some\<close> of type \<open>go_error\<close>; where the code can panic the result is
  an \<open>outcome\<close> (\<open>BB_Prelude\<close>, \<open>App_Error\<close>). Libraries that are not in the repository are records of
  functions: the Redis client, sarama, asynq, gobwas/ws, the drivers of PostgreSQL and
  MongoDB, bcrypt, jwt, ozzo, ulid, the protobuf codec, the clock. What the theorems assume of them is named:
  \<open>redis_strings\<close>, \<open>redis_zsets\<close>, \<open>sarama_delivers\<close>, \<open>mongo_games\<close>, \<open>gobwas_ok\<close>, \<open>asynq_ok\<close>,
  \<open>pg_ok\<close>, \<open>bcrypt_ok\<close>, \<open>jwt_ok\<close>, \<open>proto_ok\<close>, \<open>clock_reads\<close> and others. Each witness discharges
  these laws for a concrete world (\<open>Reference_World\<close>, \<open>Game_World\<close>, \<open>Service_World\<close>), so they can hold together.
  The Go standard library is modelled where the source uses it: \<open>Go_Strconv\<close> (strconv,
  unicode), \<open>Go_Float\<close> (float64 with rounding to 53 bits), \<open>Go_Time\<close> (calendar, RFC 3339) and \<open>Go_Json\<close>
  (a parser and a printer for JSON with the decoding rules of encoding/json and their round trip).

  Theories and code, in the order of the parts:
  \<^item> errors and messages, \<open>pkg/err_app\<close>, \<open>pkg/err_msg\<close>: \<open>App_Error\<close>;
  \<^item> adapters: \<open>Redis_Adapter\<close>, \<open>Broker\<close> (Kafka), \<open>Task_Queue\<close>, \<open>Web_Socket\<close>; messages on the wire: \<open>Contract\<close>;
  \<^item> match service: \<open>Match_Service\<close> (operations, scheduler, consumer, endpoint),
    \<open>Match_Repository\<close>, \<open>Match_Laws\<close>, \<open>Match_Properties\<close>;
  \<^item> auth service: \<open>Auth_Service\<close>, \<open>Auth_Properties\<close>, \<open>Auth_Witnesses\<close>;
  \<^item> user service with its repository: \<open>User_Service\<close>, \<open>User_Properties\<close>;
  \<^item> question service with its repository: \<open>Question_Service\<close>, \<open>Question_Witnesses\<close>;
  \<^item> game service: \<open>Game_Entity\<close> (\<open>entity.go\<close>, \<open>helper.go\<close>), \<open>Game_Repository\<close>, \<open>Game_Laws\<close> (what is
    assumed of its stores), \<open>Game_Score\<close>, \<open>Game_Questions\<close>, \<open>Game_Ready\<close>, \<open>Game_Answers\<close>, \<open>Game_Board\<close>
    (properties of the repository), \<open>Game_Messages\<close> (\<open>param.go\<close>), \<open>Game_Service\<close> (connections and
    messages of players), \<open>Game_Consumers\<close> (Kafka, completion task, goroutines),
    \<open>Game_Sockets\<close>, \<open>Game_Start\<close>, \<open>Game_Play\<close>, \<open>Game_Finish\<close>, \<open>Whole_Game\<close> (from the first answer to the end),
    \<open>Game_Lobby\<close>, \<open>Game_Matches\<close>, \<open>Game_Goroutines\<close> (the goroutines of a round in any order), \<open>Match_To_Game\<close>,
    \<open>Questions_To_Games\<close>
    (properties of the service);
  \<^item> servers: \<open>Web_Routes\<close> (the tables of routes), \<open>Delivery\<close> (\<open>pkg/http_server\<close>, \<open>pkg/grpc\<close>,
    \<open>delivery/*/server.go\<close>), \<open>Web_Dispatch\<close> (a request through router and handler to its answer),
    \<open>Account_Flow\<close> (an account over HTTP);
  \<^item> processes: \<open>Go_Process\<close> (goroutines, wait groups and channels as a step relation),
    \<open>Applications\<close> (\<open>Start\<close>, \<open>startServers\<close>, \<open>shutdownServers\<close> of each \<open>app.go\<close> as programs),
    \<open>Setup_Services\<close> (\<open>Setup\<close> of each \<open>app.go\<close>), \<open>App_Properties\<close>; \<open>Configuration\<close> (\<open>pkg/cfg_loader\<close>,
    \<open>config.go\<close>), \<open>Entry_Points\<close> (\<open>cmd/*/main.go\<close> with databases, migrations and the
    opening of the logger), \<open>Boot_Properties\<close>; \<open>Infrastructure\<close> (\<open>pkg/logger\<close>, \<open>pkg/json\<close>, open databases),
    \<open>Cache_Manager\<close>.

  Interfaces are locales, interpreted on the model of the code that provides them: publishing
  on a bus (\<open>publishing\<close>, by the Kafka adapter), the waiting list (\<open>waiting_list\<close>, by the Redis
  repository), sorting a slice (\<open>slice_sort\<close>), a table of accounts, a token service, the stores of the
  game service, writing to connections (\<open>sockets\<close>, by the websocket adapter) and a program that can be
  shut down (\<open>application\<close>, by the five services); the lemmas of the clients are proved inside them.

  What the groups of theorems show:
  \<^item> matchmaking: who is matched with whom in a round, given the window of the clock and the configuration, what leaves the waiting lists, what is
    lost when Kafka is down, that the scheduler never panics;
  \<^item> accounts and tokens: from sign-up over login to a validated header, every refusal, and that
    the lifetime of a token is counted in the wrong unit;
  \<^item> the game repository: the protocol of ready players as a step relation that the code
    refines, with its invariant; the deadlines of questions; grading, the invariant of the answers, the
    scores and the leader board;
  \<^item> the game service: connecting, the last ready player starting the game, an answer and the leader
    board that comes back, the completion of a game, the reading goroutine and its end;
  \<^item> messages between services: a join request from the game service into the waiting list, the stream of
    such requests, a round of matches into games (from the waiting lists on), the questions of a match and of a round into
    their games;
  \<^item> processes: that each of them ends in every schedule but the one in which the task server misses the signal, what its exit code
    means, which start comes up and
    which does not, and where a value of the configuration comes from;
  \<^item> servers: that every answer of every route has the status and the body that its endpoint promises, and a new
    account from its first request to its profile;
  \<^item> whole runs: a game from its first answer to the boards on all connections, and the end state of the goroutines of
    a round whatever the scheduler does.

  Bounds and fuel. The parser of JSON recurses on fuel, the length of the text, which is enough for
  every text (the round trip is proved); it has the nesting limit of 10000 of the library. A read loop
  has no bound in the code: \<open>read_loop\<close> runs at most \<open>n\<close> rounds and reports whether it has ended,
  and \<open>read_loop_ends\<close> gives the number that is enough. \<open>run_tasks\<close> runs at most \<open>n\<close> goroutines. A
  process is a relation without fuel; \<open>process_ends\<close> bounds its runs by the size of its program and three.
  Machine integers keep their width where the code can overflow: \<open>uint64\<close> ids are words, sums of
  points and nanoseconds wrap explicitly.

  Not modelled: the calls of the logger in the operations (its methods are modelled by themselves);
  deadlines of contexts and locks (operations are atomic steps here; a
  goroutine of a request is a value of \<open>game_task\<close> that is run by a separate definition, between any two
  steps); the wire format and the reflection code that protoc generated, whose place the
  codec \<open>proto_codec\<close> takes. In the life of a
  process the calls into servers, scheduler, task server and broker are opaque: they may return when \<open>library_ok\<close>
  says so, and the code behind one that was made may panic at any time. Configuration values reach the fields as
  \<open>unmarshal_ok\<close> says, by exact name and otherwise regardless of case. The presence contract is generated code with no service in the repository. Interfaces that only repeat the
  methods of their one implementation and constants and types that nothing uses have no
  definition. Names of environment variables are lowered byte by byte, which is what Go does for ASCII.
\<close>

end
